(* ===== verification/Prelude.thy ===== *)
theory Prelude
  imports Complex_Main "HOL-Library.AList"
begin

text \<open>
  The shared vocabulary of the development: the JavaScript values and strings the TypeScript
  sources compute with, the insertion-ordered \<^verbatim>\<open>Map\<close> and \<^verbatim>\<open>Set\<close>, and the interfaces
  (locales) several components implement.

  A JavaScript string is a \<^typ>\<open>string\<close>: one \<^typ>\<open>char\<close> per code unit, so the model covers the
  code units below 256.  A finite number is the rational it denotes; the operations modelled here
  compare numbers and add integers, so no rounding is left out.
\<close>

named_theorems js_defs \<open>definitions of the JavaScript operations, for unfolding on demand\<close>

section \<open>JavaScript values\<close>

datatype js_number = Fin rat | NaN | PosInf | NegInf

datatype js_value =
    JUndefined
  | JNull
  | JBool bool
  | JNumber js_number
  | JString string
  | JArray "js_value list"
  | JObject "(string \<times> js_value) list"

text \<open>\<^verbatim>\<open>Boolean(value)\<close>: what a condition of the source tests.\<close>

fun truthy :: "js_value \<Rightarrow> bool" where
  "truthy JUndefined = False"
| "truthy JNull = False"
| "truthy (JBool b) = b"
| "truthy (JNumber n) = (n \<noteq> Fin 0 \<and> n \<noteq> NaN)"
| "truthy (JString s) = (s \<noteq> [])"
| "truthy (JArray _) = True"
| "truthy (JObject _) = True"

text \<open>Property access \<^verbatim>\<open>v.k\<close> and optional access \<^verbatim>\<open>v?.k\<close> on own properties.\<close>

fun js_get :: "js_value \<Rightarrow> string \<Rightarrow> js_value" where
  "js_get (JObject fs) k = (case map_of fs k of None \<Rightarrow> JUndefined | Some v \<Rightarrow> v)"
| "js_get (JArray xs) k =
     (if k = ''length'' then JNumber (Fin (of_nat (length xs))) else JUndefined)"
| "js_get _ k = JUndefined"

definition is_string :: "js_value \<Rightarrow> bool" where
  "is_string v = (case v of JString _ \<Rightarrow> True | _ \<Rightarrow> False)"

definition is_boolean :: "js_value \<Rightarrow> bool" where
  "is_boolean v = (case v of JBool _ \<Rightarrow> True | _ \<Rightarrow> False)"

definition is_number :: "js_value \<Rightarrow> bool" where
  "is_number v = (case v of JNumber _ \<Rightarrow> True | _ \<Rightarrow> False)"

text \<open>\<^verbatim>\<open>typeof v === 'object'\<close>, which holds of \<^verbatim>\<open>null\<close> too.\<close>

definition is_object :: "js_value \<Rightarrow> bool" where
  "is_object v = (case v of JNull \<Rightarrow> True | JArray _ \<Rightarrow> True | JObject _ \<Rightarrow> True | _ \<Rightarrow> False)"

text \<open>The payload of a value whose type a guard has established.\<close>

fun string_of :: "js_value \<Rightarrow> string" where
  "string_of (JString s) = s"
| "string_of _ = []"

fun number_of :: "js_value \<Rightarrow> js_number" where
  "number_of (JNumber n) = n"
| "number_of _ = NaN"

fun rat_of :: "js_value \<Rightarrow> rat" where
  "rat_of (JNumber (Fin r)) = r"
| "rat_of _ = 0"

fun bool_of :: "js_value \<Rightarrow> bool" where
  "bool_of (JBool b) = b"
| "bool_of _ = False"

text \<open>\<^verbatim>\<open>Number.isInteger\<close> and \<^verbatim>\<open>Number.isFinite\<close>.\<close>

fun is_integer :: "js_value \<Rightarrow> bool" where
  "is_integer (JNumber (Fin r)) = (of_int \<lfloor>r\<rfloor> = r)"
| "is_integer _ = False"

fun is_finite :: "js_value \<Rightarrow> bool" where
  "is_finite (JNumber (Fin _)) = True"
| "is_finite _ = False"

text \<open>\<^verbatim>\<open>n > 0\<close> on numbers: false of \<^verbatim>\<open>NaN\<close>.\<close>

fun num_pos :: "js_number \<Rightarrow> bool" where
  "num_pos (Fin r) = (0 < r)"
| "num_pos PosInf = True"
| "num_pos _ = False"

lemma is_string_iff [simp]: "is_string v \<longleftrightarrow> (\<exists>s. v = JString s)"
  by (cases v) (simp_all add: is_string_def)

lemma is_boolean_iff [simp]: "is_boolean v \<longleftrightarrow> (\<exists>b. v = JBool b)"
  by (cases v) (simp_all add: is_boolean_def)

lemma is_number_iff [simp]: "is_number v \<longleftrightarrow> (\<exists>n. v = JNumber n)"
  by (cases v) (simp_all add: is_number_def)

lemma is_finite_iff: "is_finite v \<longleftrightarrow> (\<exists>r. v = JNumber (Fin r))"
  by (cases v rule: is_finite.cases) auto

section \<open>Strings\<close>

text \<open>The white space \<^verbatim>\<open>trim\<close> removes, among the code units below 256.\<close>

definition js_space :: "char \<Rightarrow> bool" where
  "js_space c \<longleftrightarrow> c \<in> {CHR 0x09, CHR 0x0A, CHR 0x0B, CHR 0x0C, CHR 0x0D, CHR 0x20, CHR 0xA0}"

definition trim_start :: "string \<Rightarrow> string" where
  "trim_start s = dropWhile js_space s"

definition trim_end :: "string \<Rightarrow> string" where
  "trim_end s = rev (dropWhile js_space (rev s))"

definition trim :: "string \<Rightarrow> string" where
  "trim s = trim_end (trim_start s)"

definition starts_with :: "'a list \<Rightarrow> 'a list \<Rightarrow> bool" where
  "starts_with p s \<longleftrightarrow> take (length p) s = p"

definition ends_with :: "'a list \<Rightarrow> 'a list \<Rightarrow> bool" where
  "ends_with p s \<longleftrightarrow> length p \<le> length s \<and> drop (length s - length p) s = p"

text \<open>\<^verbatim>\<open>s.indexOf(p)\<close>: the first position where \<open>p\<close> occurs.\<close>

fun index_of :: "'a list \<Rightarrow> 'a list \<Rightarrow> nat option" where
  "index_of p [] = (if p = [] then Some 0 else None)"
| "index_of p (c # s) =
     (if starts_with p (c # s) then Some 0 else map_option Suc (index_of p s))"

text \<open>\<^verbatim>\<open>s.indexOf(p, pos)\<close>.\<close>

definition index_of_from :: "'a list \<Rightarrow> 'a list \<Rightarrow> nat \<Rightarrow> nat option" where
  "index_of_from p s pos = map_option ((+) pos) (index_of p (drop pos s))"

definition str_includes :: "'a list \<Rightarrow> 'a list \<Rightarrow> bool" where
  "str_includes p s \<longleftrightarrow> index_of p s \<noteq> None"

text \<open>\<^verbatim>\<open>s.slice(i, j)\<close> for \<open>0 \<le> i\<close>, \<open>0 \<le> j\<close>.\<close>

definition slice :: "'a list \<Rightarrow> nat \<Rightarrow> nat \<Rightarrow> 'a list" where
  "slice s i j = take (j - i) (drop i s)"

text \<open>\<^verbatim>\<open>s.split(c)\<close> for a one-character separator, and \<^verbatim>\<open>xs.join(sep)\<close>.\<close>

fun split_on :: "'a \<Rightarrow> 'a list \<Rightarrow> 'a list list" where
  "split_on c [] = [[]]"
| "split_on c (x # xs) =
     (if x = c then [] # split_on c xs
      else (case split_on c xs of [] \<Rightarrow> [[x]] | y # ys \<Rightarrow> (x # y) # ys))"

fun join :: "'a list \<Rightarrow> 'a list list \<Rightarrow> 'a list" where
  "join sep [] = []"
| "join sep [x] = x"
| "join sep (x # y # ys) = x @ sep @ join sep (y # ys)"

text \<open>\<^verbatim>\<open>[...new Set(xs)]\<close>: first occurrences, in order.\<close>

fun uniq :: "'a list \<Rightarrow> 'a list" where
  "uniq [] = []"
| "uniq (x # xs) = x # filter (\<lambda>y. y \<noteq> x) (uniq xs)"

lemma starts_with_iff: "starts_with p s \<longleftrightarrow> (\<exists>t. s = p @ t)"
  by (metis append_eq_conv_conj append_take_drop_id starts_with_def)

lemma starts_with_append [simp]: "starts_with p (p @ t)"
  by (simp add: starts_with_def)

lemma starts_with_Nil [simp]: "starts_with [] s"
  by (simp add: starts_with_def)

lemma starts_with_Cons [simp]: "starts_with (x # p) (y # s) \<longleftrightarrow> x = y \<and> starts_with p s"
  by (auto simp: starts_with_def)

lemma starts_with_Cons_Nil [simp]: "\<not> starts_with (x # p) []"
  by (simp add: starts_with_def)

lemma index_of_Some:
  "index_of p s = Some i \<Longrightarrow> i + length p \<le> length s \<and> take (length p) (drop i s) = p"
proof (induction p s arbitrary: i rule: index_of.induct)
  case (1 p)
  then show ?case by (auto split: if_splits)
next
  case (2 p c s)
  show ?case
  proof (cases "starts_with p (c # s)")
    case True
    then obtain t where t: "c # s = p @ t" by (auto simp: starts_with_iff)
    then have "length p \<le> length (c # s)" by simp
    moreover have "i = 0" using True "2.prems" by simp
    ultimately show ?thesis using True by (simp add: starts_with_def)
  next
    case False
    with "2.prems" obtain j where "index_of p s = Some j" and "i = Suc j" by auto
    with "2.IH" [OF False] show ?thesis by auto
  qed
qed

lemma index_of_split:
  assumes "index_of p s = Some i"
  shows "s = take i s @ p @ drop (i + length p) s"
proof -
  have "take (length p) (drop i s) = p" using index_of_Some [OF assms] by simp
  then have "drop i s = p @ drop (length p) (drop i s)" by (metis append_take_drop_id)
  then show ?thesis by (metis add.commute append_take_drop_id drop_drop)
qed

lemma index_of_None_append: "index_of p (a @ p @ b) \<noteq> None"
proof (induction a)
  case Nil
  show ?case
  proof (cases "p @ b")
    case Nil
    then show ?thesis by simp
  next
    case (Cons c s)
    then have "starts_with p (c # s)" by (metis starts_with_append)
    with Cons show ?thesis by simp
  qed
next
  case (Cons x a)
  then show ?case by auto
qed

lemma str_includes_iff: "str_includes p s \<longleftrightarrow> (\<exists>a b. s = a @ p @ b)"
proof
  assume "str_includes p s"
  then obtain i where "index_of p s = Some i" by (auto simp: str_includes_def)
  from index_of_split [OF this] show "\<exists>a b. s = a @ p @ b" by blast
next
  assume "\<exists>a b. s = a @ p @ b"
  then show "str_includes p s" unfolding str_includes_def using index_of_None_append by blast
qed

lemma index_of_least:
  "index_of p s = Some i \<Longrightarrow> j < i \<Longrightarrow> \<not> starts_with p (drop j s)"
proof (induction p s arbitrary: i j rule: index_of.induct)
  case (1 p)
  then show ?case by (auto split: if_splits)
next
  case (2 p c s)
  then have ns: "\<not> starts_with p (c # s)" by (auto split: if_splits)
  with "2.prems" obtain k where k: "index_of p s = Some k" "i = Suc k" by auto
  show ?case
  proof (cases j)
    case 0
    with ns show ?thesis by simp
  next
    case (Suc j')
    with "2.IH" [OF ns k(1), of j'] "2.prems" k show ?thesis by simp
  qed
qed

lemma index_of_from_bounds:
  assumes "index_of_from p s pos = Some i" and "p \<noteq> []"
  shows "pos \<le> i \<and> i + length p \<le> length s"
proof -
  from assms obtain z where z: "index_of p (drop pos s) = Some z" "i = pos + z"
    by (auto simp: index_of_from_def)
  with index_of_Some [OF z(1)] assms(2) show ?thesis by (cases p) auto
qed

lemma index_of_take_free:
  assumes "index_of p s = Some i" and "p \<noteq> []"
  shows "\<not> str_includes p (take i s)"
proof
  assume "str_includes p (take i s)"
  then obtain a b where ab: "take i s = a @ p @ b" by (auto simp: str_includes_iff)
  then have "s = a @ p @ b @ drop i s" by (metis append.assoc append_take_drop_id)
  then have "drop (length a) s = p @ b @ drop i s"
    by (metis append_eq_conv_conj)
  then have "starts_with p (drop (length a) s)" by simp
  moreover have "length a < i"
  proof -
    have "length (take i s) \<le> i" by simp
    with ab assms(2) show ?thesis by (cases p) auto
  qed
  ultimately show False using index_of_least [OF assms(1)] by blast
qed

text \<open>The first occurrence of a word whose first letter does not occur again in it.\<close>

lemma index_of_append:
  assumes "\<not> str_includes p a" and "p = c # q" and "c \<notin> set q"
  shows "index_of p (a @ p @ b) = Some (length a)"
  using assms(1)
proof (induction a)
  case Nil
  then show ?case by (simp add: assms(2))
next
  case (Cons x a)
  have free: "\<not> str_includes p a"
    using Cons.prems by (auto simp: str_includes_iff) (metis append_Cons)
  have "\<not> starts_with p (x # a @ p @ b)"
  proof
    assume "starts_with p (x # a @ p @ b)"
    then obtain t where t: "(x # a) @ p @ b = p @ t" by (auto simp: starts_with_iff)
    show False
    proof (cases "length p \<le> length (x # a)")
      case True
      with t have "take (length p) (x # a) = p" by (metis append_eq_conv_conj le_Suc_ex length_append take_append take_all append_Nil2 diff_is_0_eq take_0)
      then have "x # a = [] @ p @ drop (length p) (x # a)" by (metis append_Nil append_take_drop_id)
      with Cons.prems show False unfolding str_includes_iff by blast
    next
      case False
      have "(p @ t) ! length (x # a) = c"
        by (metis append_Cons assms(2) nth_append_length t)
      with False have "p ! length (x # a) = c" by (simp add: nth_append)
      with False assms(2) have "q ! length a = c \<and> length a < length q" by simp
      with assms(3) show False by (metis nth_mem)
    qed
  qed
  with Cons.IH [OF free] show ?case by simp
qed

lemma join_Nil_sep: "join [] xs = concat xs"
  by (induction "[] :: 'a list" xs rule: join.induct) auto

lemma split_on_not_Nil [simp]: "split_on c s \<noteq> []"
  by (induction s) (auto split: list.splits)

lemma split_on_append:
  "c \<notin> set x \<Longrightarrow> split_on c (x @ c # s) = x # split_on c s"
  by (induction x) auto

lemma split_on_none: "c \<notin> set x \<Longrightarrow> split_on c x = [x]"
  by (induction x) auto

lemma split_on_join:
  "xs \<noteq> [] \<Longrightarrow> (\<forall>x \<in> set xs. c \<notin> set x) \<Longrightarrow> split_on c (join [c] xs) = xs"
  by (induction "[c]" xs rule: join.induct) (auto simp: split_on_append split_on_none)

lemma split_on_sep_free: "x \<in> set (split_on c s) \<Longrightarrow> c \<notin> set x"
proof (induction s arbitrary: x)
  case Nil
  then show ?case by simp
next
  case (Cons a s)
  then show ?case
    by (cases "split_on c s") (auto split: if_splits)
qed

lemma join_split_on: "join [c] (split_on c s) = s"
proof (induction s)
  case Nil
  then show ?case by simp
next
  case (Cons a s)
  then show ?case
    by (cases "split_on c s"; cases "tl (split_on c s)") auto
qed

lemma set_uniq [simp]: "set (uniq xs) = set xs"
  by (induction xs) auto

lemma distinct_uniq [simp]: "distinct (uniq xs)"
  by (induction xs) (auto simp: distinct_filter)

lemma uniq_id: "distinct xs \<Longrightarrow> uniq xs = xs"
  by (induction xs) (auto simp: filter_id_conv)

lemma uniq_idem [simp]: "uniq (uniq xs) = uniq xs"
  by (simp add: uniq_id)

lemma uniq_Nil_iff [simp]: "uniq xs = [] \<longleftrightarrow> xs = []"
  by (cases xs) auto

lemma length_uniq_le: "length (uniq xs) \<le> length xs"
proof (induction xs)
  case Nil
  then show ?case by simp
next
  case (Cons x xs)
  have "length (filter (\<lambda>y. y \<noteq> x) (uniq xs)) \<le> length (uniq xs)"
    by (rule length_filter_le)
  with Cons show ?case by (simp del: length_filter_le)
qed

subsection \<open>Trimming\<close>

lemma trim_start_id: "s = [] \<or> \<not> js_space (hd s) \<Longrightarrow> trim_start s = s"
  by (cases s) (auto simp: trim_start_def)

lemma trim_end_id: "s = [] \<or> \<not> js_space (last s) \<Longrightarrow> trim_end s = s"
  by (cases s rule: rev_cases) (auto simp: trim_end_def)

lemma hd_trim_start: "trim_start s \<noteq> [] \<Longrightarrow> \<not> js_space (hd (trim_start s))"
  by (simp add: trim_start_def hd_dropWhile)

lemma trim_end_append_last: "\<not> js_space c \<Longrightarrow> trim_end (s @ [c]) = s @ [c]"
  by (simp add: trim_end_def)

lemma trim_end_Cons: "\<not> js_space c \<Longrightarrow> trim_end (c # s) = c # trim_end s"
  by (simp add: trim_end_def dropWhile_append)

lemma last_trim_end: "trim_end s \<noteq> [] \<Longrightarrow> \<not> js_space (last (trim_end s))"
  by (simp add: trim_end_def last_rev hd_dropWhile)

lemma trim_bounds:
  "trim s \<noteq> [] \<Longrightarrow> \<not> js_space (hd (trim s)) \<and> \<not> js_space (last (trim s))"
proof -
  assume ne: "trim s \<noteq> []"
  then have ts: "trim_start s \<noteq> []" by (auto simp: trim_def trim_end_def)
  then obtain c r where cr: "trim_start s = c # r" by (cases "trim_start s") auto
  with hd_trim_start [OF ts] have "\<not> js_space c" by simp
  then have "trim s = c # trim_end r" by (simp add: trim_def cr trim_end_Cons)
  moreover have "\<not> js_space (last (trim s))"
    using ne last_trim_end by (simp add: trim_def)
  ultimately show ?thesis using \<open>\<not> js_space c\<close> by simp
qed

lemma trim_id:
  "s = [] \<or> (\<not> js_space (hd s) \<and> \<not> js_space (last s)) \<Longrightarrow> trim s = s"
  by (auto simp: trim_def trim_start_id trim_end_id)

lemma trim_idem [simp]: "trim (trim s) = trim s"
  using trim_bounds [of s] by (intro trim_id) blast

lemma trim_Nil [simp]: "trim [] = []"
  by (simp add: trim_def trim_start_def trim_end_def)

lemma set_trim: "set (trim s) \<subseteq> set s"
proof -
  have "set (trim_end t) \<subseteq> set t" for t
    by (auto simp: trim_end_def dest: set_dropWhileD)
  moreover have "set (trim_start s) \<subseteq> set s"
    by (auto simp: trim_start_def dest: set_dropWhileD)
  ultimately show ?thesis unfolding trim_def by blast
qed

lemma trim_eq_Nil_iff: "trim s = [] \<longleftrightarrow> list_all js_space s"
proof -
  have "trim_end t = [] \<longleftrightarrow> list_all js_space t" for t
    by (auto simp: trim_end_def dropWhile_eq_Nil_conv list_all_iff)
  moreover have "list_all js_space (trim_start s) \<longleftrightarrow> list_all js_space s"
    unfolding trim_start_def by (induction s) auto
  ultimately show ?thesis by (simp add: trim_def)
qed

section \<open>Insertion-ordered maps\<close>

text \<open>
  A JavaScript \<^verbatim>\<open>Map\<close> or a dictionary object is an association list with distinct keys:
  \<^verbatim>\<open>get\<close> is \<^const>\<open>map_of\<close>, \<^verbatim>\<open>set\<close> is \<^const>\<open>AList.update\<close> (in place for a key that is there,
  at the end for a new one) and \<^verbatim>\<open>delete\<close> is \<^const>\<open>AList.delete\<close>.
\<close>

lemma find_append:
  "find P (xs @ ys) = (case find P xs of None \<Rightarrow> find P ys | Some x \<Rightarrow> Some x)"
  by (induction xs) auto

lemma map_of_fold_update:
  "map_of (fold (\<lambda>x m. AList.update (f x) (g x) m) xs m) k =
     (case find (\<lambda>x. f x = k) (rev xs) of None \<Rightarrow> map_of m k | Some x \<Rightarrow> Some (g x))"
  by (induction xs arbitrary: m) (auto simp: find_append update_conv split: option.splits)

lemma map_of_fold_update_key:
  "map_of (fold (\<lambda>x m. AList.update x (g x) m) xs m) k =
     (if k \<in> set xs then Some (g k) else map_of m k)"
  by (induction xs arbitrary: m) (auto simp: update_conv)

lemma distinct_fold_update:
  "distinct (map fst m) \<Longrightarrow> distinct (map fst (fold (\<lambda>x m. AList.update (f x) (g x) m) xs m))"
  by (induction xs arbitrary: m) (auto simp: distinct_update)

lemma map_of_filter_keys:
  "distinct (map fst xs) \<Longrightarrow>
     map_of (filter P xs) k = (case map_of xs k of Some v \<Rightarrow> if P (k, v) then Some v else None | None \<Rightarrow> None)"
proof (induction xs)
  case (Cons x xs)
  obtain a b where x: "x = (a, b)" by (cases x)
  have "map_of xs a = None" using Cons.prems x by (simp add: map_of_eq_None_iff)
  moreover have "map_of (filter P xs) a = None"
    using Cons.prems x by (auto simp: map_of_eq_None_iff)
  ultimately show ?case using Cons x by (cases "k = a") simp_all
qed simp

section \<open>Positions\<close>

text \<open>\<^verbatim>\<open>xs.findIndex(P)\<close>.\<close>

definition find_index :: "('a \<Rightarrow> bool) \<Rightarrow> 'a list \<Rightarrow> nat option" where
  "find_index P xs = (let n = length (takeWhile (\<lambda>x. \<not> P x) xs) in if n < length xs then Some n else None)"

lemma find_index_None: "find_index P xs = None \<longleftrightarrow> (\<forall>x \<in> set xs. \<not> P x)"
proof -
  have "length (takeWhile (\<lambda>x. \<not> P x) xs) \<le> length xs" by (rule length_takeWhile_le)
  moreover have "length (takeWhile (\<lambda>x. \<not> P x) xs) = length xs \<longleftrightarrow> (\<forall>x \<in> set xs. \<not> P x)"
    by (metis (mono_tags, lifting) takeWhile_eq_all_conv takeWhile_dropWhile_id append_eq_conv_conj
        take_all_iff order_refl)
  ultimately show ?thesis by (auto simp: find_index_def Let_def)
qed

lemma find_index_first: "(\<And>x. x \<in> set pre \<Longrightarrow> \<not> P x) \<Longrightarrow> P y \<Longrightarrow> find_index P (pre @ y # post) = Some (length pre)"
  by (simp add: find_index_def takeWhile_append2)

lemma find_index_Some:
  assumes "find_index P xs = Some i"
  shows "\<exists>pre y post. xs = pre @ y # post \<and> length pre = i \<and> P y \<and> (\<forall>x \<in> set pre. \<not> P x)"
proof -
  have "\<exists>x \<in> set xs. P x" using assms find_index_None [of P xs] by auto
  from split_list_first_prop [OF this] obtain pre y post
    where xs: "xs = pre @ y # post" "P y" "\<forall>x \<in> set pre. \<not> P x" by blast
  with find_index_first [of pre P y post] assms show ?thesis by auto
qed

end
