(* ===== verification/Json.thy ===== *)
theory Json
  imports Prelude
begin

text \<open>
  The parts of the standard library that turn values into text and back: \<^verbatim>\<open>String(number)\<close>,
  \<^verbatim>\<open>JSON.stringify\<close> (compact and indented) and \<^verbatim>\<open>JSON.parse\<close>.  Numbers are exact decimals: the rounding
  of a literal to the nearest double is not modelled.  Strings hold code units below 256; an escape
  for a larger code unit is outside the model and fails to parse.  Objects keep the order in which
  their keys are first written, so keys that look like array indices are outside the model.
\<close>

section \<open>Numbers as text\<close>

definition digit :: "nat \<Rightarrow> char" where
  "digit n = char_of (48 + n)"

definition is_digit :: "char \<Rightarrow> bool" where
  "is_digit c \<longleftrightarrow> 48 \<le> (of_char c :: nat) \<and> (of_char c :: nat) \<le> 57"

definition digit_val :: "char \<Rightarrow> nat" where
  "digit_val c = of_char c - 48"

fun nat_digits :: "nat \<Rightarrow> string" where
  "nat_digits n = (if n < 10 then [digit n] else nat_digits (n div 10) @ [digit (n mod 10)])"

declare nat_digits.simps [simp del]

definition digits_val :: "string \<Rightarrow> nat" where
  "digits_val s = foldl (\<lambda>a c. 10 * a + digit_val c) 0 s"

definition int_text :: "int \<Rightarrow> string" where
  "int_text i = (if i < 0 then ''-'' @ nat_digits (nat (- i)) else nat_digits (nat i))"

text \<open>The shortest decimal \<open>m * 10 ^ (- j)\<close> of a number, searched up to 400 places.\<close>

fun scaled :: "nat \<Rightarrow> rat \<Rightarrow> nat \<times> nat" where
  "scaled 0 r = (nat \<lfloor>r\<rfloor>, 0)"
| "scaled (Suc f) r =
     (if of_int \<lfloor>r\<rfloor> = r then (nat \<lfloor>r\<rfloor>, 0) else (case scaled f (r * 10) of (m, j) \<Rightarrow> (m, Suc j)))"

definition strip_zeros :: "string \<Rightarrow> string" where
  "strip_zeros s = rev (dropWhile (\<lambda>c. c = CHR ''0'') (rev s))"

text \<open>The cases of \<^verbatim>\<open>Number::toString\<close> for a positive number with digits \<open>ds\<close> and \<open>n\<close> places before
  the point.\<close>

definition positive_text :: "string \<Rightarrow> int \<Rightarrow> string" where
  "positive_text ds n =
     (let k = int (length ds) in
      if k \<le> n \<and> n \<le> 21 then ds @ replicate (nat (n - k)) (CHR ''0'')
      else if 0 < n \<and> n \<le> 21 then take (nat n) ds @ ''.'' @ drop (nat n) ds
      else if - 6 < n \<and> n \<le> 0 then ''0.'' @ replicate (nat (- n)) (CHR ''0'') @ ds
      else (if length ds = 1 then ds else take 1 ds @ ''.'' @ drop 1 ds) @ ''e'' @
           (if n - 1 < 0 then ''-'' else ''+'') @ nat_digits (nat \<bar>n - 1\<bar>))"

definition rat_text :: "rat \<Rightarrow> string" where
  "rat_text r =
     (if r = 0 then ''0''
      else let (m, j) = scaled 400 \<bar>r\<bar>; ds = nat_digits m
           in (if r < 0 then ''-'' else []) @ positive_text (strip_zeros ds) (int (length ds) - int j))"

fun number_text :: "js_number \<Rightarrow> string" where
  "number_text (Fin r) = rat_text r"
| "number_text NaN = ''NaN''"
| "number_text PosInf = ''Infinity''"
| "number_text NegInf = ''-Infinity''"

section \<open>\<^verbatim>\<open>JSON.stringify\<close>\<close>

definition hex_digit :: "nat \<Rightarrow> char" where
  "hex_digit n = (if n < 10 then char_of (48 + n) else char_of (87 + n))"

definition json_char :: "char \<Rightarrow> string" where
  "json_char c =
     (if c = CHR 0x22 then [CHR 0x5C, CHR 0x22]
      else if c = CHR 0x5C then [CHR 0x5C, CHR 0x5C]
      else if c = CHR 0x08 then [CHR 0x5C, CHR ''b'']
      else if c = CHR 0x0C then [CHR 0x5C, CHR ''f'']
      else if c = CHR 0x0A then [CHR 0x5C, CHR ''n'']
      else if c = CHR 0x0D then [CHR 0x5C, CHR ''r'']
      else if c = CHR 0x09 then [CHR 0x5C, CHR ''t'']
      else let n = of_char c in
        if n < (32::nat) then [CHR 0x5C, CHR ''u'', CHR ''0'', CHR ''0'', hex_digit (n div 16), hex_digit (n mod 16)]
        else [c])"

definition json_string :: "string \<Rightarrow> string" where
  "json_string s = [CHR 0x22] @ concat (map json_char s) @ [CHR 0x22]"

definition is_undefined :: "js_value \<Rightarrow> bool" where
  "is_undefined v \<longleftrightarrow> v = JUndefined"

text \<open>A value that is not \<^verbatim>\<open>undefined\<close>, in the compact form and with an indentation step.\<close>

fun json_text :: "js_value \<Rightarrow> string" where
  "json_text JUndefined = ''null''"
| "json_text JNull = ''null''"
| "json_text (JBool b) = (if b then ''true'' else ''false'')"
| "json_text (JNumber n) = (case n of Fin r \<Rightarrow> rat_text r | _ \<Rightarrow> ''null'')"
| "json_text (JString s) = json_string s"
| "json_text (JArray xs) = ''['' @ join '','' (map json_text xs) @ '']''"
| "json_text (JObject fs) =
     ''{'' @ join '','' (map (\<lambda>(k, v). json_string k @ '':'' @ json_text v)
        (filter (\<lambda>(k, v). v \<noteq> JUndefined) fs)) @ ''}''"

definition stringify :: "js_value \<Rightarrow> string option" where
  "stringify v = (if v = JUndefined then None else Some (json_text v))"

fun json_indented :: "string \<Rightarrow> string \<Rightarrow> js_value \<Rightarrow> string" where
  "json_indented gap ind (JArray xs) =
     (if xs = [] then ''[]''
      else let ind' = ind @ gap in
        ''['' @ [CHR 10] @ ind' @ join ('','' @ [CHR 10] @ ind') (map (json_indented gap ind') xs) @
        [CHR 10] @ ind @ '']'')"
| "json_indented gap ind (JObject fs) =
     (let fs' = filter (\<lambda>(k, v). v \<noteq> JUndefined) fs in
      if fs' = [] then ''{}''
      else let ind' = ind @ gap in
        ''{'' @ [CHR 10] @ ind' @
        join ('','' @ [CHR 10] @ ind')
          (map (\<lambda>(k, v). json_string k @ '': '' @ json_indented gap ind' v) fs') @
        [CHR 10] @ ind @ ''}'')"
| "json_indented gap ind v = json_text v"

section \<open>\<^verbatim>\<open>JSON.parse\<close>\<close>

definition json_space :: "char \<Rightarrow> bool" where
  "json_space c \<longleftrightarrow> c \<in> {CHR 0x20, CHR 0x09, CHR 0x0A, CHR 0x0D}"

definition skip_space :: "string \<Rightarrow> string" where
  "skip_space s = dropWhile json_space s"

definition hex_val :: "char \<Rightarrow> nat option" where
  "hex_val c =
     (let n = of_char c in
      if 48 \<le> n \<and> n \<le> 57 then Some (n - 48)
      else if 97 \<le> n \<and> n \<le> 102 then Some (n - 87)
      else if 65 \<le> n \<and> n \<le> 70 then Some (n - 55)
      else None)"

fun parse_hex4 :: "string \<Rightarrow> (char \<times> string) option" where
  "parse_hex4 (a # b # c # d # s) =
     (case (hex_val a, hex_val b, hex_val c, hex_val d) of
        (Some w, Some x, Some y, Some z) \<Rightarrow>
          let n = w * 4096 + x * 256 + y * 16 + z in
          if n < 256 then Some (char_of n, s) else None
      | _ \<Rightarrow> None)"
| "parse_hex4 _ = None"

fun map_rest :: "('a \<Rightarrow> 'b) \<Rightarrow> ('a \<times> 'r) option \<Rightarrow> ('b \<times> 'r) option" where
  "map_rest f None = None"
| "map_rest f (Some (a, r)) = Some (f a, r)"

definition unescape :: "char \<Rightarrow> char option" where
  "unescape c =
     (if c = CHR 0x22 \<or> c = CHR 0x5C \<or> c = CHR ''/'' then Some c
      else if c = CHR ''b'' then Some (CHR 0x08)
      else if c = CHR ''f'' then Some (CHR 0x0C)
      else if c = CHR ''n'' then Some (CHR 0x0A)
      else if c = CHR ''r'' then Some (CHR 0x0D)
      else if c = CHR ''t'' then Some (CHR 0x09)
      else None)"

text \<open>The rest of a string literal, after its opening quote; \<open>f\<close> bounds the steps.\<close>

fun parse_chars :: "nat \<Rightarrow> string \<Rightarrow> (string \<times> string) option" where
  "parse_chars 0 s = None"
| "parse_chars (Suc f) [] = None"
| "parse_chars (Suc f) (c # s) =
     (if c = CHR 0x22 then Some ([], s)
      else if c = CHR 0x5C then
        (case s of
           [] \<Rightarrow> None
         | e # s' \<Rightarrow>
             if e = CHR ''u'' then
               (case parse_hex4 s' of
                  None \<Rightarrow> None
                | Some (x, s'') \<Rightarrow> map_rest ((#) x) (parse_chars f s''))
             else (case unescape e of
                     None \<Rightarrow> None
                   | Some x \<Rightarrow> map_rest ((#) x) (parse_chars f s')))
      else if (of_char c :: nat) < 32 then None
      else map_rest ((#) c) (parse_chars f s))"

text \<open>A number literal: sign, integer part without leading zeros, fraction, exponent.\<close>

definition parse_frac :: "string \<Rightarrow> (string \<times> string) option" where
  "parse_frac s =
     (case s of
        c # s' \<Rightarrow>
          if c = CHR ''.'' then
            (if takeWhile is_digit s' = [] then None
             else Some (takeWhile is_digit s', dropWhile is_digit s'))
          else Some ([], s)
      | [] \<Rightarrow> Some ([], s))"

definition parse_exp :: "string \<Rightarrow> (int \<times> string) option" where
  "parse_exp s =
     (case s of
        c # s' \<Rightarrow>
          if c = CHR ''e'' \<or> c = CHR ''E'' then
            (let neg = (case s' of d # _ \<Rightarrow> d = CHR ''-'' | [] \<Rightarrow> False);
                 s'' = (case s' of d # t \<Rightarrow> if d = CHR ''-'' \<or> d = CHR ''+'' then t else s' | [] \<Rightarrow> s');
                 ds = takeWhile is_digit s''
             in if ds = [] then None
                else Some (if neg then - int (digits_val ds) else int (digits_val ds),
                           dropWhile is_digit s''))
          else Some (0, s)
      | [] \<Rightarrow> Some (0, s))"

definition power10 :: "int \<Rightarrow> rat" where
  "power10 e = (if e < 0 then 1 / 10 ^ nat (- e) else 10 ^ nat e)"

definition parse_unsigned :: "string \<Rightarrow> (rat \<times> string) option" where
  "parse_unsigned s =
     (let ip = takeWhile is_digit s; rest = dropWhile is_digit s in
      if ip = [] \<or> (hd ip = CHR ''0'' \<and> length ip > 1) then None
      else (case parse_frac rest of
              None \<Rightarrow> None
            | Some (fp, rest') \<Rightarrow>
                (case parse_exp rest' of
                   None \<Rightarrow> None
                 | Some (e, rest'') \<Rightarrow>
                     Some (of_nat (digits_val (ip @ fp)) * power10 (e - int (length fp)), rest''))))"

definition parse_number :: "string \<Rightarrow> (rat \<times> string) option" where
  "parse_number s =
     (case s of
        c # s' \<Rightarrow> if c = CHR ''-'' then map_rest uminus (parse_unsigned s') else parse_unsigned s
      | [] \<Rightarrow> None)"

fun parse_value :: "nat \<Rightarrow> string \<Rightarrow> (js_value \<times> string) option"
  and parse_elems :: "nat \<Rightarrow> string \<Rightarrow> (js_value list \<times> string) option"
  and parse_members :: "nat \<Rightarrow> string \<Rightarrow> ((string \<times> js_value) list \<times> string) option" where
  "parse_value 0 s = None"
| "parse_value (Suc f) s =
     (case skip_space s of
        [] \<Rightarrow> None
      | c # s' \<Rightarrow>
          if c = CHR 0x22 then map_rest JString (parse_chars (Suc (length s')) s')
          else if c = CHR ''['' then
            (case skip_space s' of
               [] \<Rightarrow> None
             | d # t \<Rightarrow> if d = CHR '']'' then Some (JArray [], t) else map_rest JArray (parse_elems f s'))
          else if c = CHR ''{'' then
            (case skip_space s' of
               [] \<Rightarrow> None
             | d # t \<Rightarrow>
                 if d = CHR ''}'' then Some (JObject [], t)
                 else map_rest (\<lambda>ms. JObject (fold (\<lambda>(k, v). AList.update k v) ms [])) (parse_members f s'))
          else if starts_with ''null'' (c # s') then Some (JNull, drop 3 s')
          else if starts_with ''true'' (c # s') then Some (JBool True, drop 3 s')
          else if starts_with ''false'' (c # s') then Some (JBool False, drop 4 s')
          else map_rest (\<lambda>r. JNumber (Fin r)) (parse_number (c # s')))"
| "parse_elems 0 s = None"
| "parse_elems (Suc f) s =
     (case parse_value f s of
        None \<Rightarrow> None
      | Some (v, s') \<Rightarrow>
          (case skip_space s' of
             [] \<Rightarrow> None
           | d # t \<Rightarrow>
               if d = CHR '']'' then Some ([v], t)
               else if d = CHR '','' then map_rest ((#) v) (parse_elems f t)
               else None))"
| "parse_members 0 s = None"
| "parse_members (Suc f) s =
     (case skip_space s of
        [] \<Rightarrow> None
      | q # t \<Rightarrow>
          if q \<noteq> CHR 0x22 then None
          else (case parse_chars (Suc (length t)) t of
                  None \<Rightarrow> None
                | Some (k, u) \<Rightarrow>
                    (case skip_space u of
                       [] \<Rightarrow> None
                     | d # w \<Rightarrow>
                         if d \<noteq> CHR '':'' then None
                         else (case parse_value f w of
                                 None \<Rightarrow> None
                               | Some (v, s') \<Rightarrow>
                                   (case skip_space s' of
                                      [] \<Rightarrow> None
                                    | e # x \<Rightarrow>
                                        if e = CHR ''}'' then Some ([(k, v)], x)
                                        else if e = CHR '','' then map_rest ((#) (k, v)) (parse_members f x)
                                        else None)))))"

text \<open>\<open>None\<close> is the \<^verbatim>\<open>SyntaxError\<close>.\<close>

definition json_parse :: "string \<Rightarrow> js_value option" where
  "json_parse s =
     (case parse_value (Suc (length s)) s of
        None \<Rightarrow> None
      | Some (v, rest) \<Rightarrow> if skip_space rest = [] then Some v else None)"

section \<open>Numbers are read back\<close>

lemma of_char_digit: "n < 10 \<Longrightarrow> (of_char (digit n) :: nat) = 48 + n"
  by (simp add: digit_def)

lemma is_digit_digit [simp]: "n < 10 \<Longrightarrow> is_digit (digit n)"
  by (simp add: is_digit_def of_char_digit)

lemma digit_val_digit [simp]: "n < 10 \<Longrightarrow> digit_val (digit n) = n"
  by (simp add: digit_val_def of_char_digit)

lemma digit_zero_iff: "n < 10 \<Longrightarrow> digit n = CHR ''0'' \<longleftrightarrow> n = 0"
proof -
  assume "n < 10"
  have "digit n = CHR ''0'' \<longleftrightarrow> (of_char (digit n) :: nat) = of_char (CHR ''0'')"
    by (simp only: of_char_eq_iff)
  also have "\<dots> \<longleftrightarrow> n = 0" using \<open>n < 10\<close> by (simp add: of_char_digit)
  finally show ?thesis .
qed

lemma digits_val_Nil [simp]: "digits_val [] = 0"
  by (simp add: digits_val_def)

lemma digits_val_snoc [simp]: "digits_val (s @ [c]) = 10 * digits_val s + digit_val c"
  by (simp add: digits_val_def)

lemma digits_val_append: "digits_val (s @ t) = digits_val s * 10 ^ length t + digits_val t"
proof (induction t rule: rev_induct)
  case Nil
  then show ?case by simp
next
  case (snoc c t)
  have "digits_val (s @ t @ [c]) = 10 * digits_val (s @ t) + digit_val c"
    by (metis append_assoc digits_val_snoc)
  with snoc show ?case by (simp add: algebra_simps)
qed

lemma digits_val_zeros [simp]: "digits_val (replicate n (CHR ''0'')) = 0"
proof (induction n)
  case 0
  then show ?case by simp
next
  case (Suc n)
  have "digits_val ([CHR ''0''] @ replicate n (CHR ''0'')) = 0"
    unfolding digits_val_append by (simp add: Suc) (simp add: digits_val_def digit_val_def)
  then show ?case by simp
qed

lemma digits_val_nat [simp]: "digits_val (nat_digits n) = n"
proof (induction n rule: nat_digits.induct)
  case (1 n)
  show ?case
  proof (cases "n < 10")
    case True
    then show ?thesis by (simp add: nat_digits.simps [of n] digits_val_def)
  next
    case False
    with 1 show ?thesis by (subst nat_digits.simps) simp
  qed
qed

lemma nat_digits_not_Nil [simp]: "nat_digits n \<noteq> []"
  by (subst nat_digits.simps) simp

lemma nat_digits_digits: "list_all is_digit (nat_digits n)"
proof (induction n rule: nat_digits.induct)
  case (1 n)
  then show ?case by (subst nat_digits.simps) auto
qed

lemma hd_nat_digits: "0 < n \<Longrightarrow> hd (nat_digits n) \<noteq> CHR ''0''"
proof (induction n rule: nat_digits.induct)
  case (1 n)
  show ?case
  proof (cases "n < 10")
    case True
    with 1 show ?thesis by (subst nat_digits.simps) (simp add: digit_zero_iff)
  next
    case False
    with 1 show ?thesis by (subst nat_digits.simps) simp
  qed
qed

lemma takeWhile_digits:
  "list_all is_digit ds \<Longrightarrow> rest = [] \<or> \<not> is_digit (hd rest) \<Longrightarrow>
   takeWhile is_digit (ds @ rest) = ds \<and> dropWhile is_digit (ds @ rest) = rest"
proof (induction ds)
  case Nil
  then show ?case by (cases rest) auto
next
  case (Cons d ds)
  then show ?case by simp
qed

definition num_end :: "string \<Rightarrow> bool" where
  "num_end s \<longleftrightarrow> s = [] \<or> (\<not> is_digit (hd s) \<and> hd s \<noteq> CHR ''.'' \<and> hd s \<noteq> CHR ''e'' \<and> hd s \<noteq> CHR ''E'')"

lemma num_end_simps [simp]:
  "num_end []" "num_end (CHR '','' # s)" "num_end (CHR '']'' # s)" "num_end (CHR ''}'' # s)"
  by (simp_all add: num_end_def is_digit_def)

lemma parse_end: "num_end s \<Longrightarrow> parse_frac s = Some ([], s) \<and> parse_exp s = Some (0, s)"
  by (cases s) (auto simp: num_end_def parse_frac_def parse_exp_def)

lemma power10_powi: "power10 e = power_int 10 e"
  by (simp add: power10_def power_int_def inverse_eq_divide power_one_over)

lemma power10_add: "power10 (a + b) = power10 a * power10 b"
  by (simp add: power10_powi power_int_add)

lemma power10_nat [simp]: "power10 (int n) = 10 ^ n"
  by (simp add: power10_def)

lemma parse_plain:
  assumes "list_all is_digit ds" and "ds \<noteq> []" and "hd ds \<noteq> CHR ''0'' \<or> length ds = 1" and "num_end rest"
  shows "parse_unsigned (ds @ rest) = Some (of_nat (digits_val ds), rest)"
proof -
  have "rest = [] \<or> \<not> is_digit (hd rest)" using assms(4) by (auto simp: num_end_def)
  from takeWhile_digits [OF assms(1) this]
  have tw: "takeWhile is_digit (ds @ rest) = ds" and dw: "dropWhile is_digit (ds @ rest) = rest" by auto
  show ?thesis unfolding parse_unsigned_def Let_def tw dw
    using parse_end [OF assms(4)] assms(2,3) by (auto simp: power10_def)
qed

lemma parse_point:
  assumes "list_all is_digit ip" and "ip \<noteq> []" and "hd ip \<noteq> CHR ''0'' \<or> length ip = 1"
    and "list_all is_digit fp" and "fp \<noteq> []" and "num_end rest"
  shows "parse_unsigned (ip @ ''.'' @ fp @ rest) =
    Some (of_nat (digits_val (ip @ fp)) * power10 (- int (length fp)), rest)"
proof -
  have i: "takeWhile is_digit (ip @ ''.'' @ fp @ rest) = ip \<and>
      dropWhile is_digit (ip @ ''.'' @ fp @ rest) = ''.'' @ fp @ rest"
    by (rule takeWhile_digits [OF assms(1)]) (simp add: is_digit_def)
  have f: "takeWhile is_digit (fp @ rest) = fp \<and> dropWhile is_digit (fp @ rest) = rest"
    by (rule takeWhile_digits [OF assms(4)]) (use assms(6) in \<open>auto simp: num_end_def\<close>)
  have "parse_frac (''.'' @ fp @ rest) = Some (fp, rest)"
    using f assms(5) by (simp add: parse_frac_def)
  then show ?thesis unfolding parse_unsigned_def Let_def conjunct1 [OF i] conjunct2 [OF i]
    using parse_end [OF assms(6)] assms(2,3) by auto
qed

lemma parse_exponent:
  assumes "num_end rest"
  shows "parse_exp (''e'' @ (if e < 0 then ''-'' else ''+'') @ nat_digits (nat \<bar>e\<bar>) @ rest) = Some (e, rest)"
proof -
  have "takeWhile is_digit (nat_digits (nat \<bar>e\<bar>) @ rest) = nat_digits (nat \<bar>e\<bar>) \<and>
      dropWhile is_digit (nat_digits (nat \<bar>e\<bar>) @ rest) = rest"
    by (rule takeWhile_digits [OF nat_digits_digits]) (use assms in \<open>auto simp: num_end_def\<close>)
  then show ?thesis by (cases "e < 0") (simp_all add: parse_exp_def Let_def)
qed

lemma e_not_digit: "\<not> is_digit (CHR ''e'')"
  by (simp add: is_digit_def)

lemma parse_scientific:
  assumes "list_all is_digit ds" and "ds \<noteq> []" and "hd ds \<noteq> CHR ''0''" and "num_end rest"
  shows "parse_unsigned ((if length ds = 1 then ds else take 1 ds @ ''.'' @ drop 1 ds) @ ''e'' @
      (if e < 0 then ''-'' else ''+'') @ nat_digits (nat \<bar>e\<bar>) @ rest) =
    Some (of_nat (digits_val ds) * power10 (e - int (length ds - 1)), rest)"
proof -
  define tail where "tail = ''e'' @ (if e < 0 then ''-'' else ''+'') @ nat_digits (nat \<bar>e\<bar>) @ rest"
  have pe: "parse_exp tail = Some (e, rest)" using parse_exponent [OF assms(4)] by (simp add: tail_def)
  have nd: "tail = [] \<or> \<not> is_digit (hd tail)" by (simp add: tail_def e_not_digit)
  obtain d ds' where ds: "ds = d # ds'" using assms(2) by (cases ds) auto
  have "parse_unsigned ((if length ds = 1 then ds else take 1 ds @ ''.'' @ drop 1 ds) @ tail) =
    Some (of_nat (digits_val ds) * power10 (e - int (length ds - 1)), rest)"
  proof (cases "ds' = []")
    case True
    have t: "parse_frac tail = Some ([], tail)" by (simp add: tail_def parse_frac_def)
    have "takeWhile is_digit (ds @ tail) = ds \<and> dropWhile is_digit (ds @ tail) = tail"
      by (rule takeWhile_digits [OF assms(1) nd])
    then have tw: "takeWhile is_digit (ds @ tail) = ds" and dw: "dropWhile is_digit (ds @ tail) = tail" by auto
    have "parse_unsigned (ds @ tail) = Some (of_nat (digits_val ds) * power10 e, rest)"
      unfolding parse_unsigned_def Let_def tw dw using pe t assms(2,3) by auto
    with True ds show ?thesis by simp
  next
    case False
    have i: "takeWhile is_digit ([d] @ ''.'' @ ds' @ tail) = [d] \<and>
        dropWhile is_digit ([d] @ ''.'' @ ds' @ tail) = ''.'' @ ds' @ tail"
      by (rule takeWhile_digits) (use assms(1) ds in \<open>auto simp: is_digit_def\<close>)
    have f: "takeWhile is_digit (ds' @ tail) = ds' \<and> dropWhile is_digit (ds' @ tail) = tail"
      by (rule takeWhile_digits) (use assms(1) ds nd in auto)
    have "parse_frac (''.'' @ ds' @ tail) = Some (ds', tail)"
      using f False by (simp add: parse_frac_def)
    then have "parse_unsigned ([d] @ ''.'' @ ds' @ tail) =
        Some (of_nat (digits_val ([d] @ ds')) * power10 (e - int (length ds')), rest)"
      unfolding parse_unsigned_def Let_def conjunct1 [OF i] conjunct2 [OF i]
      using pe ds assms(3) by auto
    with False ds show ?thesis by simp
  qed
  then show ?thesis unfolding tail_def .
qed

lemma parse_positive_text:
  assumes "list_all is_digit ds" and "ds \<noteq> []" and "hd ds \<noteq> CHR ''0''" and "num_end rest"
  shows "parse_unsigned (positive_text ds n @ rest) =
    Some (of_nat (digits_val ds) * power10 (n - int (length ds)), rest)"
proof -
  define k where "k = int (length ds)"
  consider (whole) "k \<le> n" "n \<le> 21" | (point) "0 < n" "n < k" "n \<le> 21"
    | (small) "- 6 < n" "n \<le> 0" | (sci) "\<not> (k \<le> n \<and> n \<le> 21)" "\<not> (0 < n \<and> n \<le> 21)" "\<not> (- 6 < n \<and> n \<le> 0)"
    by linarith
  then show ?thesis
  proof cases
    case whole
    have "parse_unsigned ((ds @ replicate (nat (n - k)) (CHR ''0'')) @ rest) =
        Some (of_nat (digits_val (ds @ replicate (nat (n - k)) (CHR ''0''))), rest)"
      by (rule parse_plain) (use assms in \<open>auto simp: list_all_iff is_digit_def\<close>)
    moreover have "(of_nat (digits_val (ds @ replicate (nat (n - k)) (CHR ''0''))) :: rat) =
        of_nat (digits_val ds) * power10 (n - k)"
      using whole by (simp add: digits_val_append power10_def)
    ultimately show ?thesis using whole by (simp add: positive_text_def Let_def k_def)
  next
    case point
    have "parse_unsigned (take (nat n) ds @ ''.'' @ drop (nat n) ds @ rest) =
        Some (of_nat (digits_val (take (nat n) ds @ drop (nat n) ds)) *
          power10 (- int (length (drop (nat n) ds))), rest)"
      by (rule parse_point)
        (use assms point in \<open>auto simp: list_all_iff k_def dest: in_set_takeD in_set_dropD\<close>)
    moreover have "- int (length (drop (nat n) ds)) = n - k" using point by (simp add: k_def)
    ultimately show ?thesis using point by (simp add: positive_text_def Let_def k_def)
  next
    case small
    have "parse_unsigned (''0'' @ ''.'' @ (replicate (nat (- n)) (CHR ''0'') @ ds) @ rest) =
        Some (of_nat (digits_val (''0'' @ replicate (nat (- n)) (CHR ''0'') @ ds)) *
          power10 (- int (length (replicate (nat (- n)) (CHR ''0'') @ ds))), rest)"
      by (rule parse_point) (use assms in \<open>auto simp: list_all_iff is_digit_def\<close>)
    moreover have "digits_val (''0'' @ replicate (nat (- n)) (CHR ''0'') @ ds) = digits_val ds"
      using digits_val_append [of "''0'' @ replicate (nat (- n)) (CHR ''0'')" ds]
        digits_val_zeros [of "Suc (nat (- n))"] by simp
    moreover have "- int (length (replicate (nat (- n)) (CHR ''0'') @ ds)) = n - k"
      using small by (simp add: k_def)
    moreover have "\<not> (k \<le> n \<and> n \<le> 21)"
      using small assms(2) by (cases ds) (auto simp: k_def)
    ultimately show ?thesis using small by (simp add: positive_text_def Let_def k_def)
  next
    case sci
    have "n - 1 - int (length ds - 1) = n - k" using assms(2) by (cases ds) (auto simp: k_def)
    moreover have "positive_text ds n = (if length ds = 1 then ds else take 1 ds @ ''.'' @ drop 1 ds) @ ''e'' @
        (if n - 1 < 0 then ''-'' else ''+'') @ nat_digits (nat \<bar>n - 1\<bar>)"
      unfolding positive_text_def Let_def k_def [symmetric] by (simp only: sci if_False)
    ultimately show ?thesis using parse_scientific [OF assms, of "n - 1"]
      by (simp only: append.assoc k_def)
  qed
qed

text \<open>Stripped zeros are put back by the exponent.\<close>

lemma strip_zeros_split: "\<exists>z. s = strip_zeros s @ replicate z (CHR ''0'')"
proof -
  have "takeWhile (\<lambda>c. c = CHR ''0'') (rev s) = replicate (length (takeWhile (\<lambda>c. c = CHR ''0'') (rev s))) (CHR ''0'')"
    by (rule sym, rule replicate_length_same) (auto dest: set_takeWhileD)
  then have "rev (takeWhile (\<lambda>c. c = CHR ''0'') (rev s)) =
      replicate (length (takeWhile (\<lambda>c. c = CHR ''0'') (rev s))) (CHR ''0'')"
    by (metis rev_replicate)
  moreover have "s = strip_zeros s @ rev (takeWhile (\<lambda>c. c = CHR ''0'') (rev s))"
    by (simp add: strip_zeros_def flip: rev_append)
  ultimately show ?thesis by metis
qed

lemma strip_zeros_value:
  "of_nat (digits_val (strip_zeros s)) * power10 (e - int (length (strip_zeros s))) =
   of_nat (digits_val s) * power10 (e - int (length s))"
proof -
  obtain z where z: "s = strip_zeros s @ replicate z (CHR ''0'')" using strip_zeros_split by blast
  then have v: "digits_val s = digits_val (strip_zeros s) * 10 ^ z"
    by (metis add.right_neutral digits_val_append digits_val_zeros length_replicate)
  from z have "length s = length (strip_zeros s) + z" by (metis length_append length_replicate)
  then have e: "e - int (length (strip_zeros s)) = int z + (e - int (length s))" by simp
  show ?thesis unfolding e power10_add by (simp add: v)
qed

lemma strip_zeros_nonzero:
  assumes "0 < digits_val s"
  shows "strip_zeros s \<noteq> []" and "hd (strip_zeros s) = hd s"
proof -
  obtain z where z: "s = strip_zeros s @ replicate z (CHR ''0'')" using strip_zeros_split by blast
  show ne: "strip_zeros s \<noteq> []"
  proof
    assume "strip_zeros s = []"
    with z have "s = replicate z (CHR ''0'')" by simp
    then have "digits_val s = 0" by (metis digits_val_zeros)
    with assms show False by simp
  qed
  from z ne show "hd (strip_zeros s) = hd s" by (metis hd_append2)
qed

lemma strip_zeros_set: "set (strip_zeros s) \<subseteq> set s"
  by (auto simp: strip_zeros_def dest: set_dropWhileD)

text \<open>The numbers with a decimal of at most 400 places, which all doubles of the program are.\<close>

definition decimal :: "rat \<Rightarrow> bool" where
  "decimal r \<longleftrightarrow> (case scaled 400 \<bar>r\<bar> of (m, j) \<Rightarrow> of_nat m * power10 (- int j) = \<bar>r\<bar>)"

lemma decimal_int [simp]: "decimal (of_int i)"
  by (simp add: decimal_def power10_def numeral_eq_Suc flip: of_int_abs)

lemma parse_abs_text:
  assumes "decimal r" and "r \<noteq> 0" and "num_end rest"
  shows "parse_unsigned (case scaled 400 \<bar>r\<bar> of (m, j) \<Rightarrow>
      positive_text (strip_zeros (nat_digits m)) (int (length (nat_digits m)) - int j) @ rest) =
    Some (\<bar>r\<bar>, rest)"
proof -
  obtain m j where mj: "scaled 400 \<bar>r\<bar> = (m, j)" by fastforce
  with assms(1) have val: "of_nat m * power10 (- int j) = \<bar>r\<bar>" by (simp add: decimal_def)
  with assms(2) have pos: "0 < m" by (cases m) auto
  define ds where "ds = nat_digits m"
  have dv: "digits_val ds = m" by (simp add: ds_def)
  have ds: "strip_zeros ds \<noteq> []" "hd (strip_zeros ds) \<noteq> CHR ''0''"
    using strip_zeros_nonzero [of ds] dv pos hd_nat_digits [OF pos] by (simp_all add: ds_def)
  have dig: "list_all is_digit (strip_zeros ds)"
    using nat_digits_digits [of m] strip_zeros_set [of ds] by (auto simp: list_all_iff ds_def)
  have "of_nat (digits_val (strip_zeros ds)) * power10 ((int (length ds) - int j) - int (length (strip_zeros ds))) =
      \<bar>r\<bar>"
    unfolding strip_zeros_value using val dv by simp
  with parse_positive_text [OF dig ds assms(3), of "int (length ds) - int j"]
  show ?thesis by (simp add: mj ds_def)
qed

lemma unsigned_start: "parse_unsigned s = Some x \<Longrightarrow> s \<noteq> [] \<and> is_digit (hd s)"
  by (cases s) (auto simp: parse_unsigned_def Let_def split: if_splits)

lemma parse_rat_text:
  assumes "decimal r" and "num_end rest"
  shows "parse_number (rat_text r @ rest) = Some (r, rest)"
proof (cases "r = 0")
  case True
  have "parse_unsigned (''0'' @ rest) = Some (of_nat (digits_val ''0''), rest)"
    by (rule parse_plain) (use assms in \<open>simp_all add: is_digit_def\<close>)
  then show ?thesis by (simp add: True rat_text_def parse_number_def digits_val_def digit_val_def)
next
  case False
  define body where "body = (case scaled 400 \<bar>r\<bar> of (m, j) \<Rightarrow>
      positive_text (strip_zeros (nat_digits m)) (int (length (nat_digits m)) - int j))"
  have p: "parse_unsigned (body @ rest) = Some (\<bar>r\<bar>, rest)"
    using parse_abs_text [OF assms(1) False assms(2)] by (simp add: body_def split: prod.splits)
  have t: "rat_text r = (if r < 0 then ''-'' else []) @ body"
    using False by (simp add: rat_text_def body_def Let_def split: prod.splits)
  show ?thesis
  proof (cases "r < 0")
    case True
    with p t show ?thesis by (simp add: parse_number_def)
  next
    case False
    from unsigned_start [OF p] obtain c s where cs: "body @ rest = c # s" and "is_digit c"
      by (cases "body @ rest") auto
    then have "c \<noteq> CHR ''-''" by (auto simp: is_digit_def)
    with p t False cs show ?thesis by (simp add: parse_number_def)
  qed
qed

lemma rat_text_start:
  "decimal r \<Longrightarrow> rat_text r \<noteq> [] \<and> (hd (rat_text r) = CHR ''-'' \<or> is_digit (hd (rat_text r)))"
proof -
  assume d: "decimal r"
  have "parse_number (rat_text r) = Some (r, [])" using parse_rat_text [OF d, of "[]"] by simp
  then show ?thesis
    by (auto simp: parse_number_def dest: unsigned_start split: list.splits if_splits)
qed

section \<open>Strings are read back\<close>

lemma hex_val_digit: "n < 16 \<Longrightarrow> hex_val (hex_digit n) = Some n"
  by (auto simp: hex_val_def hex_digit_def Let_def)

lemma parse_control:
  assumes "(of_char c :: nat) < 32"
  shows "parse_hex4 ([CHR ''0'', CHR ''0'', hex_digit (of_char c div 16), hex_digit (of_char c mod 16)] @ s) =
    Some (c, s)"
proof -
  have z: "hex_val (CHR ''0'') = Some 0" by (simp add: hex_val_def)
  define n where "n = (of_char c :: nat)"
  have "n div 16 < 16" "n mod 16 < 16" using assms by (simp_all add: n_def)
  note h = hex_val_digit [OF this(1)] hex_val_digit [OF this(2)]
  have "n div 16 * 16 + n mod 16 = n" by simp
  moreover have "n < 256" using assms by (simp add: n_def)
  moreover have "char_of n = c" by (simp add: n_def)
  ultimately show ?thesis by (simp add: z h n_def [symmetric] Let_def)
qed

lemma parse_json_char: "parse_chars (Suc f) (json_char c @ s) = map_rest ((#) c) (parse_chars f s)"
proof -
  have n: "(of_char c :: nat) < 32 \<Longrightarrow> c \<noteq> CHR 0x22 \<and> c \<noteq> CHR 0x5C" by auto
  show ?thesis
    using parse_control [of c s] n
    by (auto simp: json_char_def unescape_def Let_def)
qed

lemma length_json_char: "1 \<le> length (json_char c)"
  by (simp add: json_char_def Let_def)

lemma parse_json_chars:
  "length s < f \<Longrightarrow> parse_chars f (concat (map json_char s) @ CHR 0x22 # rest) = Some (s, rest)"
proof (induction s arbitrary: f)
  case Nil
  then obtain f' where "f = Suc f'" by (cases f) auto
  then show ?case by simp
next
  case (Cons c s)
  then obtain f' where f: "f = Suc f'" and "length s < f'" by (cases f) auto
  with Cons.IH [of f'] show ?case by (simp add: parse_json_char)
qed

lemma length_escaped: "length s \<le> length (concat (map json_char s))"
proof (induction s)
  case Nil
  then show ?case by simp
next
  case (Cons c s)
  with length_json_char [of c] show ?case by simp
qed

lemma parse_json_string:
  "parse_chars (Suc (length (concat (map json_char s) @ CHR 0x22 # rest)))
     (concat (map json_char s) @ CHR 0x22 # rest) = Some (s, rest)"
  using length_escaped [of s] by (intro parse_json_chars) simp

section \<open>Values are read back\<close>

text \<open>The values that JSON can hold: no \<^verbatim>\<open>undefined\<close>, finite decimals, each key once.\<close>

fun json_safe :: "js_value \<Rightarrow> bool" where
  "json_safe JUndefined = False"
| "json_safe (JNumber n) = (case n of Fin r \<Rightarrow> decimal r | _ \<Rightarrow> False)"
| "json_safe (JArray xs) = list_all json_safe xs"
| "json_safe (JObject fs) = (distinct (map fst fs) \<and> list_all (\<lambda>(k, v). json_safe v) fs)"
| "json_safe _ = True"

lemma fold_update_distinct:
  "distinct (map fst (acc @ ms)) \<Longrightarrow> fold (\<lambda>(k, v). AList.update k v) ms acc = acc @ ms"
proof (induction ms arbitrary: acc)
  case Nil
  then show ?case by simp
next
  case (Cons m ms)
  obtain k v where m: "m = (k, v)" by fastforce
  from Cons.prems m have "k \<notin> fst ` set acc" by auto
  then have "AList.update k v acc = acc @ [(k, v)]" by (induction acc) auto
  with Cons.IH [of "acc @ [(k, v)]"] Cons.prems m show ?case by simp
qed

definition token_start :: "string \<Rightarrow> bool" where
  "token_start s \<longleftrightarrow> s \<noteq> [] \<and> \<not> json_space (hd s) \<and> hd s \<noteq> CHR '']'' \<and> hd s \<noteq> CHR ''}''"

lemma token_start_skip: "token_start s \<Longrightarrow> skip_space (s @ t) = s @ t"
  by (cases s) (auto simp: token_start_def skip_space_def)

lemma json_text_start: "json_safe v \<Longrightarrow> token_start (json_text v)"
proof (cases v)
  case (JNumber n)
  assume s: "json_safe v"
  with JNumber obtain r where r: "n = Fin r" "decimal r" by (cases n) auto
  from rat_text_start [OF r(2)] show ?thesis
    by (auto simp: JNumber r token_start_def json_space_def is_digit_def)
qed (auto simp: token_start_def json_space_def json_string_def)

lemma json_text_length: "json_safe v \<Longrightarrow> 1 \<le> length (json_text v)"
  using json_text_start [of v] by (cases "json_text v") (auto simp: token_start_def)

definition reads :: "js_value \<Rightarrow> bool" where
  "reads v \<longleftrightarrow> (\<forall>f rest. length (json_text v) \<le> f \<and> num_end rest \<longrightarrow>
     parse_value f (json_text v @ rest) = Some (v, rest))"

lemma skip_simps [simp]:
  "skip_space (CHR '']'' # s) = CHR '']'' # s" "skip_space (CHR '','' # s) = CHR '','' # s"
  "skip_space (CHR ''}'' # s) = CHR ''}'' # s" "skip_space (CHR '':'' # s) = CHR '':'' # s"
  "skip_space (CHR 0x22 # s) = CHR 0x22 # s" "skip_space (CHR ''['' # s) = CHR ''['' # s"
  "skip_space (CHR ''{'' # s) = CHR ''{'' # s"
  by (simp_all add: skip_space_def json_space_def)

lemma parse_elems_text:
  assumes "vs \<noteq> []" and "\<forall>v \<in> set vs. reads v \<and> json_safe v"
    and "length (join '','' (map json_text vs)) < f"
  shows "parse_elems f (join '','' (map json_text vs) @ CHR '']'' # rest) = Some (vs, rest)"
  using assms
proof (induction vs arbitrary: f)
  case Nil
  then show ?case by simp
next
  case (Cons v vs)
  from Cons.prems(3) obtain g where f: "f = Suc g" by (cases f) auto
  show ?case
  proof (cases vs)
    case Nil
    from Cons.prems Nil f have "parse_value g (json_text v @ CHR '']'' # rest) = Some (v, CHR '']'' # rest)"
      by (simp add: reads_def)
    with Nil f show ?thesis by simp
  next
    case (Cons w ws)
    define tl_text where "tl_text = join '','' (map json_text vs)"
    have shape: "join '','' (map json_text (v # vs)) = json_text v @ CHR '','' # tl_text"
      by (simp add: Cons tl_text_def)
    have len: "length (json_text v) \<le> g" "length tl_text < g"
      using Cons.prems(3) [unfolded shape f] json_text_length [of v] Cons.prems(2) by auto
    have "parse_value g (json_text v @ CHR '','' # tl_text @ CHR '']'' # rest) =
        Some (v, CHR '','' # tl_text @ CHR '']'' # rest)"
      using Cons.prems(2) len(1) by (simp add: reads_def)
    moreover have "parse_elems g (tl_text @ CHR '']'' # rest) = Some (vs, rest)"
      unfolding tl_text_def
      by (rule Cons.IH) (use Cons.prems(2) Cons len(2) in \<open>auto simp: tl_text_def\<close>)
    ultimately show ?thesis unfolding shape f by simp
  qed
qed

definition member_text :: "string \<times> js_value \<Rightarrow> string" where
  "member_text kv = json_string (fst kv) @ '':'' @ json_text (snd kv)"

lemma parse_members_text:
  assumes "ms \<noteq> []" and "\<forall>(k, v) \<in> set ms. reads v \<and> json_safe v"
    and "length (join '','' (map member_text ms)) < f"
  shows "parse_members f (join '','' (map member_text ms) @ CHR ''}'' # rest) = Some (ms, rest)"
  using assms
proof (induction ms arbitrary: f)
  case Nil
  then show ?case by simp
next
  case (Cons m ms)
  obtain k v where m: "m = (k, v)" by fastforce
  from Cons.prems(3) obtain g where f: "f = Suc g" by (cases f) auto
  have rv: "reads v" and sv: "json_safe v" using Cons.prems(2) by (auto simp: m)
  have head: "parse_members (Suc g) (member_text m @ s) =
      (case skip_space s of
         [] \<Rightarrow> None
       | e # x \<Rightarrow> if e = CHR ''}'' then Some ([(k, v)], x)
           else if e = CHR '','' then map_rest ((#) (k, v)) (parse_members g x) else None)"
    if "num_end s" and "length (json_text v) \<le> g" for s
  proof -
    have "parse_value g (json_text v @ s) = Some (v, s)" using rv that by (simp add: reads_def)
    moreover have "member_text m @ s =
        CHR 0x22 # concat (map json_char k) @ CHR 0x22 # CHR '':'' # json_text v @ s"
      by (simp add: member_text_def m json_string_def)
    ultimately show ?thesis using parse_json_string [of k "CHR '':'' # json_text v @ s"] by simp
  qed
  show ?case
  proof (cases ms)
    case Nil
    from Cons.prems(3) Nil f have "length (json_text v) \<le> g" by (simp add: member_text_def m)
    with head [of "CHR ''}'' # rest"] show ?thesis by (simp add: Nil f m)
  next
    case (Cons w ws)
    define tl_text where "tl_text = join '','' (map member_text ms)"
    have shape: "join '','' (map member_text (m # ms)) = member_text m @ CHR '','' # tl_text"
      by (simp add: Cons tl_text_def)
    have len: "length (json_text v) \<le> g" "length tl_text < g"
      using Cons.prems(3) [unfolded shape f] by (auto simp: member_text_def m)
    have "parse_members g (tl_text @ CHR ''}'' # rest) = Some (ms, rest)"
      unfolding tl_text_def
      by (rule Cons.IH) (use Cons.prems(2) Cons len(2) in \<open>auto simp: tl_text_def\<close>)
    with head [of "CHR '','' # tl_text @ CHR ''}'' # rest"] len(1) show ?thesis
      unfolding shape f by (simp add: m)
  qed
qed

lemma reads_safe: "json_safe v \<Longrightarrow> reads v"
proof (induction v)
  case (JNumber n)
  then obtain r where r: "n = Fin r" "decimal r" by (cases n) auto
  show ?case unfolding reads_def
  proof (intro allI impI)
    fix f rest
    assume a: "length (json_text (JNumber n)) \<le> f \<and> num_end rest"
    from rat_text_start [OF r(2)] obtain c s where cs: "rat_text r = c # s"
      and c: "c = CHR ''-'' \<or> is_digit c" by (cases "rat_text r") auto
    from a cs r obtain g where f: "f = Suc g" by (cases f) auto
    have "c \<noteq> CHR 0x22" "c \<noteq> CHR ''[''" "c \<noteq> CHR ''{''" "c \<noteq> CHR ''n''" "c \<noteq> CHR ''t''"
      "c \<noteq> CHR ''f''" "\<not> json_space c"
      using c by (auto simp: is_digit_def json_space_def)
    moreover have "parse_number (c # s @ rest) = Some (r, rest)"
      using parse_rat_text [OF r(2), of rest] a cs by simp
    ultimately show "parse_value f (json_text (JNumber n) @ rest) = Some (JNumber n, rest)"
      by (simp add: f r cs skip_space_def)
  qed
next
  case (JString x)
  show ?case unfolding reads_def
  proof (intro allI impI)
    fix f rest
    assume a: "length (json_text (JString x)) \<le> f \<and> num_end rest"
    then obtain g where f: "f = Suc g" by (cases f) (auto simp: json_string_def)
    show "parse_value f (json_text (JString x) @ rest) = Some (JString x, rest)"
      using parse_json_string [of x rest] by (simp add: f json_string_def)
  qed
next
  case (JArray xs)
  show ?case unfolding reads_def
  proof (intro allI impI)
    fix f rest
    assume a: "length (json_text (JArray xs)) \<le> f \<and> num_end rest"
    then obtain g where f: "f = Suc g" by (cases f) auto
    show "parse_value f (json_text (JArray xs) @ rest) = Some (JArray xs, rest)"
    proof (cases xs)
      case Nil
      then show ?thesis by (simp add: f)
    next
      case (Cons y ys)
      define body where "body = join '','' (map json_text xs)"
      have all: "\<forall>v \<in> set xs. reads v \<and> json_safe v" using JArray by (auto simp: list_all_iff)
      have "token_start (json_text y)" using all Cons json_text_start by auto
      then have tb: "token_start (body @ CHR '']'' # rest)"
        by (cases ys; cases "json_text y") (auto simp: body_def Cons token_start_def)
      have "parse_elems g (body @ CHR '']'' # rest) = Some (xs, rest)"
        unfolding body_def by (rule parse_elems_text) (use all Cons a f in auto)
      then show ?thesis
        using tb token_start_skip [OF tb, of "[]"]
        by (cases "body @ CHR '']'' # rest") (auto simp: f body_def token_start_def)
    qed
  qed
next
  case (JObject fs)
  show ?case unfolding reads_def
  proof (intro allI impI)
    fix f rest
    assume a: "length (json_text (JObject fs)) \<le> f \<and> num_end rest"
    then obtain g where f: "f = Suc g" by (cases f) auto
    have flt: "filter (\<lambda>(k, v). v \<noteq> JUndefined) fs = fs"
      using JObject.prems by (auto simp: filter_id_conv list_all_iff)
    define body where "body = join '','' (map member_text fs)"
    have tx: "json_text (JObject fs) = CHR ''{'' # body @ ''}''"
      unfolding json_text.simps flt by (simp add: body_def member_text_def [abs_def] case_prod_unfold)
    show "parse_value f (json_text (JObject fs) @ rest) = Some (JObject fs, rest)"
    proof (cases fs)
      case Nil
      then show ?thesis by (simp add: f)
    next
      case (Cons y ys)
      have all: "\<forall>(k, v) \<in> set fs. reads v \<and> json_safe v"
        using JObject by (fastforce simp: list_all_iff)
      have m: "parse_members g (body @ CHR ''}'' # rest) = Some (fs, rest)"
        unfolding body_def by (rule parse_members_text) (use all Cons a f tx in \<open>auto simp: body_def\<close>)
      have "\<exists>b. body = CHR 0x22 # b"
        by (cases ys) (auto simp: body_def Cons member_text_def json_string_def)
      then obtain b where b: "body = CHR 0x22 # b" by blast
      have "fold (\<lambda>(k, v). AList.update k v) fs [] = fs"
        using fold_update_distinct [of "[]" fs] JObject.prems by simp
      with m show ?thesis unfolding tx f b by simp
    qed
  qed
qed (auto simp: reads_def Suc_le_eq skip_space_def json_space_def gr0_conv_Suc dest!: less_imp_Suc_add)

lemma json_round_trip: "json_safe v \<Longrightarrow> json_parse (json_text v) = Some v"
proof -
  assume "json_safe v"
  from reads_safe [OF this] have "parse_value (Suc (length (json_text v))) (json_text v @ []) = Some (v, [])"
    unfolding reads_def by (metis le_SucI num_end_simps(1) order_refl)
  then show ?thesis by (simp add: json_parse_def skip_space_def)
qed

end
