(* ===== verification/Json_Indent.thy ===== *)
theory Json_Indent
  imports Json
begin

text \<open>
  What \<^verbatim>\<open>JSON.stringify(value, null, 2)\<close> writes is read back by \<^verbatim>\<open>JSON.parse\<close>: the line breaks and
  the indentation are white space between tokens.
\<close>

definition blank_text :: "string \<Rightarrow> bool" where
  "blank_text s \<longleftrightarrow> list_all json_space s"

lemma blank_simps [simp]:
  "blank_text []" "blank_text (s @ t) \<longleftrightarrow> blank_text s \<and> blank_text t"
  "blank_text (c # s) \<longleftrightarrow> json_space c \<and> blank_text s"
  by (simp_all add: blank_text_def)

lemma json_space_newline [simp]: "json_space (CHR 10)" "json_space (CHR '' '')"
  by (simp_all add: json_space_def)

lemma skip_blank: "blank_text w \<Longrightarrow> skip_space (w @ s) = skip_space s"
  by (simp add: skip_space_def blank_text_def list_all_iff dropWhile_append2)

lemma num_end_newline [simp]: "num_end (CHR 10 # s)"
  by (simp add: num_end_def is_digit_def)

lemma parse_value_blank: "blank_text w \<Longrightarrow> parse_value f (w @ s) = parse_value f s"
  by (cases f) (simp_all add: skip_blank)

text \<open>The indented text of one level, for any texts of the parts that are read back.\<close>

definition reads_as :: "string \<Rightarrow> js_value \<Rightarrow> bool" where
  "reads_as s v \<longleftrightarrow> s \<noteq> [] \<and> (\<forall>f rest. length s \<le> f \<and> num_end rest \<longrightarrow>
     parse_value f (s @ rest) = Some (v, rest))"

lemma reads_asD:
  "reads_as s v \<Longrightarrow> length s \<le> f \<Longrightarrow> num_end rest \<Longrightarrow> parse_value f (s @ rest) = Some (v, rest)"
  by (simp add: reads_as_def)

lemma parse_elems_indented:
  assumes "list_all2 reads_as ts vs" and "ts \<noteq> []" and "blank_text w" and "blank_text u"
    and "length (w @ join ('','' @ w) ts) < f"
  shows "parse_elems f (w @ join ('','' @ w) ts @ CHR 10 # u @ CHR '']'' # rest) = Some (vs, rest)"
  using assms
proof (induction ts arbitrary: vs f)
  case Nil
  then show ?case by simp
next
  case (Cons t ts)
  from Cons.prems(1) obtain v vs' where vs: "vs = v # vs'" and t: "reads_as t v"
    and ts: "list_all2 reads_as ts vs'" by (auto simp: list_all2_Cons1)
  from Cons.prems(5) obtain g where f: "f = Suc g" by (cases f) auto
  show ?case
  proof (cases ts)
    case Nil
    have "parse_value g (t @ CHR 10 # u @ CHR '']'' # rest) = Some (v, CHR 10 # u @ CHR '']'' # rest)"
      by (rule reads_asD [OF t]) (use Cons.prems(5) f Nil in auto)
    moreover have "skip_space ((CHR 10 # u) @ CHR '']'' # rest) = CHR '']'' # rest"
      using Cons.prems(4) by (subst skip_blank) auto
    ultimately show ?thesis using Nil ts vs Cons.prems(3) by (simp add: f parse_value_blank)
  next
    case (Cons t' ts')
    have "parse_value g (t @ CHR '','' # w @ join ('','' @ w) ts @ CHR 10 # u @ CHR '']'' # rest) =
        Some (v, CHR '','' # w @ join ('','' @ w) ts @ CHR 10 # u @ CHR '']'' # rest)"
      by (rule reads_asD [OF t]) (use Cons.prems(5) f Cons in auto)
    moreover have "parse_elems g (w @ join ('','' @ w) ts @ CHR 10 # u @ CHR '']'' # rest) = Some (vs', rest)"
    proof (rule Cons.IH [OF ts])
      show "length (w @ join ('','' @ w) ts) < g"
        using Cons.prems(5) t by (cases t) (auto simp: Cons f reads_as_def)
    qed (use Cons Cons.prems in auto)
    ultimately show ?thesis
      using vs Cons.prems(3) by (simp add: f parse_value_blank Cons)
  qed
qed

text \<open>A member: the quoted key, a colon and a blank, the value.\<close>

definition pretty_member :: "string \<Rightarrow> string \<Rightarrow> string" where
  "pretty_member k t = json_string k @ '': '' @ t"

lemma parse_members_head:
  assumes "blank_text w" and "reads_as t v" and "length t \<le> g" and "num_end s"
  shows "parse_members (Suc g) (w @ pretty_member k t @ s) =
    (case skip_space s of
       [] \<Rightarrow> None
     | e # x \<Rightarrow> if e = CHR ''}'' then Some ([(k, v)], x)
         else if e = CHR '','' then map_rest ((#) (k, v)) (parse_members g x) else None)"
proof -
  have "parse_value g ('' '' @ t @ s) = Some (v, s)"
    using reads_asD [OF assms(2-4)] by (subst parse_value_blank) auto
  moreover have "w @ pretty_member k t @ s =
      w @ CHR 0x22 # concat (map json_char k) @ CHR 0x22 # CHR '':'' # '' '' @ t @ s"
    by (simp add: pretty_member_def json_string_def)
  ultimately show ?thesis
    using parse_json_string [of k "CHR '':'' # '' '' @ t @ s"] assms(1) by (simp add: skip_blank)
qed

lemma parse_members_indented:
  assumes "list_all2 reads_as ts vs" and "length ks = length ts" and "ts \<noteq> []" and "blank_text w"
    and "blank_text u" and "length (w @ join ('','' @ w) (map2 pretty_member ks ts)) < f"
  shows "parse_members f (w @ join ('','' @ w) (map2 pretty_member ks ts) @ CHR 10 # u @ CHR ''}'' # rest) =
    Some (zip ks vs, rest)"
  using assms
proof (induction ts arbitrary: vs ks f)
  case Nil
  then show ?case by simp
next
  case (Cons t ts)
  from Cons.prems(1) obtain v vs' where vs: "vs = v # vs'" and t: "reads_as t v"
    and ts: "list_all2 reads_as ts vs'" by (auto simp: list_all2_Cons1)
  from Cons.prems(2) obtain k ks' where ks: "ks = k # ks'" and len: "length ks' = length ts"
    by (cases ks) auto
  from Cons.prems(6) obtain g where f: "f = Suc g" by (cases f) auto
  show ?case
  proof (cases ts)
    case Nil
    have "length t \<le> g" using Cons.prems(6) by (simp add: f ks Nil pretty_member_def)
    from parse_members_head [OF Cons.prems(4) t this, of "CHR 10 # u @ CHR ''}'' # rest" k]
    have "parse_members f (w @ pretty_member k t @ CHR 10 # u @ CHR ''}'' # rest) = Some ([(k, v)], rest)"
      using Cons.prems(5) skip_blank [of "CHR 10 # u" "CHR ''}'' # rest"] by (simp add: f)
    with Nil ts vs ks show ?thesis by simp
  next
    case (Cons t' ts')
    then obtain k' ks'' where ks': "ks' = k' # ks''" using len by (cases ks') auto
    define tl_text where "tl_text = join ('','' @ w) (map2 pretty_member ks' ts)"
    have shape: "join ('','' @ w) (map2 pretty_member ks (t # ts)) = pretty_member k t @ CHR '','' # w @ tl_text"
      by (simp add: ks ks' Cons tl_text_def)
    have "length t \<le> g" using Cons.prems(6) unfolding shape by (simp add: f pretty_member_def)
    note parse_members_head [OF Cons.prems(4) t this, of "CHR '','' # w @ tl_text @ CHR 10 # u @ CHR ''}'' # rest" k]
    moreover have "parse_members g (w @ tl_text @ CHR 10 # u @ CHR ''}'' # rest) = Some (zip ks' vs', rest)"
      unfolding tl_text_def
    proof (rule Cons.IH [OF ts len])
      show "length (w @ join ('','' @ w) (map2 pretty_member ks' ts)) < g"
        using Cons.prems(6) unfolding shape tl_text_def [symmetric] by (simp add: f pretty_member_def)
    qed (use Cons Cons.prems in auto)
    ultimately show ?thesis using vs ks unfolding shape by (simp add: f)
  qed
qed

lemma reads_as_text: "json_safe v \<Longrightarrow> reads_as (json_text v) v"
  using reads_safe [of v] json_text_length [of v] by (auto simp: reads_as_def reads_def)

lemma indented_array:
  assumes "blank_text gap" and "blank_text ind"
    and "\<And>x. x \<in> set xs \<Longrightarrow> reads_as (json_indented gap (ind @ gap) x) x"
  shows "reads_as (json_indented gap ind (JArray xs)) (JArray xs)"
proof (cases "xs = []")
  case True
  have "reads_as (json_text (JArray [])) (JArray [])" by (rule reads_as_text) simp
  with True show ?thesis by simp
next
  case False
  define w where "w = CHR 10 # ind @ gap"
  define ts where "ts = map (json_indented gap (ind @ gap)) xs"
  have w: "blank_text w" using assms by (simp add: w_def)
  have ts: "list_all2 reads_as ts xs" "ts \<noteq> []"
    using assms(3) False by (auto simp: ts_def list_all2_conv_all_nth)
  have shape: "json_indented gap ind (JArray xs) = CHR ''['' # w @ join ('','' @ w) ts @ CHR 10 # ind @ '']''"
    using False by (simp add: w_def ts_def Let_def)
  show ?thesis unfolding reads_as_def shape
  proof (intro conjI allI impI)
    fix f rest
    assume a: "length (CHR ''['' # w @ join ('','' @ w) ts @ CHR 10 # ind @ '']'') \<le> f \<and> num_end rest"
    then obtain g where f: "f = Suc g" by (cases f) auto
    define s' where "s' = w @ join ('','' @ w) ts @ CHR 10 # ind @ CHR '']'' # rest"
    have p: "parse_elems g s' = Some (xs, rest)"
      unfolding s'_def by (rule parse_elems_indented [OF ts w assms(2)]) (use a f in simp)
    then obtain h where h: "g = Suc h" by (cases g) auto
    have some: "parse_value h s' \<noteq> None" using p by (auto simp: h split: option.splits)
    then obtain i d t where i: "h = Suc i" and dt: "skip_space s' = d # t"
      by (cases h; cases "skip_space s'") auto
    have "d \<noteq> CHR '']''"
      using some i dt by (auto simp: parse_number_def parse_unsigned_def is_digit_def)
    moreover have "(CHR ''['' # w @ join ('','' @ w) ts @ CHR 10 # ind @ '']'') @ rest = CHR ''['' # s'"
      by (simp add: s'_def)
    ultimately show "parse_value f ((CHR ''['' # w @ join ('','' @ w) ts @ CHR 10 # ind @ '']'') @ rest) =
        Some (JArray xs, rest)"
      using p dt by (simp add: f)
  qed simp
qed

lemma indented_object:
  assumes "blank_text gap" and "blank_text ind" and "json_safe (JObject fs)"
    and "\<And>k x. (k, x) \<in> set fs \<Longrightarrow> reads_as (json_indented gap (ind @ gap) x) x"
  shows "reads_as (json_indented gap ind (JObject fs)) (JObject fs)"
proof (cases "fs = []")
  case True
  have "reads_as (json_text (JObject [])) (JObject [])" by (rule reads_as_text) simp
  with True show ?thesis by simp
next
  case False
  have flt: "filter (\<lambda>(k, v). v \<noteq> JUndefined) fs = fs"
    using assms(3) by (auto simp: filter_id_conv list_all_iff)
  define w where "w = CHR 10 # ind @ gap"
  define ts where "ts = map (json_indented gap (ind @ gap) \<circ> snd) fs"
  have w: "blank_text w" using assms by (simp add: w_def)
  have ts: "list_all2 reads_as ts (map snd fs)" "length (map fst fs) = length ts" "ts \<noteq> []"
    using assms(4) False by (auto simp: ts_def list_all2_conv_all_nth) (metis nth_mem prod.collapse)
  define body where "body = join ('','' @ w) (map2 pretty_member (map fst fs) ts)"
  have "map (\<lambda>(k, v). json_string k @ '': '' @ json_indented gap (ind @ gap) v) fs =
      map2 pretty_member (map fst fs) ts"
    by (simp add: ts_def pretty_member_def zip_map_map zip_same_conv_map case_prod_unfold)
  then have shape: "json_indented gap ind (JObject fs) = CHR ''{'' # w @ body @ CHR 10 # ind @ ''}''"
    using False unfolding json_indented.simps flt by (simp add: w_def body_def Let_def)
  have "\<exists>b. body = CHR 0x22 # b"
    using False by (cases fs; cases "tl fs") (simp_all add: body_def ts_def pretty_member_def json_string_def)
  then obtain b where b: "body = CHR 0x22 # b" by blast
  have fold: "fold (\<lambda>(k, v). AList.update k v) fs [] = fs"
    using fold_update_distinct [of "[]" fs] assms(3) by simp
  show ?thesis unfolding reads_as_def shape
  proof (intro conjI allI impI)
    fix f rest
    assume a: "length (CHR ''{'' # w @ body @ CHR 10 # ind @ ''}'') \<le> f \<and> num_end rest"
    then obtain g where f: "f = Suc g" by (cases f) auto
    have "parse_members g (w @ body @ CHR 10 # ind @ CHR ''}'' # rest) = Some (zip (map fst fs) (map snd fs), rest)"
      unfolding body_def
      by (rule parse_members_indented [OF ts w assms(2)]) (use a f in \<open>simp add: body_def\<close>)
    then have "parse_members g (w @ body @ CHR 10 # ind @ CHR ''}'' # rest) = Some (fs, rest)"
      by (simp add: zip_map_fst_snd)
    moreover have "skip_space (w @ body @ s) = CHR 0x22 # b @ s" for s
      using w by (simp add: skip_blank b)
    ultimately show "parse_value f ((CHR ''{'' # w @ body @ CHR 10 # ind @ ''}'') @ rest) = Some (JObject fs, rest)"
      by (simp add: f fold)
  qed simp
qed

lemma indented_reads_as:
  "json_safe v \<Longrightarrow> blank_text gap \<Longrightarrow> blank_text ind \<Longrightarrow> reads_as (json_indented gap ind v) v"
proof (induction v arbitrary: ind)
  case (JArray xs)
  then show ?case by (intro indented_array) (auto simp: list_all_iff)
next
  case (JObject fs)
  show ?case
  proof (rule indented_object [OF JObject.prems(2,3,1)])
    fix k x
    assume kx: "(k, x) \<in> set fs"
    then have "json_safe x" using JObject.prems(1) by (auto simp: list_all_iff)
    with kx show "reads_as (json_indented gap (ind @ gap) x) x"
      using JObject.IH [of "(k, x)" x "ind @ gap"] JObject.prems(2,3) by simp
  qed
qed (auto simp only: json_indented.simps intro: reads_as_text)

text \<open>\<^verbatim>\<open>JSON.stringify(value, null, 2)\<close>.\<close>

definition pretty :: "js_value \<Rightarrow> string" where
  "pretty v = json_indented ''  '' [] v"

lemma pretty_reads_as: "json_safe v \<Longrightarrow> reads_as (pretty v) v"
  unfolding pretty_def by (rule indented_reads_as) simp_all

lemma pretty_round_trip: "json_safe v \<Longrightarrow> json_parse (pretty v) = Some v"
  using reads_asD [OF pretty_reads_as, of v "Suc (length (pretty v))" "[]"]
  by (simp add: json_parse_def skip_space_def)

section \<open>No white space around a text\<close>

definition tight :: "string \<Rightarrow> bool" where
  "tight s \<longleftrightarrow> s \<noteq> [] \<and> \<not> js_space (hd s) \<and> \<not> js_space (last s)"

lemma trim_tight: "tight s \<Longrightarrow> trim s = s"
  by (rule trim_id) (simp add: tight_def)

lemma tight_between: "\<not> js_space c \<Longrightarrow> \<not> js_space d \<Longrightarrow> tight (c # s @ [d])"
  by (simp add: tight_def)

lemma digit_no_space: "is_digit c \<Longrightarrow> \<not> js_space c"
  by (auto simp: is_digit_def js_space_def)

lemma nat_digits_no_space: "c \<in> set (nat_digits n) \<Longrightarrow> \<not> js_space c"
  using nat_digits_digits [of n] digit_no_space by (auto simp: list_all_iff)

lemma rat_text_no_space: "c \<in> set (rat_text r) \<Longrightarrow> \<not> js_space c"
proof -
  assume c: "c \<in> set (rat_text r)"
  have pos: "d \<in> set ds \<or> \<not> js_space d" if "d \<in> set (positive_text ds n)" for d ds n
    using that nat_digits_no_space
    by (auto simp: positive_text_def Let_def js_space_def dest: in_set_takeD in_set_dropD split: if_splits)
  show ?thesis
  proof (cases "r = 0")
    case True
    with c show ?thesis by (simp add: rat_text_def js_space_def)
  next
    case False
    obtain m j where mj: "scaled 400 \<bar>r\<bar> = (m, j)" by fastforce
    from c False mj have "c = CHR ''-'' \<or>
        c \<in> set (positive_text (strip_zeros (nat_digits m)) (int (length (nat_digits m)) - int j))"
      by (auto simp: rat_text_def Let_def split: if_splits)
    with pos nat_digits_no_space strip_zeros_set show ?thesis by (fastforce simp: js_space_def)
  qed
qed

lemma tight_no_space: "s \<noteq> [] \<Longrightarrow> (\<And>c. c \<in> set s \<Longrightarrow> \<not> js_space c) \<Longrightarrow> tight s"
  by (simp add: tight_def)

lemma tight_text: "json_safe v \<Longrightarrow> tight (json_text v)"
proof (cases v)
  case (JNumber n)
  assume "json_safe v"
  with JNumber obtain r where "n = Fin r" "decimal r" by (cases n) auto
  with JNumber show ?thesis using rat_text_start [of r] rat_text_no_space by (auto intro!: tight_no_space)
qed (auto simp: tight_def js_space_def json_string_def)

lemma tight_indented: "json_safe v \<Longrightarrow> tight (json_indented gap ind v)"
  using tight_text [of v] by (cases v) (auto simp: tight_def js_space_def Let_def)

lemma trim_pretty [simp]: "json_safe v \<Longrightarrow> trim (pretty v) = pretty v"
  unfolding pretty_def by (rule trim_tight [OF tight_indented])

lemma trim_json_text [simp]: "json_safe v \<Longrightarrow> trim (json_text v) = json_text v"
  by (rule trim_tight [OF tight_text])

lemma pretty_not_empty [simp]: "json_safe v \<Longrightarrow> pretty v \<noteq> []"
  using tight_indented [of v] by (simp add: tight_def pretty_def)

end
