(* ===== verification/Js_Coercion.thy ===== *)
theory Js_Coercion
  imports Json "HOL-Library.Multiset"
begin

text \<open>
  Conversions of the language that the sources rely on: \<^verbatim>\<open>Number(value)\<close>, \<^verbatim>\<open>String(value)\<close>, the
  fall-back \<^verbatim>\<open>text || d\<close>, and \<^verbatim>\<open>Array.prototype.sort\<close> with a comparator.
\<close>

section \<open>\<^verbatim>\<open>Number\<close> and \<^verbatim>\<open>String\<close>\<close>

text \<open>The digits of a literal with a radix prefix.\<close>

definition radix_digit :: "nat \<Rightarrow> char \<Rightarrow> nat option" where
  "radix_digit b c =
     (let u = (of_char c :: nat);
          d = (if 48 \<le> u \<and> u \<le> 57 then u - 48 else if 97 \<le> u \<and> u \<le> 122 then u - 87
               else if 65 \<le> u \<and> u \<le> 90 then u - 55 else b)
      in if d < b then Some d else None)"

definition radix_number :: "nat \<Rightarrow> string \<Rightarrow> js_number" where
  "radix_number b s =
     (if s = [] \<or> list_ex (\<lambda>c. radix_digit b c = None) s then NaN
      else Fin (of_nat (foldl (\<lambda>a c. b * a + the (radix_digit b c)) 0 s)))"

text \<open>An unsigned decimal literal: digits with at most one point among them, and an exponent.\<close>

definition decimal_number :: "string \<Rightarrow> js_number" where
  "decimal_number s =
     (if s = ''Infinity'' then PosInf
      else let ip = takeWhile is_digit s;
               r1 = dropWhile is_digit s;
               point = (r1 \<noteq> [] \<and> hd r1 = CHR ''.'');
               fp = (if point then takeWhile is_digit (tl r1) else []);
               r2 = (if point then dropWhile is_digit (tl r1) else r1)
           in if ip = [] \<and> fp = [] then NaN
              else (case parse_exp r2 of
                      Some (e, []) \<Rightarrow> Fin (of_nat (digits_val (ip @ fp)) * power10 (e - int (length fp)))
                    | _ \<Rightarrow> NaN))"

fun num_neg :: "js_number \<Rightarrow> js_number" where
  "num_neg (Fin r) = Fin (- r)"
| "num_neg NaN = NaN"
| "num_neg PosInf = NegInf"
| "num_neg NegInf = PosInf"

definition string_number :: "string \<Rightarrow> js_number" where
  "string_number s =
     (let t = trim s in
      if t = [] then Fin 0
      else if starts_with ''0x'' t \<or> starts_with ''0X'' t then radix_number 16 (drop 2 t)
      else if starts_with ''0o'' t \<or> starts_with ''0O'' t then radix_number 8 (drop 2 t)
      else if starts_with ''0b'' t \<or> starts_with ''0B'' t then radix_number 2 (drop 2 t)
      else if hd t = CHR ''-'' then num_neg (decimal_number (tl t))
      else if hd t = CHR ''+'' then decimal_number (tl t)
      else decimal_number t)"

text \<open>\<^verbatim>\<open>String(value)\<close> of plain values: arrays are joined by commas, with nothing for \<^verbatim>\<open>null\<close> and
  \<^verbatim>\<open>undefined\<close>.\<close>

fun to_text :: "js_value \<Rightarrow> string" where
  "to_text JUndefined = ''undefined''"
| "to_text JNull = ''null''"
| "to_text (JBool b) = (if b then ''true'' else ''false'')"
| "to_text (JNumber n) = number_text n"
| "to_text (JString s) = s"
| "to_text (JArray xs) =
     join '','' (map (\<lambda>x. if x = JUndefined \<or> x = JNull then [] else to_text x) xs)"
| "to_text (JObject fs) = ''[object Object]''"

fun to_number :: "js_value \<Rightarrow> js_number" where
  "to_number JUndefined = NaN"
| "to_number JNull = Fin 0"
| "to_number (JBool b) = (if b then Fin 1 else Fin 0)"
| "to_number (JNumber n) = n"
| "to_number (JString s) = string_number s"
| "to_number (JArray xs) = string_number (to_text (JArray xs))"
| "to_number (JObject fs) = NaN"

text \<open>\<^verbatim>\<open>Number.isFinite(n) ? n : 0\<close>.\<close>

fun finite_or_zero :: "js_number \<Rightarrow> rat" where
  "finite_or_zero (Fin r) = r"
| "finite_or_zero _ = 0"

text \<open>\<^verbatim>\<open>text || d\<close> for a text that may be missing.\<close>

definition or_text :: "string option \<Rightarrow> string \<Rightarrow> string" where
  "or_text x d = (case x of Some s \<Rightarrow> if s = [] then d else s | None \<Rightarrow> d)"

lemma or_text_simps [simp]:
  "or_text None d = d" "or_text (Some []) d = d" "s \<noteq> [] \<Longrightarrow> or_text (Some s) d = s"
  by (simp_all add: or_text_def)

text \<open>\<^verbatim>\<open>x.toFixed(d)\<close>, a tie rounded away from zero.\<close>

definition to_fixed :: "nat \<Rightarrow> rat \<Rightarrow> string" where
  "to_fixed d x =
     (let n = nat \<lfloor>\<bar>x\<bar> * 10 ^ d + 1 / 2\<rfloor>;
          frac = nat_digits (n mod 10 ^ d)
      in (if x < 0 then ''-'' else []) @ nat_digits (n div 10 ^ d) @
         (if d = 0 then [] else ''.'' @ replicate (d - length frac) (CHR ''0'') @ frac))"

text \<open>\<^verbatim>\<open>toLowerCase\<close> for code units below 256.\<close>

definition lower_char :: "char \<Rightarrow> char" where
  "lower_char c =
     (let u = (of_char c :: nat) in
      if (65 \<le> u \<and> u \<le> 90) \<or> (192 \<le> u \<and> u \<le> 222 \<and> u \<noteq> 215) then char_of (u + 32) else c)"

abbreviation lower :: "string \<Rightarrow> string" where "lower s \<equiv> map lower_char s"

lemma lower_idem [simp]: "lower_char (lower_char c) = lower_char c"
proof -
  have "of_char c < (256::nat)" by simp
  then show ?thesis by (auto simp: lower_char_def Let_def)
qed

text \<open>\<^verbatim>\<open>toUpperCase\<close>: the sharp s becomes two letters; the two letters whose capitals are beyond code unit
  255 (the micro sign and y with diaeresis) are left as they are.\<close>

definition upper_char :: "char \<Rightarrow> string" where
  "upper_char c =
     (let u = (of_char c :: nat) in
      if u = 223 then ''SS''
      else if (97 \<le> u \<and> u \<le> 122) \<or> (224 \<le> u \<and> u \<le> 254 \<and> u \<noteq> 247) then [char_of (u - 32)] else [c])"

definition upper :: "string \<Rightarrow> string" where
  "upper s = concat (map upper_char s)"

text \<open>\<^verbatim>\<open>xs[n]\<close> and \<^verbatim>\<open>set.add(x)\<close> on a set kept in the order of insertion.\<close>

definition js_nth :: "js_value list \<Rightarrow> rat \<Rightarrow> js_value" where
  "js_nth xs r = (if 0 \<le> r \<and> of_int \<lfloor>r\<rfloor> = r \<and> nat \<lfloor>r\<rfloor> < length xs then xs ! nat \<lfloor>r\<rfloor> else JUndefined)"

definition set_add :: "'a \<Rightarrow> 'a list \<Rightarrow> 'a list" where
  "set_add x xs = (if x \<in> set xs then xs else xs @ [x])"

lemma set_set_add [simp]: "set (set_add x xs) = insert x (set xs)"
  by (auto simp: set_add_def)

section \<open>Sorting with a comparator\<close>

text \<open>
  \<^verbatim>\<open>xs.sort(cmp)\<close> is stable: an element goes before the first later one that must not come before it.
  For a comparator that is not a total preorder the language leaves the order open; what is proved
  without such an assumption (the elements stay the same) holds for any implementation.
\<close>

fun insert_by :: "('a \<Rightarrow> 'a \<Rightarrow> rat) \<Rightarrow> 'a \<Rightarrow> 'a list \<Rightarrow> 'a list" where
  "insert_by cmp x [] = [x]"
| "insert_by cmp x (y # ys) = (if cmp x y \<le> 0 then x # y # ys else y # insert_by cmp x ys)"

definition js_sort :: "('a \<Rightarrow> 'a \<Rightarrow> rat) \<Rightarrow> 'a list \<Rightarrow> 'a list" where
  "js_sort cmp xs = foldr (insert_by cmp) xs []"

text \<open>\<^verbatim>\<open>c || d\<close> for two comparison results.\<close>

definition or_else :: "rat \<Rightarrow> rat \<Rightarrow> rat" where
  "or_else c d = (if c = 0 then d else c)"

lemma mset_insert_by [simp]: "mset (insert_by cmp x ys) = add_mset x (mset ys)"
  by (induction ys) auto

lemma mset_js_sort [simp]: "mset (js_sort cmp xs) = mset xs"
  unfolding js_sort_def by (induction xs) auto

lemma set_js_sort [simp]: "set (js_sort cmp xs) = set xs"
  by (metis mset_js_sort set_mset_mset)

lemma list_all_js_sort [simp]: "list_all P (js_sort cmp xs) = list_all P xs"
  by (simp add: list_all_iff)

lemma length_js_sort [simp]: "length (js_sort cmp xs) = length xs"
  by (metis mset_js_sort size_mset)

lemma distinct_js_sort [simp]: "distinct (js_sort cmp xs) = distinct xs"
  by (metis mset_eq_imp_distinct_iff mset_js_sort)

lemma sum_js_sort [simp]:
  fixes f :: "'a \<Rightarrow> 'b::comm_monoid_add"
  shows "sum_list (map f (js_sort cmp xs)) = sum_list (map f xs)"
  by (metis mset_js_sort mset_map sum_mset_sum_list)

lemma js_sort_Nil [simp]: "js_sort cmp [] = []"
  by (simp add: js_sort_def)

text \<open>A comparator that is a total preorder.\<close>

definition comparator :: "('a \<Rightarrow> 'a \<Rightarrow> rat) \<Rightarrow> bool" where
  "comparator cmp \<longleftrightarrow> (\<forall>x y. cmp x y \<le> 0 \<or> cmp y x \<le> 0) \<and>
     (\<forall>x y z. cmp x y \<le> 0 \<longrightarrow> cmp y z \<le> 0 \<longrightarrow> cmp x z \<le> 0)"

lemma sorted_insert_by:
  assumes "comparator cmp" and "sorted_wrt (\<lambda>x y. cmp x y \<le> 0) ys"
  shows "sorted_wrt (\<lambda>x y. cmp x y \<le> 0) (insert_by cmp x ys)"
  using assms(2)
proof (induction ys)
  case Nil
  then show ?case by simp
next
  case (Cons y ys)
  have set: "set (insert_by cmp x ys) = insert x (set ys)"
    by (metis mset_insert_by set_mset_add_mset_insert set_mset_mset)
  from Cons assms(1) show ?case unfolding comparator_def by (auto simp: set)
qed

lemma sorted_js_sort: "comparator cmp \<Longrightarrow> sorted_wrt (\<lambda>x y. cmp x y \<le> 0) (js_sort cmp xs)"
  unfolding js_sort_def by (induction xs) (simp_all add: sorted_insert_by)

text \<open>Sorting what is sorted.\<close>

lemma js_sort_sorted: "sorted_wrt (\<lambda>x y. cmp x y \<le> 0) xs \<Longrightarrow> js_sort cmp xs = xs"
proof (induction xs)
  case Nil
  then show ?case by simp
next
  case (Cons x xs)
  then have "js_sort cmp (x # xs) = insert_by cmp x xs" by (simp add: js_sort_def)
  with Cons.prems show ?case by (cases xs) auto
qed

end
