(* ===== verification/Interfaces.thy ===== *)
theory Interfaces
  imports Prelude
begin

text \<open>
  The contracts that several components share, each as a locale with the lemmas its clients need.
  Every locale is interpreted on the definitions of the components that provide it:
  \<^item> \<open>invariant_machine\<close>: a state kept well formed by every operation (authentication store,
    stream controller, chat handler);
  \<^item> \<open>generation_guard\<close> and \<open>generation_machine\<close>: asynchronous callbacks stamped with the
    generation (or epoch) of the request that created them, ignored once it is superseded;
  \<^item> \<open>accumulator\<close>: a \<^verbatim>\<open>Map\<close> whose entries are summed up by \<^verbatim>\<open>map.get(k) ?? zero\<close>, \<^verbatim>\<open>+=\<close>
    and \<^verbatim>\<open>map.set\<close>;
  \<^item> \<open>normaliser\<close>: a clean-up function applied again and again to the same data.
\<close>

section \<open>State machines with an invariant\<close>

locale invariant_machine =
  fixes init :: 's
    and step :: "'e \<Rightarrow> 's \<Rightarrow> 's"
    and enabled :: "'e \<Rightarrow> bool"
    and inv :: "'s \<Rightarrow> bool"
  assumes init_inv: "inv init"
    and step_inv: "enabled e \<Longrightarrow> inv s \<Longrightarrow> inv (step e s)"
begin

lemma run_from: "inv s \<Longrightarrow> list_all enabled es \<Longrightarrow> inv (fold step es s)"
  by (induction es arbitrary: s) (simp_all add: step_inv)

lemma run_inv: "list_all enabled es \<Longrightarrow> inv (fold step es init)"
  by (rule run_from [OF init_inv])

end

section \<open>Generation-stamped callbacks\<close>

locale generation_guard =
  fixes stamp :: "'s \<Rightarrow> nat"
    and deliver :: "nat \<Rightarrow> 'c \<Rightarrow> 's \<Rightarrow> 's"
  assumes stale: "g \<noteq> stamp s \<Longrightarrow> deliver g c s = s"
begin

lemma stale_run:
  "(\<forall>(g, c) \<in> set cs. g \<noteq> stamp s) \<Longrightarrow> fold (\<lambda>(g, c). deliver g c) cs s = s"
  by (induction cs) (auto simp: stale)

end

text \<open>
  With actions that never lower the stamp, a superseded generation stays superseded: every callback
  it still delivers, now or later, can be left out of the run.
\<close>

datatype ('a, 'c) input = Act 'a | Callback nat 'c

fun feed :: "('a \<Rightarrow> 's \<Rightarrow> 's) \<Rightarrow> (nat \<Rightarrow> 'c \<Rightarrow> 's \<Rightarrow> 's) \<Rightarrow> ('a, 'c) input \<Rightarrow> 's \<Rightarrow> 's" where
  "feed act deliver (Act a) s = act a s"
| "feed act deliver (Callback g c) s = deliver g c s"

fun from_generation :: "nat \<Rightarrow> ('a, 'c) input \<Rightarrow> bool" where
  "from_generation g (Act a) = False"
| "from_generation g (Callback h c) = (h = g)"

locale generation_machine = generation_guard stamp deliver
  for stamp :: "'s \<Rightarrow> nat" and deliver :: "nat \<Rightarrow> 'c \<Rightarrow> 's \<Rightarrow> 's" +
  fixes act :: "'a \<Rightarrow> 's \<Rightarrow> 's"
  assumes act_mono: "stamp s \<le> stamp (act a s)"
    and deliver_mono: "stamp s \<le> stamp (deliver g c s)"
begin

lemma feed_mono: "stamp s \<le> stamp (feed act deliver i s)"
  by (cases i) (simp_all add: act_mono deliver_mono)

lemma run_mono: "stamp s \<le> stamp (fold (feed act deliver) is s)"
proof (induction "is" arbitrary: s)
  case Nil
  then show ?case by simp
next
  case (Cons i "is")
  from feed_mono [of s i] Cons [of "feed act deliver i s"] show ?case by simp
qed

lemma superseded_irrelevant:
  "g < stamp s \<Longrightarrow>
   fold (feed act deliver) is s = fold (feed act deliver) (filter (\<lambda>i. \<not> from_generation g i) is) s"
proof (induction "is" arbitrary: s)
  case Nil
  then show ?case by simp
next
  case (Cons i "is")
  have later: "g < stamp (feed act deliver i s)"
    using Cons.prems feed_mono [of s i] by simp
  show ?case
  proof (cases "from_generation g i")
    case True
    then obtain c where "i = Callback g c" by (cases i) auto
    with Cons.prems have "feed act deliver i s = s" by (simp add: stale)
    with True Cons.IH [OF Cons.prems] show ?thesis by simp
  next
    case False
    with Cons.IH [OF later] show ?thesis by simp
  qed
qed

end

section \<open>Accumulating maps\<close>

locale accumulator =
  fixes reading :: "'m \<Rightarrow> 'k \<Rightarrow> 'n::comm_monoid_add"
    and add_item :: "'x \<Rightarrow> 'm \<Rightarrow> 'm"
    and key :: "'x \<Rightarrow> 'k"
    and amount :: "'x \<Rightarrow> 'n"
  assumes reading_add:
    "reading (add_item x m) k = reading m k + (if key x = k then amount x else 0)"
begin

lemma reading_fold:
  "reading (fold add_item xs m) k = reading m k + (\<Sum>x\<leftarrow>xs. if key x = k then amount x else 0)"
  by (induction xs arbitrary: m) (simp_all add: reading_add add.assoc)

lemma total_fold:
  assumes "finite K"
  shows "(\<Sum>k\<in>K. reading (fold add_item xs m) k) =
    (\<Sum>k\<in>K. reading m k) + (\<Sum>x\<leftarrow>xs. if key x \<in> K then amount x else 0)"
proof (induction xs arbitrary: m)
  case Nil
  then show ?case by simp
next
  case (Cons x xs)
  have "(\<Sum>k\<in>K. reading (add_item x m) k) = (\<Sum>k\<in>K. reading m k) + (if key x \<in> K then amount x else 0)"
    using assms by (simp add: reading_add sum.distrib)
  with Cons show ?case by (simp add: add.assoc)
qed

end

section \<open>Normalisers\<close>

locale normaliser =
  fixes norm :: "'a \<Rightarrow> 'a"
  assumes idem: "norm (norm x) = norm x"
begin

lemma normal_iff: "(\<exists>x. y = norm x) \<longleftrightarrow> norm y = y"
  by (metis idem)

lemma iterate: "(norm ^^ Suc n) x = norm x"
  by (induction n) (simp_all add: idem)

end

end
