(* ===== verification/Param_Override.thy ===== *)
theory Param_Override
  imports Json_Indent Js_Coercion Interfaces
begin

text \<open>
  The parameter overrides of a channel
  (\<^verbatim>\<open>web/src/features/channels/components/dialogs/param-override-editor-dialog.tsx\<close>, the functions outside
  the component): the rules and their conditions, the tables that say which fields a mode has, reading a
  stored text into rules, the validation of the rules and the text that is stored again, and the texts
  behind the special editors for custom errors, pruned objects, synchronised fields and passed headers.

  Identifiers are drawn from a counter; \<open>clock n\<close> is what the clock shows at the \<open>n\<close>-th call, an arbitrary
  function.  A function that draws identifiers takes the counter and returns it increased, and \<open>None\<close> is
  the \<^verbatim>\<open>TypeError\<close> of reading a property of \<^verbatim>\<open>null\<close>.
\<close>

section \<open>Rules and modes\<close>

record ParamOverrideCondition =
  pc_id :: string
  pc_path :: string
  pc_mode :: string
  pc_value_text :: string
  pc_invert :: bool
  pc_pass_missing_key :: bool

record ParamOverrideOperation =
  po_id :: string
  po_description :: string
  po_path :: string
  po_mode :: string
  po_from :: string
  po_to :: string
  po_value_text :: string
  po_keep_origin :: bool
  po_logic :: string
  po_conditions :: "ParamOverrideCondition list"

text \<open>The option lists pair a value with its label.\<close>

definition OPERATION_MODE_OPTIONS :: "(string \<times> string) list" where
  "OPERATION_MODE_OPTIONS = [
      (''set'', ''Set Field''), (''delete'', ''Delete Field''), (''append'', ''Append to End''),
      (''prepend'', ''Prepend to Start''), (''copy'', ''Copy Field''), (''move'', ''Move Field''),
      (''replace'', ''String Replace''), (''regex_replace'', ''Regex Replace''),
      (''trim_prefix'', ''Trim Prefix''), (''trim_suffix'', ''Trim Suffix''),
      (''ensure_prefix'', ''Ensure Prefix''), (''ensure_suffix'', ''Ensure Suffix''),
      (''trim_space'', ''Trim Space''), (''to_lower'', ''To Lowercase''), (''to_upper'', ''To Uppercase''),
      (''return_error'', ''Return Custom Error''), (''prune_objects'', ''Prune Object Items''),
      (''pass_headers'', ''Pass Through Headers''), (''sync_fields'', ''Sync Fields''),
      (''set_header'', ''Set Request Header''), (''delete_header'', ''Delete Request Header''),
      (''copy_header'', ''Copy Request Header''), (''move_header'', ''Move Request Header'')]"

definition OPERATION_MODE_VALUES :: "string list" where
  "OPERATION_MODE_VALUES = map fst OPERATION_MODE_OPTIONS"

definition OPERATION_MODE_LABEL_MAP :: "(string \<times> string) list" where
  "OPERATION_MODE_LABEL_MAP = fold (\<lambda>(v, l) acc. AList.update v l acc) OPERATION_MODE_OPTIONS []"

definition CONDITION_MODE_OPTIONS :: "(string \<times> string) list" where
  "CONDITION_MODE_OPTIONS = [
      (''full'', ''Exact Match''), (''prefix'', ''Prefix''), (''suffix'', ''Suffix''),
      (''contains'', ''Contains''), (''gt'', ''Greater Than''), (''gte'', ''Greater Than or Equal''),
      (''lt'', ''Less Than''), (''lte'', ''Less Than or Equal'')]"

definition CONDITION_MODE_VALUES :: "string list" where
  "CONDITION_MODE_VALUES = map fst CONDITION_MODE_OPTIONS"

text \<open>The fields a mode has.  A missing entry reads as false; \<^verbatim>\<open>to\<close> is also told apart from an explicit
  \<^verbatim>\<open>false\<close>.\<close>

record mode_meta =
  mm_path :: bool
  mm_pathOptional :: bool
  mm_value :: bool
  mm_from :: bool
  mm_to :: "bool option"
  mm_keepOrigin :: bool
  mm_pathAlias :: bool

definition no_meta :: mode_meta where
  "no_meta = \<lparr>mm_path = False, mm_pathOptional = False, mm_value = False, mm_from = False, mm_to = None,
     mm_keepOrigin = False, mm_pathAlias = False\<rparr>"

definition MODE_META :: "(string \<times> mode_meta) list" where
  "MODE_META = [
      (''delete'', no_meta\<lparr>mm_path := True\<rparr>),
      (''set'', no_meta\<lparr>mm_path := True, mm_value := True, mm_keepOrigin := True\<rparr>),
      (''append'', no_meta\<lparr>mm_path := True, mm_value := True, mm_keepOrigin := True\<rparr>),
      (''prepend'', no_meta\<lparr>mm_path := True, mm_value := True, mm_keepOrigin := True\<rparr>),
      (''copy'', no_meta\<lparr>mm_from := True, mm_to := Some True\<rparr>),
      (''move'', no_meta\<lparr>mm_from := True, mm_to := Some True\<rparr>),
      (''replace'', no_meta\<lparr>mm_path := True, mm_from := True, mm_to := Some False\<rparr>),
      (''regex_replace'', no_meta\<lparr>mm_path := True, mm_from := True, mm_to := Some False\<rparr>),
      (''trim_prefix'', no_meta\<lparr>mm_path := True, mm_value := True\<rparr>),
      (''trim_suffix'', no_meta\<lparr>mm_path := True, mm_value := True\<rparr>),
      (''ensure_prefix'', no_meta\<lparr>mm_path := True, mm_value := True\<rparr>),
      (''ensure_suffix'', no_meta\<lparr>mm_path := True, mm_value := True\<rparr>),
      (''trim_space'', no_meta\<lparr>mm_path := True\<rparr>),
      (''to_lower'', no_meta\<lparr>mm_path := True\<rparr>),
      (''to_upper'', no_meta\<lparr>mm_path := True\<rparr>),
      (''return_error'', no_meta\<lparr>mm_value := True\<rparr>),
      (''prune_objects'', no_meta\<lparr>mm_pathOptional := True, mm_value := True\<rparr>),
      (''pass_headers'', no_meta\<lparr>mm_value := True, mm_keepOrigin := True\<rparr>),
      (''sync_fields'', no_meta\<lparr>mm_from := True, mm_to := Some True\<rparr>),
      (''set_header'', no_meta\<lparr>mm_path := True, mm_value := True, mm_keepOrigin := True\<rparr>),
      (''delete_header'', no_meta\<lparr>mm_path := True\<rparr>),
      (''copy_header'', no_meta\<lparr>mm_from := True, mm_to := Some True, mm_keepOrigin := True, mm_pathAlias := True\<rparr>),
      (''move_header'', no_meta\<lparr>mm_from := True, mm_to := Some True, mm_keepOrigin := True, mm_pathAlias := True\<rparr>)]"

text \<open>\<^verbatim>\<open>MODE_META[mode] || MODE_META.set\<close>, and \<^verbatim>\<open>mode || 'set'\<close>.\<close>

definition set_meta :: mode_meta where
  "set_meta = no_meta\<lparr>mm_path := True, mm_value := True, mm_keepOrigin := True\<rparr>"

definition meta_of :: "string \<Rightarrow> mode_meta" where
  "meta_of mode = (case map_of MODE_META mode of Some m \<Rightarrow> m | None \<Rightarrow> set_meta)"

definition mode_or_set :: "string \<Rightarrow> string" where
  "mode_or_set mode = (if mode = [] then ''set'' else mode)"

definition VALUE_REQUIRED_MODES :: "string list" where
  "VALUE_REQUIRED_MODES = [
      ''trim_prefix'', ''trim_suffix'', ''ensure_prefix'', ''ensure_suffix'', ''set_header'',
      ''return_error'', ''prune_objects'', ''pass_headers'']"

definition FROM_REQUIRED_MODES :: "string list" where
  "FROM_REQUIRED_MODES = [
      ''copy'', ''move'', ''replace'', ''regex_replace'', ''copy_header'', ''move_header'', ''sync_fields'']"

definition TO_REQUIRED_MODES :: "string list" where
  "TO_REQUIRED_MODES = [
      ''copy'', ''move'', ''copy_header'', ''move_header'', ''sync_fields'']"

definition MODE_DESCRIPTIONS :: "(string \<times> string) list" where
  "MODE_DESCRIPTIONS = [
      (''set'', ''Write value to the target field''), (''delete'', ''Remove the target field''),
      (''append'', ''Append value to array / string / object end''),
      (''prepend'', ''Prepend value to array / string / object start''),
      (''copy'', ''Copy source field to target field''), (''move'', ''Move source field to target field''),
      (''replace'', ''Do string replacement in the target field''),
      (''regex_replace'', ''Do regex replacement in the target field''),
      (''trim_prefix'', ''Remove string prefix''), (''trim_suffix'', ''Remove string suffix''),
      (''ensure_prefix'', ''Ensure the string has a specified prefix''),
      (''ensure_suffix'', ''Ensure the string has a specified suffix''),
      (''trim_space'', ''Trim leading/trailing whitespace''),
      (''to_lower'', ''Convert string to lowercase''), (''to_upper'', ''Convert string to uppercase''),
      (''return_error'', ''Return a custom error immediately''),
      (''prune_objects'', ''Prune object items by conditions''),
      (''pass_headers'', ''Pass specified request headers to upstream''),
      (''sync_fields'', ''Auto-fill when one field exists and another is missing''),
      (''set_header'', ''Set runtime request header: override entire value, or manipulate comma-separated tokens''),
      (''delete_header'', ''Delete a runtime request header''), (''copy_header'', ''Copy a request header''),
      (''move_header'', ''Move a request header'')]"

definition SYNC_TARGET_TYPE_OPTIONS :: "(string \<times> string) list" where
  "SYNC_TARGET_TYPE_OPTIONS = [
      (''json'', ''Request Body Field''), (''header'', ''Request Header Field'')]"

section \<open>Templates\<close>

definition LEGACY_TEMPLATE :: js_value where
  "LEGACY_TEMPLATE = JObject [(''temperature'', JNumber (Fin 0)), (''max_tokens'', JNumber (Fin 1000))]"

definition OPERATION_TEMPLATE :: js_value where
  "OPERATION_TEMPLATE = JObject [(''operations'', JArray [JObject
     [(''description'', JString ''Set default temperature for openai/* models.''),
      (''path'', JString ''temperature''),
      (''mode'', JString ''set''),
      (''value'', JNumber (Fin (7 / 10))),
      (''conditions'', JArray [JObject [(''path'', JString ''model''), (''mode'', JString ''prefix''),
         (''value'', JString ''openai/'')]]),
      (''logic'', JString ''AND'')]])]"

definition HEADER_PASSTHROUGH_TEMPLATE :: js_value where
  "HEADER_PASSTHROUGH_TEMPLATE = JObject [(''operations'', JArray [JObject
     [(''description'', JString ''Pass through X-Request-Id header to upstream.''),
      (''mode'', JString ''pass_headers''),
      (''value'', JArray [JString ''X-Request-Id'']),
      (''keep_origin'', JBool True)]])]"

definition model_condition :: "string \<Rightarrow> string \<Rightarrow> js_value" where
  "model_condition mode value =
     JObject [(''path'', JString ''original_model''), (''mode'', JString mode), (''value'', JString value)]"

definition GEMINI_IMAGE_4K_TEMPLATE :: js_value where
  "GEMINI_IMAGE_4K_TEMPLATE = JObject [(''operations'', JArray [JObject
     [(''description'', JString ''Set imageSize to 4K when model contains gemini/image and ends with 4k.''),
      (''mode'', JString ''set''),
      (''path'', JString ''generationConfig.imageConfig.imageSize''),
      (''value'', JString ''4K''),
      (''conditions'', JArray [model_condition ''contains'' ''gemini'', model_condition ''contains'' ''image'',
         model_condition ''suffix'' ''4k'']),
      (''logic'', JString ''AND'')]])]"

definition CODEX_CLI_HEADER_PASSTHROUGH_HEADERS :: "string list" where
  "CODEX_CLI_HEADER_PASSTHROUGH_HEADERS = [
      ''Originator'', ''Session_id'', ''Thread_id'', ''Session-Id'', ''Thread-Id'', ''X-Client-Request-Id'',
      ''User-Agent'', ''X-Codex-Beta-Features'', ''X-Codex-Turn-State'', ''X-Codex-Turn-Metadata'',
      ''X-Codex-Window-Id'', ''X-Codex-Parent-Thread-Id'', ''X-OpenAI-Subagent'',
      ''X-OpenAI-Memgen-Request'', ''X-ResponsesAPI-Include-Timing-Metrics'',
      ''X-OpenAI-Internal-Codex-Responses-Lite'']"

definition CLAUDE_CLI_HEADER_PASSTHROUGH_HEADERS :: "string list" where
  "CLAUDE_CLI_HEADER_PASSTHROUGH_HEADERS = [
      ''X-Stainless-Arch'', ''X-Stainless-Lang'', ''X-Stainless-Os'', ''X-Stainless-Package-Version'',
      ''X-Stainless-Retry-Count'', ''X-Stainless-Runtime'', ''X-Stainless-Runtime-Version'',
      ''X-Stainless-Timeout'', ''User-Agent'', ''X-App'', ''Anthropic-Beta'',
      ''Anthropic-Dangerous-Direct-Browser-Access'', ''Anthropic-Version'']"

definition buildPassHeadersTemplate :: "string list \<Rightarrow> js_value" where
  "buildPassHeadersTemplate headers = JObject [(''operations'', JArray [JObject
     [(''mode'', JString ''pass_headers''), (''value'', JArray (map JString headers)),
      (''keep_origin'', JBool True)]])]"

definition CODEX_CLI_HEADER_PASSTHROUGH_TEMPLATE :: js_value where
  "CODEX_CLI_HEADER_PASSTHROUGH_TEMPLATE = JObject [(''operations'', JArray [JObject
     [(''mode'', JString ''pass_headers''), (''value'', JArray (map JString CODEX_CLI_HEADER_PASSTHROUGH_HEADERS)),
      (''keep_origin'', JBool True)]])]"

definition CLAUDE_CLI_HEADER_PASSTHROUGH_TEMPLATE :: js_value where
  "CLAUDE_CLI_HEADER_PASSTHROUGH_TEMPLATE = buildPassHeadersTemplate CLAUDE_CLI_HEADER_PASSTHROUGH_HEADERS"

definition AWS_BEDROCK_ANTHROPIC_COMPAT_TEMPLATE :: js_value where
  "AWS_BEDROCK_ANTHROPIC_COMPAT_TEMPLATE = JObject [(''operations'', JArray
     [JObject
        [(''description'', JString ''Normalize anthropic-beta header tokens for Bedrock compatibility.''),
         (''mode'', JString ''set_header''),
         (''path'', JString ''anthropic-beta''),
         (''value'', JObject [
              (''advanced-tool-use-2025-11-20'', JString ''tool-search-tool-2025-10-19''),
              (''bash_20241022'', JNull), (''bash_20250124'', JNull), (''code-execution-2025-08-25'', JNull),
              (''compact-2026-01-12'', JString ''compact-2026-01-12''),
              (''computer-use-2025-01-24'', JString ''computer-use-2025-01-24''),
              (''computer-use-2025-11-24'', JString ''computer-use-2025-11-24''),
              (''context-1m-2025-08-07'', JString ''context-1m-2025-08-07''),
              (''context-management-2025-06-27'', JString ''context-management-2025-06-27''),
              (''effort-2025-11-24'', JNull), (''fast-mode-2026-02-01'', JNull),
              (''files-api-2025-04-14'', JNull), (''fine-grained-tool-streaming-2025-05-14'', JNull),
              (''interleaved-thinking-2025-05-14'', JString ''interleaved-thinking-2025-05-14''),
              (''mcp-client-2025-11-20'', JNull), (''mcp-client-2025-04-04'', JNull),
              (''mcp-servers-2025-12-04'', JNull), (''output-128k-2025-02-19'', JNull),
              (''structured-output-2024-03-01'', JNull), (''prompt-caching-scope-2026-01-05'', JNull),
              (''skills-2025-10-02'', JNull), (''structured-outputs-2025-11-13'', JNull),
              (''text_editor_20241022'', JNull), (''text_editor_20250124'', JNull),
              (''token-efficient-tools-2025-02-19'', JNull),
              (''tool-search-tool-2025-10-19'', JString ''tool-search-tool-2025-10-19''),
              (''web-fetch-2025-09-10'', JNull), (''web-search-2025-03-05'', JNull),
              (''oauth-2025-04-20'', JNull)])],
      JObject
        [(''description'', JString ''Remove all tools[*].custom.input_examples before upstream relay.''),
         (''mode'', JString ''delete''),
         (''path'', JString ''tools.*.custom.input_examples'')]])]"

datatype template_kind = OperationsKind | LegacyKind

record TemplatePresetConfig =
  tp_label :: string
  tp_kind :: template_kind
  tp_payload :: js_value

definition OPERATIONS_DEFAULT :: TemplatePresetConfig where
  "OPERATIONS_DEFAULT = \<lparr>tp_label = ''New Format Template'', tp_kind = OperationsKind, tp_payload = OPERATION_TEMPLATE\<rparr>"

definition TEMPLATE_PRESET_CONFIG :: "(string \<times> TemplatePresetConfig) list" where
  "TEMPLATE_PRESET_CONFIG =
     [(''operations_default'', OPERATIONS_DEFAULT),
      (''legacy_default'', \<lparr>tp_label = ''Legacy Format Template'', tp_kind = LegacyKind,
         tp_payload = LEGACY_TEMPLATE\<rparr>),
      (''pass_headers_auth'', \<lparr>tp_label = ''Header Passthrough (X-Request-Id)'', tp_kind = OperationsKind,
         tp_payload = HEADER_PASSTHROUGH_TEMPLATE\<rparr>),
      (''gemini_image_4k'', \<lparr>tp_label = ''Gemini Image 4K'', tp_kind = OperationsKind,
         tp_payload = GEMINI_IMAGE_4K_TEMPLATE\<rparr>),
      (''claude_cli_headers_passthrough'', \<lparr>tp_label = ''Claude CLI Header Passthrough'',
         tp_kind = OperationsKind, tp_payload = CLAUDE_CLI_HEADER_PASSTHROUGH_TEMPLATE\<rparr>),
      (''codex_cli_headers_passthrough'', \<lparr>tp_label = ''Codex CLI Header Passthrough'',
         tp_kind = OperationsKind, tp_payload = CODEX_CLI_HEADER_PASSTHROUGH_TEMPLATE\<rparr>),
      (''aws_bedrock_anthropic_beta_override'', \<lparr>tp_label = ''AWS Bedrock Claude Compat'',
         tp_kind = OperationsKind, tp_payload = AWS_BEDROCK_ANTHROPIC_COMPAT_TEMPLATE\<rparr>)]"

section \<open>Identifiers and values\<close>

type_synonym clock = "nat \<Rightarrow> nat"

definition nextLocalId :: "clock \<Rightarrow> nat \<Rightarrow> string \<times> nat" where
  "nextLocalId clock seed = (''po_'' @ nat_digits (clock seed) @ ''_'' @ nat_digits seed, Suc seed)"

text \<open>\<^verbatim>\<open>items.map(f)\<close> for an \<open>f\<close> that draws identifiers and may raise.\<close>

fun map_ids :: "('a \<Rightarrow> nat \<Rightarrow> 'b option \<times> nat) \<Rightarrow> 'a list \<Rightarrow> nat \<Rightarrow> 'b list option \<times> nat" where
  "map_ids f [] n = (Some [], n)"
| "map_ids f (x # xs) n =
     (case f x n of
        (None, m) \<Rightarrow> (None, m)
      | (Some y, m) \<Rightarrow>
          (case map_ids f xs m of
             (None, k) \<Rightarrow> (None, k)
           | (Some ys, k) \<Rightarrow> (Some (y # ys), k)))"

definition toValueText :: "js_value \<Rightarrow> string" where
  "toValueText value =
     (case value of JUndefined \<Rightarrow> [] | JString s \<Rightarrow> s | _ \<Rightarrow> json_text value)"

definition parseLooseValue :: "string \<Rightarrow> js_value" where
  "parseLooseValue valueText =
     (let raw = trim valueText in
      if raw = [] then JString []
      else (case json_parse raw of Some v \<Rightarrow> v | None \<Rightarrow> JString raw))"

definition verifyJSON :: "string \<Rightarrow> bool" where
  "verifyJSON s \<longleftrightarrow> json_parse s \<noteq> None"

text \<open>\<^verbatim>\<open>typeof v.k === 'string' ? v.k : ''\<close>, \<^verbatim>\<open>values.has(v) ? v : d\<close>, \<^verbatim>\<open>a || b\<close>, a default parameter,
  and \<^verbatim>\<open>payload.k = v\<close>.\<close>

definition text_field :: "js_value \<Rightarrow> string \<Rightarrow> string" where
  "text_field v k = (case js_get v k of JString s \<Rightarrow> s | _ \<Rightarrow> [])"

definition known_or :: "string list \<Rightarrow> js_value \<Rightarrow> string \<Rightarrow> string" where
  "known_or values v d = (case v of JString s \<Rightarrow> if s \<in> set values then s else d | _ \<Rightarrow> d)"

definition value_or :: "js_value \<Rightarrow> js_value \<Rightarrow> js_value" where
  "value_or a b = (if truthy a then a else b)"

definition given :: "js_value \<Rightarrow> js_value" where
  "given v = (if v = JUndefined then JObject [] else v)"

definition put :: "string \<Rightarrow> js_value \<Rightarrow> (string \<times> js_value) list \<Rightarrow> (string \<times> js_value) list" where
  "put k v payload = AList.update k v payload"

definition plain_object :: "js_value \<Rightarrow> bool" where
  "plain_object v \<longleftrightarrow> (case v of JObject _ \<Rightarrow> True | _ \<Rightarrow> False)"

section \<open>Reading rules\<close>

definition normalizeCondition :: "clock \<Rightarrow> js_value \<Rightarrow> nat \<Rightarrow> ParamOverrideCondition option \<times> nat" where
  "normalizeCondition clock value n =
     (let condition = given value; (i, n') = nextLocalId clock n in
      (if condition = JNull then None
       else Some \<lparr>pc_id = i,
              pc_path = text_field condition ''path'',
              pc_mode = known_or CONDITION_MODE_VALUES (js_get condition ''mode'') ''full'',
              pc_value_text = toValueText (js_get condition ''value''),
              pc_invert = (js_get condition ''invert'' = JBool True),
              pc_pass_missing_key = (js_get condition ''pass_missing_key'' = JBool True)\<rparr>,
       n'))"

definition createDefaultCondition :: "clock \<Rightarrow> nat \<Rightarrow> ParamOverrideCondition option \<times> nat" where
  "createDefaultCondition clock n = normalizeCondition clock (JObject []) n"

definition normalizeOperation :: "clock \<Rightarrow> js_value \<Rightarrow> nat \<Rightarrow> ParamOverrideOperation option \<times> nat" where
  "normalizeOperation clock value n =
     (let operation = given value; (i, n') = nextLocalId clock n in
      if operation = JNull then (None, n')
      else
        (case (case js_get operation ''conditions'' of
                 JArray cs \<Rightarrow> map_ids (normalizeCondition clock) cs n'
               | _ \<Rightarrow> (Some [], n')) of
           (None, n'') \<Rightarrow> (None, n'')
         | (Some conditions, n'') \<Rightarrow>
             (Some \<lparr>po_id = i,
                po_description = text_field operation ''description'',
                po_path = text_field operation ''path'',
                po_mode = known_or OPERATION_MODE_VALUES (js_get operation ''mode'') ''set'',
                po_from = text_field operation ''from'',
                po_to = text_field operation ''to'',
                po_value_text = toValueText (js_get operation ''value''),
                po_keep_origin = (js_get operation ''keep_origin'' = JBool True),
                po_logic = (if upper (to_text (value_or (js_get operation ''logic'') (JString ''OR''))) = ''AND''
                            then ''AND'' else ''OR''),
                po_conditions = conditions\<rparr>, n'')))"

text \<open>\<^verbatim>\<open>createDefaultOperation\<close> passes an object, so it never raises.\<close>

definition createDefaultOperation :: "clock \<Rightarrow> nat \<Rightarrow> ParamOverrideOperation \<times> nat" where
  "createDefaultOperation clock n =
     (case normalizeOperation clock (JObject [(''mode'', JString ''set'')]) n of (r, n') \<Rightarrow> (the r, n'))"

section \<open>The list of rules\<close>

datatype drop_position = Before | After

definition reorderOperations ::
  "ParamOverrideOperation list \<Rightarrow> string \<Rightarrow> string \<Rightarrow> drop_position \<Rightarrow> ParamOverrideOperation list" where
  "reorderOperations ops sourceId targetId position =
     (if sourceId = [] \<or> targetId = [] \<or> sourceId = targetId then ops
      else (case find_index (\<lambda>ob. po_id ob = sourceId) ops of
              None \<Rightarrow> ops
            | Some srcIdx \<Rightarrow>
                let moved = ops ! srcIdx;
                    rest = take srcIdx ops @ drop (Suc srcIdx) ops
                in (case find_index (\<lambda>ob. po_id ob = targetId) rest of
                      None \<Rightarrow> ops
                    | Some idx \<Rightarrow>
                        let insertIdx = (if position = After then idx + 1 else idx)
                        in take insertIdx rest @ [moved] @ drop insertIdx rest)))"

definition isOperationBlank :: "ParamOverrideOperation \<Rightarrow> bool" where
  "isOperationBlank operation \<longleftrightarrow>
     (let hasCondition = list_ex (\<lambda>c. trim (pc_path c) \<noteq> [] \<or> trim (pc_value_text c) \<noteq> [] \<or> pc_mode c \<noteq> ''full''
            \<or> pc_invert c \<or> pc_pass_missing_key c) (po_conditions operation)
      in po_mode operation = ''set'' \<and> trim (po_path operation) = [] \<and> trim (po_from operation) = [] \<and>
         trim (po_to operation) = [] \<and> trim (po_value_text operation) = [] \<and>
         \<not> po_keep_origin operation \<and> \<not> hasCondition)"

definition first_text :: "string list \<Rightarrow> string" where
  "first_text ss = foldr (\<lambda>s rest. if s = [] then rest else s) ss ''-''"

definition getOperationSummary :: "ParamOverrideOperation \<Rightarrow> nat \<Rightarrow> string" where
  "getOperationSummary operation index =
     (let mode = mode_or_set (po_mode operation);
          modeLabel = or_text (map_of OPERATION_MODE_LABEL_MAP mode) mode;
          path = trim (po_path operation);
          from' = trim (po_from operation);
          to' = trim (po_to operation)
      in nat_digits (index + 1) @ ''. '' @ modeLabel @ '' '' @ [CHR 0xB7] @ '' '' @
         (if mode = ''sync_fields'' then first_text [from', to'] else first_text [path, from', to']))"

definition getModeTagTailwind :: "string \<Rightarrow> string" where
  "getModeTagTailwind mode =
     (if str_includes ''header'' mode
      then ''bg-cyan-500/15 text-cyan-700 dark:text-cyan-300 border-cyan-500/20''
      else if str_includes ''replace'' mode \<or> str_includes ''trim'' mode
      then ''bg-violet-500/15 text-violet-700 dark:text-violet-300 border-violet-500/20''
      else if str_includes ''copy'' mode \<or> str_includes ''move'' mode
      then ''bg-blue-500/15 text-blue-700 dark:text-blue-300 border-blue-500/20''
      else if str_includes ''error'' mode \<or> str_includes ''prune'' mode
      then ''bg-red-500/15 text-red-700 dark:text-red-300 border-red-500/20''
      else if str_includes ''sync'' mode
      then ''bg-green-500/15 text-green-700 dark:text-green-300 border-green-500/20''
      else ''bg-muted text-muted-foreground'')"

definition getModePathLabel :: "string \<Rightarrow> string" where
  "getModePathLabel mode =
     (if mode = ''set_header'' \<or> mode = ''delete_header'' then ''Header Name''
      else if mode = ''prune_objects'' then ''Target Path (optional)''
      else ''Target Field Path'')"

definition getModePathPlaceholder :: "string \<Rightarrow> string" where
  "getModePathPlaceholder mode =
     (if mode = ''set_header'' then ''Authorization''
      else if mode = ''delete_header'' then ''X-Debug-Mode''
      else if mode = ''prune_objects'' then ''messages''
      else ''temperature'')"

definition getModeFromLabel :: "string \<Rightarrow> string" where
  "getModeFromLabel mode =
     (if mode = ''replace'' then ''Match Text''
      else if mode = ''regex_replace'' then ''Regex Pattern''
      else if mode = ''copy_header'' \<or> mode = ''move_header'' then ''Source Header''
      else ''Source Field'')"

definition getModeFromPlaceholder :: "string \<Rightarrow> string" where
  "getModeFromPlaceholder mode =
     (if mode = ''replace'' then ''openai/''
      else if mode = ''regex_replace'' then ''^gpt-''
      else if mode = ''copy_header'' \<or> mode = ''move_header'' then ''Authorization''
      else ''model'')"

definition getModeToLabel :: "string \<Rightarrow> string" where
  "getModeToLabel mode =
     (if mode = ''replace'' \<or> mode = ''regex_replace'' then ''Replace With''
      else if mode = ''copy_header'' \<or> mode = ''move_header'' then ''Target Header''
      else ''Target Field'')"

definition getModeToPlaceholder :: "string \<Rightarrow> string" where
  "getModeToPlaceholder mode =
     (if mode = ''replace'' then ''(leave empty to delete)''
      else if mode = ''regex_replace'' then ''openai/gpt-''
      else if mode = ''copy_header'' \<or> mode = ''move_header'' then ''X-Upstream-Auth''
      else ''original_model'')"

definition affix_modes :: "string list" where
  "affix_modes = [''trim_prefix'', ''trim_suffix'', ''ensure_prefix'', ''ensure_suffix'']"

definition getModeValueLabel :: "string \<Rightarrow> string" where
  "getModeValueLabel mode =
     (if mode = ''set_header'' then ''Header Value (supports string or JSON mapping)''
      else if mode = ''pass_headers'' then ''Pass-through Headers (comma-separated or JSON array)''
      else if mode \<in> set affix_modes then ''Prefix/Suffix Text''
      else if mode = ''prune_objects'' then ''Prune Rule (string or JSON object)''
      else ''Value (supports JSON or plain text)'')"

definition getModeValuePlaceholder :: "string \<Rightarrow> string" where
  "getModeValuePlaceholder mode =
     (if mode = ''set_header'' then ''Bearer sk-xxx''
      else if mode = ''pass_headers'' then ''Authorization, X-Request-Id''
      else if mode \<in> set affix_modes then ''openai/''
      else if mode = ''prune_objects'' then [CHR ''{'', CHR 0x22] @ ''type'' @ [CHR 0x22, CHR '':'', CHR 0x22] @
        ''redacted_thinking'' @ [CHR 0x22, CHR ''}'']
      else ''0.7'')"

section \<open>Ends of a synchronisation\<close>

record sync_target =
  st_type :: string
  st_key :: string

definition parseSyncTargetSpec :: "string \<Rightarrow> sync_target" where
  "parseSyncTargetSpec spec =
     (let raw = trim spec in
      if raw = [] then \<lparr>st_type = ''json'', st_key = []\<rparr>
      else (case index_of '':'' raw of
              None \<Rightarrow> \<lparr>st_type = ''json'', st_key = raw\<rparr>
            | Some idx \<Rightarrow>
                let prefix = lower (trim (take idx raw));
                    key = trim (drop (idx + 1) raw)
                in if prefix = ''header'' then \<lparr>st_type = ''header'', st_key = key\<rparr>
                   else \<lparr>st_type = ''json'', st_key = key\<rparr>))"

definition buildSyncTargetSpec :: "string \<Rightarrow> string \<Rightarrow> string" where
  "buildSyncTargetSpec type key =
     (let normalizedType = (if type = ''header'' then ''header'' else ''json'');
          normalizedKey = trim key
      in if normalizedKey = [] then [] else normalizedType @ '':'' @ normalizedKey)"

section \<open>Custom errors\<close>

record ReturnErrorDraft =
  re_message :: string
  re_statusCode :: js_number
  re_code :: string
  re_type :: string
  re_skipRetry :: bool
  re_simpleMode :: bool

definition return_error_defaults :: ReturnErrorDraft where
  "return_error_defaults =
     \<lparr>re_message = [], re_statusCode = Fin 400, re_code = [], re_type = [], re_skipRetry = True,
      re_simpleMode = True\<rparr>"

text \<open>\<^verbatim>\<open>Number.isInteger(n) && n >= 100 && n <= 599 ? n : 400\<close>.\<close>

definition status_or_400 :: "js_number \<Rightarrow> js_number" where
  "status_or_400 n =
     (case n of Fin r \<Rightarrow> if of_int \<lfloor>r\<rfloor> = r \<and> 100 \<le> r \<and> r \<le> 599 then Fin r else Fin 400 | _ \<Rightarrow> Fin 400)"

definition parseReturnErrorDraft :: "string \<Rightarrow> ReturnErrorDraft" where
  "parseReturnErrorDraft valueText =
     (let raw = trim valueText;
          plain = return_error_defaults\<lparr>re_message := raw, re_simpleMode := True\<rparr>
      in if raw = [] then return_error_defaults
         else (case json_parse raw of
                 None \<Rightarrow> plain
               | Some parsed \<Rightarrow>
                   if plain_object parsed then
                     (let statusRaw = (if js_get parsed ''status_code'' \<noteq> JUndefined
                                       then js_get parsed ''status_code'' else js_get parsed ''status'')
                      in \<lparr>re_message = trim (to_text (value_or (js_get parsed ''message'')
                              (value_or (js_get parsed ''msg'') (JString [])))),
                          re_statusCode = status_or_400 (to_number statusRaw),
                          re_code = trim (to_text (value_or (js_get parsed ''code'') (JString []))),
                          re_type = trim (to_text (value_or (js_get parsed ''type'') (JString []))),
                          re_skipRetry = (js_get parsed ''skip_retry'' \<noteq> JBool False),
                          re_simpleMode = False\<rparr>)
                   else plain))"

definition buildReturnErrorValueText :: "ReturnErrorDraft \<Rightarrow> string" where
  "buildReturnErrorValueText draft =
     (let message = trim (re_message draft) in
      if re_simpleMode draft then message
      else let code = trim (re_code draft);
               type = trim (re_type draft);
               p0 = [(''message'', JString message),
                     (''status_code'', JNumber (status_or_400 (re_statusCode draft)))];
               p1 = (if code = [] then p0 else put ''code'' (JString code) p0);
               p2 = (if type = [] then p1 else put ''type'' (JString type) p1);
               p3 = (if \<not> re_skipRetry draft then put ''skip_retry'' (JBool False) p2 else p2)
           in json_text (JObject p3))"

section \<open>Pruned objects\<close>

record PruneRule =
  pr_id :: string
  pr_path :: string
  pr_mode :: string
  pr_value_text :: string
  pr_invert :: bool
  pr_pass_missing_key :: bool

record PruneObjectsDraft =
  pd_simpleMode :: bool
  pd_typeText :: string
  pd_logic :: string
  pd_recursive :: bool
  pd_rules :: "PruneRule list"

definition normalizePruneRule :: "clock \<Rightarrow> js_value \<Rightarrow> nat \<Rightarrow> PruneRule option \<times> nat" where
  "normalizePruneRule clock value n =
     (let rule = given value; (i, n') = nextLocalId clock n in
      (if rule = JNull then None
       else Some \<lparr>pr_id = i,
              pr_path = text_field rule ''path'',
              pr_mode = known_or CONDITION_MODE_VALUES (js_get rule ''mode'') ''full'',
              pr_value_text = toValueText (js_get rule ''value''),
              pr_invert = (js_get rule ''invert'' = JBool True),
              pr_pass_missing_key = (js_get rule ''pass_missing_key'' = JBool True)\<rparr>,
       n'))"

definition prune_defaults :: PruneObjectsDraft where
  "prune_defaults =
     \<lparr>pd_simpleMode = True, pd_typeText = [], pd_logic = ''AND'', pd_recursive = True, pd_rules = []\<rparr>"

text \<open>The objects the rules are read from, in the order of the pushes: the entries of \<^verbatim>\<open>where\<close>, then
  \<^verbatim>\<open>conditions\<close>, a list of objects or an object.\<close>

definition entry_rules :: "js_value \<Rightarrow> js_value list" where
  "entry_rules v =
     (case v of
        JObject fs \<Rightarrow> map (\<lambda>(path, value). JObject [(''path'', JString path), (''mode'', JString ''full''), (''value'', value)]) fs
      | _ \<Rightarrow> [])"

definition rule_sources :: "js_value \<Rightarrow> js_value list" where
  "rule_sources parsed =
     entry_rules (js_get parsed ''where'') @
     (case js_get parsed ''conditions'' of
        JArray items \<Rightarrow> filter (\<lambda>item. truthy item \<and> is_object item) items
      | v \<Rightarrow> entry_rules v)"

definition parsePruneObjectsDraft :: "clock \<Rightarrow> string \<Rightarrow> nat \<Rightarrow> PruneObjectsDraft \<times> nat" where
  "parsePruneObjectsDraft clock valueText n =
     (let raw = trim valueText in
      if raw = [] then (prune_defaults, n)
      else (case json_parse raw of
              None \<Rightarrow> (prune_defaults\<lparr>pd_typeText := raw\<rparr>, n)
            | Some (JString s) \<Rightarrow> (prune_defaults\<lparr>pd_typeText := trim s\<rparr>, n)
            | Some parsed \<Rightarrow>
                if plain_object parsed then
                  (case map_ids (normalizePruneRule clock) (rule_sources parsed) n of
                     (None, n') \<Rightarrow> (prune_defaults\<lparr>pd_typeText := raw\<rparr>, n')
                   | (Some rules, n') \<Rightarrow>
                       let hasAdvancedFields = list_ex (\<lambda>k. js_get parsed k \<noteq> JUndefined)
                             [''logic'', ''recursive'', ''where'', ''conditions'']
                       in (\<lparr>pd_simpleMode = (\<not> hasAdvancedFields),
                            pd_typeText = (if js_get parsed ''type'' = JUndefined then []
                              else trim (to_text (js_get parsed ''type''))),
                            pd_logic = (if upper (to_text (value_or (js_get parsed ''logic'') (JString ''AND''))) = ''OR''
                              then ''OR'' else ''AND''),
                            pd_recursive = (js_get parsed ''recursive'' \<noteq> JBool False),
                            pd_rules = rules\<rparr>, n'))
                else (prune_defaults\<lparr>pd_typeText :=
                        trim (if parsed = JUndefined \<or> parsed = JNull then [] else to_text parsed)\<rparr>, n)))"

definition pruneConditionPayload :: "PruneRule \<Rightarrow> js_value" where
  "pruneConditionPayload rule =
     (let p0 = [(''path'', JString (trim (pr_path rule))),
                (''mode'', JString (if pr_mode rule \<in> set CONDITION_MODE_VALUES then pr_mode rule else ''full''))];
          valueRaw = trim (pr_value_text rule);
          p1 = (if valueRaw \<noteq> [] then put ''value'' (parseLooseValue valueRaw) p0 else p0);
          p2 = (if pr_invert rule then put ''invert'' (JBool True) p1 else p1);
          p3 = (if pr_pass_missing_key rule then put ''pass_missing_key'' (JBool True) p2 else p2)
      in JObject p3)"

definition buildPruneObjectsValueText :: "PruneObjectsDraft \<Rightarrow> string" where
  "buildPruneObjectsValueText draft =
     (let typeText = trim (pd_typeText draft) in
      if pd_simpleMode draft then typeText
      else let p0 = (if typeText \<noteq> [] then put ''type'' (JString typeText) [] else []);
               p1 = (if upper (or_text (Some (pd_logic draft)) ''AND'') = ''OR''
                     then put ''logic'' (JString ''OR'') p0 else p0);
               p2 = (if \<not> pd_recursive draft then put ''recursive'' (JBool False) p1 else p1);
               conditions = map pruneConditionPayload (filter (\<lambda>rule. trim (pr_path rule) \<noteq> []) (pd_rules draft));
               p3 = (if conditions \<noteq> [] then put ''conditions'' (JArray conditions) p2 else p2)
           in if typeText = [] \<and> conditions = [] then json_text (JObject [(''logic'', JString ''AND'')])
              else json_text (JObject p3))"

section \<open>Passed headers\<close>

definition header_names :: "js_value list \<Rightarrow> string list" where
  "header_names items =
     filter (\<lambda>s. s \<noteq> []) (map (\<lambda>i. trim (if i = JUndefined \<or> i = JNull then [] else to_text i)) items)"

definition parsePassHeaderNames :: "js_value \<Rightarrow> string list" where
  "parsePassHeaderNames rawValue =
     (case rawValue of
        JArray items \<Rightarrow> header_names items
      | JObject fs \<Rightarrow>
          (case js_get rawValue ''headers'' of
             JArray items \<Rightarrow> header_names items
           | _ \<Rightarrow> if js_get rawValue ''header'' \<noteq> JUndefined then header_names [js_get rawValue ''header''] else [])
      | JString s \<Rightarrow> filter (\<lambda>x. x \<noteq> []) (map trim (split_on (CHR '','') s))
      | _ \<Rightarrow> [])"

section \<open>Validation\<close>

text \<open>The body of the loop: the key of the first message that applies to a rule.\<close>

definition required_fields_error :: "ParamOverrideOperation \<Rightarrow> string option" where
  "required_fields_error ob =
     (let mode = mode_or_set (po_mode ob);
          meta = meta_of mode;
          pathValue = trim (po_path ob);
          fromValue = trim (po_from ob);
          toValue = trim (po_to ob)
      in if mm_path meta \<and> pathValue = [] then Some ''Rule {{line}} is missing target path''
         else if mode \<in> set FROM_REQUIRED_MODES \<and> fromValue = [] \<and> \<not> (mm_pathAlias meta \<and> pathValue \<noteq> [])
         then Some ''Rule {{line}} is missing source field''
         else if mode \<in> set TO_REQUIRED_MODES \<and> toValue = [] \<and> \<not> (mm_pathAlias meta \<and> pathValue \<noteq> [])
         then Some ''Rule {{line}} is missing target field''
         else if mode \<in> set VALUE_REQUIRED_MODES \<and> trim (po_value_text ob) = []
         then Some ''Rule {{line}} is missing value''
         else None)"

definition return_error_error :: "string \<Rightarrow> string option" where
  "return_error_error raw =
     (if raw = [] then Some ''Rule {{line}} is missing value''
      else (case json_parse raw of
              None \<Rightarrow> None
            | Some parsed \<Rightarrow>
                if plain_object parsed \<and> trim (to_text (value_or (js_get parsed ''message'') (JString []))) = []
                then Some ''Rule {{line}} return_error requires a message field'' else None))"

definition pass_headers_error :: "string \<Rightarrow> string option" where
  "pass_headers_error raw =
     (if raw = [] then Some ''Rule {{line}} pass_headers is missing header names''
      else if parsePassHeaderNames (parseLooseValue raw) = []
      then Some ''Rule {{line}} pass_headers format is invalid'' else None)"

definition operation_error :: "ParamOverrideOperation \<Rightarrow> string option" where
  "operation_error ob =
     (case required_fields_error ob of
        Some message \<Rightarrow> Some message
      | None \<Rightarrow>
          let mode = mode_or_set (po_mode ob); raw = trim (po_value_text ob) in
          if mode = ''return_error'' then return_error_error raw
          else if mode = ''prune_objects'' then
            (if raw = [] then Some ''Rule {{line}} prune_objects is missing conditions'' else None)
          else if mode = ''pass_headers'' then pass_headers_error raw
          else None)"

text \<open>\<open>t key line\<close> is the translated message for a rule; an empty text says that the rules are valid.\<close>

fun validate_from :: "(string \<Rightarrow> nat \<Rightarrow> string) \<Rightarrow> nat \<Rightarrow> ParamOverrideOperation list \<Rightarrow> string" where
  "validate_from t i [] = []"
| "validate_from t i (ob # ops) =
     (case operation_error ob of Some message \<Rightarrow> t message (i + 1) | None \<Rightarrow> validate_from t (i + 1) ops)"

definition validateOperations :: "(string \<Rightarrow> nat \<Rightarrow> string) \<Rightarrow> ParamOverrideOperation list \<Rightarrow> string" where
  "validateOperations t operations = validate_from t 0 operations"

section \<open>The stored text\<close>

definition buildConditionPayload :: "ParamOverrideCondition \<Rightarrow> js_value option" where
  "buildConditionPayload condition =
     (let path = trim (pc_path condition) in
      if path = [] then None
      else let p0 = [(''path'', JString path),
                     (''mode'', JString (if pc_mode condition = [] then ''full'' else pc_mode condition)),
                     (''value'', parseLooseValue (pc_value_text condition))];
               p1 = (if pc_invert condition then put ''invert'' (JBool True) p0 else p0);
               p2 = (if pc_pass_missing_key condition then put ''pass_missing_key'' (JBool True) p1 else p1)
           in Some (JObject p2))"

text \<open>The assignments to \<^verbatim>\<open>payload\<close>, in their order.\<close>

definition alias_payload :: "bool \<Rightarrow> string \<Rightarrow> (string \<times> js_value) list \<Rightarrow> (string \<times> js_value) list" where
  "alias_payload alias pathValue payload =
     (if alias then
        (let p1 = (if \<not> truthy (js_get (JObject payload) ''from'') \<and> pathValue \<noteq> []
                   then put ''from'' (JString pathValue) payload else payload)
         in if \<not> truthy (js_get (JObject p1) ''to'') \<and> pathValue \<noteq> []
            then put ''to'' (JString pathValue) p1 else p1)
      else payload)"

definition headPayload :: "mode_meta \<Rightarrow> ParamOverrideOperation \<Rightarrow> (string \<times> js_value) list" where
  "headPayload meta operation =
     (let descriptionValue = trim (po_description operation);
          pathValue = trim (po_path operation);
          p0 = [(''mode'', JString (mode_or_set (po_mode operation)))];
          p1 = (if descriptionValue \<noteq> [] then put ''description'' (JString descriptionValue) p0 else p0);
          p2 = (if mm_path meta then put ''path'' (JString pathValue) p1 else p1);
          p3 = (if mm_pathOptional meta \<and> pathValue \<noteq> [] then put ''path'' (JString pathValue) p2 else p2);
          p4 = (if mm_value meta then put ''value'' (parseLooseValue (po_value_text operation)) p3 else p3)
      in if mm_keepOrigin meta \<and> po_keep_origin operation then put ''keep_origin'' (JBool True) p4 else p4)"

definition endsPayload ::
  "mode_meta \<Rightarrow> string \<Rightarrow> string \<Rightarrow> string \<Rightarrow> (string \<times> js_value) list \<Rightarrow> (string \<times> js_value) list" where
  "endsPayload meta pathValue fromValue toValue payload =
     (let p1 = (if mm_from meta then put ''from'' (JString fromValue) payload else payload);
          p2 = (if mm_to meta \<noteq> Some True \<and> toValue \<noteq> [] then put ''to'' (JString toValue) p1 else p1);
          p3 = (if mm_to meta = Some True then put ''to'' (JString toValue) p2 else p2)
      in alias_payload (mm_pathAlias meta) pathValue p3)"

definition operationPayload :: "ParamOverrideOperation \<Rightarrow> js_value" where
  "operationPayload operation =
     (let meta = meta_of (mode_or_set (po_mode operation));
          payload = endsPayload meta (trim (po_path operation)) (trim (po_from operation)) (trim (po_to operation))
            (headPayload meta operation);
          conditions = List.map_filter buildConditionPayload (po_conditions operation)
      in JObject
           (if conditions \<noteq> []
            then put ''logic'' (JString (if po_logic operation = ''AND'' then ''AND'' else ''OR''))
              (put ''conditions'' (JArray conditions) payload)
            else payload))"

text \<open>\<open>Inl\<close> is the message of the raised \<^verbatim>\<open>Error\<close>.\<close>

definition buildOperationsJson ::
  "(string \<Rightarrow> nat \<Rightarrow> string) \<Rightarrow> bool \<Rightarrow> ParamOverrideOperation list \<Rightarrow> string + string" where
  "buildOperationsJson t validate sourceOperations =
     (let filteredOps = filter (\<lambda>ob. \<not> isOperationBlank ob) sourceOperations in
      if filteredOps = [] then Inr []
      else let message = (if validate then validateOperations t filteredOps else []) in
        if message \<noteq> [] then Inl message
        else Inr (pretty (JObject [(''operations'', JArray (map operationPayload filteredOps))])))"

section \<open>Opening a stored text\<close>

datatype edit_mode = VisualEdit | JsonEdit
datatype visual_mode = OperationsVisual | LegacyVisual

record EditorState =
  es_editMode :: edit_mode
  es_visualMode :: visual_mode
  es_legacyValue :: string
  es_operations :: "ParamOverrideOperation list"
  es_jsonText :: string
  es_jsonError :: string

text \<open>The rules of a parsed document, or one default rule where it has none.\<close>

definition document_operations :: "clock \<Rightarrow> js_value list \<Rightarrow> nat \<Rightarrow> ParamOverrideOperation list option \<times> nat" where
  "document_operations clock items n =
     (if items \<noteq> [] then map_ids (normalizeOperation clock) items n
      else (case createDefaultOperation clock n of (ob, n') \<Rightarrow> (Some [ob], n')))"

definition parseInitialState :: "clock \<Rightarrow> string \<Rightarrow> nat \<Rightarrow> EditorState option \<times> nat" where
  "parseInitialState clock rawValue n =
     (let trimmed = trim rawValue;
          single = (\<lambda>em vm legacy json err.
            (case createDefaultOperation clock n of (ob, n') \<Rightarrow>
               (Some \<lparr>es_editMode = em, es_visualMode = vm, es_legacyValue = legacy, es_operations = [ob],
                      es_jsonText = json, es_jsonError = err\<rparr>, n')))
      in if trimmed = [] then single VisualEdit OperationsVisual [] [] []
         else (case json_parse trimmed of
                 None \<Rightarrow> single JsonEdit OperationsVisual [] rawValue ''Invalid JSON format''
               | Some parsed \<Rightarrow>
                   (case (parsed, js_get parsed ''operations'') of
                      (JObject _, JArray items) \<Rightarrow>
                        (case document_operations clock items n of
                           (None, n') \<Rightarrow> (None, n')
                         | (Some ops, n') \<Rightarrow>
                             (Some \<lparr>es_editMode = VisualEdit, es_visualMode = OperationsVisual, es_legacyValue = [],
                                    es_operations = ops, es_jsonText = pretty parsed, es_jsonError = []\<rparr>, n'))
                    | (JObject _, _) \<Rightarrow> single VisualEdit LegacyVisual (pretty parsed) (pretty parsed) []
                    | _ \<Rightarrow> single JsonEdit OperationsVisual [] (pretty parsed) [])))"

section \<open>Assignments to a payload\<close>

lemma put_put [simp]: "put k v (put k w p) = put k v p"
  by (simp add: put_def)

lemma put_swap: "k \<noteq> l \<Longrightarrow> put k y (put l z (put k x p)) = put l z (put k y p)"
  unfolding put_def
proof (induction p)
  case Nil
  then show ?case by simp
next
  case (Cons a p)
  then show ?case by (cases a) auto
qed

lemma map_of_put [simp]: "map_of (put k v p) j = (if j = k then Some v else map_of p j)"
  by (auto simp: put_def update_conv)

lemma distinct_put [simp]: "distinct (map fst p) \<Longrightarrow> distinct (map fst (put k v p))"
  by (simp add: put_def distinct_update)

lemma safe_members_put:
  "list_all (\<lambda>(k, v). json_safe v) p \<Longrightarrow> json_safe v \<Longrightarrow> list_all (\<lambda>(k, v). json_safe v) (put k v p)"
  unfolding put_def
proof (induction p)
  case Nil
  then show ?case by simp
next
  case (Cons a p)
  then show ?case by (cases a) auto
qed

lemma safe_put: "json_safe (JObject p) \<Longrightarrow> json_safe v \<Longrightarrow> json_safe (JObject (put k v p))"
  by (simp add: safe_members_put)

lemma get_put [simp]: "js_get (JObject (put k v p)) j = (if j = k then v else js_get (JObject p) j)"
  by simp

text \<open>An assignment under a condition.\<close>

definition put_if :: "bool \<Rightarrow> string \<Rightarrow> js_value \<Rightarrow> (string \<times> js_value) list \<Rightarrow> (string \<times> js_value) list" where
  "put_if b k v p = (if b then put k v p else p)"

lemma map_of_put_if [simp]: "map_of (put_if b k v p) j = (if b \<and> j = k then Some v else map_of p j)"
  by (simp add: put_if_def)

lemma get_put_if [simp]: "js_get (JObject (put_if b k v p)) j = (if b \<and> j = k then v else js_get (JObject p) j)"
  by (simp add: put_if_def)

lemma safe_put_if: "json_safe (JObject p) \<Longrightarrow> (b \<Longrightarrow> json_safe v) \<Longrightarrow> json_safe (JObject (put_if b k v p))"
  by (cases b) (simp_all add: put_if_def safe_members_put)

section \<open>Loose values\<close>

text \<open>A text that does not spell a quoted string: what it says is the same after it is stored and shown
  again.\<close>

definition unquoted :: "string \<Rightarrow> bool" where
  "unquoted s \<longleftrightarrow> (case json_parse (trim s) of None \<Rightarrow> True | Some (JString _) \<Rightarrow> False | Some v \<Rightarrow> json_safe v)"

lemma json_parse_Nil [simp]: "json_parse [] = None"
  by (simp add: json_parse_def skip_space_def)

lemma loose_cases:
  "parseLooseValue s = (case json_parse (trim s) of Some v \<Rightarrow> v | None \<Rightarrow> JString (trim s))"
  by (simp add: parseLooseValue_def Let_def)

lemma loose_trim [simp]: "parseLooseValue (trim s) = parseLooseValue s"
  by (simp add: loose_cases split: option.split)

lemma unquoted_safe: "unquoted s \<Longrightarrow> json_safe (parseLooseValue s)"
  by (auto simp: unquoted_def loose_cases split: option.splits js_value.splits)

lemma shown_again:
  assumes "unquoted s"
  defines "s' \<equiv> toValueText (parseLooseValue s)"
  shows "json_parse (trim s') = json_parse (trim s)" and "trim s' = [] \<longleftrightarrow> trim s = []"
    and "parseLooseValue s' = parseLooseValue s"
proof -
  have both: "json_parse (trim s') = json_parse (trim s) \<and> (trim s' = [] \<longleftrightarrow> trim s = []) \<and>
      parseLooseValue s' = parseLooseValue s"
  proof (cases "json_parse (trim s)")
    case None
    then show ?thesis by (simp add: s'_def toValueText_def loose_cases)
  next
    case (Some v)
    with assms(1) have v: "json_safe v" "\<forall>x. v \<noteq> JString x"
      by (auto simp: unquoted_def split: js_value.splits)
    then have shown: "s' = json_text v"
      using Some by (cases v) (simp_all add: s'_def toValueText_def loose_cases)
    have "trim s \<noteq> []" using Some by auto
    with shown v Some tight_text [OF v(1)] show ?thesis
      by (simp add: json_round_trip loose_cases tight_def)
  qed
  then show "json_parse (trim s') = json_parse (trim s)" "trim s' = [] \<longleftrightarrow> trim s = []"
    "parseLooseValue s' = parseLooseValue s" by blast+
qed

section \<open>Drawn identifiers\<close>

lemma map_ids_all2:
  assumes "\<And>x n. x \<in> set xs \<Longrightarrow> \<exists>y m. f x n = (Some y, m) \<and> R x y"
  shows "\<exists>ys m. map_ids f xs n = (Some ys, m) \<and> list_all2 R xs ys"
  using assms
proof (induction xs arbitrary: n)
  case Nil
  then show ?case by simp
next
  case (Cons x xs)
  from Cons.prems [of x n] obtain y m where y: "f x n = (Some y, m)" "R x y" by auto
  from Cons.IH [of m] Cons.prems obtain ys k where "map_ids f xs m = (Some ys, k)" "list_all2 R xs ys"
    by auto
  with y show ?case by simp
qed

lemma map_filter_all2:
  "list_all2 (\<lambda>x y. f y = Some x) xs ys \<Longrightarrow> List.map_filter f ys = xs"
  by (induction xs ys rule: list_all2_induct) (simp_all add: map_filter_simps)

section \<open>A stored condition is read back\<close>

definition good_condition :: "ParamOverrideCondition \<Rightarrow> bool" where
  "good_condition c \<longleftrightarrow> pc_mode c \<in> set CONDITION_MODE_VALUES \<and> unquoted (pc_value_text c)"

lemma mode_values_not_empty:
  "[] \<notin> set CONDITION_MODE_VALUES" "[] \<notin> set OPERATION_MODE_VALUES"
  by (simp_all add: CONDITION_MODE_VALUES_def CONDITION_MODE_OPTIONS_def OPERATION_MODE_VALUES_def
      OPERATION_MODE_OPTIONS_def)

lemma condition_payload_safe:
  assumes "good_condition c" and "buildConditionPayload c = Some p"
  shows "json_safe p"
proof -
  have "json_safe (JObject [(''path'', JString x), (''mode'', JString y), (''value'', parseLooseValue (pc_value_text c))])"
    for x y using unquoted_safe [of "pc_value_text c"] assms(1) by (simp add: good_condition_def)
  then show ?thesis
    using assms(2)
    by (auto simp: buildConditionPayload_def Let_def safe_put simp del: json_safe.simps(4) split: if_splits
        intro!: safe_put)
qed

lemma condition_read_back:
  assumes "good_condition c" and p: "buildConditionPayload c = Some p"
  shows "\<exists>c' m. normalizeCondition clock p n = (Some c', m) \<and> buildConditionPayload c' = Some p"
proof -
  have ne: "pc_mode c \<noteq> []" using assms(1) mode_values_not_empty(1) by (auto simp: good_condition_def)
  have known: "known_or CONDITION_MODE_VALUES (JString (pc_mode c)) d = pc_mode c" for d
    using assms(1) by (simp add: known_or_def good_condition_def)
  note again = shown_again(3) [of "pc_value_text c"]
  show ?thesis
    using assms p ne known
    by (auto simp: buildConditionPayload_def normalizeCondition_def nextLocalId_def given_def Let_def
        text_field_def again good_condition_def split: if_splits)
qed

section \<open>A stored rule is read back\<close>

lemma required_tables:
  "list_all (\<lambda>m. mm_from (meta_of m)) FROM_REQUIRED_MODES"
  "list_all (\<lambda>m. mm_to (meta_of m) = Some True) TO_REQUIRED_MODES"
  "list_all (\<lambda>m. mm_value (meta_of m)) VALUE_REQUIRED_MODES"
  "list_all (\<lambda>m. mm_pathAlias (meta_of m) \<longrightarrow> mm_from (meta_of m) \<and> mm_to (meta_of m) = Some True \<and>
     \<not> mm_path (meta_of m) \<and> \<not> mm_pathOptional (meta_of m)) OPERATION_MODE_VALUES"
  by (simp_all add: FROM_REQUIRED_MODES_def TO_REQUIRED_MODES_def VALUE_REQUIRED_MODES_def
      OPERATION_MODE_VALUES_def OPERATION_MODE_OPTIONS_def meta_of_def MODE_META_def no_meta_def set_meta_def)

lemma required_field:
  "mode \<in> set FROM_REQUIRED_MODES \<Longrightarrow> mm_from (meta_of mode)"
  "mode \<in> set TO_REQUIRED_MODES \<Longrightarrow> mm_to (meta_of mode) = Some True"
  "mode \<in> set VALUE_REQUIRED_MODES \<Longrightarrow> mm_value (meta_of mode)"
  using required_tables by (auto simp: list_all_iff)

lemma value_modes: "mm_value (meta_of ''return_error'')" "mm_value (meta_of ''prune_objects'')"
  "mm_value (meta_of ''pass_headers'')" "mm_path (meta_of ''set'')"
  by (simp_all add: meta_of_def MODE_META_def no_meta_def)

text \<open>What the payload holds of the path, the source and the target of a rule.\<close>

definition stored_path :: "ParamOverrideOperation \<Rightarrow> string" where
  "stored_path ob =
     (if mm_path (meta_of (po_mode ob)) \<or> mm_pathOptional (meta_of (po_mode ob)) then trim (po_path ob) else [])"

definition or_path :: "ParamOverrideOperation \<Rightarrow> string \<Rightarrow> string" where
  "or_path ob s = (if mm_pathAlias (meta_of (po_mode ob)) \<and> s = [] then trim (po_path ob) else s)"

definition stored_from :: "ParamOverrideOperation \<Rightarrow> string" where
  "stored_from ob = (if mm_from (meta_of (po_mode ob)) then or_path ob (trim (po_from ob)) else [])"

definition stored_to :: "ParamOverrideOperation \<Rightarrow> string" where
  "stored_to ob = or_path ob (trim (po_to ob))"

definition good_operation :: "ParamOverrideOperation \<Rightarrow> bool" where
  "good_operation ob \<longleftrightarrow> po_mode ob \<in> set OPERATION_MODE_VALUES \<and> unquoted (po_value_text ob) \<and>
     list_all good_condition (po_conditions ob)"

text \<open>The payload of a known mode, with the fields of the alias resolved.\<close>

definition payload_head :: "ParamOverrideOperation \<Rightarrow> (string \<times> js_value) list" where
  "payload_head ob =
     (let meta = meta_of (po_mode ob); description = trim (po_description ob) in
      put_if (mm_keepOrigin meta \<and> po_keep_origin ob) ''keep_origin'' (JBool True)
        (put_if (mm_value meta) ''value'' (parseLooseValue (po_value_text ob))
          (put_if (mm_path meta \<or> stored_path ob \<noteq> []) ''path'' (JString (stored_path ob))
            (put_if (description \<noteq> []) ''description'' (JString description) [(''mode'', JString (po_mode ob))]))))"

definition payload_fields :: "ParamOverrideOperation \<Rightarrow> (string \<times> js_value) list" where
  "payload_fields ob =
     (let meta = meta_of (po_mode ob);
          conditions = List.map_filter buildConditionPayload (po_conditions ob)
      in put_if (conditions \<noteq> []) ''logic'' (JString (if po_logic ob = ''AND'' then ''AND'' else ''OR''))
           (put_if (conditions \<noteq> []) ''conditions'' (JArray conditions)
             (put_if (mm_to meta = Some True \<or> stored_to ob \<noteq> []) ''to'' (JString (stored_to ob))
               (put_if (mm_from meta) ''from'' (JString (stored_from ob)) (payload_head ob)))))"

lemma ends_resolved:
  assumes "mm_pathAlias meta \<longrightarrow> mm_from meta \<and> mm_to meta = Some True"
  shows "endsPayload meta x f g p =
    (let f' = (if mm_pathAlias meta \<and> f = [] then x else f);
         g' = (if mm_pathAlias meta \<and> g = [] then x else g);
         p1 = (if mm_from meta then put ''from'' (JString f') p else p)
     in if mm_to meta = Some True \<or> g' \<noteq> [] then put ''to'' (JString g') p1 else p1)"
proof -
  have swap: "put ''from'' y (put ''to'' z (put ''from'' w p)) = put ''to'' z (put ''from'' y p)" for w y z
    by (rule put_swap) simp
  show ?thesis
    using assms by (auto simp: endsPayload_def alias_payload_def Let_def swap)
qed

lemma payload_eq:
  assumes "po_mode ob \<in> set OPERATION_MODE_VALUES"
  shows "operationPayload ob = JObject (payload_fields ob)"
proof -
  have ne: "mode_or_set (po_mode ob) = po_mode ob"
    using assms mode_values_not_empty(2) by (auto simp: mode_or_set_def)
  define meta where "meta = meta_of (po_mode ob)"
  have al: "mm_pathAlias meta \<longrightarrow> mm_from meta \<and> mm_to meta = Some True"
    using required_tables(4) assms by (auto simp: list_all_iff meta_def)
  have hd: "headPayload meta ob = payload_head ob"
    by (auto simp: headPayload_def payload_head_def stored_path_def Let_def meta_def ne put_if_def)
  show ?thesis
    unfolding operationPayload_def ne Let_def meta_def [symmetric] ends_resolved [OF al] hd
    by (simp add: payload_fields_def stored_from_def stored_to_def or_path_def Let_def meta_def put_if_def)
qed

lemma payload_safe:
  assumes "good_operation ob"
  shows "json_safe (operationPayload ob)"
proof -
  have "json_safe p" if "p \<in> set (List.map_filter buildConditionPayload (po_conditions ob))" for p
    using that assms condition_payload_safe by (auto simp: good_operation_def list_all_iff map_filter_def)
  then have "json_safe (JArray (List.map_filter buildConditionPayload (po_conditions ob)))"
    by (simp add: list_all_iff)
  then show ?thesis
    using assms unquoted_safe [of "po_value_text ob"]
    unfolding payload_eq [of ob, OF conjunct1 [OF assms [unfolded good_operation_def]]] payload_fields_def
      payload_head_def Let_def
    by (intro safe_put_if) (simp_all add: good_operation_def)
qed

lemma payload_get:
  fixes ob :: ParamOverrideOperation
  defines "p \<equiv> JObject (payload_fields ob)" and "meta \<equiv> meta_of (po_mode ob)"
    and "conditions \<equiv> List.map_filter buildConditionPayload (po_conditions ob)"
  shows "js_get p ''mode'' = JString (po_mode ob)"
    and "js_get p ''description'' = (if trim (po_description ob) \<noteq> [] then JString (trim (po_description ob)) else JUndefined)"
    and "js_get p ''path'' = (if mm_path meta \<or> stored_path ob \<noteq> [] then JString (stored_path ob) else JUndefined)"
    and "js_get p ''value'' = (if mm_value meta then parseLooseValue (po_value_text ob) else JUndefined)"
    and "js_get p ''keep_origin'' = (if mm_keepOrigin meta \<and> po_keep_origin ob then JBool True else JUndefined)"
    and "js_get p ''from'' = (if mm_from meta then JString (stored_from ob) else JUndefined)"
    and "js_get p ''to'' = (if mm_to meta = Some True \<or> stored_to ob \<noteq> [] then JString (stored_to ob) else JUndefined)"
    and "js_get p ''conditions'' = (if conditions \<noteq> [] then JArray conditions else JUndefined)"
    and "js_get p ''logic'' = (if conditions \<noteq> [] then JString (if po_logic ob = ''AND'' then ''AND'' else ''OR'')
           else JUndefined)"
  unfolding p_def meta_def conditions_def payload_fields_def payload_head_def Let_def get_put_if
  by simp_all

text \<open>The rule that reading a stored payload gives.\<close>

definition stored_rule :: "string \<Rightarrow> ParamOverrideCondition list \<Rightarrow> ParamOverrideOperation \<Rightarrow> ParamOverrideOperation" where
  "stored_rule i cs ob =
     \<lparr>po_id = i, po_description = trim (po_description ob), po_path = stored_path ob, po_mode = po_mode ob,
      po_from = stored_from ob, po_to = stored_to ob,
      po_value_text = (if mm_value (meta_of (po_mode ob)) then toValueText (parseLooseValue (po_value_text ob)) else []),
      po_keep_origin = (mm_keepOrigin (meta_of (po_mode ob)) \<and> po_keep_origin ob),
      po_logic = (if po_logic ob = ''AND'' \<and> List.map_filter buildConditionPayload (po_conditions ob) \<noteq> []
                  then ''AND'' else ''OR''),
      po_conditions = cs\<rparr>"

lemma upper_logic: "upper ''AND'' = ''AND''" "upper ''OR'' = ''OR''"
  by (simp_all add: upper_def upper_char_def Let_def)

lemma payload_texts:
  fixes ob :: ParamOverrideOperation
  defines "p \<equiv> JObject (payload_fields ob)"
  shows "text_field p ''description'' = trim (po_description ob)"
    and "text_field p ''path'' = stored_path ob"
    and "text_field p ''from'' = stored_from ob"
    and "text_field p ''to'' = stored_to ob"
    and "toValueText (js_get p ''value'') =
      (if mm_value (meta_of (po_mode ob)) then toValueText (parseLooseValue (po_value_text ob)) else [])"
    and "(js_get p ''keep_origin'' = JBool True) = (mm_keepOrigin (meta_of (po_mode ob)) \<and> po_keep_origin ob)"
    and "(upper (to_text (value_or (js_get p ''logic'') (JString ''OR''))) = ''AND'') =
      (po_logic ob = ''AND'' \<and> List.map_filter buildConditionPayload (po_conditions ob) \<noteq> [])"
  unfolding p_def text_field_def payload_get
  by (simp_all add: stored_from_def toValueText_def value_or_def upper_logic)

lemma operation_read_back:
  assumes good: "good_operation ob"
  shows "\<exists>i cs m. normalizeOperation clock (operationPayload ob) n =
      (Some (stored_rule i cs ob), m) \<and>
    List.map_filter buildConditionPayload cs = List.map_filter buildConditionPayload (po_conditions ob)"
proof -
  define ps where "ps = List.map_filter buildConditionPayload (po_conditions ob)"
  have mode: "po_mode ob \<in> set OPERATION_MODE_VALUES" using good by (simp add: good_operation_def)
  have "\<exists>c m. normalizeCondition clock p k = (Some c, m) \<and> buildConditionPayload c = Some p" if "p \<in> set ps" for p k
    using that good condition_read_back by (auto simp: ps_def map_filter_def good_operation_def list_all_iff)
  from map_ids_all2 [of ps "normalizeCondition clock" "\<lambda>p c. buildConditionPayload c = Some p" "Suc n", OF this] obtain cs m where
    cs: "map_ids (normalizeCondition clock) ps (Suc n) = (Some cs, m)"
      "list_all2 (\<lambda>p c. buildConditionPayload c = Some p) ps cs" by auto
  then have flt: "List.map_filter buildConditionPayload cs = ps" by (intro map_filter_all2)
  have conds: "(case js_get (JObject (payload_fields ob)) ''conditions'' of
        JArray cs \<Rightarrow> map_ids (normalizeCondition clock) cs (Suc n) | _ \<Rightarrow> (Some [], Suc n)) =
      (Some (if ps = [] then [] else cs), if ps = [] then Suc n else m)"
    using cs(1) by (simp add: payload_get(8) ps_def [symmetric] del: js_get.simps)
  have "normalizeOperation clock (operationPayload ob) n =
      (Some (stored_rule (fst (nextLocalId clock n)) (if ps = [] then [] else cs) ob),
       if ps = [] then Suc n else m)"
    unfolding normalizeOperation_def payload_eq [OF mode] given_def
    using mode
    by (simp add: nextLocalId_def conds Let_def del: js_get.simps)
       (simp only: payload_texts payload_get(1) stored_rule_def known_or_def js_value.case if_True, simp)
  moreover have "List.map_filter buildConditionPayload (if ps = [] then [] else cs) = ps"
    using flt by simp
  ultimately show ?thesis unfolding ps_def by blast
qed

text \<open>Reading a stored rule back and storing it again gives the same payload, and a valid rule is valid
  again.\<close>

lemma stored_rule_simps [simp]:
  "po_mode (stored_rule i cs ob) = po_mode ob" "po_conditions (stored_rule i cs ob) = cs"
  "stored_path (stored_rule i cs ob) = stored_path ob"
  "trim (po_path (stored_rule i cs ob)) = stored_path ob"
  "po_from (stored_rule i cs ob) = stored_from ob" "po_to (stored_rule i cs ob) = stored_to ob"
  by (simp_all add: stored_rule_def stored_path_def)

lemma trim_stored [simp]: "trim (stored_from ob) = stored_from ob" "trim (stored_to ob) = stored_to ob"
  by (simp_all add: stored_from_def stored_to_def or_path_def)

lemma stored_ends_again:
  assumes "po_mode ob \<in> set OPERATION_MODE_VALUES"
  shows "stored_from (stored_rule i cs ob) = stored_from ob" and "stored_to (stored_rule i cs ob) = stored_to ob"
proof -
  have none: "stored_path ob = []" if "mm_pathAlias (meta_of (po_mode ob))"
    using that required_tables(4) assms by (simp add: list_all_iff stored_path_def)
  have "or_path (stored_rule i cs ob) s = s" for s
    using none by (auto simp: or_path_def)
  then show "stored_from (stored_rule i cs ob) = stored_from ob"
    "stored_to (stored_rule i cs ob) = stored_to ob"
    by (simp_all add: stored_from_def [of "stored_rule i cs ob"] stored_to_def [of "stored_rule i cs ob"])
       (simp add: stored_from_def)
qed

lemma stored_payload_again:
  assumes "good_operation ob"
    and cs: "List.map_filter buildConditionPayload cs = List.map_filter buildConditionPayload (po_conditions ob)"
  shows "operationPayload (stored_rule i cs ob) = operationPayload ob"
proof -
  have mode: "po_mode ob \<in> set OPERATION_MODE_VALUES" using assms(1) by (simp add: good_operation_def)
  have kept: "put_if (mm_value (meta_of (po_mode ob))) ''value'' (parseLooseValue (po_value_text (stored_rule i cs ob))) p =
      put_if (mm_value (meta_of (po_mode ob))) ''value'' (parseLooseValue (po_value_text ob)) p" for p
    using assms(1) shown_again(3) [of "po_value_text ob"]
    by (simp add: put_if_def stored_rule_def good_operation_def)
  have other: "po_keep_origin (stored_rule i cs ob) = (mm_keepOrigin (meta_of (po_mode ob)) \<and> po_keep_origin ob)"
    "trim (po_description (stored_rule i cs ob)) = trim (po_description ob)"
    by (simp_all add: stored_rule_def)
  have head: "payload_head (stored_rule i cs ob) = payload_head ob"
    by (simp add: payload_head_def Let_def other kept)
  have logic: "put_if (List.map_filter buildConditionPayload (po_conditions ob) \<noteq> []) ''logic''
        (JString (if po_logic (stored_rule i cs ob) = ''AND'' then ''AND'' else ''OR'')) p =
      put_if (List.map_filter buildConditionPayload (po_conditions ob) \<noteq> []) ''logic''
        (JString (if po_logic ob = ''AND'' then ''AND'' else ''OR'')) p" for p
    by (simp add: put_if_def stored_rule_def)
  have "payload_fields (stored_rule i cs ob) = payload_fields ob"
    by (simp add: payload_fields_def Let_def head stored_ends_again [OF mode] cs logic del: not_Cons_self2)
  then show ?thesis using mode by (simp add: payload_eq)
qed

text \<open>When a rule passes the validation.\<close>

lemma required_ok_iff:
  assumes "mode_or_set (po_mode ob) = m"
  shows "required_fields_error ob = None \<longleftrightarrow>
    (mm_path (meta_of m) \<longrightarrow> trim (po_path ob) \<noteq> []) \<and>
    (m \<in> set FROM_REQUIRED_MODES \<longrightarrow> trim (po_from ob) \<noteq> [] \<or> mm_pathAlias (meta_of m) \<and> trim (po_path ob) \<noteq> []) \<and>
    (m \<in> set TO_REQUIRED_MODES \<longrightarrow> trim (po_to ob) \<noteq> [] \<or> mm_pathAlias (meta_of m) \<and> trim (po_path ob) \<noteq> []) \<and>
    (m \<in> set VALUE_REQUIRED_MODES \<longrightarrow> trim (po_value_text ob) \<noteq> [])"
  by (simp add: required_fields_error_def assms Let_def)

lemma operation_ok_iff:
  assumes "mode_or_set (po_mode ob) = m"
  shows "operation_error ob = None \<longleftrightarrow> required_fields_error ob = None \<and>
    (m = ''return_error'' \<longrightarrow> return_error_error (trim (po_value_text ob)) = None) \<and>
    (m = ''prune_objects'' \<longrightarrow> trim (po_value_text ob) \<noteq> []) \<and>
    (m = ''pass_headers'' \<longrightarrow> pass_headers_error (trim (po_value_text ob)) = None)"
  by (cases "required_fields_error ob") (simp_all add: operation_error_def assms Let_def)

lemma stored_rule_valid:
  assumes "good_operation ob" and "operation_error ob = None"
  shows "operation_error (stored_rule i cs ob) = None"
proof -
  define ob' where "ob' = stored_rule i cs ob"
  have mode: "po_mode ob \<in> set OPERATION_MODE_VALUES" using assms(1) by (simp add: good_operation_def)
  then have ne: "mode_or_set (po_mode ob) = po_mode ob"
    using mode_values_not_empty(2) by (auto simp: mode_or_set_def)
  note again = shown_again [of "po_value_text ob"]
  have val: "json_parse (trim (po_value_text ob')) = json_parse (trim (po_value_text ob))"
    "trim (po_value_text ob') = [] \<longleftrightarrow> trim (po_value_text ob) = []"
    "parseLooseValue (po_value_text ob') = parseLooseValue (po_value_text ob)"
    if "mm_value (meta_of (po_mode ob))"
    using that again assms(1) by (simp_all add: ob'_def stored_rule_def good_operation_def)
  have fields: "po_mode ob' = po_mode ob" "trim (po_path ob') = stored_path ob"
    "trim (po_from ob') = stored_from ob" "trim (po_to ob') = stored_to ob"
    by (simp_all add: ob'_def)
  have ne': "mode_or_set (po_mode ob') = po_mode ob" by (simp add: fields ne)
  note ok = assms(2) [unfolded operation_ok_iff [OF ne] required_ok_iff [OF ne]]
  have "required_fields_error ob' = None"
    unfolding required_ok_iff [OF ne'] fields
  proof (intro conjI impI)
    assume "mm_path (meta_of (po_mode ob))"
    with ok show "stored_path ob \<noteq> []" by (simp add: stored_path_def)
  next
    assume m: "po_mode ob \<in> set FROM_REQUIRED_MODES"
    with ok required_field(1) [OF m]
    show "stored_from ob \<noteq> [] \<or> mm_pathAlias (meta_of (po_mode ob)) \<and> stored_path ob \<noteq> []"
      by (auto simp: stored_from_def or_path_def)
  next
    assume m: "po_mode ob \<in> set TO_REQUIRED_MODES"
    with ok show "stored_to ob \<noteq> [] \<or> mm_pathAlias (meta_of (po_mode ob)) \<and> stored_path ob \<noteq> []"
      by (auto simp: stored_to_def or_path_def)
  next
    assume m: "po_mode ob \<in> set VALUE_REQUIRED_MODES"
    with ok val(2) [OF required_field(3) [OF m]] show "trim (po_value_text ob') \<noteq> []" by simp
  qed
  moreover have "return_error_error (trim (po_value_text ob')) = return_error_error (trim (po_value_text ob))"
    if "po_mode ob = ''return_error''"
    using val value_modes that by (simp add: return_error_error_def)
  moreover have "pass_headers_error (trim (po_value_text ob')) = pass_headers_error (trim (po_value_text ob))"
    if "po_mode ob = ''pass_headers''"
    using val value_modes that by (simp add: pass_headers_error_def)
  moreover have "trim (po_value_text ob') \<noteq> []" if "po_mode ob = ''prune_objects''"
    using val(2) value_modes that ok by simp
  ultimately show ?thesis
    using ok unfolding ob'_def [symmetric] operation_ok_iff [OF ne'] by metis
qed

lemma valid_not_blank: "operation_error ob = None \<Longrightarrow> \<not> isOperationBlank ob"
  using value_modes(4) operation_ok_iff [OF refl, of ob] required_ok_iff [OF refl, of ob]
  by (auto simp: isOperationBlank_def mode_or_set_def Let_def)

lemma validate_from_iff:
  assumes "\<And>k l. t k l \<noteq> []"
  shows "validate_from t i ops = [] \<longleftrightarrow> list_all (\<lambda>ob. operation_error ob = None) ops"
  by (induction ops arbitrary: i) (auto simp: assms split: option.split)

lemma validateOperations_iff:
  assumes "\<And>k l. t k l \<noteq> []"
  shows "validateOperations t ops = [] \<longleftrightarrow> list_all (\<lambda>ob. operation_error ob = None) ops"
  unfolding validateOperations_def by (rule validate_from_iff [OF assms])

section \<open>A saved text opens to the same rules\<close>

definition rereads :: "ParamOverrideOperation \<Rightarrow> ParamOverrideOperation \<Rightarrow> bool" where
  "rereads ob ob' \<longleftrightarrow> operationPayload ob' = operationPayload ob \<and>
     (operation_error ob = None \<longrightarrow> operation_error ob' = None)"

lemma operation_rereads:
  assumes "good_operation ob"
  shows "\<exists>ob' m. normalizeOperation clock (operationPayload ob) n = (Some ob', m) \<and> rereads ob ob'"
proof -
  from operation_read_back [OF assms, of clock n] obtain i cs m where
    r: "normalizeOperation clock (operationPayload ob) n = (Some (stored_rule i cs ob), m)"
      "List.map_filter buildConditionPayload cs = List.map_filter buildConditionPayload (po_conditions ob)" by blast
  have "rereads ob (stored_rule i cs ob)"
    using stored_payload_again [OF assms r(2)] stored_rule_valid [OF assms] by (simp add: rereads_def)
  with r(1) show ?thesis by blast
qed

lemma document_rereads:
  assumes "list_all good_operation ops" and "ops \<noteq> []"
  shows "\<exists>ops' m. document_operations clock (map operationPayload ops) n = (Some ops', m) \<and> list_all2 rereads ops ops'"
proof -
  have "\<exists>ob' m. normalizeOperation clock p k = (Some ob', m) \<and> (\<forall>ob \<in> set ops. operationPayload ob = p \<longrightarrow> rereads ob ob')"
    if "p \<in> set (map operationPayload ops)" for p k
  proof -
    from that obtain ob where ob: "ob \<in> set ops" "p = operationPayload ob" by auto
    from operation_read_back [of ob clock k] assms(1) ob obtain i cs m where
      r: "normalizeOperation clock p k = (Some (stored_rule i cs ob), m)" by (auto simp: list_all_iff)
    have "rereads ob1 (stored_rule i cs ob)" if "ob1 \<in> set ops" "operationPayload ob1 = p" for ob1
    proof -
      have "good_operation ob1" using assms(1) that by (simp add: list_all_iff)
      from operation_rereads [OF this, of clock k] that r show ?thesis by auto
    qed
    with r show ?thesis by blast
  qed
  from map_ids_all2 [of "map operationPayload ops" "normalizeOperation clock"
      "\<lambda>p ob'. \<forall>ob \<in> set ops. operationPayload ob = p \<longrightarrow> rereads ob ob'" n, OF this]
  obtain ops' m where m: "map_ids (normalizeOperation clock) (map operationPayload ops) n = (Some ops', m)"
    and all: "list_all2 (\<lambda>p ob'. \<forall>ob \<in> set ops. operationPayload ob = p \<longrightarrow> rereads ob ob') (map operationPayload ops) ops'"
    by blast
  from all have "list_all2 rereads ops ops'" by (auto simp: list_all2_conv_all_nth)
  with m assms(2) show ?thesis by (auto simp: document_operations_def)
qed

definition document :: "ParamOverrideOperation list \<Rightarrow> js_value" where
  "document ops = JObject [(''operations'', JArray (map operationPayload ops))]"

lemma document_safe: "list_all good_operation ops \<Longrightarrow> json_safe (document ops)"
  using payload_safe by (simp add: document_def list_all_iff)

lemma build_cases:
  assumes "\<And>k l. t k l \<noteq> []" and "ops' = filter (\<lambda>ob. \<not> isOperationBlank ob) ops"
  shows "buildOperationsJson t True ops = Inr r \<longleftrightarrow>
    (if ops' = [] then r = []
     else list_all (\<lambda>ob. operation_error ob = None) ops' \<and> r = pretty (document ops'))"
  using validateOperations_iff [OF assms(1)]
  by (auto simp: buildOperationsJson_def Let_def document_def assms(2))

lemma open_document:
  assumes "list_all good_operation ops" and "ops \<noteq> []"
  shows "\<exists>ops' m. parseInitialState clock (pretty (document ops)) n =
      (Some \<lparr>es_editMode = VisualEdit, es_visualMode = OperationsVisual, es_legacyValue = [],
         es_operations = ops', es_jsonText = pretty (document ops), es_jsonError = []\<rparr>, m) \<and>
    list_all2 rereads ops ops'"
proof -
  note safe = document_safe [OF assms(1)]
  from document_rereads [OF assms] obtain ops' m where
    "document_operations clock (map operationPayload ops) n = (Some ops', m)" "list_all2 rereads ops ops'" by blast
  with pretty_round_trip [OF safe] safe pretty_not_empty [OF safe] show ?thesis
    by (simp add: parseInitialState_def Let_def document_def)
qed

lemma default_operation:
  "createDefaultOperation clock n =
     (\<lparr>po_id = fst (nextLocalId clock n), po_description = [], po_path = [], po_mode = ''set'', po_from = [],
       po_to = [], po_value_text = [], po_keep_origin = False, po_logic = ''OR'', po_conditions = []\<rparr>, Suc n)"
  by (simp add: createDefaultOperation_def normalizeOperation_def nextLocalId_def given_def Let_def text_field_def
      known_or_def toValueText_def value_or_def upper_logic OPERATION_MODE_VALUES_def OPERATION_MODE_OPTIONS_def)

lemma default_blank: "isOperationBlank (fst (createDefaultOperation clock n))"
  by (simp add: default_operation isOperationBlank_def)

lemma saved_text_reopens:
  assumes t: "\<And>k l. t k l \<noteq> []" and good: "list_all good_operation ops"
    and saved: "buildOperationsJson t True ops = Inr r"
  shows "\<exists>st m. parseInitialState clock r n = (Some st, m) \<and> es_editMode st = VisualEdit \<and>
    es_visualMode st = OperationsVisual \<and> buildOperationsJson t True (es_operations st) = Inr r"
proof -
  define kept where "kept = filter (\<lambda>ob. \<not> isOperationBlank ob) ops"
  show ?thesis
  proof (cases "kept = []")
    case True
    with saved build_cases [OF t kept_def] have "r = []" by simp
    obtain ob m where ob: "createDefaultOperation clock n = (ob, m)" by fastforce
    then have "parseInitialState clock r n = (Some \<lparr>es_editMode = VisualEdit, es_visualMode = OperationsVisual,
        es_legacyValue = [], es_operations = [ob], es_jsonText = [], es_jsonError = []\<rparr>, m)"
      by (simp add: parseInitialState_def \<open>r = []\<close>)
    moreover have "buildOperationsJson t True [ob] = Inr r"
      using default_blank [of clock n] ob by (simp add: buildOperationsJson_def \<open>r = []\<close>)
    ultimately show ?thesis by simp
  next
    case False
    with saved build_cases [OF t kept_def] have ok: "list_all (\<lambda>ob. operation_error ob = None) kept"
      and r: "r = pretty (document kept)" by simp_all
    have "list_all good_operation kept" using good by (auto simp: kept_def list_all_iff)
    from open_document [OF this False, of clock n] obtain ops' m where
      p: "parseInitialState clock r n = (Some \<lparr>es_editMode = VisualEdit, es_visualMode = OperationsVisual,
        es_legacyValue = [], es_operations = ops', es_jsonText = r, es_jsonError = []\<rparr>, m)"
      and all: "list_all2 rereads kept ops'" unfolding r by blast
    have ok': "list_all (\<lambda>ob. operation_error ob = None) ops'" "map operationPayload ops' = map operationPayload kept"
      using all ok by (auto simp: list_all2_conv_all_nth list_all_length rereads_def intro: nth_equalityI)
    then have flt: "filter (\<lambda>ob. \<not> isOperationBlank ob) ops' = ops'"
      using valid_not_blank by (auto simp: list_all_iff filter_id_conv)
    have "ops' \<noteq> []" using all False by auto
    with build_cases [OF t flt [symmetric]] ok' r have "buildOperationsJson t True ops' = Inr r"
      by (simp add: document_def)
    with p show ?thesis by simp
  qed
qed

section \<open>What a saved rule holds\<close>

text \<open>The requirements on a stored rule, read from the text that is sent to the server.\<close>

definition has_text :: "js_value \<Rightarrow> bool" where
  "has_text v \<longleftrightarrow> (case v of JString s \<Rightarrow> trim s \<noteq> [] | _ \<Rightarrow> False)"

definition complete_rule :: "js_value \<Rightarrow> bool" where
  "complete_rule p \<longleftrightarrow>
     (let m = string_of (js_get p ''mode''); v = js_get p ''value'' in
      m \<in> set OPERATION_MODE_VALUES \<and>
      (mm_path (meta_of m) \<longrightarrow> has_text (js_get p ''path'')) \<and>
      (m \<in> set FROM_REQUIRED_MODES \<longrightarrow> has_text (js_get p ''from'')) \<and>
      (m \<in> set TO_REQUIRED_MODES \<longrightarrow> has_text (js_get p ''to'')) \<and>
      (m \<in> set VALUE_REQUIRED_MODES \<longrightarrow> v \<noteq> JUndefined \<and> v \<noteq> JString []) \<and>
      (m = ''return_error'' \<and> plain_object v \<longrightarrow>
         trim (to_text (value_or (js_get v ''message'') (JString []))) \<noteq> []) \<and>
      (m = ''pass_headers'' \<longrightarrow> parsePassHeaderNames v \<noteq> []))"

lemma unquoted_not_empty: "unquoted s \<Longrightarrow> trim s \<noteq> [] \<Longrightarrow> parseLooseValue s \<noteq> JString []"
  by (auto simp: unquoted_def loose_cases split: option.splits js_value.splits)

lemma return_error_message:
  assumes "return_error_error (trim s) = None" and "plain_object (parseLooseValue s)"
  shows "trim (to_text (value_or (js_get (parseLooseValue s) ''message'') (JString []))) \<noteq> []"
proof (cases "json_parse (trim s)")
  case None
  with assms(2) show ?thesis by (simp add: loose_cases plain_object_def)
next
  case (Some v)
  then have v: "parseLooseValue s = v" by (simp add: loose_cases)
  have "trim s \<noteq> []" using Some by auto
  with assms Some show ?thesis unfolding v return_error_error_def by (simp del: js_get.simps split: if_splits)
qed

lemma payload_complete:
  assumes "good_operation ob" and "operation_error ob = None"
  shows "complete_rule (operationPayload ob)"
proof -
  have mode: "po_mode ob \<in> set OPERATION_MODE_VALUES" using assms(1) by (simp add: good_operation_def)
  then have ne: "mode_or_set (po_mode ob) = po_mode ob"
    using mode_values_not_empty(2) by (auto simp: mode_or_set_def)
  note ok = assms(2) [unfolded operation_ok_iff [OF ne] required_ok_iff [OF ne]]
  have safe: "json_safe (parseLooseValue (po_value_text ob))"
    using assms(1) unquoted_safe by (simp add: good_operation_def)
  have unq: "unquoted (po_value_text ob)" using assms(1) by (simp add: good_operation_def)
  show ?thesis
    unfolding payload_eq [OF mode] complete_rule_def Let_def payload_get string_of.simps
  proof (intro conjI impI)
    show "po_mode ob \<in> set OPERATION_MODE_VALUES" by (rule mode)
  next
    assume "mm_path (meta_of (po_mode ob))"
    with ok show "has_text (if mm_path (meta_of (po_mode ob)) \<or> stored_path ob \<noteq> [] then JString (stored_path ob) else JUndefined)"
      by (simp add: has_text_def stored_path_def)
  next
    assume m: "po_mode ob \<in> set FROM_REQUIRED_MODES"
    with ok required_field(1) [OF m] show "has_text (if mm_from (meta_of (po_mode ob)) then JString (stored_from ob) else JUndefined)"
      by (auto simp: has_text_def stored_from_def or_path_def)
  next
    assume m: "po_mode ob \<in> set TO_REQUIRED_MODES"
    with ok required_field(2) [OF m]
    show "has_text (if mm_to (meta_of (po_mode ob)) = Some True \<or> stored_to ob \<noteq> [] then JString (stored_to ob) else JUndefined)"
      by (auto simp: has_text_def stored_to_def or_path_def)
  next
    assume m: "po_mode ob \<in> set VALUE_REQUIRED_MODES"
    with ok required_field(3) [OF m] safe unquoted_not_empty [OF unq]
    show "(if mm_value (meta_of (po_mode ob)) then parseLooseValue (po_value_text ob) else JUndefined) \<noteq> JUndefined"
      "(if mm_value (meta_of (po_mode ob)) then parseLooseValue (po_value_text ob) else JUndefined) \<noteq> JString []"
      by auto
  next
    assume m: "po_mode ob = ''return_error'' \<and>
      plain_object (if mm_value (meta_of (po_mode ob)) then parseLooseValue (po_value_text ob) else JUndefined)"
    then have "plain_object (parseLooseValue (po_value_text ob))" by (metis value_modes(1))
    from return_error_message [OF _ this] ok m show "trim (to_text (value_or (js_get (if mm_value (meta_of (po_mode ob))
        then parseLooseValue (po_value_text ob) else JUndefined) ''message'') (JString []))) \<noteq> []"
      using value_modes by (simp del: js_get.simps)
  next
    assume m: "po_mode ob = ''pass_headers''"
    with ok show "parsePassHeaderNames (if mm_value (meta_of (po_mode ob)) then parseLooseValue (po_value_text ob) else JUndefined) \<noteq> []"
      using value_modes by (simp add: pass_headers_error_def split: if_splits)
  qed
qed

lemma saved_rules:
  assumes t: "\<And>k l. t k l \<noteq> []" and good: "list_all good_operation ops"
    and saved: "buildOperationsJson t True ops = Inr r" and some: "r \<noteq> []"
  shows "\<exists>rules. json_parse r = Some (JObject [(''operations'', JArray rules)]) \<and>
    length rules = length (filter (\<lambda>ob. \<not> isOperationBlank ob) ops) \<and> list_all complete_rule rules"
proof -
  define kept where "kept = filter (\<lambda>ob. \<not> isOperationBlank ob) ops"
  from saved some build_cases [OF t kept_def] have ok: "list_all (\<lambda>ob. operation_error ob = None) kept"
    and r: "r = pretty (document kept)" by (auto split: if_splits)
  have g: "list_all good_operation kept" using good by (auto simp: kept_def list_all_iff)
  from pretty_round_trip [OF document_safe [OF g]] r
  have "json_parse r = Some (JObject [(''operations'', JArray (map operationPayload kept))])"
    by (simp add: document_def)
  moreover have "list_all complete_rule (map operationPayload kept)"
    using g ok payload_complete by (simp add: list_all_iff)
  ultimately show ?thesis by (auto simp: kept_def)
qed

section \<open>Moving a rule\<close>

lemma reorder_moves:
  assumes d: "distinct (map po_id ops)" and s: "src \<in> set ops" and g: "tgt \<in> set ops"
    and ne: "po_id src \<noteq> []" "po_id tgt \<noteq> []" "po_id src \<noteq> po_id tgt"
  shows "\<exists>pre post. filter (\<lambda>ob. ob \<noteq> src) ops = pre @ tgt # post \<and>
    reorderOperations ops (po_id src) (po_id tgt) Before = pre @ src # tgt # post \<and>
    reorderOperations ops (po_id src) (po_id tgt) After = pre @ tgt # src # post"
proof -
  from s obtain a b where ops: "ops = a @ src # b" by (meson split_list)
  have a: "po_id x \<noteq> po_id src" if "x \<in> set a \<or> x \<in> set b" for x
    using d that unfolding ops by (simp, metis imageI)
  have i: "find_index (\<lambda>ob. po_id ob = po_id src) ops = Some (length a)"
    unfolding ops by (rule find_index_first) (use a in auto)
  have "tgt \<in> set (a @ b)" using g ne(3) by (auto simp: ops)
  then obtain pre post where ab: "a @ b = pre @ tgt # post" by (meson split_list)
  have dab: "distinct (map po_id (a @ b))" using d by (auto simp: ops)
  have pre: "po_id x \<noteq> po_id tgt" if "x \<in> set pre" for x
    using dab that unfolding ab by (simp, metis imageI)
  have j: "find_index (\<lambda>ob. po_id ob = po_id tgt) (a @ b) = Some (length pre)"
    unfolding ab by (rule find_index_first) (use pre in auto)
  have rest: "take (length a) ops @ drop (Suc (length a)) ops = a @ b" and nth: "ops ! length a = src"
    by (simp_all add: ops)
  have "src \<notin> set a" "src \<notin> set b" using a by blast+
  then have "filter (\<lambda>ob. ob \<noteq> src) a = a" "filter (\<lambda>ob. ob \<noteq> src) b = b" by (auto simp: filter_id_conv)
  then have "filter (\<lambda>ob. ob \<noteq> src) ops = a @ b" by (simp add: ops)
  moreover have "reorderOperations ops (po_id src) (po_id tgt) q =
      (let k = (if q = After then length pre + 1 else length pre) in take k (a @ b) @ [src] @ drop k (a @ b))" for q
    using ne i j rest nth by (simp add: reorderOperations_def Let_def)
  ultimately show ?thesis
    by (intro exI [of _ pre] exI [of _ post]) (simp add: ab)
qed

section \<open>Custom errors\<close>

lemma status_is_number: "\<exists>k. status_or_400 n = Fin (of_int k) \<and> 100 \<le> k \<and> k \<le> 599"
proof (cases n)
  case (Fin r)
  show ?thesis
  proof (cases "of_int \<lfloor>r\<rfloor> = r \<and> 100 \<le> r \<and> r \<le> 599")
    case True
    then obtain k where k: "r = of_int k" by metis
    with True have "100 \<le> k" "k \<le> 599" by linarith+
    with k Fin show ?thesis by (intro exI [of _ k]) (simp add: status_or_400_def)
  next
    case False
    with Fin show ?thesis by (intro exI [of _ 400]) (auto simp: status_or_400_def)
  qed
qed (intro exI [of _ 400], simp add: status_or_400_def)+

lemma status_idem: "status_or_400 (status_or_400 n) = status_or_400 n"
  using status_is_number [of n] by (auto simp: status_or_400_def)

lemma status_safe: "json_safe (JNumber (status_or_400 n))"
  using status_is_number [of n] by auto

lemma trimmed_text: "trim (to_text (value_or (JString s) (JString []))) = trim s"
  by (simp add: value_or_def)

text \<open>A custom error in the advanced form is read back as it is shown: its texts trimmed and its status a
  valid one.\<close>

definition shown_draft :: "ReturnErrorDraft \<Rightarrow> ReturnErrorDraft" where
  "shown_draft d =
     \<lparr>re_message = trim (re_message d), re_statusCode = status_or_400 (re_statusCode d), re_code = trim (re_code d),
      re_type = trim (re_type d), re_skipRetry = re_skipRetry d, re_simpleMode = False\<rparr>"

lemma return_error_read_back:
  assumes "\<not> re_simpleMode d"
  shows "parseReturnErrorDraft (buildReturnErrorValueText d) = shown_draft d"
proof -
  define p where "p = put_if (\<not> re_skipRetry d) ''skip_retry'' (JBool False)
     (put_if (trim (re_type d) \<noteq> []) ''type'' (JString (trim (re_type d)))
       (put_if (trim (re_code d) \<noteq> []) ''code'' (JString (trim (re_code d)))
         [(''message'', JString (trim (re_message d))), (''status_code'', JNumber (status_or_400 (re_statusCode d)))]))"
  have b: "buildReturnErrorValueText d = json_text (JObject p)"
    using assms by (simp add: buildReturnErrorValueText_def Let_def p_def put_if_def)
  have "json_safe (JObject [(''message'', JString (trim (re_message d))),
      (''status_code'', JNumber (status_or_400 (re_statusCode d)))])"
    using status_safe [of "re_statusCode d"] by simp
  then have safe: "json_safe (JObject p)" unfolding p_def by (intro safe_put_if) simp_all
  have get: "js_get (JObject p) ''message'' = JString (trim (re_message d))"
    "js_get (JObject p) ''status_code'' = JNumber (status_or_400 (re_statusCode d))"
    "js_get (JObject p) ''code'' = (if trim (re_code d) \<noteq> [] then JString (trim (re_code d)) else JUndefined)"
    "js_get (JObject p) ''type'' = (if trim (re_type d) \<noteq> [] then JString (trim (re_type d)) else JUndefined)"
    "js_get (JObject p) ''skip_retry'' = (if re_skipRetry d then JUndefined else JBool False)"
    "js_get (JObject p) ''msg'' = JUndefined"
    unfolding p_def get_put_if by simp_all
  have ne: "json_text (JObject p) \<noteq> []" using tight_text [OF safe] by (simp add: tight_def)
  have tr: "trim (json_text (JObject p)) = json_text (JObject p)" by (rule trim_json_text [OF safe])
  show ?thesis
    unfolding b parseReturnErrorDraft_def Let_def tr json_round_trip [OF safe] get
    using ne by (simp add: plain_object_def shown_draft_def status_idem value_or_def get del: js_get.simps)
qed

lemma return_error_parts:
  assumes "\<not> re_simpleMode (parseReturnErrorDraft s)"
  shows "shown_draft (parseReturnErrorDraft s) = parseReturnErrorDraft s"
  using assms status_idem
  by (auto simp: parseReturnErrorDraft_def return_error_defaults_def shown_draft_def Let_def split: option.splits if_splits)

section \<open>Ends of a synchronisation\<close>

lemma trim_prefixed:
  "c # s = p \<Longrightarrow> \<not> js_space c \<Longrightarrow> trim k = k \<Longrightarrow> k \<noteq> [] \<Longrightarrow> trim (p @ k) = p @ k"
  using trim_bounds [of k] by (intro trim_id) auto

lemma sync_read_back:
  "parseSyncTargetSpec (buildSyncTargetSpec type key) =
     (if trim key = [] then \<lparr>st_type = ''json'', st_key = []\<rparr>
      else \<lparr>st_type = (if type = ''header'' then ''header'' else ''json''), st_key = trim key\<rparr>)"
proof (cases "trim key = []")
  case True
  then show ?thesis by (simp add: parseSyncTargetSpec_def buildSyncTargetSpec_def)
next
  case False
  have tr: "trim (''header:'' @ trim key) = ''header:'' @ trim key" "trim (''json:'' @ trim key) = ''json:'' @ trim key"
    using False trim_prefixed [of "CHR ''h''" "''eader:''" "''header:''" "trim key"]
      trim_prefixed [of "CHR ''j''" "''son:''" "''json:''" "trim key"] by (simp_all add: js_space_def)
  have ix: "index_of '':'' (''header:'' @ trim key) = Some 6" "index_of '':'' (''json:'' @ trim key) = Some 4"
    by (simp_all add: eval_nat_numeral)
  have "trim ''header'' = ''header''" "trim ''json'' = ''json''"
    by (simp_all add: trim_def trim_start_def trim_end_def js_space_def)
  moreover have "lower ''header'' = ''header''" "lower ''json'' = ''json''" by (simp_all add: lower_char_def)
  ultimately show ?thesis
    using tr ix False by (simp add: parseSyncTargetSpec_def buildSyncTargetSpec_def Let_def)
qed

section \<open>Pruned objects\<close>

text \<open>A rule as it is shown after it was stored.\<close>

definition same_rule :: "PruneRule \<Rightarrow> PruneRule \<Rightarrow> bool" where
  "same_rule r r' \<longleftrightarrow> pr_path r' = trim (pr_path r) \<and> pr_mode r' = pr_mode r \<and> pr_invert r' = pr_invert r \<and>
     pr_pass_missing_key r' = pr_pass_missing_key r \<and>
     parseLooseValue (pr_value_text r') = parseLooseValue (pr_value_text r)"

definition good_rule :: "PruneRule \<Rightarrow> bool" where
  "good_rule r \<longleftrightarrow> pr_mode r \<in> set CONDITION_MODE_VALUES \<and> unquoted (pr_value_text r)"

definition rule_fields :: "PruneRule \<Rightarrow> (string \<times> js_value) list" where
  "rule_fields r = put_if (pr_pass_missing_key r) ''pass_missing_key'' (JBool True)
     (put_if (pr_invert r) ''invert'' (JBool True)
       (put_if (trim (pr_value_text r) \<noteq> []) ''value'' (parseLooseValue (pr_value_text r))
         [(''path'', JString (trim (pr_path r))), (''mode'', JString (pr_mode r))]))"

lemma rule_payload: "good_rule r \<Longrightarrow> pruneConditionPayload r = JObject (rule_fields r)"
  by (simp add: pruneConditionPayload_def good_rule_def rule_fields_def put_if_def Let_def)

lemma rule_payload_safe:
  assumes "good_rule r"
  shows "json_safe (pruneConditionPayload r)"
  unfolding rule_payload [OF assms] rule_fields_def
  by (intro safe_put_if) (use assms unquoted_safe in \<open>simp_all add: good_rule_def\<close>)

lemma rule_get:
  "js_get (JObject (rule_fields r)) ''path'' = JString (trim (pr_path r))"
  "js_get (JObject (rule_fields r)) ''mode'' = JString (pr_mode r)"
  "js_get (JObject (rule_fields r)) ''value'' =
     (if trim (pr_value_text r) \<noteq> [] then parseLooseValue (pr_value_text r) else JUndefined)"
  "js_get (JObject (rule_fields r)) ''invert'' = (if pr_invert r then JBool True else JUndefined)"
  "js_get (JObject (rule_fields r)) ''pass_missing_key'' = (if pr_pass_missing_key r then JBool True else JUndefined)"
  unfolding rule_fields_def get_put_if by simp_all

lemma rule_read_back:
  assumes "good_rule r"
  shows "\<exists>r' m. normalizePruneRule clock (pruneConditionPayload r) n = (Some r', m) \<and> same_rule r r'"
proof -
  have v: "parseLooseValue (toValueText (if trim (pr_value_text r) \<noteq> [] then parseLooseValue (pr_value_text r) else JUndefined)) =
      parseLooseValue (pr_value_text r)"
  proof (cases "trim (pr_value_text r) = []")
    case True
    then show ?thesis by (simp add: toValueText_def loose_cases)
  next
    case False
    with assms shown_again(3) [of "pr_value_text r"] show ?thesis by (simp add: good_rule_def)
  qed
  show ?thesis
    unfolding rule_payload [OF assms] normalizePruneRule_def given_def Let_def text_field_def rule_get
    using assms v by (auto simp: nextLocalId_def same_rule_def known_or_def good_rule_def rule_get simp del: js_get.simps)
qed

definition kept_rules :: "PruneObjectsDraft \<Rightarrow> PruneRule list" where
  "kept_rules d = filter (\<lambda>r. trim (pr_path r) \<noteq> []) (pd_rules d)"

definition any_logic :: "PruneObjectsDraft \<Rightarrow> bool" where
  "any_logic d \<longleftrightarrow> upper (or_text (Some (pd_logic d)) ''AND'') = ''OR''"

text \<open>What the advanced form shows after it was stored.\<close>

definition shown_prune :: "PruneObjectsDraft \<Rightarrow> PruneRule list \<Rightarrow> PruneObjectsDraft" where
  "shown_prune d rules =
     (if trim (pd_typeText d) = [] \<and> kept_rules d = []
      then \<lparr>pd_simpleMode = False, pd_typeText = [], pd_logic = ''AND'', pd_recursive = True, pd_rules = []\<rparr>
      else \<lparr>pd_simpleMode = (\<not> any_logic d \<and> pd_recursive d \<and> kept_rules d = []), pd_typeText = trim (pd_typeText d),
            pd_logic = (if any_logic d then ''OR'' else ''AND''), pd_recursive = pd_recursive d, pd_rules = rules\<rparr>)"

lemma prune_text:
  assumes "\<not> pd_simpleMode d"
  shows "buildPruneObjectsValueText d =
    json_text (JObject (if trim (pd_typeText d) = [] \<and> kept_rules d = [] then [(''logic'', JString ''AND'')]
      else put_if (kept_rules d \<noteq> []) ''conditions'' (JArray (map pruneConditionPayload (kept_rules d)))
        (put_if (\<not> pd_recursive d) ''recursive'' (JBool False)
          (put_if (any_logic d) ''logic'' (JString ''OR'')
            (put_if (trim (pd_typeText d) \<noteq> []) ''type'' (JString (trim (pd_typeText d))) [])))))"
  using assms by (simp add: buildPruneObjectsValueText_def kept_rules_def any_logic_def Let_def put_if_def)

lemma prune_parse:
  assumes "json_safe (JObject p)"
  shows "parsePruneObjectsDraft clock (json_text (JObject p)) n =
    (case map_ids (normalizePruneRule clock) (rule_sources (JObject p)) n of
       (None, n') \<Rightarrow> (prune_defaults\<lparr>pd_typeText := json_text (JObject p)\<rparr>, n')
     | (Some rules, n') \<Rightarrow>
         (\<lparr>pd_simpleMode = (\<not> list_ex (\<lambda>k. js_get (JObject p) k \<noteq> JUndefined)
             [''logic'', ''recursive'', ''where'', ''conditions'']),
           pd_typeText = (if js_get (JObject p) ''type'' = JUndefined then [] else trim (to_text (js_get (JObject p) ''type''))),
           pd_logic = (if upper (to_text (value_or (js_get (JObject p) ''logic'') (JString ''AND''))) = ''OR''
             then ''OR'' else ''AND''),
           pd_recursive = (js_get (JObject p) ''recursive'' \<noteq> JBool False),
           pd_rules = rules\<rparr>, n'))"
proof -
  have ne: "json_text (JObject p) \<noteq> []" using tight_text [OF assms] by (simp add: tight_def)
  have tr: "trim (json_text (JObject p)) = json_text (JObject p)" by (rule trim_json_text [OF assms])
  show ?thesis
    unfolding parsePruneObjectsDraft_def Let_def tr json_round_trip [OF assms]
    using ne by (simp add: plain_object_def del: js_get.simps)
qed

lemma prune_read_back:
  assumes adv: "\<not> pd_simpleMode d" and good: "list_all good_rule (pd_rules d)"
  shows "\<exists>rules m. parsePruneObjectsDraft clock (buildPruneObjectsValueText d) n = (shown_prune d rules, m) \<and>
    list_all2 same_rule (kept_rules d) rules"
proof -
  have g: "good_rule r" if "r \<in> set (kept_rules d)" for r
    using good that by (simp add: kept_rules_def list_all_iff)
  define ps where "ps = map pruneConditionPayload (kept_rules d)"
  have flt: "filter (\<lambda>item. truthy item \<and> is_object item) ps = ps"
    using g by (auto simp: ps_def filter_id_conv rule_payload is_object_def)
  have "\<exists>r' m. normalizePruneRule clock q k = (Some r', m) \<and>
      (\<forall>r \<in> set (kept_rules d). pruneConditionPayload r = q \<longrightarrow> same_rule r r')" if q: "q \<in> set ps" for q k
  proof -
    from q obtain r where r: "r \<in> set (kept_rules d)" "q = pruneConditionPayload r" by (auto simp: ps_def)
    from rule_read_back [OF g [OF r(1)], of clock k] r obtain r' m where
      n: "normalizePruneRule clock q k = (Some r', m)" by auto
    have "same_rule s r'" if "s \<in> set (kept_rules d)" "pruneConditionPayload s = q" for s
      using rule_read_back [OF g [OF that(1)], of clock k] that n by auto
    with n show ?thesis by blast
  qed
  from map_ids_all2 [of ps "normalizePruneRule clock"
      "\<lambda>q r'. \<forall>r \<in> set (kept_rules d). pruneConditionPayload r = q \<longrightarrow> same_rule r r'" n, OF this]
  obtain rules m where m: "map_ids (normalizePruneRule clock) ps n = (Some rules, m)"
    and "list_all2 (\<lambda>q r'. \<forall>r \<in> set (kept_rules d). pruneConditionPayload r = q \<longrightarrow> same_rule r r') ps rules" by blast
  then have all: "list_all2 same_rule (kept_rules d) rules"
    by (auto simp: ps_def list_all2_conv_all_nth)
  show ?thesis
  proof (cases "trim (pd_typeText d) = [] \<and> kept_rules d = []")
    case True
    have safe: "json_safe (JObject [(''logic'', JString ''AND'')])" by simp
    have "parsePruneObjectsDraft clock (buildPruneObjectsValueText d) n = (shown_prune d [], n)"
      unfolding prune_text [OF adv] using True
      by (simp only: if_True prune_parse [OF safe] simp_thms)
         (simp add: rule_sources_def entry_rules_def shown_prune_def value_or_def upper_logic)
    with True show ?thesis by auto
  next
    case False
    define p where "p = put_if (kept_rules d \<noteq> []) ''conditions'' (JArray ps)
        (put_if (\<not> pd_recursive d) ''recursive'' (JBool False)
          (put_if (any_logic d) ''logic'' (JString ''OR'')
            (put_if (trim (pd_typeText d) \<noteq> []) ''type'' (JString (trim (pd_typeText d))) [])))"
    have stored: "buildPruneObjectsValueText d = json_text (JObject p)"
      unfolding prune_text [OF adv] p_def ps_def using False by (simp only: if_False)
    have "json_safe (JArray ps)" using g rule_payload_safe by (simp add: ps_def list_all_iff)
    then have safe: "json_safe (JObject p)" unfolding p_def by (intro safe_put_if) simp_all
    have get: "js_get (JObject p) ''where'' = JUndefined"
      "js_get (JObject p) ''conditions'' = (if kept_rules d \<noteq> [] then JArray ps else JUndefined)"
      "js_get (JObject p) ''recursive'' = (if pd_recursive d then JUndefined else JBool False)"
      "js_get (JObject p) ''logic'' = (if any_logic d then JString ''OR'' else JUndefined)"
      "js_get (JObject p) ''type'' = (if trim (pd_typeText d) \<noteq> [] then JString (trim (pd_typeText d)) else JUndefined)"
      unfolding p_def get_put_if by simp_all
    have src: "rule_sources (JObject p) = ps"
      by (simp add: rule_sources_def get entry_rules_def flt ps_def [symmetric] del: js_get.simps)
         (simp add: ps_def)
    have "parsePruneObjectsDraft clock (buildPruneObjectsValueText d) n = (shown_prune d rules, m)"
      unfolding stored prune_parse [OF safe] src m shown_prune_def
      using False by (simp add: get value_or_def upper_logic del: js_get.simps)
    with all show ?thesis by blast
  qed
qed

end
