(* ===== verification/Param_Editor.thy ===== *)
theory Param_Editor
  imports Param_Override
begin

text \<open>
  The dialog that edits the parameter overrides of a channel
  (\<^verbatim>\<open>web/src/features/channels/components/dialogs/param-override-editor-dialog.tsx\<close>, the component): its state
  variables as a record that extends the state a stored text opens to, its effects and handlers as functions
  on the record, and a step function over the events of the dialog.  Toasts, calls of \<^verbatim>\<open>onSave\<close> and of
  \<^verbatim>\<open>onOpenChange\<close> are recorded in order.  A handler that raises a \<^verbatim>\<open>TypeError\<close> nothing catches leaves the
  state as it is and sets \<open>pe_raised\<close>.  Updater functions run at once; whether React has run the updater of
  \<^verbatim>\<open>duplicateOperation\<close> when the handler goes on is an argument of the event.  \<open>t key line\<close> translates a
  message, with the line of a rule where there is one.
\<close>

section \<open>State\<close>

record param_editor = EditorState +
  pe_operationSearch :: string
  pe_selectedOperationId :: string
  pe_expandedConditions :: "(string \<times> bool) list"
  pe_draggedOperationId :: string
  pe_dragOverOperationId :: string
  pe_dragOverPosition :: drop_position
  pe_templatePresetKey :: string
  pe_seed :: nat
  pe_toasts :: "string list"
  pe_saved :: "string list"
  pe_openChanges :: "bool list"
  pe_raised :: bool

type_synonym translate = "string \<Rightarrow> nat option \<Rightarrow> string"

abbreviation line_messages :: "translate \<Rightarrow> string \<Rightarrow> nat \<Rightarrow> string" where
  "line_messages t \<equiv> \<lambda>key line. t key (Some line)"

definition initial_editor :: "clock \<Rightarrow> nat \<Rightarrow> param_editor" where
  "initial_editor clock n =
     (case createDefaultOperation clock n of (ob, n') \<Rightarrow>
        \<lparr>es_editMode = VisualEdit, es_visualMode = OperationsVisual, es_legacyValue = [], es_operations = [ob],
         es_jsonText = [], es_jsonError = [], pe_operationSearch = [], pe_selectedOperationId = [],
         pe_expandedConditions = [], pe_draggedOperationId = [], pe_dragOverOperationId = [],
         pe_dragOverPosition = Before, pe_templatePresetKey = ''operations_default'', pe_seed = n', pe_toasts = [],
         pe_saved = [], pe_openChanges = [], pe_raised = False\<rparr>)"

definition first_id :: "ParamOverrideOperation list \<Rightarrow> string" where
  "first_id ops = (case ops of [] \<Rightarrow> [] | ob # _ \<Rightarrow> po_id ob)"

section \<open>Effects\<close>

definition openEditor :: "clock \<Rightarrow> string \<Rightarrow> param_editor \<Rightarrow> param_editor" where
  "openEditor clock value s =
     (case parseInitialState clock value (pe_seed s) of
        (None, n) \<Rightarrow> s\<lparr>pe_seed := n, pe_raised := True\<rparr>
      | (Some st, n) \<Rightarrow>
          s\<lparr>es_editMode := es_editMode st, es_visualMode := es_visualMode st, es_legacyValue := es_legacyValue st,
            es_operations := es_operations st, es_jsonText := es_jsonText st, es_jsonError := es_jsonError st,
            pe_operationSearch := [], pe_selectedOperationId := first_id (es_operations st),
            pe_expandedConditions := [], pe_draggedOperationId := [], pe_dragOverOperationId := [],
            pe_dragOverPosition := Before,
            pe_templatePresetKey := (if es_visualMode st = LegacyVisual then ''legacy_default'' else ''operations_default''),
            pe_seed := n\<rparr>)"

definition keepSelection :: "param_editor \<Rightarrow> param_editor" where
  "keepSelection s =
     (if es_operations s = [] then s\<lparr>pe_selectedOperationId := []\<rparr>
      else if list_ex (\<lambda>ob. po_id ob = pe_selectedOperationId s) (es_operations s) then s
      else s\<lparr>pe_selectedOperationId := po_id (hd (es_operations s))\<rparr>)"

section \<open>What the dialog shows\<close>

definition templatePresetOptions :: "(string \<times> string) list" where
  "templatePresetOptions = map (\<lambda>(value, config). (value, tp_label config)) TEMPLATE_PRESET_CONFIG"

definition operationCount :: "param_editor \<Rightarrow> nat" where
  "operationCount s = length (filter (\<lambda>ob. \<not> isOperationBlank ob) (es_operations s))"

definition filteredOperations :: "param_editor \<Rightarrow> ParamOverrideOperation list" where
  "filteredOperations s =
     (let keyword = lower (trim (pe_operationSearch s)) in
      if keyword = [] then es_operations s
      else filter (\<lambda>ob. str_includes keyword (lower (join '' '' (filter (\<lambda>x. x \<noteq> [])
             [po_description ob, po_mode ob, po_path ob, po_from ob, po_to ob, po_value_text ob])))) (es_operations s))"

definition selectedOperation :: "param_editor \<Rightarrow> ParamOverrideOperation option" where
  "selectedOperation s = find (\<lambda>ob. po_id ob = pe_selectedOperationId s) (es_operations s)"

definition selectedOperationIndex :: "param_editor \<Rightarrow> nat option" where
  "selectedOperationIndex s = find_index (\<lambda>ob. po_id ob = pe_selectedOperationId s) (es_operations s)"

definition returnErrorDraft :: "param_editor \<Rightarrow> ReturnErrorDraft option" where
  "returnErrorDraft s =
     (case selectedOperation s of
        None \<Rightarrow> None
      | Some ob \<Rightarrow> if po_mode ob \<noteq> ''return_error'' then None else Some (parseReturnErrorDraft (po_value_text ob)))"

definition pruneObjectsDraft :: "clock \<Rightarrow> param_editor \<Rightarrow> PruneObjectsDraft option \<times> nat" where
  "pruneObjectsDraft clock s =
     (case selectedOperation s of
        None \<Rightarrow> (None, pe_seed s)
      | Some ob \<Rightarrow>
          if po_mode ob \<noteq> ''prune_objects'' then (None, pe_seed s)
          else (case parsePruneObjectsDraft clock (po_value_text ob) (pe_seed s) of (d, n) \<Rightarrow> (Some d, n)))"

definition count_modes :: "ParamOverrideOperation list \<Rightarrow> (string \<times> nat) list" where
  "count_modes ops = fold (\<lambda>ob counts.
     let mode = mode_or_set (po_mode ob)
     in AList.update mode ((case map_of counts mode of Some k \<Rightarrow> k | None \<Rightarrow> 0) + 1) counts) ops []"

definition topOperationModes :: "param_editor \<Rightarrow> (string \<times> nat) list" where
  "topOperationModes s =
     take 4 (js_sort (\<lambda>a b. of_nat (snd b) - of_nat (snd a)) (count_modes (es_operations s)))"

section \<open>Rules\<close>

text \<open>The fields that a partial rule, condition, draft or pruning rule may set.\<close>

datatype operation_field =
    OpMode string | OpPath string | OpDescription string | OpValueText string | OpKeepOrigin bool
  | OpFrom string | OpTo string | OpLogic string

fun set_operation_field :: "operation_field \<Rightarrow> ParamOverrideOperation \<Rightarrow> ParamOverrideOperation" where
  "set_operation_field (OpMode x) ob = ob\<lparr>po_mode := x\<rparr>"
| "set_operation_field (OpPath x) ob = ob\<lparr>po_path := x\<rparr>"
| "set_operation_field (OpDescription x) ob = ob\<lparr>po_description := x\<rparr>"
| "set_operation_field (OpValueText x) ob = ob\<lparr>po_value_text := x\<rparr>"
| "set_operation_field (OpKeepOrigin x) ob = ob\<lparr>po_keep_origin := x\<rparr>"
| "set_operation_field (OpFrom x) ob = ob\<lparr>po_from := x\<rparr>"
| "set_operation_field (OpTo x) ob = ob\<lparr>po_to := x\<rparr>"
| "set_operation_field (OpLogic x) ob = ob\<lparr>po_logic := x\<rparr>"

datatype condition_field =
    CondPath string | CondMode string | CondValueText string | CondInvert bool | CondPassMissingKey bool

fun set_condition_field :: "condition_field \<Rightarrow> ParamOverrideCondition \<Rightarrow> ParamOverrideCondition" where
  "set_condition_field (CondPath x) c = c\<lparr>pc_path := x\<rparr>"
| "set_condition_field (CondMode x) c = c\<lparr>pc_mode := x\<rparr>"
| "set_condition_field (CondValueText x) c = c\<lparr>pc_value_text := x\<rparr>"
| "set_condition_field (CondInvert x) c = c\<lparr>pc_invert := x\<rparr>"
| "set_condition_field (CondPassMissingKey x) c = c\<lparr>pc_pass_missing_key := x\<rparr>"

datatype draft_field =
    DraftMessage string | DraftStatusCode js_number | DraftCode string | DraftType string
  | DraftSkipRetry bool | DraftSimpleMode bool

fun set_draft_field :: "draft_field \<Rightarrow> ReturnErrorDraft \<Rightarrow> ReturnErrorDraft" where
  "set_draft_field (DraftMessage x) d = d\<lparr>re_message := x\<rparr>"
| "set_draft_field (DraftStatusCode x) d = d\<lparr>re_statusCode := x\<rparr>"
| "set_draft_field (DraftCode x) d = d\<lparr>re_code := x\<rparr>"
| "set_draft_field (DraftType x) d = d\<lparr>re_type := x\<rparr>"
| "set_draft_field (DraftSkipRetry x) d = d\<lparr>re_skipRetry := x\<rparr>"
| "set_draft_field (DraftSimpleMode x) d = d\<lparr>re_simpleMode := x\<rparr>"

datatype prune_field =
    PruneSimpleMode bool | PruneTypeText string | PruneLogic string | PruneRecursive bool

fun set_prune_field :: "prune_field \<Rightarrow> PruneObjectsDraft \<Rightarrow> PruneObjectsDraft" where
  "set_prune_field (PruneSimpleMode x) d = d\<lparr>pd_simpleMode := x\<rparr>"
| "set_prune_field (PruneTypeText x) d = d\<lparr>pd_typeText := x\<rparr>"
| "set_prune_field (PruneLogic x) d = d\<lparr>pd_logic := x\<rparr>"
| "set_prune_field (PruneRecursive x) d = d\<lparr>pd_recursive := x\<rparr>"

datatype rule_field =
    RulePath string | RuleMode string | RuleValueText string | RuleInvert bool | RulePassMissingKey bool

fun set_rule_field :: "rule_field \<Rightarrow> PruneRule \<Rightarrow> PruneRule" where
  "set_rule_field (RulePath x) r = r\<lparr>pr_path := x\<rparr>"
| "set_rule_field (RuleMode x) r = r\<lparr>pr_mode := x\<rparr>"
| "set_rule_field (RuleValueText x) r = r\<lparr>pr_value_text := x\<rparr>"
| "set_rule_field (RuleInvert x) r = r\<lparr>pr_invert := x\<rparr>"
| "set_rule_field (RulePassMissingKey x) r = r\<lparr>pr_pass_missing_key := x\<rparr>"

text \<open>\<^verbatim>\<open>prev.map((o) => o.id === operationId ? f(o) : o)\<close>.\<close>

definition at_operation ::
  "string \<Rightarrow> (ParamOverrideOperation \<Rightarrow> ParamOverrideOperation) \<Rightarrow> param_editor \<Rightarrow> param_editor" where
  "at_operation operationId f s =
     s\<lparr>es_operations := map (\<lambda>ob. if po_id ob = operationId then f ob else ob) (es_operations s)\<rparr>"

definition updateOperation :: "string \<Rightarrow> operation_field list \<Rightarrow> param_editor \<Rightarrow> param_editor" where
  "updateOperation operationId patch s = at_operation operationId (fold set_operation_field patch) s"

definition addOperation :: "clock \<Rightarrow> param_editor \<Rightarrow> param_editor" where
  "addOperation clock s =
     (case createDefaultOperation clock (pe_seed s) of (created, n) \<Rightarrow>
        s\<lparr>es_operations := es_operations s @ [created], pe_selectedOperationId := po_id created, pe_seed := n\<rparr>)"

definition duplicate_source :: "ParamOverrideOperation \<Rightarrow> js_value" where
  "duplicate_source ob =
     JObject [(''description'', JString (po_description ob)), (''path'', JString (po_path ob)),
       (''mode'', JString (po_mode ob)), (''value'', parseLooseValue (po_value_text ob)),
       (''keep_origin'', JBool (po_keep_origin ob)), (''from'', JString (po_from ob)), (''to'', JString (po_to ob)),
       (''logic'', JString (po_logic ob)),
       (''conditions'', JArray (map (\<lambda>c. JObject [(''path'', JString (pc_path c)), (''mode'', JString (pc_mode c)),
          (''value'', parseLooseValue (pc_value_text c)), (''invert'', JBool (pc_invert c)),
          (''pass_missing_key'', JBool (pc_pass_missing_key c))]) (po_conditions ob)))]"

definition duplicateOperation :: "clock \<Rightarrow> bool \<Rightarrow> string \<Rightarrow> param_editor \<Rightarrow> param_editor" where
  "duplicateOperation clock eager operationId s =
     (case find_index (\<lambda>ob. po_id ob = operationId) (es_operations s) of
        None \<Rightarrow> s
      | Some idx \<Rightarrow>
          (case normalizeOperation clock (duplicate_source (es_operations s ! idx)) (pe_seed s) of
             (None, n) \<Rightarrow> s\<lparr>pe_seed := n, pe_raised := True\<rparr>
           | (Some cloned, n) \<Rightarrow>
               let s' = s\<lparr>es_operations := take (idx + 1) (es_operations s) @ [cloned] @ drop (idx + 1) (es_operations s),
                          pe_seed := n\<rparr>
               in if eager then s'\<lparr>pe_selectedOperationId := po_id cloned\<rparr> else s'))"

definition removeOperation :: "clock \<Rightarrow> string \<Rightarrow> param_editor \<Rightarrow> param_editor" where
  "removeOperation clock operationId s =
     (if length (es_operations s) \<le> 1
      then (case createDefaultOperation clock (pe_seed s) of (ob, n) \<Rightarrow> s\<lparr>es_operations := [ob], pe_seed := n\<rparr>)
      else s\<lparr>es_operations := filter (\<lambda>ob. po_id ob \<noteq> operationId) (es_operations s)\<rparr>)"

section \<open>Conditions\<close>

definition addCondition :: "clock \<Rightarrow> string \<Rightarrow> param_editor \<Rightarrow> param_editor" where
  "addCondition clock operationId s =
     (case createDefaultCondition clock (pe_seed s) of
        (None, n) \<Rightarrow> s\<lparr>pe_seed := n, pe_raised := True\<rparr>
      | (Some created, n) \<Rightarrow>
          (at_operation operationId (\<lambda>ob. ob\<lparr>po_conditions := po_conditions ob @ [created]\<rparr>) s)
            \<lparr>pe_expandedConditions := AList.update (pc_id created) True (pe_expandedConditions s), pe_seed := n\<rparr>)"

definition updateCondition :: "string \<Rightarrow> string \<Rightarrow> condition_field list \<Rightarrow> param_editor \<Rightarrow> param_editor" where
  "updateCondition operationId conditionId patch s =
     at_operation operationId
       (\<lambda>ob. ob\<lparr>po_conditions := map (\<lambda>c. if pc_id c = conditionId then fold set_condition_field patch c else c)
          (po_conditions ob)\<rparr>) s"

definition removeCondition :: "string \<Rightarrow> string \<Rightarrow> param_editor \<Rightarrow> param_editor" where
  "removeCondition operationId conditionId s =
     at_operation operationId
       (\<lambda>ob. ob\<lparr>po_conditions := filter (\<lambda>c. pc_id c \<noteq> conditionId) (po_conditions ob)\<rparr>) s"

section \<open>Drafts\<close>

definition updateReturnErrorDraft :: "string \<Rightarrow> draft_field list \<Rightarrow> param_editor \<Rightarrow> param_editor" where
  "updateReturnErrorDraft operationId draftPatch s =
     at_operation operationId
       (\<lambda>ob. ob\<lparr>po_value_text :=
          buildReturnErrorValueText (fold set_draft_field draftPatch (parseReturnErrorDraft (po_value_text ob)))\<rparr>) s"

text \<open>\<^verbatim>\<open>items.map(f)\<close> for an \<open>f\<close> that draws identifiers.\<close>

fun map_draw :: "('a \<Rightarrow> nat \<Rightarrow> 'b \<times> nat) \<Rightarrow> 'a list \<Rightarrow> nat \<Rightarrow> 'b list \<times> nat" where
  "map_draw f [] n = ([], n)"
| "map_draw f (x # xs) n = (case f x n of (y, m) \<Rightarrow> (case map_draw f xs m of (ys, k) \<Rightarrow> (y # ys, k)))"

definition updatePruneObjectsDraft ::
  "clock \<Rightarrow> string \<Rightarrow> (PruneObjectsDraft \<Rightarrow> nat \<Rightarrow> PruneObjectsDraft \<times> nat) \<Rightarrow> param_editor \<Rightarrow> param_editor" where
  "updatePruneObjectsDraft clock operationId updater s =
     (case map_draw (\<lambda>ob n.
             if po_id ob \<noteq> operationId then (ob, n)
             else (case parsePruneObjectsDraft clock (po_value_text ob) n of (draft, n') \<Rightarrow>
                   (case updater draft n' of (nextDraft, n'') \<Rightarrow>
                      (ob\<lparr>po_value_text := buildPruneObjectsValueText nextDraft\<rparr>, n''))))
           (es_operations s) (pe_seed s) of
        (ops, n) \<Rightarrow> s\<lparr>es_operations := ops, pe_seed := n\<rparr>)"

definition patchPruneObjectsDraft :: "clock \<Rightarrow> string \<Rightarrow> prune_field list \<Rightarrow> param_editor \<Rightarrow> param_editor" where
  "patchPruneObjectsDraft clock operationId patch s =
     updatePruneObjectsDraft clock operationId (\<lambda>draft n. (fold set_prune_field patch draft, n)) s"

text \<open>\<^verbatim>\<open>normalizePruneRule({})\<close> never raises.\<close>

definition addPruneRule :: "clock \<Rightarrow> string \<Rightarrow> param_editor \<Rightarrow> param_editor" where
  "addPruneRule clock operationId s =
     updatePruneObjectsDraft clock operationId
       (\<lambda>draft n. case normalizePruneRule clock (JObject []) n of (r, n') \<Rightarrow>
          (draft\<lparr>pd_simpleMode := False, pd_rules := pd_rules draft @ [the r]\<rparr>, n')) s"

definition updatePruneRule :: "clock \<Rightarrow> string \<Rightarrow> string \<Rightarrow> rule_field list \<Rightarrow> param_editor \<Rightarrow> param_editor" where
  "updatePruneRule clock operationId ruleId patch s =
     updatePruneObjectsDraft clock operationId
       (\<lambda>draft n. (draft\<lparr>pd_rules := map (\<lambda>r. if pr_id r = ruleId then fold set_rule_field patch r else r)
          (pd_rules draft)\<rparr>, n)) s"

definition removePruneRule :: "clock \<Rightarrow> string \<Rightarrow> string \<Rightarrow> param_editor \<Rightarrow> param_editor" where
  "removePruneRule clock operationId ruleId s =
     updatePruneObjectsDraft clock operationId
       (\<lambda>draft n. (draft\<lparr>pd_rules := filter (\<lambda>r. pr_id r \<noteq> ruleId) (pd_rules draft)\<rparr>, n)) s"

section \<open>Drag and drop\<close>

definition resetDragState :: "param_editor \<Rightarrow> param_editor" where
  "resetDragState s = s\<lparr>pe_draggedOperationId := [], pe_dragOverOperationId := [], pe_dragOverPosition := Before\<rparr>"

definition handleDragStart :: "string \<Rightarrow> param_editor \<Rightarrow> param_editor" where
  "handleDragStart operationId s = s\<lparr>pe_draggedOperationId := operationId, pe_selectedOperationId := operationId\<rparr>"

text \<open>\<open>position\<close> is the half of the target the pointer is over.\<close>

definition handleDragOver :: "string \<Rightarrow> drop_position \<Rightarrow> param_editor \<Rightarrow> param_editor" where
  "handleDragOver operationId position s =
     (if pe_draggedOperationId s = [] \<or> pe_draggedOperationId s = operationId then s
      else s\<lparr>pe_dragOverOperationId := operationId, pe_dragOverPosition := position\<rparr>)"

text \<open>\<open>transferred\<close> is the text of the data transfer.\<close>

definition handleDrop :: "string \<Rightarrow> string \<Rightarrow> param_editor \<Rightarrow> param_editor" where
  "handleDrop transferred operationId s =
     (let sourceId = (if pe_draggedOperationId s = [] then transferred else pe_draggedOperationId s);
          position = (if pe_dragOverOperationId s = operationId then pe_dragOverPosition s else Before);
          s' = (if sourceId \<noteq> [] \<and> operationId \<noteq> [] \<and> sourceId \<noteq> operationId
                then s\<lparr>es_operations := reorderOperations (es_operations s) sourceId operationId position,
                       pe_selectedOperationId := sourceId\<rparr>
                else s)
      in resetDragState s')"

section \<open>Switching modes and templates\<close>

text \<open>\<open>Inl\<close> is the message of the raised \<^verbatim>\<open>Error\<close>.\<close>

definition buildVisualJson :: "translate \<Rightarrow> param_editor \<Rightarrow> string + string" where
  "buildVisualJson t s =
     (if es_visualMode s = LegacyVisual then
        (let trimmed = trim (es_legacyValue s) in
         if trimmed = [] then Inr []
         else (case json_parse trimmed of
                 None \<Rightarrow> Inl (t ''Parameter override must be valid JSON format'' None)
               | Some parsed \<Rightarrow>
                   if plain_object parsed then Inr (pretty parsed)
                   else Inl (t ''Legacy format must be a JSON object'' None)))
      else buildOperationsJson (line_messages t) True (es_operations s))"

definition toast_error :: "string \<Rightarrow> param_editor \<Rightarrow> param_editor" where
  "toast_error message s = s\<lparr>pe_toasts := pe_toasts s @ [message]\<rparr>"

definition switchToJsonMode :: "translate \<Rightarrow> param_editor \<Rightarrow> param_editor" where
  "switchToJsonMode t s =
     (if es_editMode s = JsonEdit then s
      else (case buildVisualJson t s of
              Inr result \<Rightarrow> s\<lparr>es_jsonText := result, es_jsonError := [], es_editMode := JsonEdit\<rparr>
            | Inl message \<Rightarrow>
                (toast_error message s)
                  \<lparr>es_jsonText := (if es_visualMode s = LegacyVisual then es_legacyValue s
                     else (case buildOperationsJson (line_messages t) False (es_operations s) of Inr r \<Rightarrow> r | Inl e \<Rightarrow> e)),
                   es_jsonError := (if message = [] then t ''Parameter configuration error'' None else message),
                   es_editMode := JsonEdit\<rparr>))"

definition switchToVisualMode :: "clock \<Rightarrow> translate \<Rightarrow> param_editor \<Rightarrow> param_editor" where
  "switchToVisualMode clock t s =
     (if es_editMode s = VisualEdit then s
      else let trimmed = trim (es_jsonText s) in
        if trimmed = [] then
          (case createDefaultOperation clock (pe_seed s) of (fallback, n) \<Rightarrow>
             s\<lparr>es_visualMode := OperationsVisual, es_operations := [fallback], pe_selectedOperationId := po_id fallback,
               es_legacyValue := [], es_jsonError := [], es_editMode := VisualEdit, pe_seed := n\<rparr>)
        else (case json_parse trimmed of
                None \<Rightarrow> toast_error (t ''Parameter override must be valid JSON format'' None) s
              | Some parsed \<Rightarrow>
                  (case (parsed, js_get parsed ''operations'') of
                     (JObject _, JArray items) \<Rightarrow>
                       (case document_operations clock items (pe_seed s) of
                          (None, n) \<Rightarrow> s\<lparr>pe_seed := n, pe_raised := True\<rparr>
                        | (Some nextOps, n) \<Rightarrow>
                            s\<lparr>es_visualMode := OperationsVisual, es_operations := nextOps,
                              pe_selectedOperationId := first_id nextOps, es_legacyValue := [], es_jsonError := [],
                              es_editMode := VisualEdit, pe_templatePresetKey := ''operations_default'', pe_seed := n\<rparr>)
                   | (JObject _, _) \<Rightarrow>
                       (case createDefaultOperation clock (pe_seed s) of (fallback, n) \<Rightarrow>
                          s\<lparr>es_visualMode := LegacyVisual, es_legacyValue := pretty parsed, es_operations := [fallback],
                            pe_selectedOperationId := po_id fallback, es_jsonError := [], es_editMode := VisualEdit,
                            pe_templatePresetKey := ''legacy_default'', pe_seed := n\<rparr>)
                   | _ \<Rightarrow> toast_error (t ''Parameter override must be a valid JSON object'' None) s)))"

text \<open>The entries a spread copies: characters and elements under their index.\<close>

definition spread_entries :: "js_value \<Rightarrow> (string \<times> js_value) list" where
  "spread_entries v =
     (case v of
        JObject fs \<Rightarrow> fs
      | JArray xs \<Rightarrow> map (\<lambda>(i, x). (nat_digits i, x)) (List.enumerate 0 xs)
      | JString s \<Rightarrow> map (\<lambda>(i, c). (nat_digits i, JString [c])) (List.enumerate 0 s)
      | _ \<Rightarrow> [])"

definition merge_values :: "js_value \<Rightarrow> js_value \<Rightarrow> js_value" where
  "merge_values a b = JObject (fold (\<lambda>(k, v). AList.update k v) (spread_entries b) (spread_entries a))"

definition fill_legacy :: "clock \<Rightarrow> string \<Rightarrow> param_editor \<Rightarrow> param_editor" where
  "fill_legacy clock content s =
     (case createDefaultOperation clock (pe_seed s) of (ob, n) \<Rightarrow>
        s\<lparr>es_visualMode := LegacyVisual, es_legacyValue := content, es_operations := [ob], es_jsonText := content,
          es_jsonError := [], es_editMode := VisualEdit, pe_seed := n\<rparr>)"

datatype fill_mode = Fill | Append

definition fill_operations :: "clock \<Rightarrow> fill_mode \<Rightarrow> js_value list \<Rightarrow> param_editor \<Rightarrow> param_editor" where
  "fill_operations clock mode items s =
     (case map_ids (normalizeOperation clock) items (pe_seed s) of
        (None, n) \<Rightarrow> s\<lparr>pe_seed := n, pe_raised := True\<rparr>
      | (Some added, n) \<Rightarrow>
          if mode = Append then
            (let existing = (if es_visualMode s = OperationsVisual
                             then filter (\<lambda>ob. \<not> isOperationBlank ob) (es_operations s) else []);
                 nextOps = existing @ added
             in s\<lparr>es_visualMode := OperationsVisual, es_operations := nextOps, pe_selectedOperationId := first_id nextOps,
                  es_legacyValue := [], es_jsonError := [], es_editMode := VisualEdit, es_jsonText := [], pe_seed := n\<rparr>)
          else
            (case (if added \<noteq> [] then (added, n)
                   else (case createDefaultOperation clock n of (ob, n') \<Rightarrow> ([ob], n'))) of (finalOps, n') \<Rightarrow>
               s\<lparr>es_visualMode := OperationsVisual, es_operations := finalOps, pe_selectedOperationId := first_id finalOps,
                 es_jsonText := pretty (JObject [(''operations'', JArray items)]), es_jsonError := [],
                 es_editMode := VisualEdit, pe_seed := n'\<rparr>))"

definition fillTemplate :: "clock \<Rightarrow> translate \<Rightarrow> fill_mode \<Rightarrow> param_editor \<Rightarrow> param_editor" where
  "fillTemplate clock t mode s =
     (let preset = (case map_of TEMPLATE_PRESET_CONFIG (pe_templatePresetKey s) of
                      Some p \<Rightarrow> p | None \<Rightarrow> OPERATIONS_DEFAULT);
          payload = tp_payload preset
      in if tp_kind preset = LegacyKind then
           (if mode = Append \<and> es_visualMode s = LegacyVisual then
              (let trimmed = trim (es_legacyValue s) in
               if trimmed = [] then fill_legacy clock (pretty (merge_values payload (JObject []))) s
               else (case json_parse trimmed of
                       None \<Rightarrow> toast_error (t ''Current legacy JSON is invalid, cannot append'' None) s
                     | Some parsedCurrent \<Rightarrow> fill_legacy clock (pretty (merge_values payload parsedCurrent)) s))
            else fill_legacy clock (pretty payload) s)
         else fill_operations clock mode (case js_get payload ''operations'' of JArray items \<Rightarrow> items | _ \<Rightarrow> []) s)"

definition resetEditorState :: "clock \<Rightarrow> param_editor \<Rightarrow> param_editor" where
  "resetEditorState clock s =
     (case createDefaultOperation clock (pe_seed s) of (fallback, n) \<Rightarrow>
        s\<lparr>es_visualMode := OperationsVisual, es_legacyValue := [], es_operations := [fallback],
          pe_selectedOperationId := po_id fallback, es_jsonText := [], es_jsonError := [],
          pe_templatePresetKey := ''operations_default'', es_editMode := VisualEdit, pe_seed := n\<rparr>)"

section \<open>Text and saving\<close>

definition handleJsonChange :: "translate \<Rightarrow> string \<Rightarrow> param_editor \<Rightarrow> param_editor" where
  "handleJsonChange t nextValue s =
     (let trimmed = trim nextValue in
      if trimmed = [] then s\<lparr>es_jsonText := nextValue, es_jsonError := []\<rparr>
      else s\<lparr>es_jsonText := nextValue, es_jsonError := (if verifyJSON trimmed then [] else t ''JSON format error'' None)\<rparr>)"

definition visualValidationError :: "translate \<Rightarrow> param_editor \<Rightarrow> string" where
  "visualValidationError t s =
     (if es_editMode s \<noteq> VisualEdit then []
      else (case buildVisualJson t s of
              Inr _ \<Rightarrow> []
            | Inl message \<Rightarrow> if message = [] then t ''Parameter configuration error'' None else message))"

definition saved_text :: "translate \<Rightarrow> param_editor \<Rightarrow> string + string" where
  "saved_text t s =
     (if es_editMode s = JsonEdit then
        (let trimmed = trim (es_jsonText s) in
         if trimmed = [] then Inr []
         else (case json_parse trimmed of
                 None \<Rightarrow> Inl (t ''Parameter override must be valid JSON format'' None)
               | Some parsed \<Rightarrow> Inr (pretty parsed)))
      else buildVisualJson t s)"

definition handleSave :: "translate \<Rightarrow> param_editor \<Rightarrow> param_editor" where
  "handleSave t s =
     (case saved_text t s of
        Inr result \<Rightarrow> s\<lparr>pe_saved := pe_saved s @ [result], pe_openChanges := pe_openChanges s @ [False]\<rparr>
      | Inl message \<Rightarrow> toast_error message s)"

definition set_expanded :: "bool \<Rightarrow> param_editor \<Rightarrow> param_editor" where
  "set_expanded shown s =
     (case selectedOperation s of
        None \<Rightarrow> s
      | Some ob \<Rightarrow> s\<lparr>pe_expandedConditions :=
          fold (\<lambda>c. AList.update (pc_id c) shown) (po_conditions ob) (pe_expandedConditions s)\<rparr>)"

definition expandAllConditions :: "param_editor \<Rightarrow> param_editor" where
  "expandAllConditions s = set_expanded True s"

definition collapseAllConditions :: "param_editor \<Rightarrow> param_editor" where
  "collapseAllConditions s = set_expanded False s"

text \<open>The button that formats a JSON value.\<close>

definition formatValue :: "string \<Rightarrow> param_editor \<Rightarrow> param_editor" where
  "formatValue operationId s =
     at_operation operationId
       (\<lambda>ob. case json_parse (po_value_text ob) of
               None \<Rightarrow> ob | Some parsed \<Rightarrow> ob\<lparr>po_value_text := pretty parsed\<rparr>) s"

section \<open>Steps of the dialog\<close>

datatype editor_event =
    Open string | Render
  | Select string | Search string | ChoosePreset string | SetExpanded string bool | ExpandAll | CollapseAll
  | UpdateOperation string "operation_field list" | AddOperation | DuplicateOperation bool string | RemoveOperation string
  | AddCondition string | UpdateCondition string string "condition_field list" | RemoveCondition string string
  | UpdateReturnError string "draft_field list" | PatchPrune string "prune_field list"
  | AddPruneRule string | UpdatePruneRule string string "rule_field list" | RemovePruneRule string string
  | FormatValue string | ChooseSyncEnd string bool string string
  | DragStart string | DragOver string drop_position | Drop string string | DragEnd
  | SwitchToJson | SwitchToVisual | FillTemplate fill_mode | Reset | ChangeLegacy string | ChangeJson string | Save

fun handle :: "clock \<Rightarrow> translate \<Rightarrow> editor_event \<Rightarrow> param_editor \<Rightarrow> param_editor" where
  "handle clock t (Open v) s = openEditor clock v s"
| "handle clock t Render s = s\<lparr>pe_seed := snd (pruneObjectsDraft clock s)\<rparr>"
| "handle clock t (Select i) s = s\<lparr>pe_selectedOperationId := i\<rparr>"
| "handle clock t (Search x) s = s\<lparr>pe_operationSearch := x\<rparr>"
| "handle clock t (ChoosePreset k) s = s\<lparr>pe_templatePresetKey := or_text (Some k) ''operations_default''\<rparr>"
| "handle clock t (SetExpanded i b) s = s\<lparr>pe_expandedConditions := AList.update i b (pe_expandedConditions s)\<rparr>"
| "handle clock t ExpandAll s = expandAllConditions s"
| "handle clock t CollapseAll s = collapseAllConditions s"
| "handle clock t (UpdateOperation i p) s = updateOperation i p s"
| "handle clock t AddOperation s = addOperation clock s"
| "handle clock t (DuplicateOperation e i) s = duplicateOperation clock e i s"
| "handle clock t (RemoveOperation i) s = removeOperation clock i s"
| "handle clock t (AddCondition i) s = addCondition clock i s"
| "handle clock t (UpdateCondition i c p) s = updateCondition i c p s"
| "handle clock t (RemoveCondition i c) s = removeCondition i c s"
| "handle clock t (UpdateReturnError i p) s = updateReturnErrorDraft i p s"
| "handle clock t (PatchPrune i p) s = patchPruneObjectsDraft clock i p s"
| "handle clock t (AddPruneRule i) s = addPruneRule clock i s"
| "handle clock t (UpdatePruneRule i r p) s = updatePruneRule clock i r p s"
| "handle clock t (RemovePruneRule i r) s = removePruneRule clock i r s"
| "handle clock t (FormatValue i) s = formatValue i s"
| "handle clock t (ChooseSyncEnd i source type key) s =
     updateOperation i [(if source then OpFrom else OpTo) (buildSyncTargetSpec type key)] s"
| "handle clock t (DragStart i) s = handleDragStart i s"
| "handle clock t (DragOver i q) s = handleDragOver i q s"
| "handle clock t (Drop d i) s = handleDrop d i s"
| "handle clock t DragEnd s = resetDragState s"
| "handle clock t SwitchToJson s = switchToJsonMode t s"
| "handle clock t SwitchToVisual s = switchToVisualMode clock t s"
| "handle clock t (FillTemplate m) s = fillTemplate clock t m s"
| "handle clock t Reset s = resetEditorState clock s"
| "handle clock t (ChangeLegacy x) s = s\<lparr>es_legacyValue := x\<rparr>"
| "handle clock t (ChangeJson x) s = handleJsonChange t x s"
| "handle clock t Save s = handleSave t s"

text \<open>An event and the effect that keeps the selection valid.\<close>

definition editor_step :: "clock \<Rightarrow> translate \<Rightarrow> editor_event \<Rightarrow> param_editor \<Rightarrow> param_editor" where
  "editor_step clock t e s = keepSelection (handle clock t e s)"

section \<open>Identifiers\<close>

lemma digits_no_underscore: "CHR ''_'' \<notin> set (nat_digits n)"
  using nat_digits_digits [of n] by (auto simp: list_all_iff is_digit_def)

lemma append_separator:
  "c \<notin> set a \<Longrightarrow> c \<notin> set b \<Longrightarrow> a @ c # x = b @ c # y \<longleftrightarrow> a = b \<and> x = y"
proof (induction a arbitrary: b)
  case Nil
  then show ?case by (cases b) auto
next
  case (Cons d a)
  then show ?case by (cases b) auto
qed

lemma local_id_inject: "fst (nextLocalId clock j) = fst (nextLocalId clock k) \<longleftrightarrow> j = k"
proof -
  have "nat_digits j = nat_digits k \<longleftrightarrow> j = k" by (metis digits_val_nat)
  then show ?thesis using digits_no_underscore by (auto simp: nextLocalId_def append_separator)
qed

lemma local_id_not_empty: "fst (nextLocalId clock k) \<noteq> []"
  by (simp add: nextLocalId_def)

text \<open>The identifiers drawn between two values of the counter.\<close>

definition drawn :: "clock \<Rightarrow> nat \<Rightarrow> nat \<Rightarrow> string \<Rightarrow> bool" where
  "drawn clock n m i \<longleftrightarrow> (\<exists>k. n \<le> k \<and> k < m \<and> i = fst (nextLocalId clock k))"

lemma drawn_mono: "drawn clock n m i \<Longrightarrow> n' \<le> n \<Longrightarrow> m \<le> m' \<Longrightarrow> drawn clock n' m' i"
  unfolding drawn_def by (elim exE conjE) (intro exI conjI, simp_all)

lemma drawn_apart: "drawn clock n m i \<Longrightarrow> drawn clock m k j \<Longrightarrow> i \<noteq> j"
  by (auto simp: drawn_def local_id_inject)

lemma drawn_not_empty: "drawn clock n m i \<Longrightarrow> i \<noteq> []"
  by (auto simp: drawn_def local_id_not_empty)

lemma drawn_next: "drawn clock n (Suc n) (fst (nextLocalId clock n))"
  by (auto simp: drawn_def)

section \<open>Well-formed rules\<close>

definition known_condition :: "ParamOverrideCondition \<Rightarrow> bool" where
  "known_condition c \<longleftrightarrow> pc_mode c \<in> set CONDITION_MODE_VALUES"

text \<open>A rule whose identifiers, its own and those of its conditions, were drawn between \<open>n\<close> and \<open>m\<close>.\<close>

definition operation_ok :: "clock \<Rightarrow> nat \<Rightarrow> nat \<Rightarrow> ParamOverrideOperation \<Rightarrow> bool" where
  "operation_ok clock n m ob \<longleftrightarrow>
     po_mode ob \<in> set OPERATION_MODE_VALUES \<and> (po_logic ob = ''AND'' \<or> po_logic ob = ''OR'') \<and>
     drawn clock n m (po_id ob) \<and> list_all known_condition (po_conditions ob) \<and>
     list_all (\<lambda>c. drawn clock n m (pc_id c)) (po_conditions ob) \<and> distinct (map pc_id (po_conditions ob))"

definition operations_ok :: "clock \<Rightarrow> nat \<Rightarrow> nat \<Rightarrow> ParamOverrideOperation list \<Rightarrow> bool" where
  "operations_ok clock n m ops \<longleftrightarrow> list_all (operation_ok clock n m) ops \<and> distinct (map po_id ops)"

lemma operation_ok_mono: "operation_ok clock n m ob \<Longrightarrow> n' \<le> n \<Longrightarrow> m \<le> m' \<Longrightarrow> operation_ok clock n' m' ob"
  by (auto simp: operation_ok_def list_all_iff intro: drawn_mono)

lemma operations_ok_mono: "operations_ok clock n m ops \<Longrightarrow> n' \<le> n \<Longrightarrow> m \<le> m' \<Longrightarrow> operations_ok clock n' m' ops"
  by (auto simp: operations_ok_def list_all_iff intro: operation_ok_mono)

lemma operations_ok_append:
  assumes "operations_ok clock n m xs" and "operations_ok clock m k ys" and "n \<le> m" and "m \<le> k"
  shows "operations_ok clock n k (xs @ ys)"
proof -
  have "list_all (operation_ok clock n k) (xs @ ys)"
    using assms operation_ok_mono by (fastforce simp: operations_ok_def list_all_iff)
  moreover have "po_id x \<noteq> po_id y" if "x \<in> set xs" "y \<in> set ys" for x y
    using that assms(1,2) drawn_apart by (fastforce simp: operations_ok_def list_all_iff operation_ok_def)
  then have "po_id ` set xs \<inter> po_id ` set ys = {}" by auto
  ultimately show ?thesis using assms(1,2) by (simp add: operations_ok_def)
qed

lemma known_or_known: "d \<in> set values \<Longrightarrow> known_or values v d \<in> set values"
  by (simp add: known_or_def split: js_value.split)

lemma mode_defaults: "''full'' \<in> set CONDITION_MODE_VALUES" "''set'' \<in> set OPERATION_MODE_VALUES"
  by (simp_all add: CONDITION_MODE_VALUES_def CONDITION_MODE_OPTIONS_def OPERATION_MODE_VALUES_def
      OPERATION_MODE_OPTIONS_def)

lemma normalizeCondition_ok:
  assumes "normalizeCondition clock v n = (Some c, m)"
  shows "m = Suc n \<and> known_condition c \<and> pc_id c = fst (nextLocalId clock n)"
  using assms known_or_known [OF mode_defaults(1)]
  by (auto simp: normalizeCondition_def nextLocalId_def Let_def known_condition_def split: if_splits)

lemma normalizeConditions_ok:
  assumes "map_ids (normalizeCondition clock) vs n = (Some cs, m)"
  shows "n \<le> m \<and> list_all known_condition cs \<and> list_all (\<lambda>c. drawn clock n m (pc_id c)) cs \<and> distinct (map pc_id cs)"
  using assms
proof (induction vs arbitrary: n cs)
  case Nil
  then show ?case by simp
next
  case (Cons v vs)
  from Cons.prems obtain c k cs' where c: "normalizeCondition clock v n = (Some c, k)"
    and cs': "map_ids (normalizeCondition clock) vs k = (Some cs', m)" and cs: "cs = c # cs'"
    by (auto split: prod.splits option.splits)
  note h = normalizeCondition_ok [OF c]
  from Cons.IH [OF cs'] have ih: "k \<le> m" "list_all known_condition cs'" "list_all (\<lambda>c. drawn clock k m (pc_id c)) cs'"
    "distinct (map pc_id cs')" by auto
  have d: "drawn clock n k (pc_id c)" using h by (simp add: drawn_next)
  then have "drawn clock n m (pc_id c)" using ih(1) by (auto intro: drawn_mono)
  moreover have "drawn clock n m (pc_id x)" if "x \<in> set cs'" for x
    using ih(3) that h by (auto simp: list_all_iff intro: drawn_mono)
  moreover have "pc_id c \<noteq> pc_id x" if "x \<in> set cs'" for x
    using ih(3) that d drawn_apart by (fastforce simp: list_all_iff)
  ultimately show ?case using ih h by (fastforce simp: cs list_all_iff)
qed

lemma normalizeOperation_ok:
  assumes "normalizeOperation clock v n = (Some ob, m)"
  shows "n < m \<and> operation_ok clock n m ob \<and> po_id ob = fst (nextLocalId clock n)"
proof -
  define r where "r = (case js_get (given v) ''conditions'' of
      JArray cs \<Rightarrow> map_ids (normalizeCondition clock) cs (Suc n) | _ \<Rightarrow> (Some [], Suc n))"
  from assms obtain cs where r: "r = (Some cs, m)" and ob: "po_id ob = fst (nextLocalId clock n)"
    "po_conditions ob = cs" "po_mode ob = known_or OPERATION_MODE_VALUES (js_get (given v) ''mode'') ''set''"
    "po_logic ob = ''AND'' \<or> po_logic ob = ''OR''"
    by (auto simp: normalizeOperation_def nextLocalId_def Let_def r_def split: if_splits prod.splits option.splits)
  have "Suc n \<le> m \<and> list_all known_condition cs \<and> list_all (\<lambda>c. drawn clock (Suc n) m (pc_id c)) cs \<and> distinct (map pc_id cs)"
    using r normalizeConditions_ok [of clock _ "Suc n" cs m] by (auto simp: r_def split: js_value.splits)
  moreover from this have "drawn clock n m (po_id ob)"
    using ob(1) drawn_next [of clock n] by (auto intro: drawn_mono)
  ultimately show ?thesis
    using ob known_or_known [OF mode_defaults(2)]
    by (auto simp: operation_ok_def list_all_iff intro: drawn_mono)
qed

lemma normalizeOperations_ok:
  assumes "map_ids (normalizeOperation clock) vs n = (Some ops, m)"
  shows "n \<le> m \<and> operations_ok clock n m ops \<and> length ops = length vs"
  using assms
proof (induction vs arbitrary: n ops)
  case Nil
  then show ?case by (simp add: operations_ok_def)
next
  case (Cons v vs)
  from Cons.prems obtain ob k ops' where ob: "normalizeOperation clock v n = (Some ob, k)"
    and ops': "map_ids (normalizeOperation clock) vs k = (Some ops', m)" and ops: "ops = ob # ops'"
    by (auto split: prod.splits option.splits)
  note h = normalizeOperation_ok [OF ob] and ih = Cons.IH [OF ops']
  have "operations_ok clock n k [ob]" using h by (simp add: operations_ok_def)
  from operations_ok_append [OF this, of m ops'] h ih show ?case by (simp add: ops)
qed

lemma default_ok:
  assumes "createDefaultOperation clock n = (ob, m)"
  shows "n \<le> m \<and> operations_ok clock n m [ob]"
  using assms mode_defaults(2) drawn_next [of clock n]
  by (auto simp: default_operation operations_ok_def operation_ok_def)

lemma document_ok:
  assumes "document_operations clock items n = (Some ops, m)"
  shows "n \<le> m \<and> operations_ok clock n m ops \<and> ops \<noteq> []"
proof (cases "items = []")
  case True
  obtain ob k where "createDefaultOperation clock n = (ob, k)" by fastforce
  with True assms default_ok [OF this] show ?thesis by (auto simp: document_operations_def)
next
  case False
  with assms normalizeOperations_ok [of clock items n ops m] show ?thesis by (auto simp: document_operations_def)
qed

section \<open>The invariant of the dialog\<close>

definition rules_ok :: "clock \<Rightarrow> param_editor \<Rightarrow> bool" where
  "rules_ok clock s \<longleftrightarrow> operations_ok clock 0 (pe_seed s) (es_operations s) \<and> es_operations s \<noteq> []"

definition editor_ok :: "clock \<Rightarrow> param_editor \<Rightarrow> bool" where
  "editor_ok clock s \<longleftrightarrow> rules_ok clock s \<and> pe_selectedOperationId s \<in> po_id ` set (es_operations s)"

text \<open>What the selects of the dialog offer.\<close>

fun operation_field_ok :: "operation_field \<Rightarrow> bool" where
  "operation_field_ok (OpMode x) = (x \<in> set OPERATION_MODE_VALUES)"
| "operation_field_ok (OpLogic x) = (x = ''AND'' \<or> x = ''OR'')"
| "operation_field_ok _ = True"

fun condition_field_ok :: "condition_field \<Rightarrow> bool" where
  "condition_field_ok (CondMode x) = (x \<in> set CONDITION_MODE_VALUES)"
| "condition_field_ok _ = True"

fun event_ok :: "editor_event \<Rightarrow> bool" where
  "event_ok (UpdateOperation i p) = list_all operation_field_ok p"
| "event_ok (UpdateCondition i c p) = list_all condition_field_ok p"
| "event_ok _ = True"

lemma keepSelection_ok: "rules_ok clock s \<Longrightarrow> editor_ok clock (keepSelection s)"
  unfolding editor_ok_def keepSelection_def by (auto simp: rules_ok_def list_ex_iff) (metis image_eqI)

lemma rules_ok_new:
  assumes "operations_ok clock n m ops" and "ops \<noteq> []" and "es_operations s = ops" and "pe_seed s = m"
  shows "rules_ok clock s"
  using assms operations_ok_mono [of clock n m ops 0 m] by (simp add: rules_ok_def)

lemma rules_ok_same:
  "rules_ok clock s \<Longrightarrow> es_operations s' = es_operations s \<Longrightarrow> pe_seed s \<le> pe_seed s' \<Longrightarrow> rules_ok clock s'"
  by (auto simp: rules_ok_def intro: operations_ok_mono)

lemma at_operation_ok:
  assumes "rules_ok clock s"
    and "\<And>ob. operation_ok clock 0 m ob \<Longrightarrow> operation_ok clock 0 m (f ob)" and "\<And>ob. po_id (f ob) = po_id ob"
    and "pe_seed s \<le> m"
  shows "rules_ok clock ((at_operation i f s)\<lparr>pe_seed := m\<rparr>)"
proof -
  have "operations_ok clock 0 m (es_operations s)"
    using assms(1,4) by (auto simp: rules_ok_def intro: operations_ok_mono)
  moreover from this have "list_all (operation_ok clock 0 m) (map (\<lambda>ob. if po_id ob = i then f ob else ob) (es_operations s))"
    using assms(2) by (auto simp: operations_ok_def list_all_iff)
  moreover have "map po_id (map (\<lambda>ob. if po_id ob = i then f ob else ob) (es_operations s)) = map po_id (es_operations s)"
    using assms(3) by simp
  ultimately have "operations_ok clock 0 m (map (\<lambda>ob. if po_id ob = i then f ob else ob) (es_operations s))"
    by (simp only: operations_ok_def)
  then show ?thesis
    using assms(1) by (simp add: rules_ok_def at_operation_def)
qed

lemma at_operation_ok_same:
  assumes "rules_ok clock s"
    and "\<And>ob. operation_ok clock 0 (pe_seed s) ob \<Longrightarrow> operation_ok clock 0 (pe_seed s) (f ob)"
    and "\<And>ob. po_id (f ob) = po_id ob"
  shows "rules_ok clock (at_operation i f s)"
  using at_operation_ok [OF assms order_refl, of i] by (simp add: at_operation_def)

lemma patch_operation:
  "po_id (fold set_operation_field p ob) = po_id ob \<and> (list_all operation_field_ok p \<longrightarrow>
     operation_ok clock n m ob \<longrightarrow> operation_ok clock n m (fold set_operation_field p ob))"
proof (induction p arbitrary: ob)
  case Nil
  then show ?case by simp
next
  case (Cons x p)
  have "po_id (set_operation_field x ob) = po_id ob"
    "operation_field_ok x \<longrightarrow> operation_ok clock n m ob \<longrightarrow> operation_ok clock n m (set_operation_field x ob)"
    by (cases x; simp add: operation_ok_def)+
  with Cons [of "set_operation_field x ob"] show ?case by simp
qed

lemma patch_condition:
  "pc_id (fold set_condition_field p c) = pc_id c \<and>
   (list_all condition_field_ok p \<longrightarrow> known_condition c \<longrightarrow> known_condition (fold set_condition_field p c))"
proof (induction p arbitrary: c)
  case Nil
  then show ?case by simp
next
  case (Cons x p)
  have "pc_id (set_condition_field x c) = pc_id c"
    "condition_field_ok x \<longrightarrow> known_condition c \<longrightarrow> known_condition (set_condition_field x c)"
    by (cases x; simp add: known_condition_def)+
  with Cons [of "set_condition_field x c"] show ?case by simp
qed

lemma map_draw_ok:
  assumes "map_draw f xs n = (ys, m)"
    and "\<And>x k y l. x \<in> set xs \<Longrightarrow> f x k = (y, l) \<Longrightarrow> k \<le> l \<and> R x y"
  shows "n \<le> m \<and> list_all2 R xs ys"
  using assms
proof (induction xs arbitrary: n ys m)
  case Nil
  then show ?case by simp
next
  case (Cons x xs)
  obtain y k where y: "f x n = (y, k)" by fastforce
  obtain zs l where zs: "map_draw f xs k = (zs, l)" by fastforce
  from Cons.prems(1) y zs have "ys = y # zs" "l = m" by auto
  with Cons.IH [OF zs] Cons.prems(2) y show ?case by fastforce
qed

lemma normalizePruneRule_ok:
  "normalizePruneRule clock v n = (r, m) \<Longrightarrow> m = Suc n \<and> (\<forall>x. r = Some x \<longrightarrow> pr_id x = fst (nextLocalId clock n))"
  by (auto simp: normalizePruneRule_def nextLocalId_def Let_def split: if_splits)

lemma prune_rules_ok:
  assumes "map_ids (normalizePruneRule clock) vs n = (r, m)"
  shows "n \<le> m \<and> (\<forall>rules. r = Some rules \<longrightarrow> list_all (\<lambda>x. drawn clock n m (pr_id x)) rules)"
  using assms
proof (induction vs arbitrary: n r m)
  case Nil
  then show ?case by auto
next
  case (Cons v vs)
  obtain x k where x: "normalizePruneRule clock v n = (x, k)" by fastforce
  obtain xs l where xs: "map_ids (normalizePruneRule clock) vs k = (xs, l)" by fastforce
  note h = normalizePruneRule_ok [OF x] and ih = Cons.IH [OF xs]
  show ?case
  proof (cases "x = None \<or> xs = None")
    case True
    with Cons.prems x xs h ih show ?thesis by (auto split: option.splits)
  next
    case False
    then obtain y ys where y: "x = Some y" "xs = Some ys" by auto
    with Cons.prems x xs have r: "r = Some (y # ys)" "m = l" by auto
    have "drawn clock n m (pr_id y)" using h ih y r drawn_next [of clock n] by (auto intro: drawn_mono)
    moreover have "drawn clock n m (pr_id z)" if "z \<in> set ys" for z
      using ih y r h that by (auto simp: list_all_iff intro: drawn_mono)
    ultimately show ?thesis using h ih r by (auto simp: list_all_iff)
  qed
qed

lemma prune_draft_ok:
  assumes "parsePruneObjectsDraft clock v n = (d, m)"
  shows "n \<le> m \<and> list_all (\<lambda>x. drawn clock n m (pr_id x)) (pd_rules d)"
proof (cases "\<exists>p. trim v \<noteq> [] \<and> json_parse (trim v) = Some p \<and> plain_object p")
  case True
  then obtain p where p: "trim v \<noteq> []" "json_parse (trim v) = Some p" "plain_object p" by blast
  then have np: "p \<noteq> JString x" for x by (auto simp: plain_object_def)
  obtain r l where r: "map_ids (normalizePruneRule clock) (rule_sources p) n = (r, l)" by fastforce
  from p r assms np have "m = l" "pd_rules d = (case r of Some rules \<Rightarrow> rules | None \<Rightarrow> [])"
    by (cases p; cases r; simp add: parsePruneObjectsDraft_def Let_def prune_defaults_def plain_object_def
        del: js_get.simps; metis PruneObjectsDraft.select_convs(5) PruneObjectsDraft.update_convs(2))+
  with prune_rules_ok [OF r] show ?thesis by (auto split: option.splits)
next
  case False
  then have "pd_rules d = [] \<and> m = n"
    using assms by (cases "json_parse (trim v)"; cases "the (json_parse (trim v))")
      (auto simp: parsePruneObjectsDraft_def Let_def prune_defaults_def plain_object_def split: if_splits)
  then show ?thesis by simp
qed

lemma updatePrune_ok:
  assumes ok: "rules_ok clock s" and u: "\<And>d n d' n'. updater d n = (d', n') \<Longrightarrow> n \<le> n'"
  shows "rules_ok clock (updatePruneObjectsDraft clock i updater s)"
proof -
  define f where "f = (\<lambda>(ob :: ParamOverrideOperation) n.
     if po_id ob \<noteq> i then (ob, n)
     else (case parsePruneObjectsDraft clock (po_value_text ob) n of (draft, n') \<Rightarrow>
           (case updater draft n' of (nextDraft, n'') \<Rightarrow>
              (ob\<lparr>po_value_text := buildPruneObjectsValueText nextDraft\<rparr>, n''))))"
  obtain ops n where m: "map_draw f (es_operations s) (pe_seed s) = (ops, n)" by fastforce
  have "k \<le> l \<and> (\<exists>v. y = x\<lparr>po_value_text := v\<rparr>)" if "f x k = (y, l)" for x k y l
  proof (cases "po_id x = i")
    case True
    with that obtain d k' d' where d: "parsePruneObjectsDraft clock (po_value_text x) k = (d, k')"
      "updater d k' = (d', l)" "y = x\<lparr>po_value_text := buildPruneObjectsValueText d'\<rparr>"
      by (auto simp: f_def split: prod.splits)
    with prune_draft_ok [OF d(1)] u [OF d(2)] show ?thesis by auto
  next
    case False
    with that show ?thesis by (auto simp: f_def intro: exI [of _ "po_value_text x"])
  qed
  from map_draw_ok [OF m, of "\<lambda>x y. \<exists>v. y = x\<lparr>po_value_text := v\<rparr>"] this
  have n: "pe_seed s \<le> n" and all: "list_all2 (\<lambda>x y. \<exists>v. y = x\<lparr>po_value_text := v\<rparr>) (es_operations s) ops" by blast+
  have ids: "map po_id ops = map po_id (es_operations s)"
    using all by (induction rule: list_all2_induct) auto
  have "operations_ok clock 0 n (es_operations s)"
    using ok n by (auto simp: rules_ok_def intro: operations_ok_mono)
  with all have "list_all (operation_ok clock 0 n) ops"
    by (induction rule: list_all2_induct) (auto simp: operations_ok_def operation_ok_def)
  moreover have "distinct (map po_id ops)" using ok by (simp add: ids rules_ok_def operations_ok_def)
  moreover have "ops \<noteq> []" using ok all by (auto simp: rules_ok_def)
  ultimately show ?thesis
    using m by (simp add: updatePruneObjectsDraft_def f_def [symmetric] rules_ok_def operations_ok_def)
qed

section \<open>Every event keeps the invariant\<close>

lemma map_ids_mono: "(\<And>x k. k \<le> snd (f x k)) \<Longrightarrow> n \<le> snd (map_ids f xs n)"
proof (induction xs arbitrary: n)
  case Nil
  then show ?case by simp
next
  case (Cons x xs)
  obtain y k where y: "f x n = (y, k)" by fastforce
  have "n \<le> k" using Cons.prems [of n x] y by simp
  moreover obtain ys l where "map_ids f xs k = (ys, l)" by fastforce
  moreover from this have "k \<le> l" using Cons.IH [of k] Cons.prems by simp
  ultimately show ?case using y by (cases y; cases ys) auto
qed

lemma normalizeCondition_mono: "k \<le> snd (normalizeCondition clock v k)"
  by (simp add: normalizeCondition_def nextLocalId_def Let_def)

lemma normalizeOperation_mono: "k \<le> snd (normalizeOperation clock v k)"
proof -
  obtain r m where r: "(case js_get (given v) ''conditions'' of
      JArray cs \<Rightarrow> map_ids (normalizeCondition clock) cs (Suc k) | _ \<Rightarrow> (Some [], Suc k)) = (r, m)" by fastforce
  have "Suc k \<le> snd (map_ids (normalizeCondition clock) cs (Suc k))" for cs
    by (rule map_ids_mono) (rule normalizeCondition_mono)
  with r have "Suc k \<le> m" by (auto split: js_value.splits) (metis snd_conv)
  with r show ?thesis by (cases r) (simp_all add: normalizeOperation_def nextLocalId_def Let_def)
qed

lemma default_mono: "createDefaultOperation clock n = (ob, m) \<Longrightarrow> n \<le> m"
  using default_ok by blast

lemma document_mono: "document_operations clock items n = (r, m) \<Longrightarrow> n \<le> m"
  using map_ids_mono [of "normalizeOperation clock" n items] normalizeOperation_mono
  by (auto simp: document_operations_def dest: default_mono split: if_splits prod.splits)

lemma parseInitialState_ok:
  assumes "parseInitialState clock v n = (r, m)"
  shows "n \<le> m \<and> (\<forall>st. r = Some st \<longrightarrow> operations_ok clock n m (es_operations st) \<and> es_operations st \<noteq> [])"
proof -
  obtain ob k where ob: "createDefaultOperation clock n = (ob, k)" by fastforce
  note d = default_ok [OF ob]
  define docs where "docs = (\<exists>fs items. trim v \<noteq> [] \<and> json_parse (trim v) = Some (JObject fs) \<and>
      js_get (JObject fs) ''operations'' = JArray items)"
  show ?thesis
  proof (cases docs)
    case True
    then obtain fs items where i: "trim v \<noteq> []" "json_parse (trim v) = Some (JObject fs)"
      "js_get (JObject fs) ''operations'' = JArray items" by (auto simp: docs_def)
    obtain ops l where ops: "document_operations clock items n = (ops, l)" by fastforce
    from i ops assms have "m = l \<and> (case ops of None \<Rightarrow> r = None | Some os \<Rightarrow> \<exists>st. r = Some st \<and> es_operations st = os)"
      by (cases ops) (simp_all add: parseInitialState_def Let_def del: js_get.simps, auto)
    with ops document_ok [of clock items n _ l] document_mono [OF ops] show ?thesis by (auto split: option.splits)
  next
    case False
    have "m = k \<and> (\<exists>st. r = Some st \<and> es_operations st = [ob])"
    proof (cases "json_parse (trim v)")
      case None
      with assms ob show ?thesis by (cases "trim v = []") (auto simp: parseInitialState_def Let_def)
    next
      case (Some p)
      then have p: "trim v \<noteq> []" "json_parse (trim v) = Some p" by auto
      with False have "\<And>fs items. p = JObject fs \<Longrightarrow> js_get p ''operations'' \<noteq> JArray items" by (auto simp: docs_def)
      with p assms ob show ?thesis
        by (cases p; cases "js_get p ''operations''"; simp add: parseInitialState_def Let_def del: js_get.simps; auto)
    qed
    with d show ?thesis by auto
  qed
qed

lemma openEditor_ok:
  assumes "rules_ok clock s"
  shows "rules_ok clock (openEditor clock v s)"
proof -
  obtain r m where r: "parseInitialState clock v (pe_seed s) = (r, m)" by fastforce
  note p = parseInitialState_ok [OF r]
  show ?thesis
  proof (cases r)
    case None
    with r p assms show ?thesis by (intro rules_ok_same [OF assms]) (simp_all add: openEditor_def)
  next
    case (Some st)
    with r p show ?thesis
      by (intro rules_ok_new [of clock "pe_seed s" m "es_operations st"]) (simp_all add: openEditor_def)
  qed
qed

text \<open>The handlers that leave one default rule.\<close>

lemma single_default_ok:
  assumes "createDefaultOperation clock n = (ob, m)" and "es_operations s = [ob]" and "pe_seed s = m"
  shows "rules_ok clock s"
  using default_ok [OF assms(1)] assms(2,3) by (intro rules_ok_new [of clock n m "[ob]"]) auto

lemma addOperation_ok:
  assumes "rules_ok clock s"
  shows "rules_ok clock (addOperation clock s)"
proof -
  obtain ob m where ob: "createDefaultOperation clock (pe_seed s) = (ob, m)" by fastforce
  from default_ok [OF ob] assms have "operations_ok clock 0 m (es_operations s @ [ob])"
    by (intro operations_ok_append [of clock 0 "pe_seed s"]) (simp_all add: rules_ok_def)
  then show ?thesis by (simp add: addOperation_def ob rules_ok_def)
qed

lemma mset_insert_at: "mset (take k xs @ [x] @ drop k xs) = add_mset x (mset xs)"
  by (metis (no_types, lifting) append_take_drop_id mset_append union_mset_add_mset_right add_mset_add_single
      mset.simps(2) append_Cons append_Nil)

lemma operations_ok_mset:
  assumes "mset xs = mset ys" and "operations_ok clock n m ys"
  shows "operations_ok clock n m xs"
proof -
  have "set xs = set ys" using assms(1) by (rule mset_eq_setD)
  moreover have "distinct (map po_id xs) = distinct (map po_id ys)"
    using arg_cong [OF assms(1), of "image_mset po_id"] by (intro mset_eq_imp_distinct_iff) simp
  ultimately show ?thesis using assms(2) by (simp add: operations_ok_def list_all_iff)
qed

lemma operations_ok_insert:
  assumes "operations_ok clock 0 n ops" and "operations_ok clock n m [ob]" and "n \<le> m"
  shows "operations_ok clock 0 m (take i ops @ [ob] @ drop i ops)"
proof -
  have "operations_ok clock 0 m (ops @ [ob])" by (rule operations_ok_append) (use assms in simp_all)
  moreover have "mset (take i ops @ [ob] @ drop i ops) = mset (ops @ [ob])"
    unfolding mset_insert_at by simp
  ultimately show ?thesis using operations_ok_mset by blast
qed

lemma duplicate_ok:
  assumes "rules_ok clock s"
  shows "rules_ok clock (duplicateOperation clock e i s)"
proof (cases "find_index (\<lambda>ob. po_id ob = i) (es_operations s)")
  case None
  with assms show ?thesis by (simp add: duplicateOperation_def)
next
  case (Some idx)
  obtain r m where r: "normalizeOperation clock (duplicate_source (es_operations s ! idx)) (pe_seed s) = (r, m)" by fastforce
  show ?thesis
  proof (cases r)
    case None
    have "pe_seed s \<le> m" using normalizeOperation_mono [of "pe_seed s" clock "duplicate_source (es_operations s ! idx)"] r by simp
    with None Some r assms show ?thesis by (intro rules_ok_same [OF assms]) (simp_all add: duplicateOperation_def)
  next
    case ob: (Some ob)
    from normalizeOperation_ok [OF r [unfolded ob]]
    have "pe_seed s \<le> m" "operations_ok clock (pe_seed s) m [ob]" by (auto simp: operations_ok_def)
    with assms have "operations_ok clock 0 m (take (idx + 1) (es_operations s) @ [ob] @ drop (idx + 1) (es_operations s))"
      by (intro operations_ok_insert) (auto simp: rules_ok_def)
    then show ?thesis using Some r ob by (simp add: duplicateOperation_def rules_ok_def Let_def)
  qed
qed

lemma removeOperation_ok:
  assumes "rules_ok clock s"
  shows "rules_ok clock (removeOperation clock i s)"
proof (cases "length (es_operations s) \<le> 1")
  case True
  obtain ob m where "createDefaultOperation clock (pe_seed s) = (ob, m)" by fastforce
  then show ?thesis by (rule single_default_ok) (use \<open>createDefaultOperation clock (pe_seed s) = (ob, m)\<close> True in \<open>simp_all add: removeOperation_def\<close>)
next
  case False
  define kept where "kept = filter (\<lambda>ob. po_id ob \<noteq> i) (es_operations s)"
  have d: "distinct (map po_id (es_operations s))" using assms by (simp add: rules_ok_def operations_ok_def)
  have "kept \<noteq> []"
  proof
    assume "kept = []"
    then have "set (map po_id (es_operations s)) \<subseteq> {i}" by (auto simp: kept_def filter_empty_conv)
    from card_mono [OF _ this] distinct_card [OF d] have "length (es_operations s) \<le> 1" by simp
    with False show False by simp
  qed
  moreover have "operations_ok clock 0 (pe_seed s) kept"
    using assms d by (auto simp: rules_ok_def operations_ok_def kept_def list_all_iff distinct_map_filter)
  ultimately show ?thesis using False by (simp add: removeOperation_def rules_ok_def kept_def)
qed

lemma addCondition_ok:
  assumes "rules_ok clock s"
  shows "rules_ok clock (addCondition clock i s)"
proof -
  obtain r m where r: "createDefaultCondition clock (pe_seed s) = (r, m)" by fastforce
  then have "r \<noteq> None" by (auto simp: createDefaultCondition_def normalizeCondition_def given_def Let_def split: prod.splits)
  then obtain c where c: "r = Some c" by auto
  with r normalizeCondition_ok [of clock "JObject []" "pe_seed s" c m]
  have h: "m = Suc (pe_seed s)" "known_condition c" "pc_id c = fst (nextLocalId clock (pe_seed s))"
    by (auto simp: createDefaultCondition_def)
  then have d: "drawn clock (pe_seed s) m (pc_id c)" by (simp add: drawn_next)
  define f where "f = (\<lambda>ob :: ParamOverrideOperation. ob\<lparr>po_conditions := po_conditions ob @ [c]\<rparr>)"
  have "operation_ok clock 0 m (f ob)" if "operation_ok clock 0 (pe_seed s) ob" for ob
  proof -
    have "pc_id c \<notin> pc_id ` set (po_conditions ob)"
      using \<open>operation_ok clock 0 (pe_seed s) ob\<close> d drawn_apart by (fastforce simp: operation_ok_def list_all_iff)
    moreover have "drawn clock 0 m (pc_id c)" using d by (rule drawn_mono) simp_all
    ultimately show ?thesis
      using that operation_ok_mono [OF that, of 0 m] h(1,2) by (auto simp: operation_ok_def f_def)
  qed
  then have "list_all (operation_ok clock 0 m) (map (\<lambda>ob. if po_id ob = i then f ob else ob) (es_operations s))"
    using assms operation_ok_mono [of clock 0 "pe_seed s" _ 0 m] h(1) by (auto simp: rules_ok_def operations_ok_def list_all_iff)
  moreover have "map po_id (map (\<lambda>ob. if po_id ob = i then f ob else ob) (es_operations s)) = map po_id (es_operations s)"
    by (simp add: f_def)
  ultimately have "operations_ok clock 0 m (map (\<lambda>ob. if po_id ob = i then f ob else ob) (es_operations s))"
    using assms by (simp only: operations_ok_def rules_ok_def)
  then show ?thesis using assms r c unfolding f_def by (simp add: addCondition_def at_operation_def rules_ok_def)
qed

lemma updateCondition_ok:
  assumes "rules_ok clock s" and "list_all condition_field_ok p"
  shows "rules_ok clock (updateCondition i j p s)"
  unfolding updateCondition_def
proof (rule at_operation_ok_same [OF assms(1)])
  fix ob
  assume ok: "operation_ok clock 0 (pe_seed s) ob"
  have "map pc_id (map (\<lambda>c. if pc_id c = j then fold set_condition_field p c else c) (po_conditions ob)) =
      map pc_id (po_conditions ob)" using patch_condition by simp
  moreover have "list_all known_condition (map (\<lambda>c. if pc_id c = j then fold set_condition_field p c else c) (po_conditions ob))"
    using ok patch_condition assms(2) by (auto simp: operation_ok_def list_all_iff)
  moreover have "list_all (\<lambda>c. drawn clock 0 (pe_seed s) (pc_id c))
      (map (\<lambda>c. if pc_id c = j then fold set_condition_field p c else c) (po_conditions ob))"
    using ok patch_condition by (auto simp: operation_ok_def list_all_iff)
  ultimately show "operation_ok clock 0 (pe_seed s) (ob\<lparr>po_conditions :=
      map (\<lambda>c. if pc_id c = j then fold set_condition_field p c else c) (po_conditions ob)\<rparr>)"
    using ok unfolding operation_ok_def by (simp del: map_map)
qed simp

lemma removeCondition_ok: "rules_ok clock s \<Longrightarrow> rules_ok clock (removeCondition i j s)"
  unfolding removeCondition_def
  by (erule at_operation_ok_same) (auto simp: operation_ok_def list_all_iff distinct_map_filter)

lemma reorder_mset: "mset (reorderOperations ops a b q) = mset ops"
proof (cases "find_index (\<lambda>ob. po_id ob = a) ops")
  case None
  then show ?thesis by (simp add: reorderOperations_def)
next
  case (Some i)
  define rest where "rest = take i ops @ drop (Suc i) ops"
  from find_index_Some [OF Some] have "mset ops = add_mset (ops ! i) (mset rest)" by (auto simp: rest_def)
  then have "mset (take k rest @ [ops ! i] @ drop k rest) = mset ops" for k by (simp only: mset_insert_at)
  then show ?thesis
    by (cases "find_index (\<lambda>ob. po_id ob = b) rest")
       (simp_all add: reorderOperations_def Some rest_def [symmetric] Let_def del: mset_append)
qed

lemma handleDrop_ok: "rules_ok clock s \<Longrightarrow> rules_ok clock (handleDrop d i s)"
proof -
  assume ok: "rules_ok clock s"
  have "operations_ok clock 0 (pe_seed s) (reorderOperations (es_operations s) a b q)" for a b q
    using ok by (intro operations_ok_mset [OF reorder_mset]) (simp add: rules_ok_def)
  moreover have "reorderOperations (es_operations s) a b q \<noteq> []" for a b q
    using ok arg_cong [OF reorder_mset [of "es_operations s" a b q], of size] by (auto simp: rules_ok_def)
  ultimately show ?thesis using ok by (simp add: handleDrop_def Let_def resetDragState_def rules_ok_def)
qed

lemma switchToJson_ok: "rules_ok clock s \<Longrightarrow> rules_ok clock (switchToJsonMode t s)"
  by (erule rules_ok_same) (simp_all add: switchToJsonMode_def toast_error_def split: sum.split)

lemma switchToVisual_ok:
  assumes "rules_ok clock s"
  shows "rules_ok clock (switchToVisualMode clock t s)"
proof -
  obtain ob k where ob: "createDefaultOperation clock (pe_seed s) = (ob, k)" by fastforce
  have single: "rules_ok clock s'" if "es_operations s' = [ob]" "pe_seed s' = k" for s'
    using single_default_ok [OF ob that] .
  have toast: "rules_ok clock (toast_error x s)" for x
    using assms by (simp add: toast_error_def rules_ok_def)
  have doc: "rules_ok clock s'"
    if "document_operations clock items (pe_seed s) = (Some ops, n)" "es_operations s' = ops" "pe_seed s' = n" for items ops n s'
    using document_ok [OF that(1)] that(2,3) by (intro rules_ok_new [of clock "pe_seed s" n ops]) auto
  have raised: "rules_ok clock (s\<lparr>pe_seed := n, pe_raised := True\<rparr>)"
    if "document_operations clock items (pe_seed s) = (None, n)" for items n
    using document_mono [OF that] by (intro rules_ok_same [OF assms]) simp_all
  show ?thesis
  proof (cases "es_editMode s = VisualEdit \<or> trim (es_jsonText s) = [] \<or> json_parse (trim (es_jsonText s)) = None")
    case True
    then show ?thesis
      using assms toast single by (auto simp: switchToVisualMode_def Let_def ob)
  next
    case False
    then obtain p where p: "json_parse (trim (es_jsonText s)) = Some p" by auto
    show ?thesis
    proof (cases "(\<exists>fs. p = JObject fs) \<and> (\<exists>items. js_get p ''operations'' = JArray items)")
      case True
      then obtain fs items where i: "p = JObject fs" "js_get p ''operations'' = JArray items" by blast
      obtain r n where r: "document_operations clock items (pe_seed s) = (r, n)" by fastforce
      show ?thesis
      proof (cases r)
        case None
        with False p i r raised show ?thesis by (simp add: switchToVisualMode_def Let_def del: js_get.simps)
      next
        case (Some ops)
        with False p i r doc [of items ops n] show ?thesis
          by (simp add: switchToVisualMode_def Let_def del: js_get.simps)
      qed
    next
      case nd: False
      with False p toast single show ?thesis
        by (cases p; cases "js_get p ''operations''";
            simp add: switchToVisualMode_def Let_def ob del: js_get.simps)
    qed
  qed
qed

lemma fill_legacy_ok: "rules_ok clock (fill_legacy clock content s)"
proof -
  obtain ob k where ob: "createDefaultOperation clock (pe_seed s) = (ob, k)" by fastforce
  then show ?thesis by (rule single_default_ok) (simp_all add: fill_legacy_def ob)
qed

lemma fill_operations_ok:
  assumes "rules_ok clock s" and "items \<noteq> []"
  shows "rules_ok clock (fill_operations clock mode items s)"
proof -
  obtain r n where r: "map_ids (normalizeOperation clock) items (pe_seed s) = (r, n)" by fastforce
  show ?thesis
  proof (cases r)
    case None
    have "pe_seed s \<le> n"
      using map_ids_mono [of "normalizeOperation clock" "pe_seed s" items] normalizeOperation_mono r by simp
    with None r show ?thesis by (intro rules_ok_same [OF assms(1)]) (simp_all add: fill_operations_def)
  next
    case (Some added)
    from normalizeOperations_ok [OF r [unfolded Some]] assms(2)
    have a: "pe_seed s \<le> n" "operations_ok clock (pe_seed s) n added" "added \<noteq> []" by auto
    have "operations_ok clock 0 (pe_seed s) (filter (\<lambda>ob. \<not> isOperationBlank ob) (es_operations s))"
      using assms(1) by (auto simp: rules_ok_def operations_ok_def list_all_iff distinct_map_filter)
    from operations_ok_append [OF this a(2)] a(1)
    have "operations_ok clock 0 n (filter (\<lambda>ob. \<not> isOperationBlank ob) (es_operations s) @ added)" by simp
    moreover have "operations_ok clock 0 n added" using a(2) by (rule operations_ok_mono) simp_all
    ultimately show ?thesis using r Some a(3) by (simp add: fill_operations_def rules_ok_def Let_def)
  qed
qed

lemma preset_items:
  "list_all (\<lambda>(k, p). tp_kind p = OperationsKind \<longrightarrow>
     (case js_get (tp_payload p) ''operations'' of JArray items \<Rightarrow> items \<noteq> [] | _ \<Rightarrow> False)) TEMPLATE_PRESET_CONFIG"
  by (simp add: TEMPLATE_PRESET_CONFIG_def OPERATIONS_DEFAULT_def OPERATION_TEMPLATE_def HEADER_PASSTHROUGH_TEMPLATE_def
      GEMINI_IMAGE_4K_TEMPLATE_def CLAUDE_CLI_HEADER_PASSTHROUGH_TEMPLATE_def buildPassHeadersTemplate_def
      CODEX_CLI_HEADER_PASSTHROUGH_TEMPLATE_def AWS_BEDROCK_ANTHROPIC_COMPAT_TEMPLATE_def)

lemma fillTemplate_ok:
  assumes "rules_ok clock s"
  shows "rules_ok clock (fillTemplate clock t mode s)"
proof -
  define preset where "preset = (case map_of TEMPLATE_PRESET_CONFIG (pe_templatePresetKey s) of
      Some p \<Rightarrow> p | None \<Rightarrow> OPERATIONS_DEFAULT)"
  have "preset \<in> snd ` set TEMPLATE_PRESET_CONFIG"
  proof (cases "map_of TEMPLATE_PRESET_CONFIG (pe_templatePresetKey s)")
    case None
    then have "preset = OPERATIONS_DEFAULT" by (simp add: preset_def)
    then show ?thesis by (simp add: TEMPLATE_PRESET_CONFIG_def)
  next
    case (Some p)
    then show ?thesis by (force simp: preset_def dest: map_of_SomeD)
  qed
  then obtain k where "(k, preset) \<in> set TEMPLATE_PRESET_CONFIG" by force
  with preset_items have "tp_kind preset = OperationsKind \<longrightarrow>
      (case js_get (tp_payload preset) ''operations'' of JArray items \<Rightarrow> items \<noteq> [] | _ \<Rightarrow> False)"
    unfolding list_all_iff by blast
  then have items: "tp_kind preset = OperationsKind \<longrightarrow>
      (\<exists>items. js_get (tp_payload preset) ''operations'' = JArray items \<and> items \<noteq> [])"
    by (cases "js_get (tp_payload preset) ''operations''") (simp_all del: js_get.simps)
  have toast: "rules_ok clock (toast_error x s)" for x
    using assms by (simp add: toast_error_def rules_ok_def)
  show ?thesis
  proof (cases "tp_kind preset")
    case OperationsKind
    with items obtain it where it: "js_get (tp_payload preset) ''operations'' = JArray it" "it \<noteq> []" by auto
    have "fillTemplate clock t mode s = fill_operations clock mode it s"
      unfolding fillTemplate_def preset_def [symmetric] Let_def using it OperationsKind by simp
    with fill_operations_ok [OF assms it(2)] show ?thesis by simp
  next
    case LegacyKind
    then show ?thesis
      unfolding fillTemplate_def preset_def [symmetric] Let_def
      using toast fill_legacy_ok by (simp split: option.split)
  qed
qed

lemma handle_ok:
  assumes "rules_ok clock s" and "event_ok e"
  shows "rules_ok clock (handle clock t e s)"
proof -
  have same: "rules_ok clock s'" if "es_operations s' = es_operations s" "pe_seed s' = pe_seed s" for s'
    using rules_ok_same [OF assms(1) that(1)] that(2) by simp
  have prune: "pe_seed s \<le> snd (pruneObjectsDraft clock s)"
    by (auto simp: pruneObjectsDraft_def dest: prune_draft_ok split: option.split prod.split)
  obtain ob k where ob: "createDefaultOperation clock (pe_seed s) = (ob, k)" by fastforce
  show ?thesis
  proof (cases e)
    case Render
    then show ?thesis using prune by (simp add: rules_ok_same [OF assms(1)])
  next
    case (UpdateOperation i p)
    with assms patch_operation show ?thesis
      by (simp add: updateOperation_def) (rule at_operation_ok_same; blast)
  next
    case (UpdateReturnError i p)
    with assms show ?thesis
      by (simp add: updateReturnErrorDraft_def) (rule at_operation_ok_same; simp add: operation_ok_def)
  next
    case (PatchPrune i p)
    with assms(1) show ?thesis by (simp add: patchPruneObjectsDraft_def) (rule updatePrune_ok; simp)
  next
    case (AddPruneRule i)
    with assms(1) show ?thesis
      by (simp add: addPruneRule_def) (rule updatePrune_ok; auto dest: normalizePruneRule_ok split: prod.splits)
  next
    case (UpdatePruneRule i r p)
    with assms(1) show ?thesis by (simp add: updatePruneRule_def) (rule updatePrune_ok; simp)
  next
    case (RemovePruneRule i r)
    with assms(1) show ?thesis by (simp add: removePruneRule_def) (rule updatePrune_ok; simp)
  next
    case (FormatValue i)
    with assms show ?thesis
      by (simp add: formatValue_def) (rule at_operation_ok_same; simp add: operation_ok_def split: option.split)
  next
    case (ChooseSyncEnd i b x y)
    with assms show ?thesis
      by (cases b; simp add: updateOperation_def) (rule at_operation_ok_same; simp add: operation_ok_def)+
  next
    case Reset
    then show ?thesis by (intro single_default_ok [OF ob]) (simp_all add: resetEditorState_def ob)
  next
    case ExpandAll
    then show ?thesis by (intro same) (simp_all add: expandAllConditions_def set_expanded_def split: option.split)
  next
    case CollapseAll
    then show ?thesis by (intro same) (simp_all add: collapseAllConditions_def set_expanded_def split: option.split)
  next
    case (ChangeJson x)
    then show ?thesis by (intro same) (simp_all add: handleJsonChange_def Let_def)
  next
    case Save
    then show ?thesis by (intro same) (simp_all add: handleSave_def toast_error_def split: sum.split)
  next
    case (Open v)
    with assms show ?thesis by (simp add: openEditor_ok)
  next
    case (Drop d i)
    with assms show ?thesis by (simp add: handleDrop_ok)
  next
    case (UpdateCondition i c p)
    with assms show ?thesis by (simp add: updateCondition_ok)
  next
    case (Select i)
    then show ?thesis by (intro same) (simp_all)
  next
    case (Search x)
    then show ?thesis by (intro same) (simp_all)
  next
    case (ChoosePreset x)
    then show ?thesis by (intro same) (simp_all)
  next
    case (SetExpanded i b)
    then show ?thesis by (intro same) (simp_all)
  next
    case (ChangeLegacy x)
    then show ?thesis by (intro same) (simp_all)
  next
    case (DragStart i)
    then show ?thesis by (intro same) (simp_all add: handleDragStart_def)
  next
    case (DragOver i q)
    then show ?thesis by (intro same) (simp_all add: handleDragOver_def)
  next
    case DragEnd
    then show ?thesis by (intro same) (simp_all add: resetDragState_def)
  next
    case AddOperation
    with assms(1) show ?thesis by (simp add: addOperation_ok)
  next
    case (DuplicateOperation b i)
    with assms(1) show ?thesis by (simp add: duplicate_ok)
  next
    case (RemoveOperation i)
    with assms(1) show ?thesis by (simp add: removeOperation_ok)
  next
    case (AddCondition i)
    with assms(1) show ?thesis by (simp add: addCondition_ok)
  next
    case (RemoveCondition i c)
    with assms(1) show ?thesis by (simp add: removeCondition_ok)
  next
    case SwitchToJson
    with assms(1) show ?thesis by (simp add: switchToJson_ok)
  next
    case SwitchToVisual
    with assms(1) show ?thesis by (simp add: switchToVisual_ok)
  next
    case (FillTemplate m)
    with assms(1) show ?thesis by (simp add: fillTemplate_ok)
  qed
qed

lemma initial_ok: "rules_ok clock (initial_editor clock n)"
proof -
  obtain ob k where ob: "createDefaultOperation clock n = (ob, k)" by fastforce
  then show ?thesis by (rule single_default_ok) (simp_all add: initial_editor_def ob)
qed

interpretation param_dialog: invariant_machine "keepSelection (initial_editor clock n)" "editor_step clock t" event_ok "editor_ok clock"
  for clock n t
proof
  show "editor_ok clock (keepSelection (initial_editor clock n))"
    by (rule keepSelection_ok [OF initial_ok])
  show "editor_ok clock (editor_step clock t e s)" if "event_ok e" "editor_ok clock s" for e s
    unfolding editor_step_def using that handle_ok by (intro keepSelection_ok) (simp add: editor_ok_def)
qed

text \<open>C31: Whatever is done in the dialog, and in any order, it shows at least one rule, the selected rule
  exists, every rule and condition has a mode the dialog knows and a logic of AND or OR, and no two rules and no
  two conditions of a rule share an identifier.\<close>

theorem editor_state_coherent:
  assumes "list_all event_ok es"
  shows "let s = fold (editor_step clock t) es (keepSelection (initial_editor clock n)) in
    es_operations s \<noteq> [] \<and> distinct (map po_id (es_operations s)) \<and> selectedOperation s \<noteq> None \<and>
    list_all (\<lambda>ob. po_mode ob \<in> set OPERATION_MODE_VALUES \<and> (po_logic ob = ''AND'' \<or> po_logic ob = ''OR'') \<and>
      distinct (map pc_id (po_conditions ob)) \<and>
      list_all (\<lambda>c. pc_mode c \<in> set CONDITION_MODE_VALUES) (po_conditions ob)) (es_operations s)"
proof -
  define s where "s = fold (editor_step clock t) es (keepSelection (initial_editor clock n))"
  have "editor_ok clock s" unfolding s_def by (rule param_dialog.run_inv [OF assms])
  then show ?thesis
    unfolding s_def [symmetric]
    by (auto simp: editor_ok_def rules_ok_def operations_ok_def operation_ok_def known_condition_def selectedOperation_def
        find_None_iff list_all_iff)
qed

theorem editor_state_coherent_witness:
  "let s = fold (editor_step (\<lambda>k. k) (\<lambda>k l. k)) [AddOperation, UpdateOperation ''po_1_1'' [OpMode ''copy'']]
     (keepSelection (initial_editor (\<lambda>k. k) 0)) in
    es_operations s \<noteq> [] \<and> selectedOperation s \<noteq> None"
proof -
  have "list_all event_ok [AddOperation, UpdateOperation ''po_1_1'' [OpMode ''copy'']]"
    by (simp add: OPERATION_MODE_VALUES_def OPERATION_MODE_OPTIONS_def)
  from editor_state_coherent [OF this, of "\<lambda>k. k" "\<lambda>k l. k" 0] show ?thesis unfolding Let_def by blast
qed

section \<open>Saving\<close>

definition rule_unquoted :: "ParamOverrideOperation \<Rightarrow> bool" where
  "rule_unquoted ob \<longleftrightarrow> unquoted (po_value_text ob) \<and> list_all (\<lambda>c. unquoted (pc_value_text c)) (po_conditions ob)"

lemma good_rules:
  assumes "editor_ok clock s" and "list_all rule_unquoted (es_operations s)"
  shows "list_all good_operation (es_operations s)"
  using assms by (simp add: editor_ok_def rules_ok_def operations_ok_def operation_ok_def list_all_iff rule_unquoted_def
      good_operation_def good_condition_def known_condition_def)

definition shows_rules :: "param_editor \<Rightarrow> bool" where
  "shows_rules s \<longleftrightarrow> es_editMode s = VisualEdit \<and> es_visualMode s = OperationsVisual"

lemma saved_text_rules:
  "shows_rules s \<Longrightarrow> saved_text t s = buildOperationsJson (line_messages t) True (es_operations s)"
  by (simp add: shows_rules_def saved_text_def buildVisualJson_def)

text \<open>A first edit: the default rule is turned into one that deletes a field.\<close>

definition sample_clock :: clock where
  "sample_clock k = 0"

definition sample_t :: translate where
  "sample_t key line = ''error''"

definition sample_events :: "editor_event list" where
  "sample_events = [UpdateOperation ''po_0_0'' [OpMode ''delete'', OpPath ''user'']]"

definition sample_editor :: param_editor where
  "sample_editor = fold (editor_step sample_clock sample_t) sample_events (keepSelection (initial_editor sample_clock 0))"

definition sample_rule :: ParamOverrideOperation where
  "sample_rule = \<lparr>po_id = ''po_0_0'', po_description = [], po_path = ''user'', po_mode = ''delete'', po_from = [],
     po_to = [], po_value_text = [], po_keep_origin = False, po_logic = ''OR'', po_conditions = []\<rparr>"

lemma sample_events_ok: "list_all event_ok sample_events"
  by (simp add: sample_events_def OPERATION_MODE_VALUES_def OPERATION_MODE_OPTIONS_def)

lemma sample_state:
  "es_operations sample_editor = [sample_rule]" "shows_rules sample_editor"
  by (simp_all add: sample_editor_def sample_events_def sample_clock_def editor_step_def keepSelection_def
      initial_editor_def default_operation nextLocalId_def nat_digits.simps digit_def updateOperation_def at_operation_def
      sample_rule_def shows_rules_def char_of_eq_iff)

lemma sample_saved: "saved_text sample_t sample_editor = Inr (pretty (document [sample_rule]))"
proof -
  have "map_of MODE_META ''delete'' = Some (no_meta\<lparr>mm_path := True\<rparr>)" by (simp add: MODE_META_def)
  then have "operation_error sample_rule = None"
    by (simp add: operation_error_def required_fields_error_def sample_rule_def mode_or_set_def meta_of_def no_meta_def
        FROM_REQUIRED_MODES_def TO_REQUIRED_MODES_def VALUE_REQUIRED_MODES_def Let_def trim_def trim_start_def
        trim_end_def js_space_def)
  with build_cases [of "line_messages sample_t" "[sample_rule]" "[sample_rule]" "pretty (document [sample_rule])"]
    valid_not_blank [of sample_rule]
  show ?thesis by (simp add: saved_text_rules [OF sample_state(2)] sample_state(1) sample_t_def)
qed

lemma sample_good: "list_all rule_unquoted (es_operations sample_editor)"
  by (simp add: sample_state rule_unquoted_def sample_rule_def unquoted_def)

lemma sample_document: "pretty (document [sample_rule]) \<noteq> []"
proof -
  have "good_operation sample_rule"
    by (simp add: good_operation_def sample_rule_def unquoted_def OPERATION_MODE_VALUES_def OPERATION_MODE_OPTIONS_def)
  then show ?thesis using pretty_not_empty [OF document_safe [of "[sample_rule]"]] by simp
qed

text \<open>C32: After any sequence of dialog events (edits give modes and logics their known values), if the dialog
  shows rules in the visual mode, no value text of a rule or condition is a quoted JSON string, and a value text that
  is JSON has each key once and decimal numbers: a non-empty text that is saved is a document with as many rules as
  the dialog counts, each of a known mode and with the path, source, target, value, error message or header names its
  mode needs.  The JSON and legacy modes, which save without this validation, are not covered.  Translations are not
  empty.\<close>

theorem saved_rules_complete:
  assumes "\<And>k l. t k l \<noteq> []" and "list_all event_ok es"
    and "s = fold (editor_step clock t) es (keepSelection (initial_editor clock n))"
    and "shows_rules s" and "list_all rule_unquoted (es_operations s)"
    and "saved_text t s = Inr r" and "r \<noteq> []"
  shows "\<exists>rules. json_parse r = Some (JObject [(''operations'', JArray rules)]) \<and>
    length rules = operationCount s \<and> list_all complete_rule rules"
proof -
  have "editor_ok clock s" unfolding assms(3) by (rule param_dialog.run_inv [OF assms(2)])
  from saved_rules [OF _ good_rules [OF this assms(5)], of "line_messages t" r] assms(1,6,7)
  show ?thesis by (simp add: saved_text_rules [OF assms(4)] operationCount_def)
qed

theorem saved_rules_complete_witness:
  "\<exists>rules. json_parse (pretty (document [sample_rule])) = Some (JObject [(''operations'', JArray rules)]) \<and>
    length rules = operationCount sample_editor \<and> list_all complete_rule rules"
  by (rule saved_rules_complete [where t = sample_t and clock = sample_clock and es = sample_events and n = 0])
     (simp_all only: sample_t_def list.distinct not_False_eq_True sample_events_ok sample_editor_def [symmetric]
       sample_state sample_good [unfolded sample_state] sample_saved sample_document)

definition rules_document :: "js_value \<Rightarrow> bool" where
  "rules_document v \<longleftrightarrow> (case (v, js_get v ''operations'') of (JObject _, JArray _) \<Rightarrow> True | _ \<Rightarrow> False)"

definition edited_text :: "param_editor \<Rightarrow> string" where
  "edited_text s = (if es_editMode s = JsonEdit then es_jsonText s else es_legacyValue s)"

lemma open_shows:
  assumes "parseInitialState clock r (pe_seed s) = (Some st, m)"
  shows "saved_text t (openEditor clock r s) =
    (if es_editMode st = JsonEdit
     then (if trim (es_jsonText st) = [] then Inr []
           else (case json_parse (trim (es_jsonText st)) of
                   None \<Rightarrow> Inl (t ''Parameter override must be valid JSON format'' None)
                 | Some parsed \<Rightarrow> Inr (pretty parsed)))
     else if es_visualMode st = LegacyVisual
     then (if trim (es_legacyValue st) = [] then Inr []
           else (case json_parse (trim (es_legacyValue st)) of
                   None \<Rightarrow> Inl (t ''Parameter override must be valid JSON format'' None)
                 | Some parsed \<Rightarrow> if plain_object parsed then Inr (pretty parsed)
                     else Inl (t ''Legacy format must be a JSON object'' None)))
     else buildOperationsJson (line_messages t) True (es_operations st))"
  using assms by (simp add: openEditor_def saved_text_def buildVisualJson_def Let_def)

lemma saved_value_reopens:
  assumes safe: "json_safe v" and doc: "\<not> rules_document v"
  shows "saved_text t (openEditor clock (pretty v) s) = Inr (pretty v)"
proof -
  obtain ob m where ob: "createDefaultOperation clock (pe_seed s) = (ob, m)" by fastforce
  note facts = safe trim_pretty [OF safe] pretty_not_empty [OF safe] pretty_round_trip [OF safe]
  show ?thesis
  proof (cases "plain_object v")
    case True
    with doc have nd: "\<And>items. js_get v ''operations'' \<noteq> JArray items"
      by (auto simp: plain_object_def rules_document_def simp del: js_get.simps split: js_value.splits)
    have "parseInitialState clock (pretty v) (pe_seed s) =
        (Some \<lparr>es_editMode = VisualEdit, es_visualMode = LegacyVisual, es_legacyValue = pretty v, es_operations = [ob],
           es_jsonText = pretty v, es_jsonError = []\<rparr>, m)"
      using True nd facts ob
      by (cases v; cases "js_get v ''operations''";
          simp add: parseInitialState_def Let_def plain_object_def del: js_get.simps)
    from open_shows [OF this] facts True show ?thesis by simp
  next
    case False
    have "parseInitialState clock (pretty v) (pe_seed s) =
        (Some \<lparr>es_editMode = JsonEdit, es_visualMode = OperationsVisual, es_legacyValue = [], es_operations = [ob],
           es_jsonText = pretty v, es_jsonError = []\<rparr>, m)"
      using False facts ob
      by (cases v; cases "js_get v ''operations''";
          simp add: parseInitialState_def Let_def plain_object_def del: js_get.simps)
    from open_shows [OF this] facts show ?thesis by simp
  qed
qed

lemma saved_blank_reopens: "saved_text t (openEditor clock [] s) = Inr []"
proof -
  obtain ob m where ob: "createDefaultOperation clock (pe_seed s) = (ob, m)" by fastforce
  have "parseInitialState clock [] (pe_seed s) =
      (Some \<lparr>es_editMode = VisualEdit, es_visualMode = OperationsVisual, es_legacyValue = [], es_operations = [ob],
         es_jsonText = [], es_jsonError = []\<rparr>, m)"
    by (simp add: parseInitialState_def ob)
  from open_shows [OF this] default_blank [of clock "pe_seed s"] ob show ?thesis
    by (simp add: buildOperationsJson_def)
qed

text \<open>C33: After any sequence of dialog events (edits give modes and logics their known values), opening the
  dialog on the text it saved and saving without an edit stores the same text, under these conditions: if it shows
  rules in the visual mode, no value text is a quoted JSON string and a value text that is JSON has each key once and
  decimal numbers; otherwise, if the edited text is JSON, it has each key once and decimal numbers and is not an
  object with an array of operations.  Translations are not empty.\<close>

theorem save_reopen_save:
  assumes t: "\<And>k l. t k l \<noteq> []" and ev: "list_all event_ok es"
    and s: "s = fold (editor_step clock t) es (keepSelection (initial_editor clock n))"
    and rules: "shows_rules s \<Longrightarrow> list_all rule_unquoted (es_operations s)"
    and other: "\<And>v. \<not> shows_rules s \<Longrightarrow> json_parse (trim (edited_text s)) = Some v \<Longrightarrow> json_safe v \<and> \<not> rules_document v"
    and saved: "saved_text t s = Inr r"
  shows "saved_text t (openEditor clock r s') = Inr r"
proof (cases "shows_rules s")
  case True
  have "editor_ok clock s" unfolding s by (rule param_dialog.run_inv [OF ev])
  from saved_text_reopens [OF _ good_rules [OF this rules [OF True]], of "line_messages t" r clock "pe_seed s'"] t saved
  obtain st m where "parseInitialState clock r (pe_seed s') = (Some st, m)" "es_editMode st = VisualEdit"
    "es_visualMode st = OperationsVisual" "buildOperationsJson (line_messages t) True (es_operations st) = Inr r"
    by (auto simp: saved_text_rules [OF True])
  with open_shows [of clock r s' st m t] show ?thesis by simp
next
  case False
  then have m: "es_editMode s = JsonEdit \<or> es_visualMode s = LegacyVisual"
    by (cases "es_editMode s"; cases "es_visualMode s") (auto simp: shows_rules_def)
  have "r = [] \<or> (\<exists>v. json_parse (trim (edited_text s)) = Some v \<and> r = pretty v)"
    using saved m by (cases "json_parse (trim (edited_text s))")
      (auto simp: saved_text_def buildVisualJson_def edited_text_def Let_def split: if_splits)
  with other [OF False] saved_value_reopens saved_blank_reopens show ?thesis by blast
qed

theorem save_reopen_save_witness:
  "saved_text sample_t (openEditor sample_clock (pretty (document [sample_rule])) sample_editor) =
     Inr (pretty (document [sample_rule]))"
  by (rule save_reopen_save [where t = sample_t and clock = sample_clock and es = sample_events and n = 0 and s = sample_editor])
     (simp_all only: sample_t_def list.distinct not_False_eq_True not_True_eq_False sample_events_ok
       sample_editor_def [symmetric] sample_state sample_good [unfolded sample_state] sample_saved sample_document)

text \<open>A string that spells JSON loses its quotes: it is opened as that text and saved as the value it spells.\<close>

lemma quoted_value_changes:
  assumes w: "json_parse (trim x) = Some w" "json_safe w" and p: "trim p = p" "p \<noteq> []" and t: "\<And>k l. t k l \<noteq> []"
  shows "saved_text t (openEditor clock (pretty (JObject [(''operations'', JArray [JObject
        [(''mode'', JString ''set''), (''path'', JString p), (''value'', JString x)]])])) s) =
    Inr (pretty (JObject [(''operations'', JArray [JObject
        [(''mode'', JString ''set''), (''path'', JString p), (''value'', w)]])]))"
proof -
  define doc where "doc = (\<lambda>v. JObject [(''operations'', JArray [JObject
      [(''mode'', JString ''set''), (''path'', JString p), (''value'', v)]])])"
  have safe: "json_safe (doc (JString x))" by (simp add: doc_def)
  define ob where "ob = \<lparr>po_id = fst (nextLocalId clock (pe_seed s)), po_description = [], po_path = p, po_mode = ''set'',
     po_from = [], po_to = [], po_value_text = x, po_keep_origin = False, po_logic = ''OR'', po_conditions = []\<rparr>"
  have "normalizeOperation clock (JObject [(''mode'', JString ''set''), (''path'', JString p), (''value'', JString x)]) (pe_seed s) =
      (Some ob, Suc (pe_seed s))"
    using mode_defaults(2)
    by (simp add: normalizeOperation_def nextLocalId_def given_def Let_def text_field_def known_or_def toValueText_def
        value_or_def upper_logic ob_def)
  then have "parseInitialState clock (pretty (doc (JString x))) (pe_seed s) =
      (Some \<lparr>es_editMode = VisualEdit, es_visualMode = OperationsVisual, es_legacyValue = [], es_operations = [ob],
         es_jsonText = pretty (doc (JString x)), es_jsonError = []\<rparr>, Suc (pe_seed s))"
    using safe trim_pretty [OF safe] pretty_not_empty [OF safe] pretty_round_trip [OF safe]
    by (simp add: parseInitialState_def Let_def document_operations_def doc_def)
  note op = open_shows [OF this, of t]
  have sm: "map_of MODE_META ''set'' = Some set_meta" by (simp add: MODE_META_def set_meta_def)
  have meta: "meta_of ''set'' = set_meta" by (simp add: meta_of_def sm)
  have "operation_error ob = None"
    using p by (simp add: operation_error_def required_fields_error_def ob_def mode_or_set_def meta set_meta_def no_meta_def
        FROM_REQUIRED_MODES_def TO_REQUIRED_MODES_def VALUE_REQUIRED_MODES_def Let_def)
  moreover have "operationPayload ob = JObject [(''mode'', JString ''set''), (''path'', JString p), (''value'', w)]"
    using p w by (simp add: operationPayload_def headPayload_def endsPayload_def alias_payload_def put_def ob_def
        mode_or_set_def meta set_meta_def no_meta_def Let_def map_filter_simps loose_cases)
  ultimately have "buildOperationsJson (line_messages t) True [ob] = Inr (pretty (doc w))"
    using build_cases [of "line_messages t" "[ob]" "[ob]" "pretty (doc w)"] t valid_not_blank [of ob]
    by (simp add: document_def doc_def)
  with op show ?thesis by (simp add: doc_def)
qed

section \<open>Typing into a custom error\<close>

text \<open>The message the editor of a custom error shows for a rule, and a key typed at its end.\<close>

definition shown_message :: "string \<Rightarrow> param_editor \<Rightarrow> string" where
  "shown_message i s =
     (case find (\<lambda>ob. po_id ob = i) (es_operations s) of
        Some ob \<Rightarrow> re_message (parseReturnErrorDraft (po_value_text ob)) | None \<Rightarrow> [])"

definition press_key :: "clock \<Rightarrow> translate \<Rightarrow> string \<Rightarrow> char \<Rightarrow> param_editor \<Rightarrow> param_editor" where
  "press_key clock t i c s = editor_step clock t (UpdateReturnError i [DraftMessage (shown_message i s @ [c])]) s"

definition advanced_error :: "string \<Rightarrow> param_editor \<Rightarrow> bool" where
  "advanced_error i s \<longleftrightarrow>
     (case find (\<lambda>ob. po_id ob = i) (es_operations s) of
        Some ob \<Rightarrow> \<not> re_simpleMode (parseReturnErrorDraft (po_value_text ob)) | None \<Rightarrow> False)"

lemma trim_snoc: "trim m = m \<Longrightarrow> trim (m @ [c]) = (if js_space c then m else m @ [c])"
proof -
  assume m: "trim m = m"
  have ends: "m = [] \<or> \<not> js_space (hd m)" "m = [] \<or> \<not> js_space (last m)"
    using trim_bounds [of m] m by auto
  show ?thesis
  proof (cases "js_space c")
    case False
    have "trim (m @ [c]) = m @ [c]" by (rule trim_id) (use ends False in \<open>cases m; simp\<close>)
    with False show ?thesis by simp
  next
    case True
    have "trim_start (m @ [c]) = (if m = [] then [] else m @ [c])"
      using ends(1) True by (cases m) (auto simp: trim_start_def)
    moreover have "trim_end (m @ [c]) = trim_end m" using True by (simp add: trim_end_def)
    ultimately show ?thesis using True ends(2) trim_end_id [of m] by (auto simp: trim_def trim_end_def)
  qed
qed

lemma find_at_operation:
  assumes "find (\<lambda>ob. po_id ob = i) ops = Some ob" and "\<And>x. po_id (f x) = po_id x"
  shows "find (\<lambda>ob. po_id ob = i) (map (\<lambda>x. if po_id x = i then f x else x) ops) = Some (f ob)"
  using assms by (induction ops) auto

lemma press_key_shown:
  assumes "advanced_error i s"
  shows "advanced_error i (press_key clock t i c s)" and
    "shown_message i (press_key clock t i c s) = shown_message i s @ (if js_space c then [] else [c])"
proof -
  from assms obtain ob where f: "find (\<lambda>ob. po_id ob = i) (es_operations s) = Some ob"
    and adv: "\<not> re_simpleMode (parseReturnErrorDraft (po_value_text ob))"
    by (auto simp: advanced_error_def split: option.splits)
  define d where "d = parseReturnErrorDraft (po_value_text ob)"
  define m where "m = re_message d"
  have norm: "shown_draft d = d" unfolding d_def by (rule return_error_parts [OF adv])
  then have tm: "trim m = m" by (metis m_def shown_draft_def ReturnErrorDraft.select_convs(1))
  have shown: "shown_message i s = m" using f by (simp add: shown_message_def m_def d_def)
  have ops: "es_operations (press_key clock t i c s) = map (\<lambda>x. if po_id x = i then
      x\<lparr>po_value_text := buildReturnErrorValueText ((parseReturnErrorDraft (po_value_text x))\<lparr>re_message := m @ [c]\<rparr>)\<rparr> else x)
      (es_operations s)"
    by (simp add: press_key_def editor_step_def keepSelection_def shown updateReturnErrorDraft_def at_operation_def)
  have found: "find (\<lambda>ob. po_id ob = i) (es_operations (press_key clock t i c s)) =
      Some (ob\<lparr>po_value_text := buildReturnErrorValueText (d\<lparr>re_message := m @ [c]\<rparr>)\<rparr>)"
    unfolding ops d_def by (rule find_at_operation [OF f]) simp
  have "parseReturnErrorDraft (buildReturnErrorValueText (d\<lparr>re_message := m @ [c]\<rparr>)) =
      shown_draft (d\<lparr>re_message := m @ [c]\<rparr>)"
    using adv by (intro return_error_read_back) (simp add: d_def)
  with found tm show "advanced_error i (press_key clock t i c s)"
    "shown_message i (press_key clock t i c s) = shown_message i s @ (if js_space c then [] else [c])"
    by (simp_all add: advanced_error_def shown_message_def [of i "press_key clock t i c s"] shown shown_draft_def trim_snoc)
qed

text \<open>Blanks cannot be typed into the message of a custom error.  Of the keys typed at the end of the message,
  one after the other, the dialog keeps exactly those that are not white space, since every key stores the
  message trimmed and shows it again.\<close>

lemma typed_blanks_lost:
  assumes "advanced_error i s"
  shows "shown_message i (fold (press_key clock t i) cs s) = shown_message i s @ filter (\<lambda>c. \<not> js_space c) cs"
  using assms
proof (induction cs arbitrary: s)
  case Nil
  then show ?case by simp
next
  case (Cons c cs)
  with press_key_shown [OF Cons.prems, of clock t c] Cons.IH [of "press_key clock t i c s"] show ?case by simp
qed

lemma typed_blanks_lost_witness:
  "\<exists>s. advanced_error ''po_0_0'' s \<and>
     shown_message ''po_0_0'' (fold (press_key sample_clock sample_t ''po_0_0'') ''a b'' s) = shown_message ''po_0_0'' s @ ''ab''"
proof -
  define d where "d = return_error_defaults\<lparr>re_simpleMode := False\<rparr>"
  define s where "s = sample_editor\<lparr>es_operations := [sample_rule\<lparr>po_value_text := buildReturnErrorValueText d\<rparr>]\<rparr>"
  have "parseReturnErrorDraft (buildReturnErrorValueText d) = shown_draft d"
    by (rule return_error_read_back) (simp add: d_def)
  then have a: "advanced_error ''po_0_0'' s"
    by (simp add: advanced_error_def s_def sample_rule_def shown_draft_def)
  from typed_blanks_lost [OF this, of sample_clock sample_t "''a b''"] a show ?thesis
    by (intro exI [of _ s]) (simp add: js_space_def)
qed

section \<open>Editing pruning rules\<close>

lemma map_draw_cong:
  assumes "\<And>x n. x \<in> set xs \<Longrightarrow> N \<le> n \<Longrightarrow> f x n = g x n" and "\<And>x n. n \<le> snd (f x n)" and "N \<le> n"
  shows "map_draw f xs n = map_draw g xs n"
  using assms(1,3)
proof (induction xs arbitrary: n)
  case Nil
  then show ?case by simp
next
  case (Cons x xs)
  have "N \<le> snd (f x n)" using Cons.prems(2) assms(2) [of n x] by simp
  with Cons.IH [of "snd (f x n)"] Cons.prems show ?case by (simp add: case_prod_unfold)
qed

lemma updatePrune_cong:
  assumes "\<And>v n d m. parsePruneObjectsDraft clock v n = (d, m) \<Longrightarrow> pe_seed s \<le> n \<Longrightarrow> f d m = g d m"
    and "\<And>d n. n \<le> snd (f d n)"
  shows "updatePruneObjectsDraft clock i f s = updatePruneObjectsDraft clock i g s"
proof -
  have mono: "n \<le> snd (parsePruneObjectsDraft clock v n)" for v n
    using prune_draft_ok [of clock v n] by (metis prod.collapse)
  have "map_draw (\<lambda>ob n. if po_id ob \<noteq> i then (ob, n)
       else case parsePruneObjectsDraft clock (po_value_text ob) n of (d, m) \<Rightarrow>
         (case f d m of (d', k) \<Rightarrow> (ob\<lparr>po_value_text := buildPruneObjectsValueText d'\<rparr>, k))) (es_operations s) (pe_seed s) =
     map_draw (\<lambda>ob n. if po_id ob \<noteq> i then (ob, n)
       else case parsePruneObjectsDraft clock (po_value_text ob) n of (d, m) \<Rightarrow>
         (case g d m of (d', k) \<Rightarrow> (ob\<lparr>po_value_text := buildPruneObjectsValueText d'\<rparr>, k))) (es_operations s) (pe_seed s)"
  proof (rule map_draw_cong [where N = "pe_seed s"])
    fix ob n
    assume "pe_seed s \<le> n"
    with assms(1) show "(if po_id ob \<noteq> i then (ob, n)
       else case parsePruneObjectsDraft clock (po_value_text ob) n of (d, m) \<Rightarrow>
         (case f d m of (d', k) \<Rightarrow> (ob\<lparr>po_value_text := buildPruneObjectsValueText d'\<rparr>, k))) =
      (if po_id ob \<noteq> i then (ob, n)
       else case parsePruneObjectsDraft clock (po_value_text ob) n of (d, m) \<Rightarrow>
         (case g d m of (d', k) \<Rightarrow> (ob\<lparr>po_value_text := buildPruneObjectsValueText d'\<rparr>, k)))"
      by (auto split: prod.split)
  next
    fix ob :: ParamOverrideOperation and n
    have "n \<le> snd (f (fst (parsePruneObjectsDraft clock (po_value_text ob) n)) (snd (parsePruneObjectsDraft clock (po_value_text ob) n)))"
      using mono assms(2) order_trans by blast
    then show "n \<le> snd (if po_id ob \<noteq> i then (ob, n)
       else case parsePruneObjectsDraft clock (po_value_text ob) n of (d, m) \<Rightarrow>
         (case f d m of (d', k) \<Rightarrow> (ob\<lparr>po_value_text := buildPruneObjectsValueText d'\<rparr>, k)))"
      by (simp add: case_prod_unfold)
  qed simp
  then show ?thesis by (simp add: updatePruneObjectsDraft_def)
qed

lemma build_ignores_blank_rule:
  assumes "trim (pr_path r) = []"
  shows "buildPruneObjectsValueText (d\<lparr>pd_simpleMode := False, pd_rules := pd_rules d @ [r]\<rparr>) =
    buildPruneObjectsValueText (d\<lparr>pd_simpleMode := False\<rparr>)"
  using assms by (simp add: buildPruneObjectsValueText_def Let_def)

text \<open>Reading the same text with another counter gives the same rules under other identifiers.\<close>

definition nameless :: "PruneRule \<Rightarrow> PruneRule" where
  "nameless r = r\<lparr>pr_id := []\<rparr>"

lemma normalizePruneRule_nameless:
  "map_option nameless (fst (normalizePruneRule clock v n)) = map_option nameless (fst (normalizePruneRule clock v m))"
  by (simp add: normalizePruneRule_def nextLocalId_def nameless_def Let_def)

lemma map_ids_nameless:
  "map_option (map nameless) (fst (map_ids (normalizePruneRule clock) vs n)) =
   map_option (map nameless) (fst (map_ids (normalizePruneRule clock) vs m))"
proof (induction vs arbitrary: n m)
  case Nil
  then show ?case by simp
next
  case (Cons v vs)
  obtain x k y l where xy: "normalizePruneRule clock v n = (x, k)" "normalizePruneRule clock v m = (y, l)" by fastforce
  obtain xs k' ys l' where t: "map_ids (normalizePruneRule clock) vs k = (xs, k')"
    "map_ids (normalizePruneRule clock) vs l = (ys, l')" by fastforce
  from normalizePruneRule_nameless [of clock v n m] xy have "map_option nameless x = map_option nameless y" by simp
  moreover from Cons.IH [of k l] t have "map_option (map nameless) xs = map_option (map nameless) ys" by simp
  ultimately show ?case using xy t by (cases x; cases y; cases xs; cases ys) auto
qed

lemma prune_rule_payload_nameless: "pruneConditionPayload (nameless r) = pruneConditionPayload r"
  by (simp add: pruneConditionPayload_def nameless_def)

lemma build_nameless: "buildPruneObjectsValueText (d\<lparr>pd_rules := map nameless (pd_rules d)\<rparr>) = buildPruneObjectsValueText d"
proof -
  have "map pruneConditionPayload (filter (\<lambda>r. trim (pr_path r) \<noteq> []) (map nameless rs)) =
      map pruneConditionPayload (filter (\<lambda>r. trim (pr_path r) \<noteq> []) rs)" for rs
    by (induction rs) (simp_all add: prune_rule_payload_nameless, simp_all add: nameless_def)
  then show ?thesis by (simp add: buildPruneObjectsValueText_def Let_def cong: if_cong)
qed

lemma parse_nameless:
  "(fst (parsePruneObjectsDraft clock v n))\<lparr>pd_rules := map nameless (pd_rules (fst (parsePruneObjectsDraft clock v n)))\<rparr> =
   (fst (parsePruneObjectsDraft clock v m))\<lparr>pd_rules := map nameless (pd_rules (fst (parsePruneObjectsDraft clock v m)))\<rparr>"
proof (cases "\<exists>p. trim v \<noteq> [] \<and> json_parse (trim v) = Some p \<and> plain_object p")
  case True
  then obtain fs where p: "trim v \<noteq> []" "json_parse (trim v) = Some (JObject fs)"
    by (metis plain_object_def js_value.exhaust js_value.case)
  obtain x k y l where xy: "map_ids (normalizePruneRule clock) (rule_sources (JObject fs)) n = (x, k)"
    "map_ids (normalizePruneRule clock) (rule_sources (JObject fs)) m = (y, l)" by fastforce
  with map_ids_nameless [of clock "rule_sources (JObject fs)" n m]
  have "map_option (map nameless) x = map_option (map nameless) y" by simp
  with p xy show ?thesis
    by (cases x; cases y) (simp_all add: parsePruneObjectsDraft_def Let_def plain_object_def prune_defaults_def del: js_get.simps)
next
  case False
  then have "fst (parsePruneObjectsDraft clock v n) = fst (parsePruneObjectsDraft clock v m)"
    by (cases "json_parse (trim v)"; cases "the (json_parse (trim v))")
      (auto simp: parsePruneObjectsDraft_def Let_def plain_object_def)
  then show ?thesis by simp
qed

lemma advanced_text_same:
  "buildPruneObjectsValueText ((fst (parsePruneObjectsDraft clock v n))\<lparr>pd_simpleMode := False\<rparr>) =
   buildPruneObjectsValueText ((fst (parsePruneObjectsDraft clock v m))\<lparr>pd_simpleMode := False\<rparr>)"
proof -
  define d where "d = fst (parsePruneObjectsDraft clock v n)"
  define e where "e = fst (parsePruneObjectsDraft clock v m)"
  have "(d\<lparr>pd_rules := map nameless (pd_rules d)\<rparr>)\<lparr>pd_simpleMode := False\<rparr> =
      (e\<lparr>pd_rules := map nameless (pd_rules e)\<rparr>)\<lparr>pd_simpleMode := False\<rparr>"
    unfolding d_def e_def parse_nameless [of clock v n m] by (rule refl)
  then have "(d\<lparr>pd_simpleMode := False\<rparr>)\<lparr>pd_rules := map nameless (pd_rules (d\<lparr>pd_simpleMode := False\<rparr>))\<rparr> =
      (e\<lparr>pd_simpleMode := False\<rparr>)\<lparr>pd_rules := map nameless (pd_rules (e\<lparr>pd_simpleMode := False\<rparr>))\<rparr>"
    by (cases d; cases e) simp
  from arg_cong [OF this, of buildPruneObjectsValueText] show ?thesis
    unfolding build_nameless d_def e_def .
qed

lemma map_draw_values:
  assumes "\<And>x n m. fst (f x n) = fst (g x m)"
  shows "fst (map_draw f xs n) = fst (map_draw g xs m)"
  using assms by (induction xs arbitrary: n m) (auto simp: case_prod_unfold)

lemma addPruneRule_text:
  "es_operations (addPruneRule clock i s) = es_operations (patchPruneObjectsDraft clock i [PruneSimpleMode False] s)"
proof -
  have blank: "trim (pr_path (the (fst (normalizePruneRule clock (JObject []) n)))) = []" for n
    by (simp add: normalizePruneRule_def nextLocalId_def given_def text_field_def Let_def)
  show ?thesis
    unfolding addPruneRule_def patchPruneObjectsDraft_def updatePruneObjectsDraft_def case_prod_unfold
    by (simp, rule map_draw_values)
       (simp add: build_ignores_blank_rule [OF blank] advanced_text_same)
qed

lemma fresh_rules:
  assumes "parsePruneObjectsDraft clock v n = (d, m)" and "k \<le> n" and "drawn clock 0 k i" and "r \<in> set (pd_rules d)"
  shows "pr_id r \<noteq> i"
proof -
  have "drawn clock n m (pr_id r)" using prune_draft_ok [OF assms(1)] assms(4) by (simp add: list_all_iff)
  moreover have "drawn clock 0 n i" using assms(2,3) by (auto intro: drawn_mono)
  ultimately show ?thesis using drawn_apart by metis
qed

text \<open>C34: No edit of a pruning rule reaches the stored text.  Changing or deleting a rule that the dialog shows does
  the same as an update that changes nothing, since the identifiers shown were drawn before the text is read
  again; adding a rule does the same as choosing the advanced form, since a rule without a path is not
  stored.\<close>

theorem prune_rule_edits_lost:
  assumes "drawn clock 0 (pe_seed s) ruleId"
  shows "handle clock t (UpdatePruneRule i ruleId patch) s = handle clock t (PatchPrune i []) s \<and>
    handle clock t (RemovePruneRule i ruleId) s = handle clock t (PatchPrune i []) s \<and>
    es_operations (handle clock t (AddPruneRule i) s) =
      es_operations (handle clock t (PatchPrune i [PruneSimpleMode False]) s)"
proof -
  have "updatePruneRule clock i ruleId patch s = patchPruneObjectsDraft clock i [] s"
    unfolding updatePruneRule_def patchPruneObjectsDraft_def
    by (rule updatePrune_cong) (use fresh_rules [OF _ _ assms] in \<open>auto simp: map_idI\<close>)
  moreover have "removePruneRule clock i ruleId s = patchPruneObjectsDraft clock i [] s"
    unfolding removePruneRule_def patchPruneObjectsDraft_def
    by (rule updatePrune_cong) (use fresh_rules [OF _ _ assms] in \<open>auto simp: filter_id_conv\<close>)
  ultimately show ?thesis by (simp add: addPruneRule_text)
qed

theorem prune_rule_edits_lost_witness:
  "handle sample_clock sample_t (UpdatePruneRule ''po_0_0'' ''po_0_0'' [RulePath ''type'']) sample_editor =
     handle sample_clock sample_t (PatchPrune ''po_0_0'' []) sample_editor"
proof -
  have "pe_seed sample_editor = 1"
    by (simp add: sample_editor_def sample_events_def editor_step_def keepSelection_def initial_editor_def
        default_operation updateOperation_def at_operation_def)
  moreover have "digit 0 = CHR ''0''" by (simp add: digit_def char_of_eq_iff)
  ultimately have "drawn sample_clock 0 (pe_seed sample_editor) ''po_0_0''"
    by (simp add: drawn_def nextLocalId_def sample_clock_def nat_digits.simps)
  from prune_rule_edits_lost [OF this] show ?thesis by blast
qed

text \<open>What the advanced form of a pruning rule shows after an edit.  The type is trimmed and the conditions with a
  path are kept, in their order, with their values; without a type and a condition the choices of logic and
  recursion are reset; and a type alone, with the default choices, shows the simple form.\<close>

lemma prune_draft_shown:
  assumes "\<not> pd_simpleMode d" and "list_all good_rule (pd_rules d)"
  shows "\<exists>rules m. parsePruneObjectsDraft clock (buildPruneObjectsValueText d) n = (shown_prune d rules, m) \<and>
    list_all2 same_rule (kept_rules d) rules"
  by (rule prune_read_back [OF assms])

lemma prune_draft_shown_witness:
  "\<exists>rules m. parsePruneObjectsDraft sample_clock (buildPruneObjectsValueText
      \<lparr>pd_simpleMode = False, pd_typeText = ''redacted'', pd_logic = ''AND'', pd_recursive = True, pd_rules = []\<rparr>) 0 =
    (\<lparr>pd_simpleMode = True, pd_typeText = ''redacted'', pd_logic = ''AND'', pd_recursive = True, pd_rules = rules\<rparr>, m)"
proof -
  define d where "d = \<lparr>pd_simpleMode = False, pd_typeText = ''redacted'', pd_logic = ''AND'', pd_recursive = True, pd_rules = []\<rparr>"
  have "\<not> pd_simpleMode d" "list_all good_rule (pd_rules d)" by (simp_all add: d_def)
  from prune_draft_shown [OF this, of sample_clock 0] obtain rules m where
    "parsePruneObjectsDraft sample_clock (buildPruneObjectsValueText d) 0 = (shown_prune d rules, m)" by blast
  moreover have "shown_prune d rules =
      \<lparr>pd_simpleMode = True, pd_typeText = ''redacted'', pd_logic = ''AND'', pd_recursive = True, pd_rules = rules\<rparr>"
    by (simp add: shown_prune_def d_def kept_rules_def any_logic_def upper_logic trim_def trim_start_def trim_end_def js_space_def)
  ultimately have "parsePruneObjectsDraft sample_clock (buildPruneObjectsValueText d) 0 =
      (\<lparr>pd_simpleMode = True, pd_typeText = ''redacted'', pd_logic = ''AND'', pd_recursive = True, pd_rules = rules\<rparr>, m)"
    by (simp only:)
  then show ?thesis unfolding d_def by blast
qed

section \<open>Dropping a rule\<close>

lemma dropped_rule_moves:
  assumes "editor_ok clock s" and "src \<in> set (es_operations s)" and "tgt \<in> set (es_operations s)" and "src \<noteq> tgt"
    and "pe_draggedOperationId s = po_id src"
  shows "\<exists>pre post. filter (\<lambda>ob. ob \<noteq> src) (es_operations s) = pre @ tgt # post \<and>
    es_operations (handleDrop d (po_id tgt) s) =
      (if pe_dragOverOperationId s = po_id tgt \<and> pe_dragOverPosition s = After
       then pre @ tgt # src # post else pre @ src # tgt # post)"
proof -
  have ok: "operations_ok clock 0 (pe_seed s) (es_operations s)" using assms(1) by (simp add: editor_ok_def rules_ok_def)
  then have dist: "distinct (map po_id (es_operations s))" by (simp add: operations_ok_def)
  have ne: "po_id src \<noteq> []" "po_id tgt \<noteq> []"
    using ok assms(2,3) drawn_not_empty by (fastforce simp: operations_ok_def operation_ok_def list_all_iff)+
  have "po_id src \<noteq> po_id tgt"
    using dist assms(2-4) by (auto simp: distinct_map inj_on_def)
  note moved = reorder_moves [OF dist assms(2,3) ne this]
  then obtain pre post where "filter (\<lambda>ob. ob \<noteq> src) (es_operations s) = pre @ tgt # post"
    "reorderOperations (es_operations s) (po_id src) (po_id tgt) Before = pre @ src # tgt # post"
    "reorderOperations (es_operations s) (po_id src) (po_id tgt) After = pre @ tgt # src # post" by blast
  moreover have "es_operations (handleDrop d (po_id tgt) s) = reorderOperations (es_operations s) (po_id src) (po_id tgt)
      (if pe_dragOverOperationId s = po_id tgt then pe_dragOverPosition s else Before)"
    using assms(5) ne \<open>po_id src \<noteq> po_id tgt\<close> by (simp add: handleDrop_def Let_def resetDragState_def)
  ultimately show ?thesis
    by (intro exI [of _ pre] exI [of _ post]) (cases "pe_dragOverPosition s"; simp)
qed

end
