(* ===== verification/Currency.thy ===== *)
theory Currency
  imports Js_Coercion "HOL-Library.Word"
begin

unbundle bit_operations_syntax

text \<open>
  Amounts and their texts: the currency settings and formats (\<^verbatim>\<open>web/src/lib/currency.ts\<close> and the
  currency part of \<^verbatim>\<open>web/src/stores/system-config-store.ts\<close>) and the formatting of numbers, quota,
  durations and colours (\<^verbatim>\<open>web/src/lib/format.ts\<close>).  \<^verbatim>\<open>Intl.NumberFormat\<close>, \<^verbatim>\<open>Intl.RelativeTimeFormat\<close>
  and the date library are arguments.  Amounts are exact rationals.
\<close>

section \<open>Settings\<close>

datatype CurrencyDisplayType = USD | CNY | TOKENS | CUSTOM

record CurrencyConfig =
  displayInCurrency :: bool
  quotaDisplayType :: CurrencyDisplayType
  quotaPerUnit :: rat
  usdExchangeRate :: rat
  customCurrencySymbol :: string
  customCurrencyExchangeRate :: rat

definition DEFAULT_CURRENCY_CONFIG :: CurrencyConfig where
  "DEFAULT_CURRENCY_CONFIG = \<lparr>displayInCurrency = True, quotaDisplayType = USD, quotaPerUnit = 500000,
     usdExchangeRate = 1, customCurrencySymbol = [CHR 0xA4], customCurrencyExchangeRate = 1\<rparr>"

definition isCurrencyDisplayType :: "js_value \<Rightarrow> CurrencyDisplayType option" where
  "isCurrencyDisplayType v =
     map_of [(JString ''USD'', USD), (JString ''CNY'', CNY), (JString ''TOKENS'', TOKENS),
       (JString ''CUSTOM'', CUSTOM)] v"

definition parseCurrencyDisplayType :: "js_value \<Rightarrow> CurrencyDisplayType \<Rightarrow> CurrencyDisplayType" where
  "parseCurrencyDisplayType v fallback =
     (case isCurrencyDisplayType v of Some d \<Rightarrow> d | None \<Rightarrow> fallback)"

text \<open>The configuration of the store, repaired where a rate is not positive or the symbol is empty.\<close>

definition getConfig :: "CurrencyConfig \<Rightarrow> CurrencyConfig" where
  "getConfig currency =
     currency\<lparr>quotaPerUnit :=
         (if quotaPerUnit currency > 0 then quotaPerUnit currency else quotaPerUnit DEFAULT_CURRENCY_CONFIG),
       usdExchangeRate :=
         (if usdExchangeRate currency > 0 then usdExchangeRate currency else usdExchangeRate DEFAULT_CURRENCY_CONFIG),
       customCurrencyExchangeRate :=
         (if customCurrencyExchangeRate currency > 0 then customCurrencyExchangeRate currency
          else customCurrencyExchangeRate DEFAULT_CURRENCY_CONFIG),
       customCurrencySymbol :=
         (if trim (customCurrencySymbol currency) \<noteq> [] then trim (customCurrencySymbol currency)
          else customCurrencySymbol DEFAULT_CURRENCY_CONFIG)\<rparr>"

datatype DisplayMeta =
    MetaCurrency string string rat \<comment> \<open>symbol, code, exchange rate\<close>
  | MetaCustom string rat
  | MetaTokens rat

definition getDisplayMeta :: "CurrencyConfig \<Rightarrow> DisplayMeta" where
  "getDisplayMeta config =
     (case quotaDisplayType config of
        CNY \<Rightarrow> MetaCurrency [CHR 0xA5] ''CNY'' (usdExchangeRate config)
      | CUSTOM \<Rightarrow> MetaCustom (customCurrencySymbol config) (customCurrencyExchangeRate config)
      | TOKENS \<Rightarrow> MetaTokens (quotaPerUnit config)
      | USD \<Rightarrow> MetaCurrency ''$'' ''USD'' 1)"

fun is_tokens :: "DisplayMeta \<Rightarrow> bool" where
  "is_tokens (MetaTokens _) = True"
| "is_tokens _ = False"

fun exchange_rate :: "DisplayMeta \<Rightarrow> rat" where
  "exchange_rate (MetaCurrency _ _ r) = r"
| "exchange_rate (MetaCustom _ r) = r"
| "exchange_rate (MetaTokens _) = 1"

definition getBillingDisplayMeta :: "CurrencyConfig \<Rightarrow> DisplayMeta" where
  "getBillingDisplayMeta config =
     (let meta = getDisplayMeta config in
      if is_tokens meta then MetaCurrency ''$'' ''USD'' 1 else meta)"

definition getCurrencyDisplay :: "CurrencyConfig \<Rightarrow> CurrencyConfig \<times> DisplayMeta" where
  "getCurrencyDisplay currency = (let config = getConfig currency in (config, getDisplayMeta config))"

definition getCurrencyLabel :: "CurrencyConfig \<Rightarrow> string" where
  "getCurrencyLabel currency =
     (let (config, meta) = getCurrencyDisplay currency in
      if is_tokens meta then ''Tokens''
      else (case quotaDisplayType config of
              CNY \<Rightarrow> ''CNY''
            | CUSTOM \<Rightarrow> (case meta of MetaCustom s _ \<Rightarrow> s | _ \<Rightarrow> ''Custom'')
            | _ \<Rightarrow> ''USD''))"

definition isCurrencyDisplayEnabled :: "CurrencyConfig \<Rightarrow> bool" where
  "isCurrencyDisplayEnabled currency = (\<not> is_tokens (snd (getCurrencyDisplay currency)))"

section \<open>Formats\<close>

record CurrencyFormatOptions =
  digitsLarge :: "nat option"
  digitsSmall :: "nat option"
  abbreviate :: "bool option"
  minimumNonZero :: "rat option"
  compact :: "bool option"
  showSymbol :: "bool option"

record resolved_options =
  r_digitsLarge :: nat
  r_digitsSmall :: nat
  r_abbreviate :: bool
  r_minimumNonZero :: rat
  r_compact :: bool
  r_showSymbol :: bool

definition DEFAULT_FORMAT_OPTIONS :: resolved_options where
  "DEFAULT_FORMAT_OPTIONS = \<lparr>r_digitsLarge = 2, r_digitsSmall = 4, r_abbreviate = True,
     r_minimumNonZero = 0, r_compact = False, r_showSymbol = True\<rparr>"

definition orelse :: "'a option \<Rightarrow> 'a \<Rightarrow> 'a" where
  "orelse x d = (case x of Some y \<Rightarrow> y | None \<Rightarrow> d)"

definition mergeOptions :: "CurrencyFormatOptions option \<Rightarrow> resolved_options" where
  "mergeOptions options =
     (case options of
        None \<Rightarrow> DEFAULT_FORMAT_OPTIONS
      | Some o1 \<Rightarrow>
          \<lparr>r_digitsLarge = orelse (digitsLarge o1) (r_digitsLarge DEFAULT_FORMAT_OPTIONS),
           r_digitsSmall = orelse (digitsSmall o1) (r_digitsSmall DEFAULT_FORMAT_OPTIONS),
           r_abbreviate = orelse (abbreviate o1) (r_abbreviate DEFAULT_FORMAT_OPTIONS),
           r_minimumNonZero = orelse (minimumNonZero o1) (r_minimumNonZero DEFAULT_FORMAT_OPTIONS),
           r_compact = orelse (compact o1) (r_compact DEFAULT_FORMAT_OPTIONS),
           r_showSymbol = orelse (showSymbol o1) (r_showSymbol DEFAULT_FORMAT_OPTIONS)\<rparr>)"

text \<open>The zeros after the last other digit behind the point, and a point left at the end.\<close>

definition removeTrailingZeros :: "string \<Rightarrow> string" where
  "removeTrailingZeros str =
     (if CHR ''.'' \<notin> set str then str
      else let frac = rev (takeWhile (\<lambda>c. c \<noteq> CHR ''.'') (rev str));
               s = (if list_all is_digit frac then strip_zeros str else str)
           in if s \<noteq> [] \<and> last s = CHR ''.'' then butlast s else s)"

definition formatNumberWithSuffix :: "rat \<Rightarrow> nat \<Rightarrow> nat \<Rightarrow> bool \<Rightarrow> string" where
  "formatNumberWithSuffix v large small abbr =
     (if abbr \<and> \<bar>v\<bar> \<ge> 1000 then removeTrailingZeros (to_fixed 1 (v / 1000)) @ ''k''
      else removeTrailingZeros (to_fixed (if \<bar>v\<bar> \<ge> 1 then large else small) v))"

definition adjustForMinimum :: "rat \<Rightarrow> nat \<Rightarrow> rat \<Rightarrow> rat" where
  "adjustForMinimum v digits minimum =
     (if v = 0 then v
      else let threshold = (if minimum > 0 then minimum else 1 / 10 ^ digits) in
        if 0 < \<bar>v\<bar> \<and> \<bar>v\<bar> < threshold then (if v > 0 then threshold else - threshold) else v)"

text \<open>What the code asks of \<^verbatim>\<open>Intl.NumberFormat\<close>: a currency code for the currency style, the compact
  notation, and the largest number of fraction digits.\<close>

record number_format =
  nf_currency :: "string option"
  nf_compact :: bool
  nf_max_digits :: nat

type_synonym intl = "number_format \<Rightarrow> rat \<Rightarrow> string"

definition formatCurrencyValue :: "intl \<Rightarrow> rat \<Rightarrow> resolved_options \<Rightarrow> DisplayMeta \<Rightarrow> string" where
  "formatCurrencyValue intl v options meta =
     (let digits = (if \<bar>v\<bar> \<ge> 1 then r_digitsLarge options else r_digitsSmall options);
          adjusted = adjustForMinimum v digits (r_minimumNonZero options);
          maxDigits = (if r_compact options then 1 else digits);
          plain = \<lparr>nf_currency = None, nf_compact = r_compact options, nf_max_digits = maxDigits\<rparr>
      in case meta of
           MetaTokens _ \<Rightarrow>
             if r_compact options then intl \<lparr>nf_currency = None, nf_compact = True, nf_max_digits = 1\<rparr> v
             else formatNumberWithSuffix v (r_digitsLarge options) (r_digitsSmall options) (r_abbreviate options)
         | MetaCurrency _ code _ \<Rightarrow>
             if \<not> r_showSymbol options then intl plain adjusted
             else intl \<lparr>nf_currency = Some code, nf_compact = r_compact options, nf_max_digits = maxDigits\<rparr> adjusted
         | MetaCustom symbol _ \<Rightarrow>
             if r_showSymbol options then symbol @ '' '' @ intl plain adjusted else intl plain adjusted)"

definition formatCurrencyFromUSD ::
  "intl \<Rightarrow> CurrencyConfig \<Rightarrow> rat option \<Rightarrow> CurrencyFormatOptions option \<Rightarrow> string" where
  "formatCurrencyFromUSD intl currency amountUSD options =
     (case amountUSD of
        None \<Rightarrow> ''-''
      | Some amount \<Rightarrow>
          let (config, meta) = getCurrencyDisplay currency; merged = mergeOptions options in
          if is_tokens meta then
            (let toks = amount * quotaPerUnit config in
             if r_compact merged then intl \<lparr>nf_currency = None, nf_compact = True, nf_max_digits = 1\<rparr> toks
             else formatNumberWithSuffix toks 0 (r_digitsSmall merged) (r_abbreviate merged))
          else formatCurrencyValue intl (amount * exchange_rate meta) merged meta)"

definition formatBillingCurrencyFromUSD ::
  "intl \<Rightarrow> CurrencyConfig \<Rightarrow> rat option \<Rightarrow> CurrencyFormatOptions option \<Rightarrow> string" where
  "formatBillingCurrencyFromUSD intl currency amountUSD options =
     (case amountUSD of
        None \<Rightarrow> ''-''
      | Some amount \<Rightarrow>
          let meta = getBillingDisplayMeta (fst (getCurrencyDisplay currency)) in
          formatCurrencyValue intl (amount * exchange_rate meta) (mergeOptions options) meta)"

definition formatQuotaWithCurrency ::
  "intl \<Rightarrow> CurrencyConfig \<Rightarrow> rat option \<Rightarrow> CurrencyFormatOptions option \<Rightarrow> string" where
  "formatQuotaWithCurrency intl currency quota options =
     (case quota of
        None \<Rightarrow> ''-''
      | Some q \<Rightarrow> formatCurrencyFromUSD intl currency
          (Some (q / quotaPerUnit (fst (getCurrencyDisplay currency)))) options)"

definition formatLocalCurrencyAmount ::
  "intl \<Rightarrow> CurrencyConfig \<Rightarrow> rat option \<Rightarrow> CurrencyFormatOptions option \<Rightarrow> string" where
  "formatLocalCurrencyAmount intl currency amount options =
     (case amount of
        None \<Rightarrow> ''-''
      | Some a \<Rightarrow> formatCurrencyValue intl a (mergeOptions options)
          (getBillingDisplayMeta (fst (getCurrencyDisplay currency))))"

section \<open>\<^verbatim>\<open>format.ts\<close>\<close>

definition quota_options :: "nat \<Rightarrow> nat \<Rightarrow> bool \<Rightarrow> CurrencyFormatOptions" where
  "quota_options large small abbr = \<lparr>digitsLarge = Some large, digitsSmall = Some small, abbreviate = Some abbr,
     minimumNonZero = None, compact = None, showSymbol = None\<rparr>"

definition formatQuota :: "intl \<Rightarrow> CurrencyConfig \<Rightarrow> rat \<Rightarrow> string" where
  "formatQuota intl currency quota = formatQuotaWithCurrency intl currency (Some quota) (Some (quota_options 2 4 True))"

definition formatLogQuota :: "intl \<Rightarrow> CurrencyConfig \<Rightarrow> rat \<Rightarrow> string" where
  "formatLogQuota intl currency quota =
     formatQuotaWithCurrency intl currency (Some quota) (Some (quota_options 4 6 False))"

text \<open>\<^verbatim>\<open>Math.round\<close>: to the nearest integer, a half upwards.\<close>

definition math_round :: "rat \<Rightarrow> int" where
  "math_round x = \<lfloor>x + 1 / 2\<rfloor>"

definition parseQuotaFromDollars :: "CurrencyConfig \<Rightarrow> js_number \<Rightarrow> int" where
  "parseQuotaFromDollars currency amount =
     (case amount of
        Fin a \<Rightarrow>
          let (config, meta) = getCurrencyDisplay currency in
          if is_tokens meta then math_round a
          else let usdAmount = (if exchange_rate meta > 0 then a / exchange_rate meta else a) in
            math_round (usdAmount * quotaPerUnit config)
      | _ \<Rightarrow> 0)"

definition quotaUnitsToDollars :: "CurrencyConfig \<Rightarrow> rat \<Rightarrow> rat" where
  "quotaUnitsToDollars currency quota =
     (let (config, meta) = getCurrencyDisplay currency in
      if is_tokens meta then quota else quota / quotaPerUnit config * exchange_rate meta)"

datatype time_unit = Seconds | Milliseconds

definition in_ms :: "time_unit \<Rightarrow> rat \<Rightarrow> rat" where
  "in_ms u t = (if u = Seconds then t * 1000 else t)"

text \<open>The date library formats a moment, given in milliseconds, after a pattern.\<close>

type_synonym dayjs = "rat \<Rightarrow> string \<Rightarrow> string"

definition formatTimestampToDate :: "dayjs \<Rightarrow> rat option \<Rightarrow> time_unit \<Rightarrow> string" where
  "formatTimestampToDate dayjs timestamp u =
     (case timestamp of
        None \<Rightarrow> ''-''
      | Some t \<Rightarrow> if t = 0 \<or> t = - 1 then ''-'' else dayjs (in_ms u t) ''YYYY-MM-DD HH:mm:ss'')"

definition formatTimestamp :: "dayjs \<Rightarrow> rat \<Rightarrow> string" where
  "formatTimestamp dayjs timestamp =
     (if timestamp = - 1 then ''Never'' else formatTimestampToDate dayjs (Some timestamp) Seconds)"

definition formatTimestampRelative ::
  "(int \<Rightarrow> string \<Rightarrow> string) \<Rightarrow> rat \<Rightarrow> rat option \<Rightarrow> time_unit \<Rightarrow> string" where
  "formatTimestampRelative relative now timestamp u =
     (case timestamp of
        None \<Rightarrow> ''-''
      | Some t \<Rightarrow>
          if t = 0 \<or> t = - 1 then ''-''
          else let diff = math_round ((in_ms u t - now) / 1000); a = \<bar>diff\<bar> in
            if a < 60 then relative diff ''second''
            else if a < 3600 then relative (math_round (of_int diff / 60)) ''minute''
            else if a < 86400 then relative (math_round (of_int diff / 3600)) ''hour''
            else if a < 2592000 then relative (math_round (of_int diff / 86400)) ''day''
            else if a < 31536000 then relative (math_round (of_int diff / 2592000)) ''month''
            else relative (math_round (of_int diff / 31536000)) ''year'')"

definition formatTokens :: "rat \<Rightarrow> string" where
  "formatTokens toks =
     (if toks = 0 then ''-''
      else if toks < 1000 then rat_text toks
      else if toks < 1000000 then to_fixed 1 (toks / 1000) @ ''K''
      else to_fixed 2 (toks / 1000000) @ ''M'')"

definition formatUseTime :: "rat \<Rightarrow> string" where
  "formatUseTime seconds =
     (if seconds < 60 then to_fixed 1 seconds @ ''s''
      else let minutes = \<lfloor>seconds / 60\<rfloor>; remaining = seconds - 60 * of_int \<lfloor>seconds / 60\<rfloor> in
        int_text minutes @ ''m '' @ to_fixed 0 remaining @ ''s'')"

definition formatTimestampForInput :: "dayjs \<Rightarrow> rat \<Rightarrow> string" where
  "formatTimestampForInput dayjs timestamp =
     (if timestamp = - 1 then [] else dayjs (timestamp * 1000) ''YYYY-MM-DDTHH:mm'')"

definition parseTimestampFromInput :: "(string \<Rightarrow> rat) \<Rightarrow> string \<Rightarrow> int" where
  "parseTimestampFromInput parse_date v = (if v = [] then - 1 else \<lfloor>parse_date v / 1000\<rfloor>)"

text \<open>The hash is a signed 32-bit integer; \<^verbatim>\<open>\<open>hash >> 8\<close>\<close> keeps its sign.\<close>

definition string_hash :: "string \<Rightarrow> 32 word" where
  "string_hash str = foldl (\<lambda>hash c. of_nat (of_char c) + (push_bit 5 hash - hash)) 0 str"

definition color_parts :: "string \<Rightarrow> int \<times> int \<times> int" where
  "color_parts str =
     (let h = sint (string_hash str)
      in (\<bar>h\<bar> mod 360, 65 + \<bar>h\<bar> mod 10, 55 + \<bar>h div 256\<bar> mod 10))"

definition stringToColor :: "string \<Rightarrow> string" where
  "stringToColor str =
     (if str = [] then ''gray''
      else case color_parts str of (hue, saturation, lightness) \<Rightarrow>
        ''hsl('' @ int_text hue @ '', '' @ int_text saturation @ ''%, '' @ int_text lightness @ ''%)'')"

section \<open>Lemmas\<close>

lemma math_round_int [simp]: "math_round (of_int i) = i"
  by (simp add: math_round_def floor_eq_iff)

text \<open>A value that is not zero is never displayed as zero.\<close>

lemma adjusted_visible:
  assumes "v \<noteq> 0"
  shows "adjustForMinimum v digits 0 \<noteq> 0 \<and> 1 / 10 ^ digits \<le> \<bar>adjustForMinimum v digits 0\<bar> \<and>
    (0 < adjustForMinimum v digits 0 \<longleftrightarrow> 0 < v)"
  using assms by (auto simp: adjustForMinimum_def Let_def)

text \<open>The colour of a string is a valid colour, whatever the wrap-around of the hash.\<close>

lemma color_bounds:
  "case color_parts str of (hue, saturation, lightness) \<Rightarrow>
     0 \<le> hue \<and> hue < 360 \<and> 65 \<le> saturation \<and> saturation < 75 \<and> 55 \<le> lightness \<and> lightness < 65"
proof -
  have "x mod 10 < 10 \<and> 0 \<le> x mod 10" for x :: int by simp
  moreover have "x mod 360 < 360 \<and> 0 \<le> x mod 360" for x :: int by simp
  ultimately show ?thesis by (auto simp: color_parts_def Let_def)
qed

text \<open>Rounding the remaining seconds separately from the minutes can show sixty seconds.\<close>

lemma sixty_seconds_shown: "formatUseTime (1197 / 10) = ''1m 60s''"
  by code_simp

text \<open>Thousands are shown with a suffix, without separators.\<close>

lemma tokens_abbreviated:
  "formatCurrencyFromUSD intl (DEFAULT_CURRENCY_CONFIG\<lparr>quotaDisplayType := TOKENS\<rparr>) (Some 10) None = ''5000k''"
proof -
  have f: "nat \<lfloor>(50001 / 10 - 1 / 10 :: rat) * 10 + 1 / 2\<rfloor> = 50000"
    using floor_unique [of 50000 "(50000 + 1 / 2 :: rat)"] by simp
  have "nat_digits 5000 = ''5000''" "nat_digits 0 = ''0''" by (simp_all add: nat_digits.simps digit_def char_of_eq_iff)
  with f have "to_fixed 1 5000 = ''5000.0''" by (simp add: to_fixed_def Let_def)
  then have "formatNumberWithSuffix 5000000 0 4 True = ''5000k''"
    by (simp add: formatNumberWithSuffix_def removeTrailingZeros_def strip_zeros_def is_digit_def)
  moreover have "getConfig (DEFAULT_CURRENCY_CONFIG\<lparr>quotaDisplayType := TOKENS\<rparr>) =
      DEFAULT_CURRENCY_CONFIG\<lparr>quotaDisplayType := TOKENS\<rparr>"
    by (simp add: getConfig_def DEFAULT_CURRENCY_CONFIG_def trim_id js_space_def)
  ultimately show ?thesis
    by (simp add: formatCurrencyFromUSD_def getCurrencyDisplay_def getDisplayMeta_def mergeOptions_def
        DEFAULT_FORMAT_OPTIONS_def DEFAULT_CURRENCY_CONFIG_def Let_def)
qed

end
