(* ===== verification/Channel_Utils.thy ===== *)
theory Channel_Utils
  imports Interfaces Currency Json_Indent "HOL-Library.Sublist"
begin

text \<open>
  The channels of the gateway and the table that lists them
  (\<^verbatim>\<open>web/src/features/channels/types.ts\<close>, \<^verbatim>\<open>lib/channel-utils.ts\<close>, \<^verbatim>\<open>lib/channel-field-update.ts\<close>): labels and
  badges, keys and their masked display, the rows that gather the channels of one tag, and the scheduler that delays
  the update of a number typed into a cell of the table.  The locale's collation, the relative time format and the
  translation are arguments.
\<close>

section \<open>Channels\<close>

record ChannelInfo =
  is_multi_key :: bool
  multi_key_size :: rat
  multi_key_status_list :: "(string \<times> rat) list option"
  multi_key_disabled_reason :: "(string \<times> string) list option"
  multi_key_disabled_time :: "(string \<times> rat) list option"
  multi_key_polling_index :: rat
  ci_multi_key_mode :: string

text \<open>\<open>None\<close> is \<^verbatim>\<open>null\<close> or a missing member.  The row of a tag has a text as its identifier and, at first, no
  status.\<close>

record Channel =
  ch_id :: js_value
  ch_type :: rat
  ch_key :: string
  ch_openai_organization :: "string option"
  ch_test_model :: "string option"
  ch_status :: "rat option"
  ch_name :: string
  ch_weight :: "rat option"
  ch_created_time :: rat
  ch_test_time :: rat
  ch_response_time :: rat
  ch_base_url :: "string option"
  ch_other :: string
  ch_balance :: rat
  ch_balance_updated_time :: rat
  ch_models :: string
  ch_group :: string
  ch_used_quota :: rat
  ch_model_mapping :: "string option"
  ch_status_code_mapping :: "string option"
  ch_priority :: "rat option"
  ch_auto_ban :: "rat option"
  ch_other_info :: string
  ch_tag :: "string option"
  ch_setting :: "string option"
  ch_param_override :: "string option"
  ch_header_override :: "string option"
  ch_remark :: string
  ch_max_input_tokens :: rat
  ch_channel_info :: ChannelInfo
  ch_settings :: string

record TagRow = Channel +
  tr_children :: "Channel list"

section \<open>Types and badges\<close>

definition CHANNEL_TYPES :: "(nat \<times> string) list" where
  "CHANNEL_TYPES = [
     (0, ''Unknown''), (1, ''OpenAI''), (2, ''MjProxy''), (3, ''Azure''), (4, ''Ollama''), (5, ''MjProxyPlus''),
     (7, ''OhMyGPT''), (8, ''Custom''), (14, ''Anthropic''), (15, ''Baidu''), (16, ''Zhipu''), (17, ''Ali''),
     (18, ''Xunfei''), (19, ''360''), (20, ''OpenRouter''), (22, ''FastGPT''), (23, ''Tencent''), (24, ''Gemini''),
     (25, ''Moonshot''), (26, ''Zhipu V4''), (27, ''Perplexity''), (31, ''LingYiWanWu''), (33, ''AWS''),
     (34, ''Cohere''), (35, ''MiniMax''), (36, ''SunoAPI''), (37, ''Dify''), (38, ''Jina''), (39, ''Cloudflare''),
     (40, ''SiliconFlow''), (41, ''Vertex AI''), (42, ''Mistral''), (43, ''DeepSeek''), (44, ''MokaAI''),
     (45, ''VolcEngine''), (46, ''Baidu V2''), (47, ''Xinference''), (48, ''xAI''), (49, ''Coze''), (50, ''Kling''),
     (51, ''Jimeng''), (52, ''Vidu''), (53, ''Submodel''), (54, ''DoubaoVideo''), (55, ''Sora''),
     (56, ''Replicate''), (57, ''ChatGPT Subscription (Codex)''), (58, ''Advanced Custom'')]"

definition CHANNEL_TYPE_DISPLAY_ORDER :: "nat list" where
  "CHANNEL_TYPE_DISPLAY_ORDER = [
     1, 14, 33, 24, 43, 3, 41, 48, 58, 42, 34, 20, 4, 40, 27, 25, 17, 26, 15, 46,
     23, 18, 45, 31, 35, 49, 19, 47, 37, 38, 39, 11, 8, 57, 22, 21, 44, 2, 5, 36,
     50, 51, 52, 53, 54, 55, 56]"

definition CHANNEL_TYPE_OPTIONS :: "(nat \<times> string) list" where
  "CHANNEL_TYPE_OPTIONS =
     (let ordered = List.map_filter (\<lambda>i. map_option (Pair i) (map_of CHANNEL_TYPES i)) CHANNEL_TYPE_DISPLAY_ORDER;
          seen = map fst ordered
      in ordered @ filter (\<lambda>(i, label). i \<noteq> 0 \<and> i \<notin> set seen) CHANNEL_TYPES)"

definition getChannelTypeLabel :: "nat \<Rightarrow> string" where
  "getChannelTypeLabel t = or_text (map_of CHANNEL_TYPES t) ''Unknown''"

definition TYPE_TO_ICON :: "(nat \<times> string) list" where
  "TYPE_TO_ICON = [
     (1, ''OpenAI''), (6, ''OpenAI''), (7, ''OpenAI''), (8, ''OpenAI''), (58, ''NewAPI''), (3, ''Azure''),
     (14, ''Claude''), (24, ''Gemini''), (11, ''Google''), (41, ''Gemini''), (33, ''Aws''), (39, ''Cloudflare''),
     (15, ''Baidu''), (46, ''Baidu''), (16, ''Zhipu''), (26, ''Zhipu''), (17, ''Qwen''), (18, ''Spark''),
     (23, ''Hunyuan''), (19, ''Ai360''), (25, ''Moonshot''), (31, ''Yi''), (35, ''Minimax''), (45, ''Volcengine''),
     (4, ''Ollama''), (27, ''Perplexity''), (34, ''Cohere''), (42, ''Mistral''), (43, ''DeepSeek''), (48, ''XAI''),
     (49, ''Coze''), (40, ''SiliconCloud''), (44, ''OpenAI''), (20, ''OpenRouter''), (2, ''Midjourney''),
     (5, ''Midjourney''), (50, ''Kling''), (51, ''Jimeng''), (52, ''Vidu''), (36, ''Suno''), (55, ''OpenAI''),
     (54, ''Doubao''), (56, ''Replicate''), (37, ''Dify''), (38, ''Jina''), (22, ''FastGPT''), (47, ''Xinference''),
     (53, ''OpenAI''), (10, ''OpenAI''), (21, ''OpenAI''), (12, ''OpenAI''), (13, ''OpenAI''), (9, ''OpenAI'')]"

definition getChannelTypeIcon :: "nat \<Rightarrow> string" where
  "getChannelTypeIcon t = or_text (map_of TYPE_TO_ICON t) ''OpenAI''"

text \<open>A badge is a variant and a label.\<close>

definition CHANNEL_STATUS_CONFIG :: "(rat \<times> string \<times> string) list" where
  "CHANNEL_STATUS_CONFIG = [
     (0, ''neutral'', ''Unknown''), (1, ''success'', ''Enabled''), (2, ''danger'', ''Disabled''),
     (3, ''warning'', ''Auto Disabled'')]"

definition MULTI_KEY_STATUS_CONFIG :: "(rat \<times> string \<times> string) list" where
  "MULTI_KEY_STATUS_CONFIG = [
     (1, ''success'', ''Enabled''), (2, ''neutral'', ''Manual Disabled''), (3, ''danger'', ''Auto Disabled'')]"

definition getChannelStatusBadge :: "rat \<Rightarrow> string \<times> string" where
  "getChannelStatusBadge status =
     (case map_of CHANNEL_STATUS_CONFIG status of Some b \<Rightarrow> b | None \<Rightarrow> (''neutral'', ''Unknown''))"

definition getMultiKeyStatusBadge :: "rat \<Rightarrow> string \<times> string" where
  "getMultiKeyStatusBadge status =
     (case map_of MULTI_KEY_STATUS_CONFIG status of Some b \<Rightarrow> b | None \<Rightarrow> (''success'', ''Enabled''))"

definition getMultiKeyStatusConfig :: "rat \<Rightarrow> string \<times> string" where
  "getMultiKeyStatusConfig status =
     (case map_of MULTI_KEY_STATUS_CONFIG status of Some b \<Rightarrow> b | None \<Rightarrow> (''neutral'', ''Unknown''))"

definition isChannelEnabled :: "'a Channel_scheme \<Rightarrow> bool" where
  "isChannelEnabled channel \<longleftrightarrow> ch_status channel = Some 1"

definition isMultiKeyChannel :: "'a Channel_scheme \<Rightarrow> bool" where
  "isMultiKeyChannel channel \<longleftrightarrow> is_multi_key (ch_channel_info channel)"

section \<open>Keys\<close>

definition key_lines :: "string \<Rightarrow> string list" where
  "key_lines key = filter (\<lambda>k. trim k \<noteq> []) (split_on (CHR 10) key)"

definition last_chars :: "nat \<Rightarrow> string \<Rightarrow> string" where
  "last_chars n s = drop (length s - n) s"

definition formatChannelKey :: "string \<Rightarrow> bool \<Rightarrow> string" where
  "formatChannelKey key isMultiKey =
     (if key = [] then []
      else if isMultiKey then nat_digits (length (key_lines key)) @ '' keys''
      else if length key \<le> 16 then take 4 key @ ''...'' @ last_chars 4 key
      else take 8 key @ ''...'' @ last_chars 8 key)"

definition formatKeyPreview :: "string \<Rightarrow> nat \<Rightarrow> string" where
  "formatKeyPreview key maxLength =
     (if key = [] then [] else if length key \<le> maxLength then key else take maxLength key @ ''...'')"

definition countKeys :: "string \<Rightarrow> nat" where
  "countKeys key = (if key = [] then 0 else length (key_lines key))"

record dedup_result =
  deduplicatedText :: string
  beforeCount :: nat
  afterCount :: nat
  removedCount :: int

definition add_key_line :: "string \<Rightarrow> string list \<Rightarrow> string list" where
  "add_key_line line keys =
     (let trimmedLine = trim line in
      if trimmedLine \<noteq> [] \<and> trimmedLine \<notin> set keys then keys @ [trimmedLine] else keys)"

definition deduplicateKeys :: "string \<Rightarrow> dedup_result" where
  "deduplicateKeys keysText =
     (if trim keysText = [] then \<lparr>deduplicatedText = [], beforeCount = 0, afterCount = 0, removedCount = 0\<rparr>
      else let keyLines = split_on (CHR 10) keysText;
               deduplicatedKeys = fold add_key_line keyLines []
           in \<lparr>deduplicatedText = join [CHR 10] deduplicatedKeys, beforeCount = length keyLines,
               afterCount = length deduplicatedKeys,
               removedCount = int (length keyLines) - int (length deduplicatedKeys)\<rparr>)"

text \<open>What the button of the drawer does with the text of the key field: the message shown, and the new text.\<close>

datatype dedup_notice = EnterKeysFirst | NoDuplicates | Removed int nat nat

definition handleDeduplicateKeys :: "string \<Rightarrow> dedup_notice \<times> string" where
  "handleDeduplicateKeys currentKey =
     (if trim currentKey = [] then (EnterKeysFirst, currentKey)
      else let result = deduplicateKeys currentKey in
        if removedCount result = 0 then (NoDuplicates, currentKey)
        else (Removed (removedCount result) (beforeCount result) (afterCount result), deduplicatedText result))"

definition TYPE_TO_KEY_PROMPT :: "(nat \<times> string) list" where
  "TYPE_TO_KEY_PROMPT = [
     (15, ''Format: APIKey|SecretKey''), (18, ''Format: APPID|APISecret|APIKey''),
     (22, ''Format: APIKey-AppId, e.g., fastgpt-0sp2gtvfdgyi4k30jwlgwf1i-64f335d84283f05518e9e041''),
     (23, ''Format: TokenHub API Key, or legacy AppId|SecretId|SecretKey''), (33, ''Format: Ak|Sk|Region''),
     (50, ''Format: AccessKey|SecretKey (or just ApiKey if upstream is New API)''),
     (51, ''Format: Access Key ID|Secret Access Key''),
     (57, ''Paste Codex OAuth JSON credential (access_token / refresh_token / account_id)'')]"

definition getKeyPromptForType :: "nat \<Rightarrow> string" where
  "getKeyPromptForType t = or_text (map_of TYPE_TO_KEY_PROMPT t) ''Enter API key for this channel''"

section \<open>Lists and settings\<close>

definition comma_items :: "string \<Rightarrow> string list" where
  "comma_items s = filter (\<lambda>m. m \<noteq> []) (map trim (split_on (CHR '','') s))"

definition parseModelsList :: "string \<Rightarrow> string list" where
  "parseModelsList models = (if models = [] then [] else comma_items models)"

definition group_order :: "(string \<Rightarrow> string \<Rightarrow> rat) \<Rightarrow> string \<Rightarrow> string \<Rightarrow> rat" where
  "group_order localeCompare a b =
     (if a = ''default'' then -1 else if b = ''default'' then 1 else localeCompare a b)"

definition parseGroupsList :: "(string \<Rightarrow> string \<Rightarrow> rat) \<Rightarrow> string \<Rightarrow> string list" where
  "parseGroupsList localeCompare groups =
     (if groups = [] then [] else js_sort (group_order localeCompare) (comma_items groups))"

definition formatModelsString :: "string list \<Rightarrow> string" where
  "formatModelsString models = join '','' models"

definition parseChannelSettings :: "string option \<Rightarrow> js_value" where
  "parseChannelSettings settingStr =
     (if or_text settingStr [] = [] then JObject []
      else case json_parse (or_text settingStr []) of Some v \<Rightarrow> v | None \<Rightarrow> JObject [])"

definition parseChannelOtherSettings :: "string option \<Rightarrow> js_value" where
  "parseChannelOtherSettings settingsStr =
     (if or_text settingsStr [] = [] \<or> settingsStr = Some ''{}'' then JObject []
      else case json_parse (or_text settingsStr []) of Some v \<Rightarrow> v | None \<Rightarrow> JObject [])"

definition validateChannelSettings :: "string \<Rightarrow> bool" where
  "validateChannelSettings settings \<longleftrightarrow> trim settings = [] \<or> json_parse settings \<noteq> None"

definition validateChannelName :: "string \<Rightarrow> bool" where "validateChannelName name \<longleftrightarrow> 0 < length (trim name)"
definition validateApiKey :: "string \<Rightarrow> bool" where "validateApiKey key \<longleftrightarrow> 0 < length (trim key)"
definition validateModels :: "string \<Rightarrow> bool" where "validateModels models \<longleftrightarrow> 0 < length (parseModelsList models)"
definition validateGroups :: "(string \<Rightarrow> string \<Rightarrow> rat) \<Rightarrow> string \<Rightarrow> bool" where
  "validateGroups localeCompare groups \<longleftrightarrow> 0 < length (parseGroupsList localeCompare groups)"

section \<open>Amounts and times\<close>

definition formatBalance :: "intl \<Rightarrow> CurrencyConfig \<Rightarrow> rat option \<Rightarrow> string" where
  "formatBalance intl currency balance =
     (case balance of None \<Rightarrow> ''-''
      | Some b \<Rightarrow> formatCurrencyFromUSD intl currency (Some b) (Some (quota_options 2 4 False)))"

definition getBalanceVariant :: "rat \<Rightarrow> string" where
  "getBalanceVariant balance =
     (if balance = 0 then ''neutral'' else if balance < 1 then ''danger'' else if balance < 10 then ''warning'' else ''success'')"

text \<open>The translation takes the number or text it fills in, \<^verbatim>\<open>undefined\<close> where there is none.\<close>

definition formatResponseTime :: "rat \<Rightarrow> (string \<Rightarrow> js_value \<Rightarrow> string) option \<Rightarrow> string" where
  "formatResponseTime timeMs t =
     (if timeMs = 0 then (case t of Some t \<Rightarrow> t ''Not tested'' JUndefined | None \<Rightarrow> ''Not tested'')
      else if timeMs < 1000 then
        (case t of Some t \<Rightarrow> t ''{{value}}ms'' (JNumber (Fin timeMs)) | None \<Rightarrow> number_text (Fin timeMs) @ ''ms'')
      else let secs = to_fixed 2 (timeMs / 1000) in
        (case t of Some t \<Rightarrow> t ''{{value}}s'' (JString secs) | None \<Rightarrow> secs @ ''s''))"

definition getResponseTimeConfig :: "rat \<Rightarrow> string \<times> string" where
  "getResponseTimeConfig timeMs =
     (if timeMs = 0 then (''neutral'', ''Not tested'')
      else if timeMs \<le> 500 then (''success'', ''Excellent'')
      else if timeMs \<le> 1000 then (''success'', ''Good'')
      else if timeMs \<le> 2000 then (''warning'', ''Fair'')
      else (''danger'', ''Poor''))"

text \<open>The number and the unit that \<^verbatim>\<open>Intl.RelativeTimeFormat\<close> is given; \<open>now\<close> is \<^verbatim>\<open>Date.now()\<close>.\<close>

definition relative_unit :: "rat \<Rightarrow> int \<times> string" where
  "relative_unit diffSec =
     (let absSec = \<bar>diffSec\<bar>; MINUTE = 60; HOUR = 60 * MINUTE; DAY = 24 * HOUR; MONTH = 30 * DAY; YEAR = 365 * DAY in
      if absSec < MINUTE then (math_round diffSec, ''second'')
      else if absSec < HOUR then (math_round (diffSec / MINUTE), ''minute'')
      else if absSec < DAY then (math_round (diffSec / HOUR), ''hour'')
      else if absSec < MONTH then (math_round (diffSec / DAY), ''day'')
      else if absSec < YEAR then (math_round (diffSec / MONTH), ''month'')
      else (math_round (diffSec / YEAR), ''year''))"

definition getPriorityDisplay :: "rat option \<Rightarrow> string" where
  "getPriorityDisplay priority = (case priority of None \<Rightarrow> ''0'' | Some p \<Rightarrow> number_text (Fin p))"

section \<open>Channels that need attention\<close>

definition all_keys_disabled :: "'a Channel_scheme \<Rightarrow> bool" where
  "all_keys_disabled channel \<longleftrightarrow>
     (let info = ch_channel_info channel in
      is_multi_key info \<and>
      (case multi_key_status_list info of None \<Rightarrow> False | Some xs \<Rightarrow> multi_key_size info \<le> of_nat (length xs)))"

definition channelNeedsAttention :: "'a Channel_scheme \<Rightarrow> bool" where
  "channelNeedsAttention channel \<longleftrightarrow>
     (if ch_status channel = Some 3 then True
      else if 0 < ch_balance channel \<and> ch_balance channel < 1 then True
      else if all_keys_disabled channel then True
      else False)"

definition getAttentionReason :: "'a Channel_scheme \<Rightarrow> string option" where
  "getAttentionReason channel =
     (if ch_status channel = Some 3 then Some ''Auto-disabled''
      else if 0 < ch_balance channel \<and> ch_balance channel < 1 then Some ''Low balance''
      else if all_keys_disabled channel then Some ''All keys disabled''
      else None)"

section \<open>Rows of tags\<close>

datatype table_row = ChannelRow Channel | AggregateRow TagRow

definition isTagAggregateRow :: "table_row \<Rightarrow> bool" where
  "isTagAggregateRow row = (case row of AggregateRow _ \<Rightarrow> True | ChannelRow _ \<Rightarrow> False)"

definition getChannelTableRowId :: "table_row \<Rightarrow> string" where
  "getChannelTableRowId row =
     (case row of AggregateRow r \<Rightarrow> ''tag:'' @ or_text (ch_tag r) [] | ChannelRow c \<Rightarrow> ''channel:'' @ to_text (ch_id c))"

definition newTagRow :: "Channel \<Rightarrow> string \<Rightarrow> TagRow" where
  "newTagRow channel tag =
     (Channel.extend channel (TagRow.fields []))
       \<lparr>ch_key := tag, ch_id := JString tag, ch_tag := Some tag, ch_name := tag, ch_type := 0, ch_status := None,
        ch_group := [], ch_used_quota := 0, ch_response_time := 0, ch_priority := Some (-1), ch_weight := Some (-1),
        ch_balance := 0, ch_test_time := 0, ch_created_time := 0, ch_balance_updated_time := 0, ch_models := []\<rparr>"

definition same_or_null :: "rat option \<Rightarrow> rat option \<Rightarrow> rat option" where
  "same_or_null old new = (if old = Some (-1) then new else if old \<noteq> new then None else old)"

definition nonempty_parts :: "string \<Rightarrow> string list" where
  "nonempty_parts s = filter (\<lambda>g. g \<noteq> []) (split_on (CHR '','') s)"

definition merge_groups :: "string \<Rightarrow> string \<Rightarrow> string" where
  "merge_groups old new =
     (if old = [] then new
      else let existingGroups = set (nonempty_parts old)
           in fold (\<lambda>g acc. if g \<notin> existingGroups then acc @ '','' @ g else acc) (nonempty_parts new) old)"

text \<open>One channel joins the row of its tag; the running mean of the response times is computed exactly.\<close>

definition absorb :: "Channel \<Rightarrow> TagRow \<Rightarrow> TagRow" where
  "absorb channel row =
     (let kids = tr_children row @ [channel]; childCount = of_nat (length kids) in
      row\<lparr>tr_children := kids,
          ch_used_quota := ch_used_quota row + ch_used_quota channel,
          ch_response_time := (ch_response_time row * (childCount - 1) + ch_response_time channel) / childCount,
          ch_priority := same_or_null (ch_priority row) (ch_priority channel),
          ch_weight := same_or_null (ch_weight row) (ch_weight channel),
          ch_group := merge_groups (ch_group row) (ch_group channel),
          ch_status := (if ch_status channel = Some 1 then Some 1
                        else if ch_status row = None then ch_status channel else ch_status row)\<rparr>)"

text \<open>The rows by their tags, in the order of their creation: the map and the result list share the rows.\<close>

definition row_tag :: "Channel \<Rightarrow> string" where
  "row_tag channel = or_text (ch_tag channel) []"

definition aggregate_step :: "Channel \<Rightarrow> (string \<times> TagRow) list \<Rightarrow> (string \<times> TagRow) list" where
  "aggregate_step channel rows =
     (let tag = row_tag channel;
          rows' = (if map_of rows tag = None then rows @ [(tag, newTagRow channel tag)] else rows)
      in map (\<lambda>(t, r). (t, if t = tag then absorb channel r else r)) rows')"

definition aggregateChannelsByTag :: "Channel list \<Rightarrow> TagRow list" where
  "aggregateChannelsByTag channels = map snd (fold aggregate_step channels [])"

section \<open>Delayed updates\<close>

text \<open>The scheduler of one cell.  The browser's timers are part of the state: the identifiers of those still to
  fire, and the next identifier.  \<open>sent\<close> lists the values that were passed on, in order.\<close>

record scheduler =
  timeoutId :: "nat option"
  pendingValue :: "rat option"
  live_timers :: "nat list"
  next_timer :: nat
  sent :: "rat list"

definition createChannelFieldUpdateScheduler :: scheduler where
  "createChannelFieldUpdateScheduler =
     \<lparr>timeoutId = None, pendingValue = None, live_timers = [], next_timer = 1, sent = []\<rparr>"

definition clearPendingTimer :: "scheduler \<Rightarrow> scheduler" where
  "clearPendingTimer s =
     (case timeoutId s of
        None \<Rightarrow> s
      | Some i \<Rightarrow> s\<lparr>live_timers := removeAll i (live_timers s), timeoutId := None\<rparr>)"

definition commitPendingValue :: "scheduler \<Rightarrow> scheduler" where
  "commitPendingValue s =
     (let s' = clearPendingTimer s in
      case pendingValue s' of
        None \<Rightarrow> s'
      | Some v \<Rightarrow> s'\<lparr>pendingValue := None, sent := sent s' @ [v]\<rparr>)"

definition schedule :: "rat \<Rightarrow> scheduler \<Rightarrow> scheduler" where
  "schedule v s =
     (let s' = clearPendingTimer s in
      s'\<lparr>pendingValue := Some v, timeoutId := Some (next_timer s'),
         live_timers := live_timers s' @ [next_timer s'], next_timer := next_timer s' + 1\<rparr>)"

datatype scheduler_event = Schedule rat | Flush | Fire nat

text \<open>A timer fires only while it is set, and it is then gone.\<close>

fun scheduler_step :: "scheduler_event \<Rightarrow> scheduler \<Rightarrow> scheduler" where
  "scheduler_step (Schedule v) s = schedule v s"
| "scheduler_step Flush s = commitPendingValue s"
| "scheduler_step (Fire i) s =
     (if i \<in> set (live_timers s) then commitPendingValue (s\<lparr>live_timers := removeAll i (live_timers s)\<rparr>) else s)"


section \<open>Facts about keys\<close>

lemma uniq_snoc: "uniq (xs @ [x]) = (if x \<in> set xs then uniq xs else uniq xs @ [x])"
  by (induction xs) auto

lemma nonblank_mem: "x \<in> set xs \<Longrightarrow> \<not> js_space x \<Longrightarrow> trim xs \<noteq> []"
  by (auto simp: trim_eq_Nil_iff list_all_iff)

lemma add_key_lines: "fold add_key_line lines [] = uniq (filter (\<lambda>k. k \<noteq> []) (map trim lines))"
  by (induction lines rule: rev_induct) (simp_all add: add_key_line_def uniq_snoc Let_def)

lemma letters_join: "set (join sep xs) \<subseteq> set sep \<union> (\<Union>x \<in> set xs. set x)"
  by (induction sep xs rule: join.induct) auto

lemma member_join: "x \<in> set xs \<Longrightarrow> set x \<subseteq> set (join sep xs)"
  by (induction sep xs rule: join.induct) auto

text \<open>The lines that hold a key, trimmed.\<close>

definition entered_keys :: "string \<Rightarrow> string list" where
  "entered_keys keysText = filter (\<lambda>k. k \<noteq> []) (map trim (split_on (CHR 10) keysText))"

lemma entered_keys_line_free: "k \<in> set (entered_keys s) \<Longrightarrow> CHR 10 \<notin> set k"
  using set_trim split_on_sep_free by (fastforce simp: entered_keys_def)

lemma entered_keys_trimmed: "k \<in> set (entered_keys s) \<Longrightarrow> trim k = k \<and> k \<noteq> []"
  by (auto simp: entered_keys_def)

lemma entered_keys_exist: "trim s \<noteq> [] \<Longrightarrow> entered_keys s \<noteq> []"
proof -
  assume "trim s \<noteq> []"
  then obtain c where c: "c \<in> set s" "\<not> js_space c" by (auto simp: trim_eq_Nil_iff list_all_iff)
  have "js_space (CHR 10)" by (simp add: js_space_def)
  with c have "c \<noteq> CHR 10" by auto
  moreover have "set s \<subseteq> set [CHR 10] \<union> (\<Union>x \<in> set (split_on (CHR 10) s). set x)"
    using letters_join [of "[CHR 10]" "split_on (CHR 10) s"] by (simp add: join_split_on)
  ultimately obtain l where l: "l \<in> set (split_on (CHR 10) s)" "c \<in> set l" using c(1) by auto
  from l(2) c(2) have "trim l \<noteq> []" by (rule nonblank_mem)
  with l(1) show ?thesis by (auto simp: entered_keys_def filter_empty_conv)
qed

lemma kept_keys_lines:
  assumes "trim s \<noteq> []"
  shows "split_on (CHR 10) (join [CHR 10] (uniq (entered_keys s))) = uniq (entered_keys s)"
  using assms by (intro split_on_join) (simp_all add: entered_keys_exist entered_keys_line_free)

lemma kept_keys_not_blank:
  assumes "trim s \<noteq> []"
  shows "trim (join [CHR 10] (uniq (entered_keys s))) \<noteq> []"
proof -
  from entered_keys_exist [OF assms] obtain k where k: "k \<in> set (entered_keys s)" by (cases "entered_keys s") auto
  with entered_keys_trimmed have "trim k = k" "k \<noteq> []" by auto
  then obtain c where "c \<in> set k" "\<not> js_space c" using trim_bounds hd_in_set by (metis trim_eq_Nil_iff list_all_iff)
  moreover have "set k \<subseteq> set (join [CHR 10] (uniq (entered_keys s)))" using k by (intro member_join) simp
  ultimately show ?thesis by (meson nonblank_mem subsetD)
qed

lemma kept_keys_again:
  assumes "trim s \<noteq> []"
  shows "entered_keys (join [CHR 10] (uniq (entered_keys s))) = uniq (entered_keys s)"
proof -
  have "map trim (uniq (entered_keys s)) = uniq (entered_keys s)"
    by (rule map_idI) (simp add: entered_keys_trimmed)
  moreover have "filter (\<lambda>k. k \<noteq> []) (uniq (entered_keys s)) = uniq (entered_keys s)"
    by (simp add: filter_id_conv entered_keys_trimmed)
  ultimately show ?thesis by (simp add: entered_keys_def [of "join _ _"] kept_keys_lines [OF assms])
qed

lemma dedup_eq:
  "trim s \<noteq> [] \<Longrightarrow> deduplicateKeys s =
     \<lparr>deduplicatedText = join [CHR 10] (uniq (entered_keys s)), beforeCount = length (split_on (CHR 10) s),
      afterCount = length (uniq (entered_keys s)),
      removedCount = int (length (split_on (CHR 10) s)) - int (length (uniq (entered_keys s)))\<rparr>"
  by (simp add: deduplicateKeys_def add_key_lines entered_keys_def Let_def)

text \<open>For a key field that is not blank, the lines left by the deduplication are the keys entered, trimmed and
  each once, in the order of their first occurrence; doing it again changes nothing and removes nothing.  The number
  of duplicates reported as removed is the number of repeated keys plus the number of blank lines.\<close>

lemma deduplicated_keys:
  assumes "trim s \<noteq> []"
  shows "split_on (CHR 10) (deduplicatedText (deduplicateKeys s)) = uniq (entered_keys s) \<and>
    removedCount (deduplicateKeys s) =
      int (length (entered_keys s) - length (uniq (entered_keys s))) +
      int (length (filter (\<lambda>l. trim l = []) (split_on (CHR 10) s))) \<and>
    deduplicateKeys (deduplicatedText (deduplicateKeys s)) =
      \<lparr>deduplicatedText = deduplicatedText (deduplicateKeys s), beforeCount = afterCount (deduplicateKeys s),
       afterCount = afterCount (deduplicateKeys s), removedCount = 0\<rparr>"
proof -
  have "length (split_on (CHR 10) s) = length (entered_keys s) + length (filter (\<lambda>l. trim l = []) (split_on (CHR 10) s))"
    using sum_length_filter_compl [of "\<lambda>l. trim l \<noteq> []" "split_on (CHR 10) s"]
    by (simp add: entered_keys_def filter_map comp_def)
  moreover have "length (uniq (entered_keys s)) \<le> length (entered_keys s)" by (rule length_uniq_le)
  ultimately show ?thesis
    by (simp add: dedup_eq [OF assms] dedup_eq [OF kept_keys_not_blank [OF assms]] kept_keys_lines [OF assms]
        kept_keys_again [OF assms] of_nat_diff)
qed

lemma deduplicated_keys_witness:
  "trim ''a'' \<noteq> [] \<and> removedCount (deduplicateKeys [CHR ''a'', CHR 10, CHR 10]) = 2 \<and>
   uniq (entered_keys [CHR ''a'', CHR 10, CHR 10]) = [''a'']"
proof -
  have t: "trim [CHR ''a'', CHR 10, CHR 10] \<noteq> []" by code_simp
  have e: "entered_keys [CHR ''a'', CHR 10, CHR 10] = [''a'']"
    "length (filter (\<lambda>l. trim l = []) (split_on (CHR 10) [CHR ''a'', CHR 10, CHR 10])) = 2" by code_simp+
  have "trim ''a'' \<noteq> []" by code_simp
  with deduplicated_keys [OF t] e show ?thesis by simp
qed

text \<open>Masking: every character of a key of four to eight characters is shown, and of one with seventeen only the
  middle character is hidden.\<close>

lemma short_key_shown:
  assumes "4 \<le> length key" and "length key \<le> 8"
  shows "formatChannelKey key False = take 4 key @ ''...'' @ last_chars 4 key"
    and "take 4 key @ drop (8 - length key) (last_chars 4 key) = key"
  using assms by (auto simp: formatChannelKey_def last_chars_def)

lemma seventeen_shown:
  "length key = 17 \<Longrightarrow> formatChannelKey key False = take 8 key @ ''...'' @ drop 9 key"
  by (auto simp: formatChannelKey_def last_chars_def)

section \<open>Facts about rows\<close>

lemma split_on_append_sep: "split_on c (s @ c # t) = split_on c s @ split_on c t"
proof (induction s)
  case Nil
  then show ?case by simp
next
  case (Cons a s)
  then show ?case by (cases "split_on c s") (auto split: list.splits)
qed

lemma parts_snoc:
  "g \<in> set (nonempty_parts s) \<Longrightarrow> nonempty_parts (acc @ CHR '','' # g) = nonempty_parts acc @ [g]"
  by (auto simp: nonempty_parts_def split_on_append_sep split_on_none dest: split_on_sep_free)

lemma merged_parts: "set (nonempty_parts (merge_groups old new)) = set (nonempty_parts old) \<union> set (nonempty_parts new)"
proof -
  have "set (nonempty_parts (fold (\<lambda>g acc. if g \<notin> E then acc @ '','' @ g else acc) gs acc)) =
      set (nonempty_parts acc) \<union> {g \<in> set gs. g \<notin> E}" if "set gs \<subseteq> set (nonempty_parts new)" for E gs acc
    using that
  proof (induction gs arbitrary: acc)
    case (Cons g gs)
    then show ?case using parts_snoc [of g new acc] by auto
  qed simp
  from this [of "nonempty_parts new" "set (nonempty_parts old)" old] show ?thesis
    by (auto simp: merge_groups_def Let_def nonempty_parts_def)
qed

text \<open>What a row shows of its channels.\<close>

definition common :: "('a \<Rightarrow> rat option) \<Rightarrow> 'a list \<Rightarrow> rat option" where
  "common f cs = (if list_all (\<lambda>c. f c = f (hd cs)) cs then f (hd cs) else None)"

definition sums_up :: "Channel list \<Rightarrow> TagRow \<Rightarrow> bool" where
  "sums_up kids row \<longleftrightarrow>
     tr_children row = kids \<and>
     ch_used_quota row = sum_list (map ch_used_quota kids) \<and>
     ch_response_time row = sum_list (map ch_response_time kids) / of_nat (length kids) \<and>
     set (nonempty_parts (ch_group row)) = (\<Union>c \<in> set kids. set (nonempty_parts (ch_group c))) \<and>
     ch_status row = (if list_ex isChannelEnabled kids then Some 1 else ch_status (hd kids)) \<and>
     (list_all (\<lambda>c. ch_priority c \<noteq> Some (-1)) kids \<longrightarrow> ch_priority row = common ch_priority kids) \<and>
     (list_all (\<lambda>c. ch_weight c \<noteq> Some (-1)) kids \<longrightarrow> ch_weight row = common ch_weight kids)"

lemma common_snoc:
  "cs \<noteq> [] \<Longrightarrow> list_all (\<lambda>c. f c \<noteq> Some (-1)) (cs @ [c]) \<Longrightarrow> common f (cs @ [c]) = same_or_null (common f cs) (f c)"
  by (cases cs) (auto simp: common_def same_or_null_def list_all_iff)

lemma sums_up_new:
  "ch_status c \<noteq> None \<Longrightarrow> sums_up [c] (absorb c (newTagRow c t))"
  by (auto simp: sums_up_def absorb_def newTagRow_def Channel.extend_def TagRow.fields_def Let_def same_or_null_def common_def merge_groups_def
      isChannelEnabled_def)

lemma sums_up_absorb:
  assumes "sums_up kids r" and "kids \<noteq> []" and "ch_status (hd kids) \<noteq> None" 
  shows "sums_up (kids @ [c]) (absorb c r)"
proof -
  define n :: rat where "n = of_nat (length kids)"
  have n: "n \<noteq> 0" using assms(2) by (simp add: n_def)
  have rt: "ch_response_time r * n = sum_list (map ch_response_time kids)" using assms(1) n by (simp add: sums_up_def n_def)
  have "ch_response_time (absorb c r) = sum_list (map ch_response_time (kids @ [c])) / of_nat (length (kids @ [c]))"
    using assms(1) rt by (simp add: absorb_def Let_def sums_up_def n_def [symmetric] add.commute)
  moreover have "ch_priority (absorb c r) = common ch_priority (kids @ [c])"
    if "list_all (\<lambda>c. ch_priority c \<noteq> Some (-1)) (kids @ [c])"
    using assms(1,2) that by (subst common_snoc) (auto simp: sums_up_def absorb_def Let_def)
  moreover have "ch_weight (absorb c r) = common ch_weight (kids @ [c])"
    if "list_all (\<lambda>c. ch_weight c \<noteq> Some (-1)) (kids @ [c])"
    using assms(1,2) that by (subst common_snoc) (auto simp: sums_up_def absorb_def Let_def)
  moreover have "ch_status (absorb c r) = (if list_ex isChannelEnabled (kids @ [c]) then Some 1 else ch_status (hd (kids @ [c])))"
    using assms by (auto simp: sums_up_def absorb_def Let_def isChannelEnabled_def)
  ultimately show ?thesis
    using assms(1,2) by (auto simp: sums_up_def absorb_def Let_def merged_parts)
qed

text \<open>The rows after some channels.\<close>

definition rows_of :: "Channel list \<Rightarrow> (string \<times> TagRow) list \<Rightarrow> bool" where
  "rows_of cs rows \<longleftrightarrow> map fst rows = uniq (map row_tag cs) \<and>
     (\<forall>(t, r) \<in> set rows. ch_tag r = Some t \<and> sums_up (filter (\<lambda>c. row_tag c = t) cs) r)"

lemma tag_absorb [simp]: "ch_tag (absorb c r) = ch_tag r" "ch_tag (newTagRow c t) = Some t"
  by (simp_all add: absorb_def newTagRow_def Let_def)

lemma rows_step:
  assumes rows: "rows_of cs rows" and st: "\<forall>c \<in> set (cs @ [c]). ch_status c \<noteq> None"
  shows "rows_of (cs @ [c]) (aggregate_step c rows)"
proof -
  have keys: "fst ` set rows = row_tag ` set cs" using rows by (metis rows_of_def set_map set_uniq)
  have old: "ch_tag r = Some t \<and> sums_up (filter (\<lambda>c. row_tag c = t) cs) r" if "(t, r) \<in> set rows" for t r
    using rows that by (auto simp: rows_of_def)
  have seen: "map_of rows (row_tag c) = None \<longleftrightarrow> row_tag c \<notin> row_tag ` set cs"
    using keys by (simp add: map_of_eq_None_iff)
  have kids: "filter (\<lambda>c. row_tag c = t) cs \<noteq> []" if "(t, r) \<in> set rows" for t r
  proof -
    from that have "t \<in> row_tag ` set cs" using keys by force
    then show ?thesis by (auto simp: filter_empty_conv)
  qed
  have grown: "sums_up (filter (\<lambda>c. row_tag c = t) cs @ [c]) (absorb c r)" if "(t, r) \<in> set rows" for t r
  proof (rule sums_up_absorb)
    show "sums_up (filter (\<lambda>c. row_tag c = t) cs) r" using old [OF that] by simp
    show ne: "filter (\<lambda>c. row_tag c = t) cs \<noteq> []" by (rule kids [OF that])
    then have "hd (filter (\<lambda>c. row_tag c = t) cs) \<in> set cs" using hd_in_set [OF ne] by simp
    then show "ch_status (hd (filter (\<lambda>c. row_tag c = t) cs)) \<noteq> None" using st by simp
  qed
  have fresh: "sums_up (filter (\<lambda>d. row_tag d = row_tag c) cs @ [c]) (absorb c (newTagRow c (row_tag c)))"
    if "row_tag c \<notin> row_tag ` set cs"
  proof -
    have "filter (\<lambda>d. row_tag d = row_tag c) cs = []" using that by (auto simp: filter_empty_conv image_iff)
    then show ?thesis using sums_up_new [of c "row_tag c"] st by simp
  qed
  have fst: "map fst (aggregate_step c rows) = uniq (map row_tag (cs @ [c]))"
    using rows seen by (auto simp: aggregate_step_def Let_def rows_of_def uniq_snoc comp_def split_def image_iff)
  have "ch_tag r = Some t \<and> sums_up (filter (\<lambda>c. row_tag c = t) (cs @ [c])) r"
    if "(t, r) \<in> set (aggregate_step c rows)" for t r
    using that old grown fresh seen by (auto simp: aggregate_step_def Let_def split: if_splits)
  with fst show ?thesis by (auto simp: rows_of_def)
qed

lemma rows_all: "\<forall>c \<in> set cs. ch_status c \<noteq> None \<Longrightarrow> rows_of cs (fold aggregate_step cs [])"
proof (induction cs rule: rev_induct)
  case Nil
  then show ?case by (simp add: rows_of_def)
next
  case (snoc c cs)
  then show ?case by (simp add: rows_step)
qed

text \<open>C35: For channels that all have a status: in tag mode the table has one row per tag, in order of first
  occurrence, that gathers exactly the channels of the tag, with the sum of their quotas, the mean of their response
  times, all their groups, and the status enabled if one of them is enabled and that of the first otherwise.  If no
  channel of the row has priority -1, its priority is the common one, or none if they differ; if none has weight -1,
  the same holds of the weight.\<close>

theorem tag_rows:
  assumes "\<forall>c \<in> set cs. ch_status c \<noteq> None"
  shows "map ch_tag (aggregateChannelsByTag cs) = map Some (uniq (map row_tag cs)) \<and>
    (\<forall>r \<in> set (aggregateChannelsByTag cs).
       sums_up (filter (\<lambda>c. Some (row_tag c) = ch_tag r) cs) r)"
proof -
  have r: "rows_of cs (fold aggregate_step cs [])" using assms by (rule rows_all)
  have "map ch_tag (aggregateChannelsByTag cs) = map (Some \<circ> fst) (fold aggregate_step cs [])"
    using r by (auto simp: aggregateChannelsByTag_def rows_of_def)
  also have "\<dots> = map Some (uniq (map row_tag cs))" using r by (simp add: rows_of_def flip: map_map)
  finally show ?thesis using r by (fastforce simp: aggregateChannelsByTag_def rows_of_def)
qed

text \<open>A channel with a tag, a priority and groups, for the examples.\<close>

definition sample_channel :: "rat \<Rightarrow> string \<Rightarrow> rat option \<Rightarrow> string \<Rightarrow> Channel" where
  "sample_channel i tag priority groups = \<lparr>
     ch_id = JNumber (Fin i), ch_type = 1, ch_key = ''sk'', ch_openai_organization = None, ch_test_model = None,
     ch_status = Some 1, ch_name = ''c'', ch_weight = Some 0, ch_created_time = 0, ch_test_time = 0,
     ch_response_time = 100 * i, ch_base_url = None, ch_other = [], ch_balance = 0, ch_balance_updated_time = 0,
     ch_models = ''m'', ch_group = groups, ch_used_quota = i, ch_model_mapping = None, ch_status_code_mapping = None,
     ch_priority = priority, ch_auto_ban = None, ch_other_info = [], ch_tag = Some tag, ch_setting = None,
     ch_param_override = None, ch_header_override = None, ch_remark = [], ch_max_input_tokens = 0,
     ch_channel_info = \<lparr>is_multi_key = False, multi_key_size = 0, multi_key_status_list = None,
       multi_key_disabled_reason = None, multi_key_disabled_time = None, multi_key_polling_index = 0, ci_multi_key_mode = ''random''\<rparr>,
     ch_settings = ''{}''\<rparr>"

lemma sample_fields [simp]:
  "ch_status (sample_channel i t p g) = Some 1" "row_tag (sample_channel i t p g) = t"
  "ch_priority (sample_channel i t p g) = p" "ch_used_quota (sample_channel i t p g) = i"
  "ch_response_time (sample_channel i t p g) = 100 * i"
  by (simp_all add: sample_channel_def row_tag_def or_text_def)

theorem tag_rows_witness:
  "list_all (\<lambda>c. ch_status c \<noteq> None) [sample_channel 1 ''t'' (Some 5) ''a'', sample_channel 3 ''t'' (Some 5) ''b''] \<and>
   map (\<lambda>r. (ch_tag r, ch_used_quota r, ch_response_time r, ch_priority r))
     (aggregateChannelsByTag [sample_channel 1 ''t'' (Some 5) ''a'', sample_channel 3 ''t'' (Some 5) ''b'']) =
   [(Some ''t'', 4, 200, Some 5)]"
proof -
  let ?cs = "[sample_channel 1 ''t'' (Some 5) ''a'', sample_channel 3 ''t'' (Some 5) ''b'']"
  have rows: "map ch_tag (aggregateChannelsByTag ?cs) = [Some ''t'']"
    "\<forall>r \<in> set (aggregateChannelsByTag ?cs). sums_up (filter (\<lambda>c. Some (row_tag c) = ch_tag r) ?cs) r"
    using tag_rows [of ?cs] by simp_all
  from rows(1) obtain r where r: "aggregateChannelsByTag ?cs = [r]" "ch_tag r = Some ''t''" by auto
  with rows(2) have "sums_up ?cs r" by simp
  with r show ?thesis by (simp add: sums_up_def common_def)
qed

text \<open>A priority of -1 is taken for one not yet set, and a group that a later channel names twice is listed twice.\<close>

lemma minus_one_priority:
  "map ch_priority (aggregateChannelsByTag [sample_channel 1 ''t'' (Some (-1)) ''a'', sample_channel 2 ''t'' (Some 5) ''a'']) = [Some 5]"
  by (simp add: aggregateChannelsByTag_def aggregate_step_def row_tag_def sample_channel_def or_text_def absorb_def newTagRow_def
      Let_def same_or_null_def)

lemma repeated_group:
  "map ch_group (aggregateChannelsByTag [sample_channel 1 ''t'' None ''a'', sample_channel 2 ''t'' None ''b,b'']) = [''a,b,b'']"
  by (simp add: aggregateChannelsByTag_def aggregate_step_def row_tag_def sample_channel_def or_text_def absorb_def newTagRow_def
      Let_def merge_groups_def nonempty_parts_def)

lemma row_ids_distinct:
  "\<forall>c \<in> set cs. ch_status c \<noteq> None \<Longrightarrow> distinct (map (getChannelTableRowId \<circ> AggregateRow) (aggregateChannelsByTag cs))"
proof -
  assume "\<forall>c \<in> set cs. ch_status c \<noteq> None"
  then have r: "rows_of cs (fold aggregate_step cs [])" by (rule rows_all)
  have "map (getChannelTableRowId \<circ> AggregateRow) (aggregateChannelsByTag cs) =
      map ((\<lambda>t. ''tag:'' @ t) \<circ> fst) (fold aggregate_step cs [])"
    unfolding aggregateChannelsByTag_def map_map
    by (rule map_cong) (use r in \<open>auto simp: rows_of_def getChannelTableRowId_def or_text_def\<close>)
  also have "\<dots> = map (\<lambda>t. ''tag:'' @ t) (uniq (map row_tag cs))" using r by (simp add: rows_of_def flip: map_map)
  also have "distinct \<dots>" by (simp add: distinct_map inj_on_def)
  finally show ?thesis .
qed

text \<open>The list of types offers every known type but "Unknown" once; a channel needs attention exactly when there is a
  reason to show.\<close>

lemma type_options_complete:
  "distinct (map fst CHANNEL_TYPE_OPTIONS)" "set CHANNEL_TYPE_OPTIONS = set CHANNEL_TYPES - {(0, ''Unknown'')}"
  by code_simp+

lemma attention_has_reason: "channelNeedsAttention channel \<longleftrightarrow> getAttentionReason channel \<noteq> None"
  by (simp add: channelNeedsAttention_def getAttentionReason_def)

section \<open>Facts about delayed updates\<close>

definition scheduled :: "scheduler_event list \<Rightarrow> rat list" where
  "scheduled es = List.map_filter (\<lambda>e. case e of Schedule v \<Rightarrow> Some v | _ \<Rightarrow> None) es"

definition waiting :: "scheduler \<Rightarrow> rat list" where
  "waiting s = (case pendingValue s of None \<Rightarrow> [] | Some v \<Rightarrow> [v])"

definition one_timer :: "scheduler \<Rightarrow> bool" where
  "one_timer s \<longleftrightarrow>
     (case pendingValue s of None \<Rightarrow> timeoutId s = None \<and> live_timers s = []
      | Some v \<Rightarrow> (\<exists>i. timeoutId s = Some i \<and> live_timers s = [i]))"

lemma commit_one_timer: "one_timer s \<Longrightarrow> one_timer (commitPendingValue s)"
  by (auto simp: one_timer_def commitPendingValue_def clearPendingTimer_def Let_def split: option.splits)

interpretation cell: invariant_machine createChannelFieldUpdateScheduler scheduler_step "\<lambda>_. True" one_timer
proof
  show "one_timer createChannelFieldUpdateScheduler" by (simp add: one_timer_def createChannelFieldUpdateScheduler_def)
next
  fix e s assume "one_timer s"
  then show "one_timer (scheduler_step e s)"
    by (cases e) (auto simp: one_timer_def commitPendingValue_def clearPendingTimer_def schedule_def Let_def
        split: option.splits)
qed

lemma commit_sends: "sent (commitPendingValue s) = sent s @ waiting s" "waiting (commitPendingValue s) = []"
  by (auto simp: commitPendingValue_def clearPendingTimer_def waiting_def Let_def split: option.splits)

lemma schedule_sends: "sent (schedule v s) = sent s" "waiting (schedule v s) = [v]"
  by (auto simp: schedule_def clearPendingTimer_def waiting_def Let_def split: option.splits)

text \<open>What was sent or waits is a part of what was typed, and ends as it does.\<close>

definition tracks :: "scheduler \<Rightarrow> rat list \<Rightarrow> bool" where
  "tracks s vs \<longleftrightarrow> subseq (sent s @ waiting s) vs \<and> (vs \<noteq> [] \<longrightarrow> sent s @ waiting s \<noteq> [] \<and> last (sent s @ waiting s) = last vs)"

lemma tracks_commit: "tracks s vs \<Longrightarrow> tracks (commitPendingValue s) vs"
  by (simp add: tracks_def commit_sends)

lemma tracks_schedule: "tracks s vs \<Longrightarrow> tracks (schedule v s) (vs @ [v])"
proof -
  assume "tracks s vs"
  then have "subseq (sent s) vs" by (auto simp: tracks_def intro: subseq_order.trans)
  then show ?thesis by (simp add: tracks_def schedule_sends)
qed

lemma tracks_run: "tracks (fold scheduler_step es createChannelFieldUpdateScheduler) (scheduled es)"
proof (induction es rule: rev_induct)
  case Nil
  then show ?case by (simp add: tracks_def scheduled_def waiting_def createChannelFieldUpdateScheduler_def map_filter_simps)
next
  case (snoc e es)
  have "scheduled (es @ [e]) = scheduled es @ (case e of Schedule v \<Rightarrow> [v] | _ \<Rightarrow> [])"
    by (simp add: scheduled_def map_filter_def split: scheduler_event.split)
  moreover have "tracks (s\<lparr>live_timers := ts\<rparr>) vs = tracks s vs" for s ts vs by (simp add: tracks_def waiting_def)
  ultimately show ?case using snoc by (cases e) (simp_all add: tracks_schedule tracks_commit)
qed

text \<open>C36: Whatever numbers are typed into a cell of the table and whichever timers fire, at most one timer is set,
  and one is set exactly when a number waits to be sent.  The numbers sent are numbers typed, in their order, each
  sent at most once; and once the cell is left, nothing waits and the last number sent is the last one typed.\<close>

theorem typed_number_sent:
  fixes es
  defines "s \<equiv> fold scheduler_step es createChannelFieldUpdateScheduler"
  shows "(if pendingValue s = None then live_timers s = [] else length (live_timers s) = 1) \<and>
    subseq (sent s) (scheduled es) \<and>
    pendingValue (scheduler_step Flush s) = None \<and>
    subseq (sent (scheduler_step Flush s)) (scheduled es) \<and>
    (if scheduled es = [] then sent (scheduler_step Flush s) = []
     else sent (scheduler_step Flush s) \<noteq> [] \<and> last (sent (scheduler_step Flush s)) = last (scheduled es))"
proof -
  have "one_timer s" unfolding s_def by (rule cell.run_inv) (simp add: list_all_iff)
  moreover have "tracks s (scheduled es)" unfolding s_def by (rule tracks_run)
  moreover from this have "subseq (sent s) (scheduled es)" by (auto simp: tracks_def intro: subseq_order.trans)
  moreover from \<open>tracks s (scheduled es)\<close> have "scheduled es = [] \<Longrightarrow> sent s @ waiting s = []"
    by (auto simp: tracks_def dest: list_emb_Nil2)
  moreover have "pendingValue (commitPendingValue s) = None"
    using commit_sends(2) [of s] by (simp add: waiting_def split: option.splits)
  ultimately show ?thesis
    by (simp add: one_timer_def tracks_def commit_sends split: option.splits) auto
qed

end
