(* ===== verification/Advanced_Custom.thy ===== *)
theory Advanced_Custom
  imports Interfaces Js_Coercion
begin

text \<open>
  Routes of a custom channel (\<^verbatim>\<open>web/src/features/channels/lib/advanced-custom.ts\<close>): templates, suggested upstream
  paths and credentials, normalisation, and the validation of a configuration.  The URL parser of the browser is
  an argument that gives the protocol and the host of a text.  The validation, a loop over the routes with a table
  of the paths seen, accepts exactly the configurations that describe an unambiguous routing, and it accepts every
  template and every suggested route.
\<close>

section \<open>Configurations\<close>

record RouteAuth =
  auth_type :: string
  auth_name :: "string option"
  auth_value :: "string option"

record Route =
  incoming_path :: "string option"
  upstream_path :: "string option"
  converter :: "string option"
  models :: "string list option"
  auth :: "RouteAuth option"

type_synonym AdvancedCustomConfig = "Route list option" \<comment> \<open>\<open>None\<close>: \<^verbatim>\<open>advanced_routes\<close> is not an array\<close>

definition MODEL_LIST_PATH :: string where "MODEL_LIST_PATH = ''/v1/models''"

definition CONVERTER_OPTIONS :: "(string \<times> string \<times> string) list" where
  "CONVERTER_OPTIONS =
     [(''none'', ''Native forwarding'', ''Native forwarding''),
      (''anthropic_messages_to_openai_chat_completions'', ''Anthropic Messages to OpenAI Chat'', ''To OpenAI Chat''),
      (''openai_chat_completions_to_anthropic_messages'', ''OpenAI Chat to Anthropic Messages'', ''To Anthropic Messages''),
      (''openai_chat_completions_to_openai_responses'', ''OpenAI Chat to OpenAI Responses'', ''To OpenAI Responses''),
      (''openai_responses_to_openai_chat_completions'', ''OpenAI Responses to OpenAI Chat'', ''To OpenAI Chat''),
      (''openai_responses_to_gemini_generate_content'', ''OpenAI Responses to Gemini Generate Content'',
       ''To Gemini Generate Content''),
      (''gemini_generate_content_to_openai_chat_completions'', ''Gemini Generate Content to OpenAI Chat'', ''To OpenAI Chat''),
      (''openai_chat_completions_to_gemini_generate_content'', ''OpenAI Chat to Gemini Generate Content'',
       ''To Gemini Generate Content'')]"

definition INCOMING_PATH_OPTIONS :: "(string \<times> string) list" where
  "INCOMING_PATH_OPTIONS =
     [(''/v1/chat/completions'', ''OpenAI Chat''), (''/v1/responses'', ''OpenAI Responses''),
      (''/v1/responses/compact'', ''OpenAI Responses Compact''), (MODEL_LIST_PATH, ''OpenAI Models''),
      (''/v1/embeddings'', ''OpenAI Embeddings''), (''/v1/images/generations'', ''OpenAI Image Generations''),
      (''/v1/images/edits'', ''OpenAI Image Edits''), (''/v1/completions'', ''OpenAI Completions''),
      (''/v1/audio/speech'', ''OpenAI Audio Speech''), (''/v1/audio/transcriptions'', ''OpenAI Audio Transcriptions''),
      (''/v1/audio/translations'', ''OpenAI Audio Translations''), (''/v1/rerank'', ''OpenAI Rerank''),
      (''/v1/realtime'', ''OpenAI Realtime''), (''/v1/messages'', ''Claude Messages''),
      (''/v1beta/models/{model}:generateContent'', ''Gemini Generate Content''),
      (''/v1beta/models/{model}:embedContent'', ''Gemini Embed Content''),
      (''/v1beta/models/{model}:batchEmbedContents'', ''Gemini Batch Embed Contents'')]"

definition bearerHeaderAuth :: RouteAuth where
  "bearerHeaderAuth = \<lparr>auth_type = ''header'', auth_name = Some ''Authorization'', auth_value = Some ''Bearer {api_key}''\<rparr>"
definition apiKeyHeaderAuth :: RouteAuth where
  "apiKeyHeaderAuth = \<lparr>auth_type = ''header'', auth_name = Some ''x-api-key'', auth_value = Some ''{api_key}''\<rparr>"
definition geminiQueryAuth :: RouteAuth where
  "geminiQueryAuth = \<lparr>auth_type = ''query'', auth_name = Some ''key'', auth_value = Some ''{api_key}''\<rparr>"

definition route_of :: "string \<Rightarrow> string \<Rightarrow> string \<Rightarrow> RouteAuth option \<Rightarrow> Route" where
  "route_of inc up conv a =
     \<lparr>incoming_path = Some inc, upstream_path = Some up, converter = Some conv, models = None, auth = a\<rparr>"

abbreviation native :: "string \<Rightarrow> RouteAuth \<Rightarrow> Route" where
  "native path a \<equiv> route_of path path ''none'' (Some a)"

definition TEMPLATE_OPTIONS :: "(string \<times> string \<times> Route list) list" where
  "TEMPLATE_OPTIONS =
     [(''official_openai_chat'', ''Official OpenAI Chat'', [native ''/v1/chat/completions'' bearerHeaderAuth]),
      (''official_openai_responses'', ''Official OpenAI Responses'', [native ''/v1/responses'' bearerHeaderAuth]),
      (''official_openai_embeddings'', ''Official OpenAI Embeddings'', [native ''/v1/embeddings'' bearerHeaderAuth]),
      (''official_openai_images'', ''Official OpenAI Images'',
        [native ''/v1/images/generations'' bearerHeaderAuth, native ''/v1/images/edits'' bearerHeaderAuth]),
      (''official_claude_messages'', ''Official Claude Messages'', [native ''/v1/messages'' apiKeyHeaderAuth]),
      (''official_gemini_native'', ''Official Gemini Native'',
        [native ''/v1beta/models/{model}:generateContent'' geminiQueryAuth,
         native ''/v1beta/models/{model}:embedContent'' geminiQueryAuth,
         native ''/v1beta/models/{model}:batchEmbedContents'' geminiQueryAuth]),
      (''official_gemini_from_openai_chat'', ''Official Gemini from OpenAI Chat'',
        [route_of ''/v1/chat/completions'' ''/v1beta/models/{model}:generateContent''
           ''openai_chat_completions_to_gemini_generate_content'' (Some geminiQueryAuth)])]"

definition getAdvancedCustomTemplateConfig :: "string \<Rightarrow> Route list" where
  "getAdvancedCustomTemplateConfig templateKey =
     (case find (\<lambda>(v, l, c). v = templateKey) TEMPLATE_OPTIONS of
        Some (v, l, c) \<Rightarrow> c
      | None \<Rightarrow> snd (snd (hd TEMPLATE_OPTIONS)))"

definition createAdvancedCustomConfig :: "Route list" where
  "createAdvancedCustomConfig = [route_of ''/v1/chat/completions'' ''/v1/chat/completions'' ''none'' None]"

section \<open>Converters and their defaults\<close>

definition isAdvancedCustomConverter :: "string \<Rightarrow> bool" where
  "isAdvancedCustomConverter v \<longleftrightarrow> list_ex (\<lambda>(c, l, t). c = v) CONVERTER_OPTIONS"

definition isConverterPathAllowed :: "string \<Rightarrow> string \<Rightarrow> bool" where
  "isConverterPathAllowed path conv =
     (if conv = ''none'' then True
      else if conv = ''anthropic_messages_to_openai_chat_completions'' then path = ''/v1/messages''
      else if conv \<in> {''openai_chat_completions_to_anthropic_messages'', ''openai_chat_completions_to_openai_responses'',
                      ''openai_chat_completions_to_gemini_generate_content''}
        then path = ''/v1/chat/completions''
      else if conv = ''openai_responses_to_openai_chat_completions'' then path = ''/v1/responses''
      else if conv = ''openai_responses_to_gemini_generate_content'' then path = ''/v1/responses''
      else str_includes '':generateContent'' path \<or> str_includes '':streamGenerateContent'' path)"

definition getAdvancedCustomIncomingPathOptions :: "string \<Rightarrow> (string \<times> string) list" where
  "getAdvancedCustomIncomingPathOptions conv = filter (\<lambda>(p, l). isConverterPathAllowed p conv) INCOMING_PATH_OPTIONS"

definition getDefaultAdvancedCustomIncomingPath :: "string \<Rightarrow> string" where
  "getDefaultAdvancedCustomIncomingPath conv =
     (case getAdvancedCustomIncomingPathOptions conv of
        [] \<Rightarrow> ''/v1/chat/completions''
      | (p, l) # _ \<Rightarrow> if p = [] then ''/v1/chat/completions'' else p)"

definition getAdvancedCustomConverterOptions :: "string \<Rightarrow> (string \<times> string \<times> string) list" where
  "getAdvancedCustomConverterOptions path =
     filter (\<lambda>(c, l, t). c = ''none'' \<or> isConverterPathAllowed (trim path) c) CONVERTER_OPTIONS"

definition getAdvancedCustomNativeAuth :: "string \<Rightarrow> RouteAuth" where
  "getAdvancedCustomNativeAuth path =
     (if path = ''/v1/messages'' then apiKeyHeaderAuth
      else if list_ex (\<lambda>s. str_includes s path)
        ['':generateContent'', '':streamGenerateContent'', '':embedContent'', '':batchEmbedContents''] then geminiQueryAuth
      else bearerHeaderAuth)"

definition getAdvancedCustomConverterDefaults :: "string \<Rightarrow> string \<Rightarrow> string \<times> RouteAuth" where
  "getAdvancedCustomConverterDefaults conv path =
     (let normalized = (if trim path = [] then getDefaultAdvancedCustomIncomingPath conv else trim path) in
      if conv = ''none'' then (normalized, getAdvancedCustomNativeAuth normalized)
      else if conv \<in> {''anthropic_messages_to_openai_chat_completions'', ''gemini_generate_content_to_openai_chat_completions'',
                      ''openai_responses_to_openai_chat_completions''}
        then (''/v1/chat/completions'', bearerHeaderAuth)
      else if conv = ''openai_chat_completions_to_openai_responses'' then (''/v1/responses'', bearerHeaderAuth)
      else if conv = ''openai_chat_completions_to_anthropic_messages'' then (''/v1/messages'', apiKeyHeaderAuth)
      else if conv \<in> {''openai_chat_completions_to_gemini_generate_content'', ''openai_responses_to_gemini_generate_content''}
        then (''/v1beta/models/{model}:generateContent'', geminiQueryAuth)
      else (if normalized = [] then ''/v1/chat/completions'' else normalized, getAdvancedCustomNativeAuth normalized))"

definition getAdvancedCustomIncomingPathLabel :: "string \<Rightarrow> string" where
  "getAdvancedCustomIncomingPathLabel v =
     (case find (\<lambda>(p, l). p = v) INCOMING_PATH_OPTIONS of Some (p, l) \<Rightarrow> if l = [] then v else l | None \<Rightarrow> v)"

definition getAdvancedCustomAuthMode :: "Route \<Rightarrow> string" where
  "getAdvancedCustomAuthMode route =
     (case auth route of None \<Rightarrow> ''default'' | Some a \<Rightarrow> if auth_type a = [] then ''default'' else auth_type a)"

definition buildAdvancedCustomAuth :: "string \<Rightarrow> RouteAuth option \<Rightarrow> RouteAuth option" where
  "buildAdvancedCustomAuth mode previousAuth =
     (let name = (\<lambda>d. or_text (Option.bind previousAuth auth_name) d);
          val = (\<lambda>d. or_text (Option.bind previousAuth auth_value) d) in
      if mode = ''default'' then None
      else if mode = ''none'' then Some \<lparr>auth_type = ''none'', auth_name = None, auth_value = None\<rparr>
      else if mode = ''header'' then
        Some \<lparr>auth_type = ''header'', auth_name = Some (name ''Authorization''), auth_value = Some (val ''Bearer {api_key}'')\<rparr>
      else Some \<lparr>auth_type = ''query'', auth_name = Some (name ''api_key''), auth_value = Some (val ''{api_key}'')\<rparr>)"

section \<open>Normalisation\<close>

definition normalizeAdvancedCustomRouteModels :: "string list option \<Rightarrow> string list" where
  "normalizeAdvancedCustomRouteModels ms = (case ms of None \<Rightarrow> [] | Some xs \<Rightarrow> filter (\<lambda>m. m \<noteq> []) (map trim xs))"

definition getAdvancedCustomRouteUpstreamPath :: "Route \<Rightarrow> string" where
  "getAdvancedCustomRouteUpstreamPath route = trim (or_text (upstream_path route) [])"

definition normalizeAdvancedCustomRoute :: "Route \<Rightarrow> Route" where
  "normalizeAdvancedCustomRoute route =
     \<lparr>incoming_path = Some (or_text (incoming_path route) []),
      upstream_path = Some (getAdvancedCustomRouteUpstreamPath route),
      converter = Some (or_text (converter route) ''none''),
      models = (let ms = normalizeAdvancedCustomRouteModels (models route) in if ms = [] then None else Some ms),
      auth = map_option (\<lambda>a. \<lparr>auth_type = auth_type a, auth_name = Some (or_text (auth_name a) []),
        auth_value = Some (or_text (auth_value a) [])\<rparr>) (auth route)\<rparr>"

definition normalizeAdvancedCustomConfig :: "AdvancedCustomConfig \<Rightarrow> Route list" where
  "normalizeAdvancedCustomConfig config =
     (case config of Some rs \<Rightarrow> map normalizeAdvancedCustomRoute rs | None \<Rightarrow> [])"

definition parseAdvancedCustomRouteModels :: "string \<Rightarrow> string list" where
  "parseAdvancedCustomRouteModels v = uniq (filter (\<lambda>m. m \<noteq> []) (map trim (split_on (CHR '','') v)))"

definition is_regex_rule :: "string \<Rightarrow> bool" where "is_regex_rule modelRule = starts_with ''re:'' modelRule"
definition getAdvancedCustomRegexModelPattern :: "string \<Rightarrow> string" where
  "getAdvancedCustomRegexModelPattern modelRule = drop 3 modelRule"

section \<open>Validation\<close>

record validation_error =
  err_message :: string
  err_routeIndex :: "nat option"

definition fail_at :: "nat \<Rightarrow> string \<Rightarrow> validation_error + 'a" where
  "fail_at i msg = Inl \<lparr>err_message = msg, err_routeIndex = Some i\<rparr>"

record path_state =
  catchAllIndex :: "nat option"
  seen_models :: "(string \<times> nat) list"

type_synonym route_table = "(string \<times> path_state) list"

text \<open>The protocol and host that \<^verbatim>\<open>new URL\<close> gives for a text, \<open>None\<close> where it throws.\<close>

type_synonym url_parser = "string \<Rightarrow> (string \<times> string) option"

definition isFullHttpURLOrAbsolutePath :: "url_parser \<Rightarrow> string \<Rightarrow> bool" where
  "isFullHttpURLOrAbsolutePath url v =
     (if starts_with ''/'' v then \<not> starts_with ''//'' v
      else case url v of None \<Rightarrow> False | Some (protocol, host) \<Rightarrow> host \<noteq> [] \<and> protocol \<in> {''http:'', ''https:''})"

definition validateRouteAuth :: "RouteAuth option \<Rightarrow> string option" where
  "validateRouteAuth a =
     (case a of
        None \<Rightarrow> None
      | Some a \<Rightarrow>
          if auth_type a = ''none'' then None
          else if auth_type a \<noteq> ''header'' \<and> auth_type a \<noteq> ''query'' then Some ''Auth type is invalid''
          else if trim (or_text (auth_name a) []) = [] then Some ''Auth name is required''
          else if trim (or_text (auth_value a) []) = [] then Some ''Auth value is required''
          else None)"

fun check_models :: "nat \<Rightarrow> string list \<Rightarrow> string list \<Rightarrow> path_state \<Rightarrow> validation_error + path_state" where
  "check_models i [] seenInRoute st = Inr st"
| "check_models i (m # ms) seenInRoute st =
     (if is_regex_rule m \<and> getAdvancedCustomRegexModelPattern m = [] then fail_at i ''Model regex cannot be empty''
      else if m \<in> set seenInRoute then fail_at i ''Duplicate model in route models''
      else if map_of (seen_models st) m \<noteq> None then fail_at i ''Route models must be unique for the same incoming path''
      else check_models i ms (m # seenInRoute) (st\<lparr>seen_models := AList.update m i (seen_models st)\<rparr>))"

definition path_entry :: "route_table \<Rightarrow> string \<Rightarrow> path_state" where
  "path_entry table path =
     (case map_of table path of Some st \<Rightarrow> st | None \<Rightarrow> \<lparr>catchAllIndex = None, seen_models = []\<rparr>)"

definition validateAdvancedCustomRouteModels ::
  "nat \<Rightarrow> string \<Rightarrow> string list \<Rightarrow> route_table \<Rightarrow> validation_error + route_table" where
  "validateAdvancedCustomRouteModels i path ms table =
     (let st = path_entry table path in
      if ms = [] then
        (if catchAllIndex st \<noteq> None then fail_at i ''Only one catch-all route is allowed for the same incoming path''
         else Inr (AList.update path (st\<lparr>catchAllIndex := Some i\<rparr>) table))
      else if catchAllIndex st \<noteq> None then fail_at i ''Catch-all route must be last for the same incoming path''
      else (case check_models i ms [] st of Inl e \<Rightarrow> Inl e | Inr st' \<Rightarrow> Inr (AList.update path st' table)))"

definition route_path :: "Route \<Rightarrow> string" where "route_path r = trim (or_text (incoming_path r) [])"
definition route_converter :: "Route \<Rightarrow> string" where "route_converter r = or_text (converter r) ''none''"
abbreviation route_models :: "Route \<Rightarrow> string list" where
  "route_models r \<equiv> normalizeAdvancedCustomRouteModels (models r)"
abbreviation route_upstream :: "Route \<Rightarrow> string" where
  "route_upstream r \<equiv> getAdvancedCustomRouteUpstreamPath r"

text \<open>One pass of the loop: the model list route seen so far and the table of paths go in and come out.\<close>

definition validate_route ::
  "url_parser \<Rightarrow> nat \<Rightarrow> Route \<Rightarrow> nat option \<times> route_table \<Rightarrow> validation_error + nat option \<times> route_table" where
  "validate_route url i r = (\<lambda>(modelListRouteIndex, table).
     let path = route_path r; upstream = route_upstream r; conv = route_converter r; ms = route_models r;
         listing = (path = MODEL_LIST_PATH)
     in if path = [] then fail_at i ''Incoming path is required''
        else if \<not> starts_with ''/'' path then fail_at i ''Incoming path must start with /''
        else if str_includes ''?'' path then fail_at i ''Incoming path must not include query''
        else if listing \<and> modelListRouteIndex \<noteq> None then fail_at i ''Only one OpenAI Models route is allowed''
        else if listing \<and> ms \<noteq> [] then fail_at i ''OpenAI Models route does not support client model rules''
        else if listing \<and> conv \<noteq> ''none'' then fail_at i ''OpenAI Models route must use native forwarding''
        else if listing \<and> str_includes ''{model}'' upstream
          then fail_at i ''OpenAI Models upstream path must not contain {model}''
        else (case validateAdvancedCustomRouteModels i path ms table of
          Inl e \<Rightarrow> Inl e
        | Inr table' \<Rightarrow>
            if upstream = [] then fail_at i ''Upstream path is required''
            else if \<not> isFullHttpURLOrAbsolutePath url upstream
              then fail_at i ''Upstream path must be a full URL or a path starting with /''
            else if \<not> isAdvancedCustomConverter conv then fail_at i ''Converter is not registered''
            else if \<not> isConverterPathAllowed path conv then fail_at i ''Converter does not match incoming path''
            else (case validateRouteAuth (auth r) of
              Some msg \<Rightarrow> fail_at i msg
            | None \<Rightarrow> Inr (if listing then Some i else modelListRouteIndex, table'))))"

fun validate_routes ::
  "url_parser \<Rightarrow> nat \<Rightarrow> Route list \<Rightarrow> nat option \<times> route_table \<Rightarrow> validation_error option" where
  "validate_routes url i [] st = None"
| "validate_routes url i (r # rs) st =
     (case validate_route url i r st of Inl e \<Rightarrow> Some e | Inr st' \<Rightarrow> validate_routes url (i + 1) rs st')"

definition validateAdvancedCustomConfig :: "url_parser \<Rightarrow> AdvancedCustomConfig option \<Rightarrow> validation_error option" where
  "validateAdvancedCustomConfig url config =
     (case config of
        None \<Rightarrow> Some \<lparr>err_message = ''Advanced custom configuration is required'', err_routeIndex = None\<rparr>
      | Some cfg \<Rightarrow>
          let routes = normalizeAdvancedCustomConfig cfg in
          if routes = [] then
            Some \<lparr>err_message = ''Advanced custom configuration requires at least one route'', err_routeIndex = None\<rparr>
          else validate_routes url 0 routes (None, []))"

definition hasValidAdvancedCustomModelListRoute :: "url_parser \<Rightarrow> AdvancedCustomConfig option \<Rightarrow> bool" where
  "hasValidAdvancedCustomModelListRoute url config \<longleftrightarrow>
     (case config of
        None \<Rightarrow> False
      | Some cfg \<Rightarrow> validateAdvancedCustomConfig url config = None \<and>
          list_ex (\<lambda>r. route_path r = MODEL_LIST_PATH) (normalizeAdvancedCustomConfig cfg))"

definition advancedCustomConfigUsesRelativeUpstreamPath :: "AdvancedCustomConfig option \<Rightarrow> bool" where
  "advancedCustomConfigUsesRelativeUpstreamPath config \<longleftrightarrow>
     (case config of
        None \<Rightarrow> False
      | Some cfg \<Rightarrow> list_ex (\<lambda>r. starts_with ''/'' (route_upstream r)) (normalizeAdvancedCustomConfig cfg))"

definition getAdvancedCustomRouteSummaryLabel :: "Route \<Rightarrow> string option" where
  "getAdvancedCustomRouteSummaryLabel r =
     (if route_path r = [] then None
      else Some (case map_of [(''/v1/chat/completions'', ''OpenAI Chat''), (MODEL_LIST_PATH, ''OpenAI Models'')] (route_path r) of
        Some l \<Rightarrow> l
      | None \<Rightarrow> getAdvancedCustomIncomingPathLabel (route_path r)))"

text \<open>The summary of a configuration that was read: its routes, whether it is valid, and the labels of its routes.\<close>

definition stats_of :: "url_parser \<Rightarrow> Route list \<Rightarrow> nat \<times> bool \<times> string list" where
  "stats_of url config =
     (let routes = normalizeAdvancedCustomConfig (Some config) in
      (length routes, validateAdvancedCustomConfig url (Some (Some routes)) = None,
       uniq (filter (\<lambda>l. l \<noteq> []) (List.map_filter getAdvancedCustomRouteSummaryLabel routes))))"

section \<open>What is accepted\<close>

text \<open>A route on its own, and two routes in their order.\<close>

definition route_ok :: "url_parser \<Rightarrow> Route \<Rightarrow> bool" where
  "route_ok url r \<longleftrightarrow>
     starts_with ''/'' (route_path r) \<and> \<not> str_includes ''?'' (route_path r) \<and>
     (route_path r = MODEL_LIST_PATH \<longrightarrow>
        route_models r = [] \<and> route_converter r = ''none'' \<and> \<not> str_includes ''{model}'' (route_upstream r)) \<and>
     distinct (route_models r) \<and> ''re:'' \<notin> set (route_models r) \<and>
     route_upstream r \<noteq> [] \<and> isFullHttpURLOrAbsolutePath url (route_upstream r) \<and>
     isAdvancedCustomConverter (route_converter r) \<and> isConverterPathAllowed (route_path r) (route_converter r) \<and>
     validateRouteAuth (auth r) = None"

definition unambiguous :: "Route \<Rightarrow> Route \<Rightarrow> bool" where
  "unambiguous r s \<longleftrightarrow> (route_path r = route_path s \<longrightarrow>
     route_models r \<noteq> [] \<and> set (route_models r) \<inter> set (route_models s) = {})"

lemma empty_regex: "is_regex_rule m \<and> getAdvancedCustomRegexModelPattern m = [] \<longleftrightarrow> m = ''re:''"
proof
  assume a: "is_regex_rule m \<and> getAdvancedCustomRegexModelPattern m = []"
  then obtain t where "m = ''re:'' @ t" by (auto simp: is_regex_rule_def starts_with_iff)
  with a show "m = ''re:''" by (simp add: getAdvancedCustomRegexModelPattern_def)
qed (simp add: is_regex_rule_def getAdvancedCustomRegexModelPattern_def)

lemma check_models_ok:
  "(\<exists>st'. check_models i ms seen st = Inr st') \<longleftrightarrow>
     ''re:'' \<notin> set ms \<and> distinct ms \<and> set ms \<inter> set seen = {} \<and> set ms \<inter> fst ` set (seen_models st) = {}"
proof (induction ms arbitrary: seen st)
  case (Cons m ms)
  show ?case
  proof (cases "m = ''re:'' \<or> m \<in> set seen \<or> map_of (seen_models st) m \<noteq> None")
    case True
    then show ?thesis by (auto simp: empty_regex fail_at_def map_of_eq_None_iff dest: map_of_SomeD)
  next
    case False
    then have "map_of (seen_models st) m = None" by simp
    with False Cons.IH [of "m # seen" "st\<lparr>seen_models := AList.update m i (seen_models st)\<rparr>"] show ?thesis
      by (auto simp: empty_regex dom_update map_of_eq_None_iff)
  qed
qed simp

lemma check_models_state:
  "check_models i ms seen st = Inr st' \<Longrightarrow>
     catchAllIndex st' = catchAllIndex st \<and> fst ` set (seen_models st') = fst ` set (seen_models st) \<union> set ms"
proof (induction ms arbitrary: seen st)
  case (Cons m ms)
  then have "check_models i ms (m # seen) (st\<lparr>seen_models := AList.update m i (seen_models st)\<rparr>) = Inr st'"
    by (auto simp: fail_at_def split: if_splits)
  from Cons.IH [OF this] show ?case by (auto simp: dom_update)
qed simp

text \<open>The state of the loop after the routes \<open>rs\<close>.\<close>

definition represents :: "Route list \<Rightarrow> nat option \<times> route_table \<Rightarrow> bool" where
  "represents rs = (\<lambda>(listing, table).
     (listing \<noteq> None \<longleftrightarrow> list_ex (\<lambda>r. route_path r = MODEL_LIST_PATH) rs) \<and>
     (\<forall>p. (catchAllIndex (path_entry table p) \<noteq> None \<longleftrightarrow> list_ex (\<lambda>r. route_path r = p \<and> route_models r = []) rs) \<and>
          fst ` set (seen_models (path_entry table p)) = (\<Union>r\<in>{r \<in> set rs. route_path r = p}. set (route_models r))))"

lemma path_entry_update: "path_entry (AList.update p st table) q = (if q = p then st else path_entry table q)"
  by (simp add: path_entry_def update_conv)

lemma validate_models_ok:
  assumes "represents rs (l, table)"
  shows "(\<exists>t. validateAdvancedCustomRouteModels i (route_path r) (route_models r) table = Inr t) \<longleftrightarrow>
    ''re:'' \<notin> set (route_models r) \<and> distinct (route_models r) \<and> (\<forall>q\<in>set rs. unambiguous q r)"
proof -
  let ?st = "path_entry table (route_path r)"
  have c: "catchAllIndex ?st \<noteq> None \<longleftrightarrow> (\<exists>q\<in>set rs. route_path q = route_path r \<and> route_models q = [])"
    and m: "fst ` set (seen_models ?st) = (\<Union>q\<in>{q \<in> set rs. route_path q = route_path r}. set (route_models q))"
    using assms by (simp_all add: represents_def list_ex_iff)
  show ?thesis
  proof (cases "catchAllIndex ?st = None")
    case False
    with c show ?thesis by (auto simp: validateAdvancedCustomRouteModels_def Let_def fail_at_def unambiguous_def)
  next
    case True
    show ?thesis
    proof (cases "route_models r = []")
      case True
      with \<open>catchAllIndex ?st = None\<close> c show ?thesis
        by (auto simp: validateAdvancedCustomRouteModels_def Let_def unambiguous_def)
    next
      case False
      have "(\<exists>t. validateAdvancedCustomRouteModels i (route_path r) (route_models r) table = Inr t) \<longleftrightarrow>
          (\<exists>st'. check_models i (route_models r) [] ?st = Inr st')"
        using True False by (auto simp: validateAdvancedCustomRouteModels_def Let_def split: sum.splits)
      also have "\<dots> \<longleftrightarrow> ''re:'' \<notin> set (route_models r) \<and> distinct (route_models r) \<and>
          set (route_models r) \<inter> (\<Union>q\<in>{q \<in> set rs. route_path q = route_path r}. set (route_models q)) = {}"
        by (simp add: check_models_ok m)
      also have "\<dots> \<longleftrightarrow> ''re:'' \<notin> set (route_models r) \<and> distinct (route_models r) \<and> (\<forall>q\<in>set rs. unambiguous q r)"
        using True c by (auto simp: unambiguous_def)
      finally show ?thesis .
    qed
  qed
qed

lemma validate_models_state:
  assumes "represents rs (l, table)" "validateAdvancedCustomRouteModels i (route_path r) (route_models r) table = Inr table'"
  shows "represents (rs @ [r]) (if route_path r = MODEL_LIST_PATH then Some i else l, table')"
proof -
  let ?st = "path_entry table (route_path r)"
  obtain st' where t: "table' = AList.update (route_path r) st' table"
    and s: "(catchAllIndex st' \<noteq> None \<longleftrightarrow> catchAllIndex ?st \<noteq> None \<or> route_models r = [])"
      "fst ` set (seen_models st') = fst ` set (seen_models ?st) \<union> set (route_models r)"
    using assms(2)
    by (auto simp: validateAdvancedCustomRouteModels_def Let_def fail_at_def split: if_splits sum.splits
        dest!: check_models_state) 
  have c: "catchAllIndex (path_entry table p) \<noteq> None \<longleftrightarrow> list_ex (\<lambda>r. route_path r = p \<and> route_models r = []) rs"
    and m: "fst ` set (seen_models (path_entry table p)) = (\<Union>r\<in>{r \<in> set rs. route_path r = p}. set (route_models r))"
    and l: "l \<noteq> None \<longleftrightarrow> list_ex (\<lambda>r. route_path r = MODEL_LIST_PATH) rs" for p
    using assms(1) unfolding represents_def by simp_all
  have "catchAllIndex (path_entry table' p) \<noteq> None \<longleftrightarrow> list_ex (\<lambda>r. route_path r = p \<and> route_models r = []) (rs @ [r])" for p
    using c [of p] s(1) by (cases "p = route_path r") (simp_all add: t path_entry_update)
  moreover have "fst ` set (seen_models (path_entry table' p)) =
      (\<Union>q\<in>{q \<in> set (rs @ [r]). route_path q = p}. set (route_models q))" for p
    using m [of p] s(2) by (cases "p = route_path r") (auto simp: t path_entry_update)
  ultimately show ?thesis using l by (simp add: represents_def)
qed

lemma validate_route_state:
  assumes "represents rs st" "validate_route url i r st = Inr st'"
  shows "represents (rs @ [r]) st'"
proof -
  obtain l table where st: "st = (l, table)" by (cases st)
  obtain table' where "validateAdvancedCustomRouteModels i (route_path r) (route_models r) table = Inr table'"
    "st' = (if route_path r = MODEL_LIST_PATH then Some i else l, table')"
    using assms(2) by (auto simp: st validate_route_def Let_def fail_at_def split: if_splits sum.splits option.splits)
  with validate_models_state [of rs l table] assms(1) st show ?thesis by simp
qed

lemma validate_route_ok:
  assumes "represents rs st" "list_all (route_ok url) rs"
  shows "(\<exists>st'. validate_route url i r st = Inr st') \<longleftrightarrow> route_ok url r \<and> (\<forall>q\<in>set rs. unambiguous q r)"
proof -
  obtain l table where st: "st = (l, table)" by (cases st)
  let ?v = "validateAdvancedCustomRouteModels i (route_path r) (route_models r) table"
  note v = validate_models_ok [OF assms(1) [unfolded st], of i r]
  have listed: "route_path r = MODEL_LIST_PATH \<Longrightarrow> l \<noteq> None \<Longrightarrow> \<exists>q\<in>set rs. \<not> unambiguous q r"
    using assms by (auto simp: st represents_def list_ex_iff list_all_iff route_ok_def unambiguous_def)
  have nonempty: "starts_with ''/'' (route_path r) \<Longrightarrow> route_path r \<noteq> []" by auto
  show ?thesis
  proof (cases "?v")
    case (Inl e)
    with v show ?thesis by (auto simp: st validate_route_def Let_def fail_at_def route_ok_def)
  next
    case (Inr t)
    with v have ok: "''re:'' \<notin> set (route_models r)" "distinct (route_models r)" "\<forall>q\<in>set rs. unambiguous q r" by auto
    with listed have "route_path r = MODEL_LIST_PATH \<Longrightarrow> l = None" by blast
    with ok Inr nonempty show ?thesis
      by (auto simp: st validate_route_def Let_def fail_at_def route_ok_def split: option.splits)
  qed
qed

lemma validate_routes_ok:
  assumes "represents rs st" "list_all (route_ok url) rs" "sorted_wrt unambiguous rs"
  shows "validate_routes url i qs st = None \<longleftrightarrow> list_all (route_ok url) (rs @ qs) \<and> sorted_wrt unambiguous (rs @ qs)"
  using assms
proof (induction qs arbitrary: i rs st)
  case (Cons q qs)
  note v = validate_route_ok [OF Cons.prems(1,2), of i q]
  show ?case
  proof (cases "validate_route url i q st")
    case (Inl e)
    with v have "\<not> (route_ok url q \<and> (\<forall>p\<in>set rs. unambiguous p q))" by simp
    with Inl show ?thesis by (auto simp: sorted_wrt_append)
  next
    case (Inr st')
    with v have "route_ok url q" "\<forall>p\<in>set rs. unambiguous p q" by simp_all
    with Cons.IH [of "rs @ [q]" st' "i + 1"] validate_route_state [OF Cons.prems(1) Inr] Cons.prems Inr show ?thesis
      by (simp add: sorted_wrt_append)
  qed
qed simp

lemma accepted_iff:
  "validateAdvancedCustomConfig url (Some config) = None \<longleftrightarrow>
     (let routes = normalizeAdvancedCustomConfig config in
      routes \<noteq> [] \<and> list_all (route_ok url) routes \<and> sorted_wrt unambiguous routes)"
proof -
  have "represents [] (None, [])" by (simp add: represents_def path_entry_def)
  from validate_routes_ok [OF this] show ?thesis by (simp add: validateAdvancedCustomConfig_def Let_def)
qed

text \<open>C29: a configuration is accepted exactly when it has a route, each route is well formed, and the routes are
  unambiguous: of two routes for the same path the earlier one names its models, and no model is named by both.\<close>

theorem accepted_iff_unambiguous:
  "validateAdvancedCustomConfig url (Some config) = None \<longleftrightarrow>
     (let routes = normalizeAdvancedCustomConfig config in
      routes \<noteq> [] \<and> list_all (route_ok url) routes \<and> sorted_wrt unambiguous routes)"
  by (rule accepted_iff)

section \<open>Normalisation keeps the verdict\<close>

lemma normalize_models_idem: "normalizeAdvancedCustomRouteModels (Some (normalizeAdvancedCustomRouteModels ms)) = normalizeAdvancedCustomRouteModels ms"
  by (auto simp: normalizeAdvancedCustomRouteModels_def split: option.split) (induct_tac x2, auto)

lemma normalize_route_idem: "normalizeAdvancedCustomRoute (normalizeAdvancedCustomRoute r) = normalizeAdvancedCustomRoute r"
proof -
  have t: "or_text (Some (trim x)) [] = trim x" "or_text (Some (or_text y [])) [] = or_text y []" for x y
    by (auto simp: or_text_def split: option.splits)
  have c: "or_text (Some (or_text y ''none'')) ''none'' = or_text y ''none''" for y by (auto simp: or_text_def split: option.splits)
  have m: "normalizeAdvancedCustomRouteModels (if ms = [] then None else Some ms) = ms" if "ms = normalizeAdvancedCustomRouteModels x" for ms x
    using normalize_models_idem [of x] that by (simp add: normalizeAdvancedCustomRouteModels_def)
  show ?thesis
    by (simp add: normalizeAdvancedCustomRoute_def getAdvancedCustomRouteUpstreamPath_def t c m Let_def option.map_comp comp_def)
qed

lemma normalize_config_idem:
  "normalizeAdvancedCustomConfig (Some (normalizeAdvancedCustomConfig c)) = normalizeAdvancedCustomConfig c"
  by (simp add: normalizeAdvancedCustomConfig_def normalize_route_idem split: option.split)

lemma verdict_of_normalised:
  "validateAdvancedCustomConfig url (Some (Some (normalizeAdvancedCustomConfig c))) = validateAdvancedCustomConfig url (Some c)"
  by (simp add: validateAdvancedCustomConfig_def normalize_config_idem)

interpretation routes: normaliser normalizeAdvancedCustomRoute
  by unfold_locales (rule normalize_route_idem)

section \<open>What the editor offers is accepted\<close>

lemma offered_auth: "a \<in> {bearerHeaderAuth, apiKeyHeaderAuth, geminiQueryAuth} \<Longrightarrow>
  validateRouteAuth (auth (normalizeAdvancedCustomRoute (route_of p u c (Some a)))) = None"
  by (auto simp: normalizeAdvancedCustomRoute_def route_of_def validateRouteAuth_def bearerHeaderAuth_def apiKeyHeaderAuth_def
      geminiQueryAuth_def or_text_def trim_id js_space_def)

lemma offered_fields:
  "route_path (normalizeAdvancedCustomRoute (route_of p u c a)) = trim p"
  "route_upstream (normalizeAdvancedCustomRoute (route_of p u c a)) = trim u"
  "c \<noteq> [] \<Longrightarrow> route_converter (normalizeAdvancedCustomRoute (route_of p u c a)) = c"
  "route_models (normalizeAdvancedCustomRoute (route_of p u c a)) = []"
  by (simp_all add: normalizeAdvancedCustomRoute_def route_of_def route_path_def route_converter_def or_text_def
      getAdvancedCustomRouteUpstreamPath_def normalizeAdvancedCustomRouteModels_def)

text \<open>A path that can be entered: trimmed, absolute and without a query.\<close>

definition path_entered :: "string \<Rightarrow> bool" where
  "path_entered p \<longleftrightarrow> trim p = p \<and> starts_with ''/'' p \<and> \<not> starts_with ''//'' p \<and> \<not> str_includes ''?'' p"

lemma offered_route_ok:
  assumes "path_entered p" "path_entered u" "isAdvancedCustomConverter c" "isConverterPathAllowed p c"
    and "a \<in> {bearerHeaderAuth, apiKeyHeaderAuth, geminiQueryAuth}"
    and "p = MODEL_LIST_PATH \<Longrightarrow> c = ''none'' \<and> \<not> str_includes ''{model}'' u"
  shows "route_ok url (normalizeAdvancedCustomRoute (route_of p u c (Some a)))"
proof -
  have "c \<noteq> []" "u \<noteq> []" using assms(2,3) by (auto simp: isAdvancedCustomConverter_def CONVERTER_OPTIONS_def path_entered_def)
  with assms offered_auth [OF assms(5)] show ?thesis
    by (simp add: route_ok_def offered_fields path_entered_def isFullHttpURLOrAbsolutePath_def)
qed

definition suggested_route :: "string \<Rightarrow> string \<Rightarrow> Route" where
  "suggested_route conv path =
     (case getAdvancedCustomConverterDefaults conv path of (upstream, a) \<Rightarrow> route_of path upstream conv (Some a))"

lemma one_route: "validateAdvancedCustomConfig url (Some (Some [r])) = None \<longleftrightarrow> route_ok url (normalizeAdvancedCustomRoute r)"
  by (simp add: accepted_iff normalizeAdvancedCustomConfig_def)

lemma constant_paths:
  "path_entered ''/v1/chat/completions''" "path_entered ''/v1/responses''" "path_entered ''/v1/messages''"
  "path_entered ''/v1beta/models/{model}:generateContent''"
  by (simp_all add: path_entered_def trim_id js_space_def str_includes_def)

text \<open>For each registered converter and each path it serves, the route that the editor suggests, with its
  upstream path and its credentials, is accepted.\<close>

lemma suggested_route_accepted:
  assumes "isAdvancedCustomConverter conv" "isConverterPathAllowed path conv" "path_entered path"
  shows "validateAdvancedCustomConfig url (Some (Some [suggested_route conv path])) = None"
proof -
  have path: "path \<noteq> []" "trim path = path" using assms(3) by (auto simp: path_entered_def)
  have nat: "getAdvancedCustomNativeAuth path \<in> {bearerHeaderAuth, apiKeyHeaderAuth, geminiQueryAuth}"
    by (simp add: getAdvancedCustomNativeAuth_def)
  show ?thesis
  proof (cases "conv = ''none''")
    case True
    have "\<not> str_includes ''{model}'' path" if "path = MODEL_LIST_PATH" using that by (simp add: MODEL_LIST_PATH_def str_includes_def)
    with True assms path nat offered_route_ok [of path path conv "getAdvancedCustomNativeAuth path" url] show ?thesis
      by (simp add: one_route suggested_route_def getAdvancedCustomConverterDefaults_def Let_def)
  next
    case False
    then have no_list: "path \<noteq> MODEL_LIST_PATH"
      using assms(1,2) by (auto simp: isAdvancedCustomConverter_def CONVERTER_OPTIONS_def isConverterPathAllowed_def
          MODEL_LIST_PATH_def str_includes_def)
    define d where "d = getAdvancedCustomConverterDefaults conv path"
    have "path_entered (fst d) \<and> snd d \<in> {bearerHeaderAuth, apiKeyHeaderAuth, geminiQueryAuth}"
      using assms(1) False constant_paths
      by (auto simp: d_def isAdvancedCustomConverter_def CONVERTER_OPTIONS_def getAdvancedCustomConverterDefaults_def Let_def)
    with offered_route_ok [of path "fst d" conv "snd d" url] assms no_list show ?thesis
      by (simp add: one_route suggested_route_def d_def [symmetric] case_prod_beta)
  qed
qed

lemma suggested_route_accepted_witness:
  "let path = ''/v1/messages''; conv = ''anthropic_messages_to_openai_chat_completions'' in
   validateAdvancedCustomConfig (\<lambda>_. None) (Some (Some [suggested_route conv path])) = None"
proof -
  have "isAdvancedCustomConverter ''anthropic_messages_to_openai_chat_completions''"
    by (simp add: isAdvancedCustomConverter_def CONVERTER_OPTIONS_def)
  moreover have "isConverterPathAllowed ''/v1/messages'' ''anthropic_messages_to_openai_chat_completions''"
    by (simp add: isConverterPathAllowed_def)
  ultimately show ?thesis
    unfolding Let_def by (rule suggested_route_accepted [OF _ _ constant_paths(3)])
qed

text \<open>The templates, whatever the URL parser does.\<close>

lemma template_paths:
  "path_entered ''/v1/embeddings''" "path_entered ''/v1/images/generations''" "path_entered ''/v1/images/edits''"
  "path_entered ''/v1beta/models/{model}:embedContent''" "path_entered ''/v1beta/models/{model}:batchEmbedContents''"
  by (simp_all add: path_entered_def trim_id js_space_def str_includes_def)

lemma native_ok:
  assumes "path_entered p" "p \<noteq> MODEL_LIST_PATH" "a \<in> {bearerHeaderAuth, apiKeyHeaderAuth, geminiQueryAuth}"
  shows "route_ok url (normalizeAdvancedCustomRoute (native p a))"
  using assms by (intro offered_route_ok)
    (simp_all add: isAdvancedCustomConverter_def CONVERTER_OPTIONS_def isConverterPathAllowed_def)

lemma templates_ok:
  "list_all (\<lambda>(v, l, rs). rs \<noteq> [] \<and> list_all (\<lambda>r. route_ok url (normalizeAdvancedCustomRoute r)) rs \<and>
     sorted_wrt unambiguous (map normalizeAdvancedCustomRoute rs)) TEMPLATE_OPTIONS"
proof -
  have "path_entered p \<Longrightarrow> trim p = p" for p by (simp add: path_entered_def)
  note trimmed = constant_paths [THEN this] template_paths [THEN this]
  have c: "isAdvancedCustomConverter ''none''" "isAdvancedCustomConverter ''openai_chat_completions_to_gemini_generate_content''"
    by (simp_all add: isAdvancedCustomConverter_def CONVERTER_OPTIONS_def)
  have "route_ok url (normalizeAdvancedCustomRoute (route_of ''/v1/chat/completions'' ''/v1beta/models/{model}:generateContent''
      ''openai_chat_completions_to_gemini_generate_content'' (Some geminiQueryAuth)))"
    by (intro offered_route_ok constant_paths c) (simp_all add: isConverterPathAllowed_def MODEL_LIST_PATH_def)
  moreover have "\<lbrakk>path_entered p; p \<noteq> ''/v1/models''; a \<in> {bearerHeaderAuth, apiKeyHeaderAuth, geminiQueryAuth}\<rbrakk> \<Longrightarrow>
      route_ok url (normalizeAdvancedCustomRoute (native p a))" for p a
    using native_ok unfolding MODEL_LIST_PATH_def by blast
  ultimately show ?thesis
    using constant_paths template_paths by (simp add: TEMPLATE_OPTIONS_def unambiguous_def offered_fields trimmed)
qed

lemma template_accepted: "validateAdvancedCustomConfig url (Some (Some (getAdvancedCustomTemplateConfig key))) = None"
proof -
  define rs where "rs = getAdvancedCustomTemplateConfig key"
  have "\<exists>v l. (v, l, rs) \<in> set TEMPLATE_OPTIONS"
  proof (cases "find (\<lambda>(v, l, c). v = key) TEMPLATE_OPTIONS")
    case None
    then have "rs = snd (snd (hd TEMPLATE_OPTIONS))" by (simp add: rs_def getAdvancedCustomTemplateConfig_def)
    then show ?thesis by (auto simp: TEMPLATE_OPTIONS_def)
  next
    case (Some x)
    then have "x \<in> set TEMPLATE_OPTIONS" by (auto simp: find_Some_iff) (metis nth_mem)
    with Some show ?thesis by (cases x) (auto simp: rs_def getAdvancedCustomTemplateConfig_def)
  qed
  with templates_ok [of url] have "rs \<noteq> []" "list_all (\<lambda>r. route_ok url (normalizeAdvancedCustomRoute r)) rs"
    "sorted_wrt unambiguous (map normalizeAdvancedCustomRoute rs)" by (auto simp: list_all_iff)
  then show ?thesis
    by (simp add: accepted_iff rs_def [symmetric] normalizeAdvancedCustomConfig_def list.pred_map comp_def)
qed

end
