(* ===== verification/Channel_Form.thy ===== *)
theory Channel_Form
  imports Channel_Utils Advanced_Custom Param_Override
begin

text \<open>
  The form that creates and edits a channel (\<^verbatim>\<open>web/src/features/channels/lib/channel-form.ts\<close>, the reading and writing
  of routes in \<^verbatim>\<open>lib/advanced-custom.ts\<close>, and the request of \<^verbatim>\<open>hooks/use-channel-mutate-form.ts\<close>): the schema that
  accepts the values, the values shown for a channel, the texts stored in \<^verbatim>\<open>setting\<close> and \<^verbatim>\<open>settings\<close>, and the payloads.

  The members that are read from stored JSON without a test of their type are \<open>js_value\<close>; \<open>None\<close> as a result is a
  \<^verbatim>\<open>TypeError\<close>.  The URL parser of the browser is an argument.
\<close>

section \<open>Reading and writing routes\<close>

definition js_or :: "js_value \<Rightarrow> js_value \<Rightarrow> js_value" where
  "js_or v d = (if truthy v then v else d)"

text \<open>\<^verbatim>\<open>value.trim()\<close>: anything but a text has no such method.\<close>

definition js_trim :: "js_value \<Rightarrow> string option" where
  "js_trim v = (case v of JString s \<Rightarrow> Some (trim s) | _ \<Rightarrow> None)"

definition stored_models :: "js_value \<Rightarrow> string list option" where
  "stored_models v =
     (case v of JArray ms \<Rightarrow> map_option (filter (\<lambda>m. m \<noteq> [])) (those (map js_trim ms)) | _ \<Rightarrow> Some [])"

definition stored_auth :: "js_value \<Rightarrow> js_value" where
  "stored_auth a = JObject
     (put_if (js_get a ''type'' \<noteq> JUndefined) ''type'' (js_get a ''type'') [] @
      [(''name'', js_or (js_get a ''name'') (JString [])), (''value'', js_or (js_get a ''value'') (JString []))])"

text \<open>\<^verbatim>\<open>normalizeAdvancedCustomRoute\<close> on a value read from JSON.\<close>

definition stored_route :: "js_value \<Rightarrow> js_value option" where
  "stored_route route =
     (if route = JNull \<or> route = JUndefined then None
      else case js_trim (js_or (js_get route ''upstream_path'') (JString [])) of
        None \<Rightarrow> None
      | Some upstream \<Rightarrow>
          (case stored_models (js_get route ''models'') of
             None \<Rightarrow> None
           | Some ms \<Rightarrow>
               let a = js_get route ''auth'' in
               Some (JObject (put_if (truthy a) ''auth'' (stored_auth a)
                 (put_if (ms \<noteq> []) ''models'' (JArray (map JString ms))
                   [(''incoming_path'', js_or (js_get route ''incoming_path'') (JString [])),
                    (''upstream_path'', JString upstream),
                    (''converter'', js_or (js_get route ''converter'') (JString ''none''))])))))"

definition stored_config :: "js_value \<Rightarrow> js_value option" where
  "stored_config config =
     map_option (\<lambda>routes. JObject [(''advanced_routes'', JArray routes)])
       (case js_get config ''advanced_routes'' of JArray rs \<Rightarrow> those (map stored_route rs) | _ \<Rightarrow> Some [])"

definition parseAdvancedCustomConfig :: "string option \<Rightarrow> js_value option" where
  "parseAdvancedCustomConfig v =
     (if trim (or_text v []) = [] then None
      else case json_parse (or_text v []) of
        Some (JObject fs) \<Rightarrow> stored_config (JObject fs)
      | _ \<Rightarrow> None)"

definition stringifyAdvancedCustomConfig :: "js_value \<Rightarrow> string option" where
  "stringifyAdvancedCustomConfig config = map_option pretty (stored_config config)"

text \<open>The typed view of a stored configuration, which the validation works on.  A member of the wrong type is shown as
  one that the validation refuses, where the source refuses it or raises.\<close>

definition text_member :: "js_value \<Rightarrow> string \<Rightarrow> string option" where
  "text_member v k = (case js_get v k of JString s \<Rightarrow> Some s | _ \<Rightarrow> None)"

definition route_view :: "js_value \<Rightarrow> Route" where
  "route_view r =
     \<lparr>incoming_path = text_member r ''incoming_path'', upstream_path = text_member r ''upstream_path'',
      converter = (case js_get r ''converter'' of JString s \<Rightarrow> Some s | JUndefined \<Rightarrow> None | _ \<Rightarrow> Some ''?''),
      models = (case js_get r ''models'' of JArray ms \<Rightarrow> Some (map string_of ms) | _ \<Rightarrow> None),
      auth = (case js_get r ''auth'' of
          JUndefined \<Rightarrow> None
        | a \<Rightarrow> Some \<lparr>auth_type = string_of (js_get a ''type''), auth_name = text_member a ''name'',
            auth_value = text_member a ''value''\<rparr>)\<rparr>"

definition config_view :: "js_value \<Rightarrow> AdvancedCustomConfig" where
  "config_view config = (case js_get config ''advanced_routes'' of JArray rs \<Rightarrow> Some (map route_view rs) | _ \<Rightarrow> None)"

section \<open>The values of the form\<close>

record ChannelFormValues =
  f_name :: string
  f_type :: rat
  f_base_url :: "string option"
  f_key :: string
  f_openai_organization :: "string option"
  f_models :: string
  f_group :: "string list"
  f_model_mapping :: "string option"
  f_priority :: "rat option"
  f_weight :: "rat option"
  f_test_model :: "string option"
  f_auto_ban :: "rat option"
  f_status :: "rat option"
  f_status_code_mapping :: "string option"
  f_tag :: "string option"
  f_remark :: "string option"
  f_setting :: "string option"
  f_param_override :: "string option"
  f_header_override :: "string option"
  f_settings :: "string option"
  f_advanced_custom :: "string option"
  f_other :: "string option"
  f_multi_key_mode :: "string option"
  f_multi_key_type :: "string option"
  f_batch_add_set_key_prefix_2_name :: "bool option"
  f_key_mode :: "string option"
  f_force_format :: js_value
  f_thinking_to_content :: js_value
  f_proxy :: js_value
  f_pass_through_body_enabled :: js_value
  f_system_prompt :: js_value
  f_system_prompt_override :: js_value
  f_is_enterprise_account :: "bool option"
  f_vertex_key_type :: js_value
  f_aws_key_type :: js_value
  f_azure_responses_version :: js_value
  f_allow_service_tier :: "bool option"
  f_disable_store :: "bool option"
  f_allow_safety_identifier :: "bool option"
  f_allow_include_obfuscation :: "bool option"
  f_allow_inference_geo :: "bool option"
  f_allow_speed :: "bool option"
  f_claude_beta_query :: "bool option"
  f_disable_task_polling_sleep :: "bool option"
  f_upstream_model_update_check_enabled :: "bool option"
  f_upstream_model_update_auto_sync_enabled :: "bool option"
  f_upstream_model_update_ignored_models :: "string option"

definition CHANNEL_FORM_DEFAULT_VALUES :: ChannelFormValues where
  "CHANNEL_FORM_DEFAULT_VALUES = \<lparr>
     f_name = [], f_type = 1, f_base_url = Some [], f_key = [], f_openai_organization = Some [], f_models = [],
     f_group = [''default''], f_model_mapping = Some [], f_priority = Some 0, f_weight = Some 0,
     f_test_model = Some [], f_auto_ban = Some 1, f_status = Some 1, f_status_code_mapping = Some [], f_tag = Some [],
     f_remark = Some [], f_setting = Some [], f_param_override = Some [], f_header_override = Some [],
     f_settings = Some ''{}'', f_advanced_custom = Some [], f_other = Some [], f_multi_key_mode = Some ''single'',
     f_multi_key_type = Some ''random'', f_batch_add_set_key_prefix_2_name = Some False, f_key_mode = Some ''append'',
     f_force_format = JBool False, f_thinking_to_content = JBool False, f_proxy = JString [],
     f_pass_through_body_enabled = JBool False, f_system_prompt = JString [], f_system_prompt_override = JBool False,
     f_is_enterprise_account = Some False, f_vertex_key_type = JString ''json'', f_aws_key_type = JString ''ak_sk'',
     f_azure_responses_version = JString [], f_allow_service_tier = Some False, f_disable_store = Some False,
     f_allow_safety_identifier = Some False, f_allow_include_obfuscation = Some False,
     f_allow_inference_geo = Some False, f_allow_speed = Some False, f_claude_beta_query = Some False,
     f_disable_task_polling_sleep = Some False, f_upstream_model_update_check_enabled = Some False,
     f_upstream_model_update_auto_sync_enabled = Some False, f_upstream_model_update_ignored_models = Some []\<rparr>"

section \<open>Validation\<close>

text \<open>The protocol, the host name and the port that \<^verbatim>\<open>new URL\<close> gives for a proxy address.\<close>

type_synonym proxy_parser = "string \<Rightarrow> (string \<times> string \<times> string) option"

definition isOptionalProxyURL :: "proxy_parser \<Rightarrow> string \<Rightarrow> bool" where
  "isOptionalProxyURL purl v =
     (let trimmedValue = trim v in
      if trimmedValue = [] then True
      else case index_of ''://'' trimmedValue of
        None \<Rightarrow> False
      | Some i \<Rightarrow>
          if i = 0 then False
          else let suffix = dropWhile (\<lambda>c. c \<notin> set ''/?#'') (drop (i + 3) trimmedValue) in
            if suffix \<noteq> [] \<and> suffix \<noteq> ''/'' then False
            else (case purl trimmedValue of
                None \<Rightarrow> False
              | Some (protocol, hostname, port) \<Rightarrow>
                  protocol \<in> {''http:'', ''https:'', ''socks5:'', ''socks5h:''} \<and> hostname \<noteq> [] \<and> port \<noteq> ''0''))"

text \<open>The outer \<open>None\<close> is the \<^verbatim>\<open>SyntaxError\<close>, the inner one \<^verbatim>\<open>undefined\<close>.\<close>

definition parseOptionalJson :: "string option \<Rightarrow> js_value option option" where
  "parseOptionalJson v =
     (if trim (or_text v []) = [] then Some None else map_option Some (json_parse (or_text v [])))"

definition isOptionalJsonObject :: "string option \<Rightarrow> bool" where
  "isOptionalJsonObject v =
     (case parseOptionalJson v of None \<Rightarrow> False | Some None \<Rightarrow> True | Some (Some w) \<Rightarrow> plain_object w)"

definition isOptionalModelMapping :: "string option \<Rightarrow> bool" where
  "isOptionalModelMapping v =
     (case parseOptionalJson v of
        None \<Rightarrow> False | Some None \<Rightarrow> True
      | Some (Some (JObject fs)) \<Rightarrow> list_all (\<lambda>(k, w). is_string w) fs | Some (Some _) \<Rightarrow> False)"

definition status_code :: "js_value \<Rightarrow> bool" where
  "status_code v \<longleftrightarrow>
     (case to_number v of Fin r \<Rightarrow> is_integer (JNumber (Fin r)) \<and> 100 \<le> r \<and> r \<le> 599 | _ \<Rightarrow> False)"

definition isOptionalStatusCodeMapping :: "string option \<Rightarrow> bool" where
  "isOptionalStatusCodeMapping v =
     (case parseOptionalJson v of
        None \<Rightarrow> False | Some None \<Rightarrow> True
      | Some (Some (JObject fs)) \<Rightarrow> list_all (\<lambda>(from, to). status_code (JString from) \<and> status_code to) fs
      | Some (Some _) \<Rightarrow> False)"

definition nonblank_member :: "(string \<times> js_value) list \<Rightarrow> string \<Rightarrow> bool" where
  "nonblank_member fs k \<longleftrightarrow> (case js_get (JObject fs) k of JString s \<Rightarrow> trim s \<noteq> [] | _ \<Rightarrow> False)"

definition isCodexCredential :: "string option \<Rightarrow> bool" where
  "isCodexCredential v =
     (case parseOptionalJson v of
        None \<Rightarrow> False | Some None \<Rightarrow> True
      | Some (Some (JObject fs)) \<Rightarrow> nonblank_member fs ''access_token'' \<and> nonblank_member fs ''account_id''
      | Some (Some _) \<Rightarrow> False)"

definition isVertexJsonKey :: "string option \<Rightarrow> bool" where
  "isVertexJsonKey v =
     (case parseOptionalJson v of
        None \<Rightarrow> False | Some None \<Rightarrow> True
      | Some (Some (JArray xs)) \<Rightarrow> list_all plain_object xs
      | Some (Some w) \<Rightarrow> plain_object w)"

text \<open>The types that \<^verbatim>\<open>z.boolean().optional()\<close>, \<^verbatim>\<open>z.string().optional()\<close> and \<^verbatim>\<open>z.enum([...]).optional()\<close> let pass.\<close>

definition opt_boolean :: "js_value \<Rightarrow> bool" where "opt_boolean v \<longleftrightarrow> v = JUndefined \<or> is_boolean v"
definition opt_string :: "js_value \<Rightarrow> bool" where "opt_string v \<longleftrightarrow> v = JUndefined \<or> is_string v"
definition opt_enum :: "string list \<Rightarrow> js_value \<Rightarrow> bool" where
  "opt_enum xs v \<longleftrightarrow> v = JUndefined \<or> v \<in> JString ` set xs"
definition opt_choice :: "string list \<Rightarrow> string option \<Rightarrow> bool" where
  "opt_choice xs v \<longleftrightarrow> v = None \<or> the v \<in> set xs"

definition issue :: "bool \<Rightarrow> string \<Rightarrow> string \<Rightarrow> (string \<times> string) list" where
  "issue b path message = (if b then [(path, message)] else [])"

text \<open>The issues of the members on their own, after the test of their types.\<close>

definition typed_form :: "ChannelFormValues \<Rightarrow> bool" where
  "typed_form d \<longleftrightarrow>
     f_status d \<noteq> None \<and>
     opt_choice [''single'', ''batch'', ''multi_to_single''] (f_multi_key_mode d) \<and>
     opt_choice [''random'', ''polling''] (f_multi_key_type d) \<and>
     opt_choice [''append'', ''replace''] (f_key_mode d) \<and>
     opt_boolean (f_force_format d) \<and> opt_boolean (f_thinking_to_content d) \<and> opt_string (f_proxy d) \<and>
     opt_boolean (f_pass_through_body_enabled d) \<and> opt_string (f_system_prompt d) \<and>
     opt_boolean (f_system_prompt_override d) \<and>
     opt_enum [''json'', ''api_key''] (f_vertex_key_type d) \<and> opt_enum [''ak_sk'', ''api_key''] (f_aws_key_type d) \<and>
     opt_string (f_azure_responses_version d)"

definition member_issues :: "proxy_parser \<Rightarrow> ChannelFormValues \<Rightarrow> (string \<times> string) list" where
  "member_issues purl d =
     issue (f_name d = []) ''name'' ''Channel name is required'' @
     issue (f_type d < 0) ''type'' ''Channel type is required'' @
     issue (f_models d = []) ''models'' ''Models are required'' @
     issue (f_group d = []) ''group'' ''Group is required'' @
     issue (\<not> isOptionalModelMapping (f_model_mapping d)) ''model_mapping''
       ''Model mapping must be a JSON object with string values'' @
     issue (\<not> isOptionalStatusCodeMapping (f_status_code_mapping d)) ''status_code_mapping''
       ''Status code mapping must use valid HTTP status codes'' @
     issue (255 < length (or_text (f_remark d) [])) ''remark'' ''Remark must be less than 255 characters'' @
     issue (\<not> isOptionalJsonObject (f_setting d)) ''setting'' ''Invalid JSON format'' @
     issue (\<not> isOptionalJsonObject (f_param_override d)) ''param_override'' ''Invalid JSON format'' @
     issue (\<not> isOptionalJsonObject (f_header_override d)) ''header_override'' ''Invalid JSON format'' @
     issue (\<not> isOptionalJsonObject (f_settings d)) ''settings'' ''Invalid JSON format'' @
     issue (\<not> isOptionalProxyURL purl (string_of (f_proxy d))) ''proxy''
       ''Proxy address must use HTTP, HTTPS, SOCKS5, or SOCKS5H and include a valid host''"

abbreviation blank :: "string option \<Rightarrow> bool" where "blank v \<equiv> trim (or_text v []) = []"

text \<open>The issues of \<^verbatim>\<open>superRefine\<close>, which look at several members.\<close>

definition advanced_issues :: "url_parser \<Rightarrow> ChannelFormValues \<Rightarrow> (string \<times> string) list" where
  "advanced_issues url d =
     (let config = map_option config_view (parseAdvancedCustomConfig (f_advanced_custom d)) in
      (case validateAdvancedCustomConfig url config of
         None \<Rightarrow> [] | Some e \<Rightarrow> [(''advanced_custom'', err_message e)]) @
      issue (advancedCustomConfigUsesRelativeUpstreamPath config \<and> blank (f_base_url d)) ''base_url''
        ''Base URL is required when an advanced route uses an upstream path'' @
      issue (f_upstream_model_update_check_enabled d = Some True \<and> \<not> hasValidAdvancedCustomModelListRoute url config)
        ''upstream_model_update_check_enabled''
        ''OpenAI Models route is required to enable upstream model checks'')"

definition superRefine :: "url_parser \<Rightarrow> ChannelFormValues \<Rightarrow> (string \<times> string) list" where
  "superRefine url d =
     (let t = f_type d; batch = (or_text (f_multi_key_mode d) ''single'' \<noteq> ''single''); keyed = (trim (f_key d) \<noteq> []) in
      issue (t \<in> {3, 8, 36, 45} \<and> blank (f_base_url d)) ''base_url'' ''Base URL is required for this channel type'' @
      (if t = 58 then advanced_issues url d else []) @
      issue (t \<in> {3, 18, 21, 39, 41, 49} \<and> blank (f_other d)) ''other''
        ''This channel type requires additional configuration'' @
      issue (t = 57 \<and> batch) ''multi_key_mode'' ''Codex channels do not support batch creation'' @
      issue (t = 57 \<and> keyed \<and> \<not> isCodexCredential (Some (f_key d))) ''key''
        ''Codex credential must be a JSON object with access_token and account_id'' @
      issue (t = 41 \<and> f_vertex_key_type d = JString ''json'' \<and> keyed \<and> \<not> isVertexJsonKey (Some (f_key d))) ''key''
        ''Vertex AI service account key must be valid JSON'' @
      issue (t = 41 \<and> f_vertex_key_type d = JString ''api_key'' \<and> batch) ''multi_key_mode''
        ''Vertex AI API Key mode does not support batch creation'')"

text \<open>Whether the form may be submitted.\<close>

definition channelFormSchema :: "url_parser \<Rightarrow> proxy_parser \<Rightarrow> ChannelFormValues \<Rightarrow> bool" where
  "channelFormSchema url purl d \<longleftrightarrow> typed_form d \<and> member_issues purl d = [] \<and> superRefine url d = []"

section \<open>From a channel to the form\<close>

definition parseGroups :: "string \<Rightarrow> string list" where
  "parseGroups groups = (if groups = [] then [] else comma_items groups)"

definition formatGroups :: "string list \<Rightarrow> string" where
  "formatGroups groups = join '','' groups"

definition is_true :: "js_value \<Rightarrow> bool option" where
  "is_true v = Some (v = JBool True)"

text \<open>The two texts of JSON are read member by member into the form; one that cannot be read leaves the defaults.\<close>

definition read_setting :: "string option \<Rightarrow> ChannelFormValues \<Rightarrow> ChannelFormValues" where
  "read_setting setting d =
     (case json_parse (or_text setting []) of
        None \<Rightarrow> d
      | Some parsed \<Rightarrow>
          if or_text setting [] = [] \<or> parsed = JNull then d
          else d\<lparr>f_force_format := js_or (js_get parsed ''force_format'') (JBool False),
                 f_thinking_to_content := js_or (js_get parsed ''thinking_to_content'') (JBool False),
                 f_proxy := js_or (js_get parsed ''proxy'') (JString []),
                 f_pass_through_body_enabled := js_or (js_get parsed ''pass_through_body_enabled'') (JBool False),
                 f_system_prompt := js_or (js_get parsed ''system_prompt'') (JString []),
                 f_system_prompt_override := js_or (js_get parsed ''system_prompt_override'') (JBool False)\<rparr>)"

definition read_settings :: "string \<Rightarrow> ChannelFormValues \<Rightarrow> ChannelFormValues" where
  "read_settings settings d =
     (case json_parse settings of
        None \<Rightarrow> d
      | Some parsed \<Rightarrow>
          if settings = [] \<or> parsed = JNull then d
          else d\<lparr>f_vertex_key_type := js_or (js_get parsed ''vertex_key_type'') (JString ''json''),
                 f_azure_responses_version := js_or (js_get parsed ''azure_responses_version'') (JString []),
                 f_is_enterprise_account := is_true (js_get parsed ''openrouter_enterprise''),
                 f_aws_key_type := js_or (js_get parsed ''aws_key_type'') (JString ''ak_sk''),
                 f_allow_service_tier := is_true (js_get parsed ''allow_service_tier''),
                 f_disable_store := is_true (js_get parsed ''disable_store''),
                 f_allow_safety_identifier := is_true (js_get parsed ''allow_safety_identifier''),
                 f_allow_include_obfuscation := is_true (js_get parsed ''allow_include_obfuscation''),
                 f_allow_inference_geo := is_true (js_get parsed ''allow_inference_geo''),
                 f_allow_speed := is_true (js_get parsed ''allow_speed''),
                 f_claude_beta_query := is_true (js_get parsed ''claude_beta_query''),
                 f_disable_task_polling_sleep := is_true (js_get parsed ''disable_task_polling_sleep''),
                 f_upstream_model_update_check_enabled := is_true (js_get parsed ''upstream_model_update_check_enabled''),
                 f_upstream_model_update_auto_sync_enabled :=
                   is_true (js_get parsed ''upstream_model_update_auto_sync_enabled''),
                 f_upstream_model_update_ignored_models :=
                   Some (case js_get parsed ''upstream_model_update_ignored_models'' of
                       JArray xs \<Rightarrow> to_text (JArray xs) | _ \<Rightarrow> []),
                 f_advanced_custom :=
                   (if truthy (js_get parsed ''advanced_custom'')
                    then (case stringifyAdvancedCustomConfig (js_get parsed ''advanced_custom'') of
                        Some s \<Rightarrow> Some s | None \<Rightarrow> f_advanced_custom d)
                    else f_advanced_custom d)\<rparr>)"

definition transformChannelToFormDefaults :: "Channel \<Rightarrow> ChannelFormValues" where
  "transformChannelToFormDefaults channel =
     read_settings (ch_settings channel) (read_setting (ch_setting channel) \<lparr>
       f_name = ch_name channel, f_type = ch_type channel,
       f_base_url = Some (or_text (ch_base_url channel) []), f_key = [],
       f_openai_organization = Some (or_text (ch_openai_organization channel) []), f_models = ch_models channel,
       f_group = parseGroups (or_text (Some (ch_group channel)) ''default''),
       f_model_mapping = Some (or_text (ch_model_mapping channel) []),
       f_priority = Some (case ch_priority channel of Some p \<Rightarrow> p | None \<Rightarrow> 0),
       f_weight = Some (case ch_weight channel of Some w \<Rightarrow> w | None \<Rightarrow> 0),
       f_test_model = Some (or_text (ch_test_model channel) []),
       f_auto_ban = Some (case ch_auto_ban channel of Some b \<Rightarrow> b | None \<Rightarrow> 1),
       f_status = ch_status channel,
       f_status_code_mapping = Some (or_text (ch_status_code_mapping channel) []),
       f_tag = Some (or_text (ch_tag channel) []), f_remark = Some (ch_remark channel),
       f_setting = Some (or_text (ch_setting channel) []),
       f_param_override = Some (or_text (ch_param_override channel) []),
       f_header_override = Some (or_text (ch_header_override channel) []),
       f_settings = Some (or_text (Some (ch_settings channel)) ''{}''), f_advanced_custom = Some [],
       f_other = Some (ch_other channel), f_multi_key_mode = Some ''single'',
       f_multi_key_type = Some (or_text (Some (ci_multi_key_mode (ch_channel_info channel))) ''random''),
       f_batch_add_set_key_prefix_2_name = Some False, f_key_mode = Some ''append'',
       f_force_format = JBool False, f_thinking_to_content = JBool False, f_proxy = JString [],
       f_pass_through_body_enabled = JBool False, f_system_prompt = JString [], f_system_prompt_override = JBool False,
       f_is_enterprise_account = Some False, f_vertex_key_type = JString ''json'', f_aws_key_type = JString ''ak_sk'',
       f_azure_responses_version = JString [], f_allow_service_tier = Some False, f_disable_store = Some False,
       f_allow_safety_identifier = Some False, f_allow_include_obfuscation = Some False,
       f_allow_inference_geo = Some False, f_allow_speed = Some False, f_claude_beta_query = Some False,
       f_disable_task_polling_sleep = Some False, f_upstream_model_update_check_enabled = Some False,
       f_upstream_model_update_auto_sync_enabled = Some False, f_upstream_model_update_ignored_models = Some []\<rparr>)"

section \<open>From the form to a payload\<close>

definition setting_members :: "ChannelFormValues \<Rightarrow> string \<Rightarrow> (string \<times> js_value) list" where
  "setting_members d proxy = [
     (''force_format'', js_or (f_force_format d) (JBool False)),
     (''thinking_to_content'', js_or (f_thinking_to_content d) (JBool False)),
     (''proxy'', JString proxy),
     (''pass_through_body_enabled'', js_or (f_pass_through_body_enabled d) (JBool False)),
     (''system_prompt'', js_or (f_system_prompt d) (JString [])),
     (''system_prompt_override'', js_or (f_system_prompt_override d) (JBool False))]"

definition buildSettingJSON :: "ChannelFormValues \<Rightarrow> string option" where
  "buildSettingJSON d =
     map_option (\<lambda>proxy. json_text (JObject (setting_members d proxy)))
       (if f_proxy d = JUndefined \<or> f_proxy d = JNull then Some [] else js_trim (f_proxy d))"

text \<open>\<^verbatim>\<open>if (b) obj[k] = v; else if (k in obj) delete obj[k]\<close>.\<close>

definition put_or_delete :: "bool \<Rightarrow> string \<Rightarrow> js_value \<Rightarrow> (string \<times> js_value) list \<Rightarrow> (string \<times> js_value) list" where
  "put_or_delete b k v obj = (if b then put k v obj else AList.delete k obj)"

definition flag :: "bool option \<Rightarrow> js_value" where
  "flag b = JBool (b = Some True)"

definition provider_settings :: "ChannelFormValues \<Rightarrow> (string \<times> js_value) list \<Rightarrow> (string \<times> js_value) list" where
  "provider_settings d obj =
     (let t = f_type d;
          obj1 = put_or_delete (t = 41) ''vertex_key_type'' (js_or (f_vertex_key_type d) (JString ''json'')) obj;
          obj2 = put_or_delete (t = 3 \<and> truthy (f_azure_responses_version d)) ''azure_responses_version''
            (f_azure_responses_version d) obj1;
          obj3 = put_or_delete (t = 20) ''openrouter_enterprise'' (flag (f_is_enterprise_account d)) obj2
      in put_or_delete (t = 33) ''aws_key_type'' (js_or (f_aws_key_type d) (JString ''ak_sk'')) obj3)"

definition passthrough_settings :: "ChannelFormValues \<Rightarrow> (string \<times> js_value) list \<Rightarrow> (string \<times> js_value) list" where
  "passthrough_settings d obj =
     (let t = f_type d; openai = (t = 1 \<or> t = 57);
          obj1 = put_or_delete (t = 1 \<or> t = 14 \<or> t = 57) ''allow_service_tier'' (flag (f_allow_service_tier d)) obj;
          obj2 = put_or_delete openai ''disable_store'' (flag (f_disable_store d)) obj1;
          obj3 = put_or_delete openai ''allow_safety_identifier'' (flag (f_allow_safety_identifier d)) obj2;
          obj4 = put_or_delete openai ''allow_include_obfuscation'' (flag (f_allow_include_obfuscation d)) obj3;
          obj5 = (if openai then put ''allow_inference_geo'' (flag (f_allow_inference_geo d)) obj4
                  else if t \<noteq> 14 then AList.delete ''allow_inference_geo'' obj4 else obj4);
          obj6 = put_if (t = 14) ''allow_inference_geo'' (flag (f_allow_inference_geo d)) obj5;
          obj7 = put_or_delete (t = 14) ''allow_speed'' (flag (f_allow_speed d)) obj6;
          obj8 = put_or_delete (t = 14) ''claude_beta_query'' (flag (f_claude_beta_query d)) obj7
      in put ''disable_task_polling_sleep'' (flag (f_disable_task_polling_sleep d)) obj8)"

definition MODEL_FETCHABLE_TYPES :: "rat list" where
  "MODEL_FETCHABLE_TYPES = [1, 4, 14, 17, 20, 23, 24, 25, 26, 27, 31, 34, 35, 40, 42, 43, 47, 48, 57, 58]"

definition ignored_models :: "ChannelFormValues \<Rightarrow> string list" where
  "ignored_models d = uniq (comma_items (or_text (f_upstream_model_update_ignored_models d) []))"

definition is_array :: "js_value \<Rightarrow> bool" where
  "is_array v = (case v of JArray _ \<Rightarrow> True | _ \<Rightarrow> False)"

definition upstream_settings :: "ChannelFormValues \<Rightarrow> (string \<times> js_value) list \<Rightarrow> (string \<times> js_value) list" where
  "upstream_settings d obj =
     (if f_type d \<in> set MODEL_FETCHABLE_TYPES then
        let check = (f_upstream_model_update_check_enabled d = Some True);
            obj1 = put ''upstream_model_update_check_enabled'' (JBool check) obj;
            obj2 = put ''upstream_model_update_auto_sync_enabled''
              (JBool (check \<and> f_upstream_model_update_auto_sync_enabled d = Some True)) obj1;
            obj3 = put ''upstream_model_update_ignored_models'' (JArray (map JString (ignored_models d))) obj2;
            obj4 = put_if (\<not> is_array (js_get (JObject obj3) ''upstream_model_update_last_detected_models'') \<or> \<not> check)
              ''upstream_model_update_last_detected_models'' (JArray []) obj3
        in put_if (\<not> is_number (js_get (JObject obj4) ''upstream_model_update_last_check_time''))
             ''upstream_model_update_last_check_time'' (JNumber (Fin 0)) obj4
      else obj)"

definition route_settings :: "ChannelFormValues \<Rightarrow> (string \<times> js_value) list \<Rightarrow> (string \<times> js_value) list" where
  "route_settings d obj =
     (if f_type d = 58 then
        (case parseAdvancedCustomConfig (f_advanced_custom d) of
           Some config \<Rightarrow> put ''advanced_custom'' config obj
         | None \<Rightarrow> obj)
      else AList.delete ''advanced_custom'' obj)"

definition write_settings :: "ChannelFormValues \<Rightarrow> (string \<times> js_value) list \<Rightarrow> (string \<times> js_value) list" where
  "write_settings d obj = route_settings d (upstream_settings d (passthrough_settings d (provider_settings d obj)))"

definition existing_settings :: "ChannelFormValues \<Rightarrow> js_value" where
  "existing_settings d =
     (let s = or_text (f_settings d) [] in
      if s \<noteq> [] \<and> s \<noteq> ''{}'' then (case json_parse s of Some v \<Rightarrow> v | None \<Rightarrow> JObject []) else JObject [])"

text \<open>Members assigned to an array are not written by \<^verbatim>\<open>JSON.stringify\<close>; \<^verbatim>\<open>in\<close> and assignment raise on \<^verbatim>\<open>null\<close>,
  numbers, texts and booleans.\<close>

definition buildSettingsJSON :: "ChannelFormValues \<Rightarrow> string option" where
  "buildSettingsJSON d =
     (case existing_settings d of
        JObject obj \<Rightarrow> Some (json_text (JObject (write_settings d obj)))
      | JArray xs \<Rightarrow> Some (json_text (JArray xs))
      | _ \<Rightarrow> None)"

definition normalizeBaseUrl :: "string option \<Rightarrow> string" where
  "normalizeBaseUrl v = rev (dropWhile (\<lambda>c. c = CHR ''/'') (rev (trim (or_text v []))))"

type_synonym payload = "(string \<times> js_value) list"

definition text_or_null :: "string option \<Rightarrow> js_value" where
  "text_or_null v = (if or_text v [] = [] then JNull else JString (or_text v []))"

definition sent_text :: "string option \<Rightarrow> js_value" where
  "sent_text v = JString (or_text v [])"

definition number_or :: "rat option \<Rightarrow> rat \<Rightarrow> js_value" where
  "number_or v d = JNumber (Fin (case v of Some r \<Rightarrow> r | None \<Rightarrow> d))"


definition empty_to_null :: "payload \<Rightarrow> payload" where
  "empty_to_null p = map (\<lambda>(k, v). (k, if v = JString [] then JNull else v)) p"



definition update_members :: "ChannelFormValues \<Rightarrow> rat \<Rightarrow> string \<Rightarrow> string \<Rightarrow> payload" where
  "update_members d channelId setting settings = [
     (''id'', JNumber (Fin channelId)), (''name'', JString (f_name d)), (''type'', JNumber (Fin (f_type d))),
     (''base_url'', text_or_null (Some (normalizeBaseUrl (f_base_url d)))),
     (''openai_organization'', text_or_null (f_openai_organization d)), (''models'', JString (f_models d)),
     (''group'', JString (formatGroups (f_group d))), (''model_mapping'', text_or_null (f_model_mapping d)),
     (''priority'', number_or (f_priority d) 0), (''weight'', number_or (f_weight d) 0),
     (''test_model'', text_or_null (f_test_model d)), (''auto_ban'', number_or (f_auto_ban d) 1),
     (''status_code_mapping'', text_or_null (f_status_code_mapping d)), (''tag'', text_or_null (f_tag d)),
     (''remark'', sent_text (f_remark d)), (''setting'', JString setting),
     (''param_override'', text_or_null (f_param_override d)),
     (''header_override'', text_or_null (f_header_override d)), (''settings'', JString settings),
     (''other'', sent_text (f_other d))]"

definition clearable_members :: "ChannelFormValues \<Rightarrow> payload" where
  "clearable_members d = [
     (''base_url'', JString (normalizeBaseUrl (f_base_url d))),
     (''openai_organization'', sent_text (f_openai_organization d)), (''test_model'', sent_text (f_test_model d)),
     (''tag'', sent_text (f_tag d)), (''remark'', sent_text (f_remark d)),
     (''model_mapping'', sent_text (f_model_mapping d)),
     (''status_code_mapping'', sent_text (f_status_code_mapping d)),
     (''param_override'', sent_text (f_param_override d)), (''header_override'', sent_text (f_header_override d))]"

definition transformFormDataToUpdatePayload :: "ChannelFormValues \<Rightarrow> rat \<Rightarrow> payload option" where
  "transformFormDataToUpdatePayload d channelId =
     (case (buildSettingJSON d, buildSettingsJSON d) of
        (Some setting, Some settings) \<Rightarrow>
          let p0 = update_members d channelId setting settings;
              p1 = put_if (trim (f_key d) \<noteq> []) ''key'' (JString (f_key d)) p0
          in Some (fold (\<lambda>(k, v). put k v) (clearable_members d) (empty_to_null p1))
      | _ \<Rightarrow> None)"

section \<open>The request\<close>

definition SENSITIVE_UPDATE_FIELDS :: "string list" where
  "SENSITIVE_UPDATE_FIELDS = [''type'', ''key'', ''base_url'', ''openai_organization'', ''param_override'', ''header_override'',
     ''setting'', ''settings'', ''other'']"


text \<open>The body of the mutation up to the request: \<open>currentRow\<close> is the identifier of the channel that is edited.\<close>

definition update_request :: "bool \<Rightarrow> bool \<Rightarrow> ChannelFormValues \<Rightarrow> rat \<Rightarrow> payload option" where
  "update_request canEditSensitive isMultiKey d channelId =
     map_option (\<lambda>p0.
        let keyed = (trim (f_key d) \<noteq> []);
            p1 = (if keyed then p0 else AList.delete ''key'' p0);
            p2 = (if canEditSensitive then p1 else fold AList.delete SENSITIVE_UPDATE_FIELDS p1)
        in put_if (canEditSensitive \<and> isMultiKey \<and> keyed \<and> or_text (f_key_mode d) [] \<noteq> []) ''key_mode''
             (sent_text (f_key_mode d)) p2)
       (transformFormDataToUpdatePayload d channelId)"


definition validateJSON :: "string \<Rightarrow> bool" where
  "validateJSON v \<longleftrightarrow> trim v = [] \<or> json_parse v \<noteq> None"

definition validateModelMapping :: "string \<Rightarrow> bool" where
  "validateModelMapping v \<longleftrightarrow> trim v = [] \<or> validateJSON v"

definition parseModels :: "string \<Rightarrow> string list" where
  "parseModels ms = (if ms = [] then [] else comma_items ms)"

definition formatModels :: "string list \<Rightarrow> string" where
  "formatModels ms = join '','' ms"

section \<open>Assignments and deletions\<close>

lemma map_of_delete [simp]: "map_of (AList.delete k p) j = (if j = k then None else map_of p j)"
  by (simp add: delete_conv)

lemma map_of_put_or_delete [simp]:
  "map_of (put_or_delete b k v p) j = (if j = k then if b then Some v else None else map_of p j)"
  by (simp add: put_or_delete_def)

lemma safe_delete: "json_safe (JObject p) \<Longrightarrow> json_safe (JObject (AList.delete k p))"
  using distinct_delete [of p k] by (auto simp: list_all_iff AList.delete_eq)

lemma safe_put_or_delete:
  "json_safe (JObject p) \<Longrightarrow> (b \<Longrightarrow> json_safe v) \<Longrightarrow> json_safe (JObject (put_or_delete b k v p))"
  by (cases b) (simp_all add: put_or_delete_def safe_put safe_delete del: json_safe.simps)

lemma put_same: "map_of p k = Some v \<Longrightarrow> put k v p = p"
  unfolding put_def by (induction p) (auto split: if_splits)

lemma delete_same: "map_of p k = None \<Longrightarrow> AList.delete k p = p"
  by (induction p) (auto split: if_splits)

lemma put_if_same: "(b \<Longrightarrow> map_of p k = Some v) \<Longrightarrow> put_if b k v p = p"
  by (simp add: put_if_def put_same)

lemma put_or_delete_same: "map_of p k = (if b then Some v else None) \<Longrightarrow> put_or_delete b k v p = p"
  by (cases b) (simp_all add: put_or_delete_def put_same delete_same)

lemmas unchanged = put_same delete_same put_if_same put_or_delete_same

lemma js_or_idem [simp]: "js_or (js_or v d) d = js_or v d"
  by (simp add: js_or_def)

lemma js_or_text [simp]: "js_or (JString s) (JString []) = JString s"
  by (simp add: js_or_def)

lemma safe_member: "json_safe r \<Longrightarrow> k \<noteq> ''length'' \<Longrightarrow> js_get r k = JUndefined \<or> json_safe (js_get r k)"
proof (cases r)
  case (JObject fs)
  assume "json_safe r"
  with JObject show ?thesis by (auto simp: list_all_iff split: option.splits dest: map_of_SomeD)
qed simp_all

lemma safe_js_or: "json_safe r \<Longrightarrow> k \<noteq> ''length'' \<Longrightarrow> json_safe d \<Longrightarrow> json_safe (js_or (js_get r k) d)"
  using safe_member [of r k] by (auto simp: js_or_def)

section \<open>Stored routes\<close>

lemma those_map: "those (map f xs) = Some ys \<longleftrightarrow> list_all2 (\<lambda>x y. f x = Some y) xs ys"
proof (induction xs arbitrary: ys)
  case Nil
  then show ?case by auto
next
  case (Cons x xs)
  then show ?case by (cases ys) (auto split: option.splits)
qed

lemma stored_models_trimmed:
  assumes "stored_models v = Some ms" and "m \<in> set ms"
  shows "trim m = m \<and> m \<noteq> []"
proof -
  from assms obtain xs ys where "v = JArray xs" "those (map js_trim xs) = Some ys" and ms: "ms = filter (\<lambda>m. m \<noteq> []) ys"
    by (auto simp: stored_models_def split: js_value.splits)
  then have ys: "list_all2 (\<lambda>x y. js_trim x = Some y) xs ys" by (simp add: those_map)
  from assms(2) ms have "m \<in> set ys" "m \<noteq> []" by auto
  with ys obtain x where "js_trim x = Some m" by (auto simp: list_all2_conv_all_nth in_set_conv_nth)
  with \<open>m \<noteq> []\<close> show ?thesis by (auto simp: js_trim_def split: js_value.splits)
qed

lemma stored_models_again:
  assumes "\<And>m. m \<in> set ms \<Longrightarrow> trim m = m \<and> m \<noteq> []"
  shows "stored_models (JArray (map JString ms)) = Some ms"
proof -
  have "those (map js_trim (map JString ms)) = Some ms"
    unfolding those_map by (simp add: list.rel_map js_trim_def assms list.rel_refl_strong)
  then show ?thesis using assms by (simp add: stored_models_def filter_id_conv)
qed

lemma stored_auth_get [simp]:
  "js_get (stored_auth a) ''type'' = js_get a ''type''"
  "js_get (stored_auth a) ''name'' = js_or (js_get a ''name'') (JString [])"
  "js_get (stored_auth a) ''value'' = js_or (js_get a ''value'') (JString [])"
  by (simp_all add: stored_auth_def put_if_def put_def)

lemma stored_auth_again: "stored_auth (stored_auth a) = stored_auth a"
  by (simp only: stored_auth_def [of "stored_auth a"] stored_auth_get js_or_idem) (simp add: stored_auth_def)

lemma stored_auth_truthy [simp]: "truthy (stored_auth a)" "stored_auth a \<noteq> JUndefined"
  by (simp_all add: stored_auth_def)

lemma stored_auth_safe: "json_safe a \<Longrightarrow> json_safe (stored_auth a)"
  using safe_member [of a "''type''"] safe_js_or [of a "''name''" "JString []"] safe_js_or [of a "''value''" "JString []"]
  by (auto simp: stored_auth_def put_if_def put_def)

text \<open>A stored route in terms of its parts.\<close>

definition route_object :: "js_value \<Rightarrow> string \<Rightarrow> js_value \<Rightarrow> string list \<Rightarrow> js_value \<Rightarrow> js_value" where
  "route_object path upstream conv ms a =
     JObject (put_if (truthy a) ''auth'' (stored_auth a)
       (put_if (ms \<noteq> []) ''models'' (JArray (map JString ms))
         [(''incoming_path'', path), (''upstream_path'', JString upstream), (''converter'', conv)]))"

lemma route_object_get [simp]:
  "js_get (route_object path upstream conv ms a) ''incoming_path'' = path"
  "js_get (route_object path upstream conv ms a) ''upstream_path'' = JString upstream"
  "js_get (route_object path upstream conv ms a) ''converter'' = conv"
  "js_get (route_object path upstream conv ms a) ''models'' = (if ms \<noteq> [] then JArray (map JString ms) else JUndefined)"
  "js_get (route_object path upstream conv ms a) ''auth'' = (if truthy a then stored_auth a else JUndefined)"
  by (simp_all add: route_object_def)

lemma route_object_defined [simp]: "route_object path upstream conv ms a \<noteq> JNull" "route_object path upstream conv ms a \<noteq> JUndefined"
  by (simp_all add: route_object_def)

lemma stored_route_object:
  assumes "stored_route r = Some r'"
  obtains upstream ms where "js_trim (js_or (js_get r ''upstream_path'') (JString [])) = Some upstream"
    and "stored_models (js_get r ''models'') = Some ms"
    and "r' = route_object (js_or (js_get r ''incoming_path'') (JString [])) upstream
      (js_or (js_get r ''converter'') (JString ''none'')) ms (js_get r ''auth'')"
  using assms by (auto simp: stored_route_def route_object_def Let_def split: if_splits option.splits)

lemma stored_route_again: "stored_route r = Some r' \<Longrightarrow> stored_route r' = Some r'"
proof -
  assume "stored_route r = Some r'"
  then obtain upstream ms where up: "js_trim (js_or (js_get r ''upstream_path'') (JString [])) = Some upstream"
    and ms: "stored_models (js_get r ''models'') = Some ms"
    and r': "r' = route_object (js_or (js_get r ''incoming_path'') (JString [])) upstream
      (js_or (js_get r ''converter'') (JString ''none'')) ms (js_get r ''auth'')" by (rule stored_route_object)
  have up': "js_trim (JString upstream) = Some upstream"
    using up by (auto simp: js_trim_def split: js_value.splits)
  have ms': "stored_models (if ms \<noteq> [] then JArray (map JString ms) else JUndefined) = Some ms"
    using stored_models_again [OF stored_models_trimmed [OF ms]] by (auto simp: stored_models_def)
  let ?a = "js_get r ''auth''"
  have a': "put_if (truthy (if truthy ?a then stored_auth ?a else JUndefined)) ''auth''
      (stored_auth (if truthy ?a then stored_auth ?a else JUndefined)) = put_if (truthy ?a) ''auth'' (stored_auth ?a)"
    by (auto simp: stored_auth_again put_if_def fun_eq_iff)
  show ?thesis
    unfolding r' stored_route_def route_object_get js_or_text up' ms' option.case Let_def js_or_idem a'
    by (simp add: route_object_def)
qed

lemma stored_route_safe:
  assumes "stored_route r = Some r'" and safe: "json_safe r"
  shows "json_safe r'"
proof -
  from assms(1) obtain upstream ms where r': "r' = route_object (js_or (js_get r ''incoming_path'') (JString [])) upstream
      (js_or (js_get r ''converter'') (JString ''none'')) ms (js_get r ''auth'')" by (rule stored_route_object)
  have "json_safe (stored_auth (js_get r ''auth''))" if "truthy (js_get r ''auth'')"
    using safe_member [OF safe, of "''auth''"] that by (auto simp: stored_auth_safe)
  moreover have "json_safe (JObject [(''incoming_path'', js_or (js_get r ''incoming_path'') (JString [])),
      (''upstream_path'', JString upstream), (''converter'', js_or (js_get r ''converter'') (JString ''none''))])"
    using safe_js_or [OF safe, of "''incoming_path''" "JString []"] safe_js_or [OF safe, of "''converter''" "JString ''none''"]
    by simp
  moreover have "json_safe (JArray (map JString ms))" by (simp add: list_all_iff)
  ultimately show ?thesis unfolding r' route_object_def by (intro safe_put_if)
qed

lemma stored_config_routes:
  assumes "stored_config v = Some w"
  obtains rs ys where "js_get v ''advanced_routes'' = JArray rs \<or> rs = []"
    and "list_all2 (\<lambda>r y. stored_route r = Some y) rs ys" and "w = JObject [(''advanced_routes'', JArray ys)]"
  using assms
  by (cases "js_get v ''advanced_routes''") (auto simp: stored_config_def those_map)

lemma stored_config_again: "stored_config v = Some w \<Longrightarrow> stored_config w = Some w \<and> (\<exists>fs. w = JObject fs)"
proof -
  assume "stored_config v = Some w"
  then obtain rs ys where ys: "list_all2 (\<lambda>r y. stored_route r = Some y) rs ys"
    and w: "w = JObject [(''advanced_routes'', JArray ys)]" by (rule stored_config_routes)
  have "stored_route y = Some y" if "y \<in> set ys" for y
    using ys that stored_route_again by (fastforce simp: list_all2_conv_all_nth in_set_conv_nth)
  then have "those (map stored_route ys) = Some ys" unfolding those_map by (simp add: list.rel_refl_strong)
  then show ?thesis by (simp add: w stored_config_def)
qed

lemma stored_config_safe: "stored_config v = Some w \<Longrightarrow> json_safe v \<Longrightarrow> json_safe w"
proof -
  assume "stored_config v = Some w" and v: "json_safe v"
  then obtain rs ys where rs: "js_get v ''advanced_routes'' = JArray rs \<or> rs = []"
    and ys: "list_all2 (\<lambda>r y. stored_route r = Some y) rs ys" and w: "w = JObject [(''advanced_routes'', JArray ys)]"
    by (elim stored_config_routes)
  have "json_safe r" if "r \<in> set rs" for r
    using rs that safe_member [OF v, of "''advanced_routes''"] by (auto simp: list_all_iff)
  then have "json_safe y" if "y \<in> set ys" for y
    using ys that stored_route_safe by (fastforce simp: list_all2_conv_all_nth in_set_conv_nth)
  then show ?thesis by (simp add: w list_all_iff)
qed

lemma config_read_back:
  assumes "parseAdvancedCustomConfig x = Some w" and safe: "\<And>v. json_parse (or_text x []) = Some v \<Longrightarrow> json_safe v"
  shows "json_safe w \<and> stringifyAdvancedCustomConfig w = Some (pretty w) \<and> parseAdvancedCustomConfig (Some (pretty w)) = Some w \<and> truthy w"
proof -
  from assms(1) obtain fs where p: "json_parse (or_text x []) = Some (JObject fs)" and w: "stored_config (JObject fs) = Some w"
    by (auto simp: parseAdvancedCustomConfig_def split: if_splits option.splits js_value.splits)
  from w safe [OF p] have s: "json_safe w" by (rule stored_config_safe)
  from stored_config_again [OF w] obtain gs where g: "w = JObject gs" "stored_config w = Some w" by auto
  have "or_text (Some (pretty w)) [] = pretty w" using s by (simp add: pretty_not_empty)
  then show ?thesis
    using s g pretty_round_trip [OF s] by (auto simp: stringifyAdvancedCustomConfig_def parseAdvancedCustomConfig_def)
qed

section \<open>The written settings\<close>

lemma provider_lookup:
  "map_of (provider_settings d obj) k =
     (if k = ''vertex_key_type'' then if f_type d = 41 then Some (js_or (f_vertex_key_type d) (JString ''json'')) else None
      else if k = ''azure_responses_version'' then
        if f_type d = 3 \<and> truthy (f_azure_responses_version d) then Some (f_azure_responses_version d) else None
      else if k = ''openrouter_enterprise'' then if f_type d = 20 then Some (flag (f_is_enterprise_account d)) else None
      else if k = ''aws_key_type'' then if f_type d = 33 then Some (js_or (f_aws_key_type d) (JString ''ak_sk'')) else None
      else map_of obj k)"
  by (simp add: provider_settings_def Let_def)

lemma passthrough_lookup:
  "map_of (passthrough_settings d obj) k =
     (if k = ''allow_service_tier'' then if f_type d \<in> {1, 14, 57} then Some (flag (f_allow_service_tier d)) else None
      else if k = ''disable_store'' then if f_type d \<in> {1, 57} then Some (flag (f_disable_store d)) else None
      else if k = ''allow_safety_identifier'' then
        if f_type d \<in> {1, 57} then Some (flag (f_allow_safety_identifier d)) else None
      else if k = ''allow_include_obfuscation'' then
        if f_type d \<in> {1, 57} then Some (flag (f_allow_include_obfuscation d)) else None
      else if k = ''allow_inference_geo'' then
        if f_type d \<in> {1, 14, 57} then Some (flag (f_allow_inference_geo d)) else None
      else if k = ''allow_speed'' then if f_type d = 14 then Some (flag (f_allow_speed d)) else None
      else if k = ''claude_beta_query'' then if f_type d = 14 then Some (flag (f_claude_beta_query d)) else None
      else if k = ''disable_task_polling_sleep'' then Some (flag (f_disable_task_polling_sleep d))
      else map_of obj k)"
  by (simp add: passthrough_settings_def Let_def)


definition check_on :: "ChannelFormValues \<Rightarrow> bool" where
  "check_on d \<longleftrightarrow> f_upstream_model_update_check_enabled d = Some True"

lemma upstream_lookup:
  "map_of (upstream_settings d obj) k =
     (if f_type d \<notin> set MODEL_FETCHABLE_TYPES then map_of obj k
      else if k = ''upstream_model_update_check_enabled'' then Some (JBool (check_on d))
      else if k = ''upstream_model_update_auto_sync_enabled'' then
        Some (JBool (check_on d \<and> f_upstream_model_update_auto_sync_enabled d = Some True))
      else if k = ''upstream_model_update_ignored_models'' then Some (JArray (map JString (ignored_models d)))
      else if k = ''upstream_model_update_last_detected_models'' then
        if is_array (js_get (JObject obj) k) \<and> check_on d then map_of obj k else Some (JArray [])
      else if k = ''upstream_model_update_last_check_time'' then
        if is_number (js_get (JObject obj) k) then map_of obj k else Some (JNumber (Fin 0))
      else map_of obj k)"
  by (simp add: upstream_settings_def Let_def check_on_def del: js_get.simps is_number_iff)

lemma route_lookup:
  "map_of (route_settings d obj) k =
     (if k = ''advanced_custom'' then
        if f_type d = 58 then
          (case parseAdvancedCustomConfig (f_advanced_custom d) of Some w \<Rightarrow> Some w | None \<Rightarrow> map_of obj k)
        else None
      else map_of obj k)"
  by (simp add: route_settings_def split: option.split)

lemmas settings_lookup = provider_lookup passthrough_lookup upstream_lookup route_lookup

lemma written_lookup:
  "map_of (write_settings d obj) ''vertex_key_type'' = (if f_type d = 41 then Some (js_or (f_vertex_key_type d) (JString ''json'')) else None)"
  "map_of (write_settings d obj) ''azure_responses_version'' =
       (if f_type d = 3 \<and> truthy (f_azure_responses_version d) then Some (f_azure_responses_version d) else None)"
  "map_of (write_settings d obj) ''openrouter_enterprise'' = (if f_type d = 20 then Some (flag (f_is_enterprise_account d)) else None)"
  "map_of (write_settings d obj) ''aws_key_type'' = (if f_type d = 33 then Some (js_or (f_aws_key_type d) (JString ''ak_sk'')) else None)"
  "map_of (write_settings d obj) ''allow_service_tier'' = (if f_type d \<in> {1, 14, 57} then Some (flag (f_allow_service_tier d)) else None)"
  "map_of (write_settings d obj) ''disable_store'' = (if f_type d \<in> {1, 57} then Some (flag (f_disable_store d)) else None)"
  "map_of (write_settings d obj) ''allow_safety_identifier'' = (if f_type d \<in> {1, 57} then Some (flag (f_allow_safety_identifier d)) else None)"
  "map_of (write_settings d obj) ''allow_include_obfuscation'' = (if f_type d \<in> {1, 57} then Some (flag (f_allow_include_obfuscation d)) else None)"
  "map_of (write_settings d obj) ''allow_inference_geo'' = (if f_type d \<in> {1, 14, 57} then Some (flag (f_allow_inference_geo d)) else None)"
  "map_of (write_settings d obj) ''allow_speed'' = (if f_type d = 14 then Some (flag (f_allow_speed d)) else None)"
  "map_of (write_settings d obj) ''claude_beta_query'' = (if f_type d = 14 then Some (flag (f_claude_beta_query d)) else None)"
  "map_of (write_settings d obj) ''disable_task_polling_sleep'' = Some (flag (f_disable_task_polling_sleep d))"
  by (simp_all add: write_settings_def settings_lookup)




lemma flag_safe [simp]: "json_safe (flag b)"
  by (simp add: flag_def)

lemma settings_safe:
  assumes "json_safe (JObject obj)" and "typed_form d"
    and config: "\<And>w. parseAdvancedCustomConfig (f_advanced_custom d) = Some w \<Longrightarrow> json_safe w"
  shows "json_safe (JObject (write_settings d obj))"
proof -
  have v: "json_safe (js_or (f_vertex_key_type d) (JString ''json''))" "json_safe (js_or (f_aws_key_type d) (JString ''ak_sk''))"
    "truthy (f_azure_responses_version d) \<Longrightarrow> json_safe (f_azure_responses_version d)"
    using assms(2) by (auto simp: typed_form_def opt_enum_def opt_string_def js_or_def)
  have p: "json_safe (JObject (provider_settings d obj))"
    unfolding provider_settings_def Let_def using assms(1) v by (intro safe_put_or_delete) simp_all
  have q: "json_safe (JObject (passthrough_settings d (provider_settings d obj)))"
    unfolding passthrough_settings_def Let_def
    by (intro safe_put safe_put_or_delete safe_put_if flag_safe) (use p in \<open>auto intro!: safe_put safe_delete safe_put_or_delete simp del: json_safe.simps(4)\<close>)
  have a: "json_safe (JArray (map JString (ignored_models d)))" "json_safe (JNumber (Fin 0))"
    using decimal_int [of 0] by (simp_all add: list_all_iff)
  have "json_safe (JObject (upstream_settings d (passthrough_settings d (provider_settings d obj))))"
    unfolding upstream_settings_def Let_def using q a by (auto intro!: safe_put_if safe_put simp del: json_safe.simps(4))
  then show ?thesis
    unfolding write_settings_def route_settings_def using config
    by (auto intro: safe_put safe_delete split: option.split simp del: json_safe.simps)
qed

text \<open>The form opened on written settings writes them again.\<close>

definition shows_settings :: "(string \<times> js_value) list \<Rightarrow> ChannelFormValues \<Rightarrow> bool" where
  "shows_settings gs d \<longleftrightarrow>
     f_vertex_key_type d = js_or (js_get (JObject gs) ''vertex_key_type'') (JString ''json'') \<and>
     f_azure_responses_version d = js_or (js_get (JObject gs) ''azure_responses_version'') (JString []) \<and>
     f_is_enterprise_account d = is_true (js_get (JObject gs) ''openrouter_enterprise'') \<and>
     f_aws_key_type d = js_or (js_get (JObject gs) ''aws_key_type'') (JString ''ak_sk'') \<and>
     f_allow_service_tier d = is_true (js_get (JObject gs) ''allow_service_tier'') \<and>
     f_disable_store d = is_true (js_get (JObject gs) ''disable_store'') \<and>
     f_allow_safety_identifier d = is_true (js_get (JObject gs) ''allow_safety_identifier'') \<and>
     f_allow_include_obfuscation d = is_true (js_get (JObject gs) ''allow_include_obfuscation'') \<and>
     f_allow_inference_geo d = is_true (js_get (JObject gs) ''allow_inference_geo'') \<and>
     f_allow_speed d = is_true (js_get (JObject gs) ''allow_speed'') \<and>
     f_claude_beta_query d = is_true (js_get (JObject gs) ''claude_beta_query'') \<and>
     f_disable_task_polling_sleep d = is_true (js_get (JObject gs) ''disable_task_polling_sleep'') \<and>
     f_upstream_model_update_check_enabled d = is_true (js_get (JObject gs) ''upstream_model_update_check_enabled'') \<and>
     f_upstream_model_update_auto_sync_enabled d = is_true (js_get (JObject gs) ''upstream_model_update_auto_sync_enabled'') \<and>
     f_upstream_model_update_ignored_models d =
       Some (case js_get (JObject gs) ''upstream_model_update_ignored_models'' of JArray xs \<Rightarrow> to_text (JArray xs) | _ \<Rightarrow> []) \<and>
     (truthy (js_get (JObject gs) ''advanced_custom'') \<longrightarrow>
        stringifyAdvancedCustomConfig (js_get (JObject gs) ''advanced_custom'') \<noteq> None \<longrightarrow>
        f_advanced_custom d = stringifyAdvancedCustomConfig (js_get (JObject gs) ''advanced_custom''))"

lemma flag_is_true [simp]: "flag (is_true (flag b)) = flag b" "flag (is_true (JBool c)) = JBool c"
  by (simp_all add: flag_def is_true_def)

lemma comma_items_free: "x \<in> set (comma_items s) \<Longrightarrow> CHR '','' \<notin> set x \<and> trim x = x \<and> x \<noteq> []"
  using set_trim split_on_sep_free by (fastforce simp: comma_items_def)

lemma comma_items_join:
  assumes "\<And>x. x \<in> set xs \<Longrightarrow> CHR '','' \<notin> set x \<and> trim x = x \<and> x \<noteq> []"
  shows "comma_items (join '','' xs) = xs"
proof (cases "xs = []")
  case True
  then show ?thesis by (simp add: comma_items_def)
next
  case False
  then have "split_on (CHR '','') (join '','' xs) = xs" using assms by (intro split_on_join) auto
  moreover have "map trim xs = xs" using assms by (intro map_idI) simp
  ultimately show ?thesis using assms by (simp add: comma_items_def filter_id_conv)
qed

lemma ignored_again:
  assumes "f_upstream_model_update_ignored_models d' = Some (to_text (JArray (map JString (ignored_models d))))"
  shows "ignored_models d' = ignored_models d"
proof -
  have items: "CHR '','' \<notin> set x \<and> trim x = x \<and> x \<noteq> []" if "x \<in> set (ignored_models d)" for x
    using that comma_items_free by (simp add: ignored_models_def)
  have "to_text (JArray (map JString (ignored_models d))) = join '','' (ignored_models d)"
    by (simp add: comp_def)
  moreover have "or_text (Some x) [] = x" for x by (cases x) simp_all
  ultimately have "ignored_models d' = uniq (comma_items (join '','' (ignored_models d)))"
    using assms by (simp add: ignored_models_def [of d'])
  also have "\<dots> = uniq (ignored_models d)" by (simp only: comma_items_join [OF items])
  also have "\<dots> = ignored_models d" by (simp add: ignored_models_def)
  finally show ?thesis .
qed

lemma written_again:
  assumes shown: "shows_settings (write_settings d obj) d'" and type: "f_type d' = f_type d"
    and config: "f_type d = 58 \<Longrightarrow> \<exists>w. parseAdvancedCustomConfig (f_advanced_custom d) = Some w \<and> truthy w \<and>
      stringifyAdvancedCustomConfig w = Some (pretty w) \<and> parseAdvancedCustomConfig (Some (pretty w)) = Some w"
  shows "write_settings d' (write_settings d obj) = write_settings d obj"
proof -
  define gs where "gs = write_settings d obj"
  note look = gs_def write_settings_def settings_lookup
  note m = written_lookup [of d obj, folded gs_def]
  note s = shown [unfolded shows_settings_def, folded gs_def]
  have g: "js_get (JObject gs) k = (case map_of gs k of None \<Rightarrow> JUndefined | Some v \<Rightarrow> v)" for k by simp
  have provider: "provider_settings d' gs = gs"
    unfolding provider_settings_def Let_def type
    by (simp add: put_or_delete_same m s g js_or_def del: js_get.simps)
  have passthrough: "passthrough_settings d' gs = gs"
    unfolding passthrough_settings_def Let_def type
    by (simp add: unchanged m s g del: js_get.simps)
  have upstream: "upstream_settings d' gs = gs"
  proof (cases "f_type d \<in> set MODEL_FETCHABLE_TYPES")
    case True
    have u: "map_of gs ''upstream_model_update_check_enabled'' = Some (JBool (check_on d))"
      "map_of gs ''upstream_model_update_auto_sync_enabled'' =
         Some (JBool (check_on d \<and> f_upstream_model_update_auto_sync_enabled d = Some True))"
      "map_of gs ''upstream_model_update_ignored_models'' = Some (JArray (map JString (ignored_models d)))"
      "is_array (js_get (JObject gs) ''upstream_model_update_last_detected_models'')"
      "\<not> check_on d \<Longrightarrow> map_of gs ''upstream_model_update_last_detected_models'' = Some (JArray [])"
      "is_number (js_get (JObject gs) ''upstream_model_update_last_check_time'')"
      using True by (auto simp: look is_array_def split: option.splits)
    have "f_upstream_model_update_ignored_models d' = Some (to_text (JArray (map JString (ignored_models d))))"
      using s by (simp add: g u)
    then have ign: "ignored_models d' = ignored_models d" by (rule ignored_again)
    have on: "f_upstream_model_update_check_enabled d' = Some True \<longleftrightarrow> check_on d"
      "check_on d \<and> f_upstream_model_update_auto_sync_enabled d' = Some True \<longleftrightarrow>
         check_on d \<and> f_upstream_model_update_auto_sync_enabled d = Some True"
      using s by (auto simp: g u is_true_def)
    show ?thesis
      unfolding upstream_settings_def Let_def type
      by (simp add: True on ign put_same put_if_same u del: js_get.simps is_number_iff)
  qed (simp add: upstream_settings_def type)
  have "route_settings d' gs = gs"
  proof (cases "f_type d = 58")
    case True
    from config [OF True] obtain w where w: "parseAdvancedCustomConfig (f_advanced_custom d) = Some w" "truthy w"
      "stringifyAdvancedCustomConfig w = Some (pretty w)" "parseAdvancedCustomConfig (Some (pretty w)) = Some w" by auto
    have "map_of gs ''advanced_custom'' = Some w" using True w by (simp add: look)
    with s w True show ?thesis by (simp add: route_settings_def type put_same)
  next
    case False
    then have "map_of gs ''advanced_custom'' = None" by (simp add: look)
    with False show ?thesis by (simp add: route_settings_def type delete_same)
  qed
  with provider passthrough upstream show ?thesis by (simp add: write_settings_def [of d'] gs_def [symmetric])
qed

section \<open>Forms that are accepted\<close>

lemma issue_none [simp]: "issue b path message = [] \<longleftrightarrow> \<not> b"
  by (simp add: issue_def)

lemma no_token:
  assumes "skip_space s = c # t" and "js_space c" and "\<not> json_space c"
  shows "parse_value (Suc n) s = None"
proof -
  have "c \<in> {CHR 0x0B, CHR 0x0C, CHR 0xA0}" using assms(2,3) by (auto simp: js_space_def json_space_def)
  then have "c \<noteq> CHR 0x22" "c \<noteq> CHR ''[''" "c \<noteq> CHR ''{''" "c \<noteq> CHR ''n''" "c \<noteq> CHR ''t''" "c \<noteq> CHR ''f''"
      "c \<noteq> CHR ''-''" "\<not> is_digit c"
    by (auto simp: is_digit_def)
  with assms(1) show ?thesis by (simp add: parse_number_def parse_unsigned_def)
qed

lemma blank_not_json: "trim s = [] \<Longrightarrow> json_parse s = None"
proof -
  assume "trim s = []"
  then have s: "\<forall>c \<in> set s. js_space c" by (simp add: trim_eq_Nil_iff list_all_iff)
  show ?thesis
  proof (cases "skip_space s")
    case Nil
    then show ?thesis by (simp add: json_parse_def)
  next
    case (Cons c t)
    then have "\<not> json_space c" unfolding skip_space_def by (metis dropWhile_eq_Cons_conv)
    moreover have "c \<in> set s" using Cons unfolding skip_space_def by (metis list.set_intros(1) set_dropWhileD)
    ultimately have "parse_value (Suc (length s)) s = None" using s by (intro no_token [OF Cons]) blast+
    then show ?thesis unfolding json_parse_def by (simp only: option.case)
  qed
qed

lemma accepted_existing:
  assumes "isOptionalJsonObject (f_settings d)"
  obtains obj where "existing_settings d = JObject obj"
proof (cases "trim (or_text (f_settings d) []) = []")
  case True
  then have "existing_settings d = JObject []" by (simp add: existing_settings_def Let_def blank_not_json)
  then show ?thesis by (rule that)
next
  case False
  with assms obtain fs where "json_parse (or_text (f_settings d) []) = Some (JObject fs)"
    by (auto simp: isOptionalJsonObject_def parseOptionalJson_def plain_object_def split: option.splits js_value.splits)
  then have "existing_settings d = JObject (if or_text (f_settings d) [] \<noteq> [] \<and> or_text (f_settings d) [] \<noteq> ''{}'' then fs else [])"
    by (simp add: existing_settings_def Let_def)
  then show ?thesis by (rule that)
qed

lemma accepted_parts:
  assumes "channelFormSchema url purl d"
  shows "typed_form d" and "isOptionalJsonObject (f_settings d)" and "f_name d \<noteq> []" and "f_models d \<noteq> []" and "f_group d \<noteq> []"
    and "f_type d = 58 \<Longrightarrow> parseAdvancedCustomConfig (f_advanced_custom d) \<noteq> None"
  using assms
  by (auto simp: channelFormSchema_def member_issues_def superRefine_def advanced_issues_def Let_def
      validateAdvancedCustomConfig_def split: option.splits)

lemma optional_safe:
  "opt_boolean v \<Longrightarrow> json_safe (js_or v (JBool False))" "opt_string v \<Longrightarrow> json_safe (js_or v (JString []))"
  by (auto simp: opt_boolean_def opt_string_def js_or_def)

lemma setting_written:
  assumes "typed_form d"
  shows "buildSettingJSON d = Some (json_text (JObject (setting_members d (trim (string_of (f_proxy d))))))"
    and "json_safe (JObject (setting_members d p))"
proof -
  from assms have "opt_string (f_proxy d)" by (simp add: typed_form_def)
  then show "buildSettingJSON d = Some (json_text (JObject (setting_members d (trim (string_of (f_proxy d))))))"
    by (cases "f_proxy d") (simp_all add: opt_string_def buildSettingJSON_def js_trim_def del: json_text.simps)
  from assms show "json_safe (JObject (setting_members d p))"
    by (simp add: typed_form_def setting_members_def optional_safe)
qed

lemma settings_written:
  "existing_settings d = JObject obj \<Longrightarrow> buildSettingsJSON d = Some (json_text (JObject (write_settings d obj)))"
  by (simp add: buildSettingsJSON_def)

section \<open>The form opened again\<close>

lemma text_not_empty: "json_safe v \<Longrightarrow> json_text v \<noteq> []"
  using json_text_length by fastforce

lemma read_settings_shows:
  assumes "json_safe (JObject gs)"
  shows "shows_settings gs (read_settings (json_text (JObject gs)) d)"
proof -
  have "json_parse (json_text (JObject gs)) = Some (JObject gs)" "json_text (JObject gs) \<noteq> []"
    using assms by (rule json_round_trip, rule text_not_empty)
  then show ?thesis
    by (auto simp: read_settings_def shows_settings_def simp del: js_get.simps json_text.simps split: option.split)
qed

lemma read_setting_members:
  assumes "json_safe (JObject (setting_members d p))" and "typed_form d"
  shows "setting_members (read_setting (Some (json_text (JObject (setting_members d p)))) e) q = setting_members d q"
    and "f_proxy (read_setting (Some (json_text (JObject (setting_members d p)))) e) = JString p"
proof -
  let ?t = "json_text (JObject (setting_members d p))"
  have t: "json_parse ?t = Some (JObject (setting_members d p))" "?t \<noteq> []"
    using assms(1) by (rule json_round_trip, rule text_not_empty)
  then have "or_text (Some ?t) [] = ?t" by simp
  with t show "setting_members (read_setting (Some ?t) e) q = setting_members d q"
    and "f_proxy (read_setting (Some ?t) e) = JString p"
    unfolding read_setting_def by (simp_all add: setting_members_def del: json_text.simps)
qed

lemma read_settings_frame [simp]:
  "f_name (read_settings s d) = f_name d" "f_type (read_settings s d) = f_type d" "f_base_url (read_settings s d) = f_base_url d"
  "f_key (read_settings s d) = f_key d" "f_openai_organization (read_settings s d) = f_openai_organization d"
  "f_models (read_settings s d) = f_models d" "f_group (read_settings s d) = f_group d"
  "f_model_mapping (read_settings s d) = f_model_mapping d" "f_priority (read_settings s d) = f_priority d"
  "f_weight (read_settings s d) = f_weight d" "f_test_model (read_settings s d) = f_test_model d"
  "f_auto_ban (read_settings s d) = f_auto_ban d" "f_status_code_mapping (read_settings s d) = f_status_code_mapping d"
  "f_tag (read_settings s d) = f_tag d" "f_remark (read_settings s d) = f_remark d"
  "f_param_override (read_settings s d) = f_param_override d" "f_header_override (read_settings s d) = f_header_override d"
  "f_settings (read_settings s d) = f_settings d" "f_other (read_settings s d) = f_other d" "f_proxy (read_settings s d) = f_proxy d"
  "setting_members (read_settings s d) q = setting_members d q"
  by (simp_all add: read_settings_def setting_members_def split: option.split)

lemma read_setting_frame [simp]:
  "f_name (read_setting s d) = f_name d" "f_type (read_setting s d) = f_type d" "f_base_url (read_setting s d) = f_base_url d"
  "f_key (read_setting s d) = f_key d" "f_openai_organization (read_setting s d) = f_openai_organization d"
  "f_models (read_setting s d) = f_models d" "f_group (read_setting s d) = f_group d"
  "f_model_mapping (read_setting s d) = f_model_mapping d" "f_priority (read_setting s d) = f_priority d"
  "f_weight (read_setting s d) = f_weight d" "f_test_model (read_setting s d) = f_test_model d"
  "f_auto_ban (read_setting s d) = f_auto_ban d" "f_status_code_mapping (read_setting s d) = f_status_code_mapping d"
  "f_tag (read_setting s d) = f_tag d" "f_remark (read_setting s d) = f_remark d"
  "f_param_override (read_setting s d) = f_param_override d" "f_header_override (read_setting s d) = f_header_override d"
  "f_settings (read_setting s d) = f_settings d" "f_other (read_setting s d) = f_other d"
  by (simp_all add: read_setting_def split: option.split)

lemma reopened_fields [simp]:
  "f_name (transformChannelToFormDefaults ch) = ch_name ch" "f_type (transformChannelToFormDefaults ch) = ch_type ch"
  "f_key (transformChannelToFormDefaults ch) = []" "f_models (transformChannelToFormDefaults ch) = ch_models ch"
  "f_base_url (transformChannelToFormDefaults ch) = Some (or_text (ch_base_url ch) [])"
  "f_openai_organization (transformChannelToFormDefaults ch) = Some (or_text (ch_openai_organization ch) [])"
  "f_group (transformChannelToFormDefaults ch) = parseGroups (or_text (Some (ch_group ch)) ''default'')"
  "f_model_mapping (transformChannelToFormDefaults ch) = Some (or_text (ch_model_mapping ch) [])"
  "f_priority (transformChannelToFormDefaults ch) = Some (case ch_priority ch of Some p \<Rightarrow> p | None \<Rightarrow> 0)"
  "f_weight (transformChannelToFormDefaults ch) = Some (case ch_weight ch of Some p \<Rightarrow> p | None \<Rightarrow> 0)"
  "f_test_model (transformChannelToFormDefaults ch) = Some (or_text (ch_test_model ch) [])"
  "f_auto_ban (transformChannelToFormDefaults ch) = Some (case ch_auto_ban ch of Some p \<Rightarrow> p | None \<Rightarrow> 1)"
  "f_status_code_mapping (transformChannelToFormDefaults ch) = Some (or_text (ch_status_code_mapping ch) [])"
  "f_tag (transformChannelToFormDefaults ch) = Some (or_text (ch_tag ch) [])"
  "f_remark (transformChannelToFormDefaults ch) = Some (ch_remark ch)"
  "f_param_override (transformChannelToFormDefaults ch) = Some (or_text (ch_param_override ch) [])"
  "f_header_override (transformChannelToFormDefaults ch) = Some (or_text (ch_header_override ch) [])"
  "f_settings (transformChannelToFormDefaults ch) = Some (or_text (Some (ch_settings ch)) ''{}'')"
  "f_other (transformChannelToFormDefaults ch) = Some (ch_other ch)"
  by (simp_all add: transformChannelToFormDefaults_def)

lemma setting_saved_again:
  assumes typed: "typed_form d" and ch: "buildSettingJSON d = ch_setting ch"
  shows "buildSettingJSON (transformChannelToFormDefaults ch) = ch_setting ch"
proof -
  define p where "p = trim (string_of (f_proxy d))"
  note w = setting_written [OF typed, folded p_def]
  have s: "ch_setting ch = Some (json_text (JObject (setting_members d p)))" using w(1) ch by (simp add: p_def)
  have "setting_members (transformChannelToFormDefaults ch) q = setting_members d q"
    "f_proxy (transformChannelToFormDefaults ch) = JString p" for q
    unfolding transformChannelToFormDefaults_def read_settings_frame s
    by (rule read_setting_members [OF w(2) typed])+
  moreover have "trim p = p" by (simp add: p_def)
  ultimately show ?thesis using s by (simp add: buildSettingJSON_def js_trim_def del: json_text.simps)
qed

lemma settings_saved_again:
  assumes schema: "channelFormSchema url purl d"
    and safe: "existing_settings d = JObject obj" "json_safe (JObject obj)"
    and config: "\<And>v. json_parse (or_text (f_advanced_custom d) []) = Some v \<Longrightarrow> json_safe v"
    and ch: "buildSettingsJSON d = Some (ch_settings ch)" "ch_type ch = f_type d"
  shows "buildSettingsJSON (transformChannelToFormDefaults ch) = Some (ch_settings ch)"
proof -
  let ?d' = "transformChannelToFormDefaults ch"
  define gs where "gs = write_settings d obj"
  note cfg = config_read_back [OF _ config]
  have safe_gs: "json_safe (JObject gs)"
    unfolding gs_def by (rule settings_safe [OF safe(2) accepted_parts(1) [OF schema]]) (use cfg in blast)
  have s: "ch_settings ch = json_text (JObject gs)" using settings_written [OF safe(1)] ch(1) by (simp add: gs_def)
  have shown: "shows_settings gs ?d'"
    unfolding transformChannelToFormDefaults_def s by (rule read_settings_shows [OF safe_gs])
  have "\<exists>w. parseAdvancedCustomConfig (f_advanced_custom d) = Some w \<and> truthy w \<and>
      stringifyAdvancedCustomConfig w = Some (pretty w) \<and> parseAdvancedCustomConfig (Some (pretty w)) = Some w"
    if "f_type d = 58"
    using accepted_parts(6) [OF schema that] cfg by blast
  from written_again [OF shown [unfolded gs_def] _ this] ch(2)
  have again: "write_settings ?d' gs = gs" by (simp add: gs_def)
  have ne: "json_text (JObject gs) \<noteq> []" and parse: "json_parse (json_text (JObject gs)) = Some (JObject gs)"
    using safe_gs by (rule text_not_empty, rule json_round_trip)
  have "json_parse ''{}'' = Some (JObject [])" by code_simp
  with parse have "json_text (JObject gs) = ''{}'' \<Longrightarrow> gs = []" by (metis js_value.inject(5) option.inject)
  with parse ne have "existing_settings ?d' = JObject gs"
    by (auto simp: existing_settings_def s Let_def simp del: json_text.simps)
  from settings_written [OF this] show ?thesis by (simp add: again s del: json_text.simps)
qed

section \<open>What is sent\<close>

definition null_if_empty :: "js_value \<Rightarrow> js_value" where
  "null_if_empty v = (if v = JString [] then JNull else v)"

text \<open>The members of an update in their final form, before the key.\<close>

definition sent_members :: "ChannelFormValues \<Rightarrow> rat \<Rightarrow> string \<Rightarrow> string \<Rightarrow> payload" where
  "sent_members d channelId setting settings = [
     (''id'', JNumber (Fin channelId)), (''name'', null_if_empty (JString (f_name d))), (''type'', JNumber (Fin (f_type d))),
     (''base_url'', JString (normalizeBaseUrl (f_base_url d))),
     (''openai_organization'', sent_text (f_openai_organization d)), (''models'', null_if_empty (JString (f_models d))),
     (''group'', null_if_empty (JString (formatGroups (f_group d)))), (''model_mapping'', sent_text (f_model_mapping d)),
     (''priority'', number_or (f_priority d) 0), (''weight'', number_or (f_weight d) 0),
     (''test_model'', sent_text (f_test_model d)), (''auto_ban'', number_or (f_auto_ban d) 1),
     (''status_code_mapping'', sent_text (f_status_code_mapping d)), (''tag'', sent_text (f_tag d)),
     (''remark'', sent_text (f_remark d)), (''setting'', null_if_empty (JString setting)),
     (''param_override'', sent_text (f_param_override d)),
     (''header_override'', sent_text (f_header_override d)), (''settings'', null_if_empty (JString settings)),
     (''other'', null_if_empty (sent_text (f_other d)))]"

definition key_member :: "ChannelFormValues \<Rightarrow> payload" where
  "key_member d = (if trim (f_key d) = [] then [] else [(''key'', JString (f_key d))])"

lemma empty_to_null_map: "empty_to_null p = map (\<lambda>(k, v). (k, null_if_empty v)) p"
  by (simp add: empty_to_null_def null_if_empty_def)

lemma null_if_empty_simps [simp]:
  "null_if_empty (JNumber n) = JNumber n" "s \<noteq> [] \<Longrightarrow> null_if_empty (JString s) = JString s"
  "null_if_empty (number_or v r) = number_or v r"
  by (simp_all add: null_if_empty_def number_or_def)

lemma clearable_put:
  "fold (\<lambda>(k, v). put k v) (clearable_members d) (empty_to_null (update_members d i setting settings) @ rest) =
     sent_members d i setting settings @ rest"
  by (simp add: update_members_def clearable_members_def sent_members_def empty_to_null_map put_def)

lemma update_payload:
  assumes "buildSettingJSON d = Some setting" and "buildSettingsJSON d = Some settings"
  shows "transformFormDataToUpdatePayload d i = Some (sent_members d i setting settings @ key_member d)"
proof -
  let ?p = "update_members d i setting settings"
  have "put ''key'' v ?p = ?p @ [(''key'', v)]" for v by (simp add: update_members_def put_def)
  then have "empty_to_null (put_if (trim (f_key d) \<noteq> []) ''key'' (JString (f_key d)) ?p) = empty_to_null ?p @ key_member d"
    by (cases "f_key d = []") (simp_all add: put_if_def key_member_def empty_to_null_map)
  with assms show ?thesis by (simp add: transformFormDataToUpdatePayload_def clearable_put)
qed

lemma sent_keys:
  "map fst (sent_members d i s t) = [''id'', ''name'', ''type'', ''base_url'', ''openai_organization'', ''models'', ''group'',
     ''model_mapping'', ''priority'', ''weight'', ''test_model'', ''auto_ban'', ''status_code_mapping'', ''tag'', ''remark'',
     ''setting'', ''param_override'', ''header_override'', ''settings'', ''other'']"
  by (simp add: sent_members_def)

lemma sent_without: "k \<in> {''key'', ''key_mode'', ''status''} \<Longrightarrow> map_of (sent_members d i s t) k = None"
  unfolding map_of_eq_None_iff set_map [symmetric] sent_keys by auto

lemma payload_parts:
  assumes "transformFormDataToUpdatePayload d i = Some p"
  obtains s t where "buildSettingJSON d = Some s" and "buildSettingsJSON d = Some t" and "p = sent_members d i s t @ key_member d"
proof -
  obtain s t where st: "buildSettingJSON d = Some s" "buildSettingsJSON d = Some t"
    using assms by (auto simp: transformFormDataToUpdatePayload_def split: option.splits)
  with assms update_payload [OF st] show ?thesis by (auto intro: that)
qed

section \<open>An example\<close>

definition sample_form :: ChannelFormValues where
  "sample_form = CHANNEL_FORM_DEFAULT_VALUES\<lparr>f_name := ''c'', f_models := ''m'', f_key := ''sk''\<rparr>"

lemma sample_json:
  "json_parse (or_text (f_settings sample_form) []) = Some v \<Longrightarrow> json_safe v"
  "json_parse (or_text (f_advanced_custom sample_form) []) = Some v \<Longrightarrow> json_safe v"
  "existing_settings sample_form = JObject []"
proof -
  have "json_parse ''{}'' = Some (JObject [])" by code_simp
  then show "json_parse (or_text (f_settings sample_form) []) = Some v \<Longrightarrow> json_safe v"
    by (auto simp: sample_form_def CHANNEL_FORM_DEFAULT_VALUES_def)
  show "json_parse (or_text (f_advanced_custom sample_form) []) = Some v \<Longrightarrow> json_safe v"
    by (simp add: sample_form_def CHANNEL_FORM_DEFAULT_VALUES_def blank_not_json)
  show "existing_settings sample_form = JObject []"
    by (simp add: existing_settings_def sample_form_def CHANNEL_FORM_DEFAULT_VALUES_def)
qed

lemma sample_typed: "typed_form sample_form"
  by (auto simp: typed_form_def sample_form_def CHANNEL_FORM_DEFAULT_VALUES_def opt_choice_def opt_boolean_def opt_string_def
      opt_enum_def)

lemma sample_accepted: "channelFormSchema (\<lambda>_. None) (\<lambda>_. None) sample_form"
proof -
  have "json_parse ''{}'' = Some (JObject [])" by code_simp
  moreover have "trim ''{}'' = ''{}''" by code_simp
  ultimately have "isOptionalJsonObject (Some ''{}'')" by (simp add: isOptionalJsonObject_def parseOptionalJson_def plain_object_def)
  moreover have "isOptionalJsonObject (Some [])" "isOptionalModelMapping (Some [])" "isOptionalStatusCodeMapping (Some [])"
    "isOptionalProxyURL (\<lambda>_. None) []"
    by (simp_all add: isOptionalJsonObject_def isOptionalModelMapping_def isOptionalStatusCodeMapping_def parseOptionalJson_def
        isOptionalProxyURL_def)
  ultimately show ?thesis
    using sample_typed
    by (simp add: channelFormSchema_def member_issues_def superRefine_def Let_def sample_form_def CHANNEL_FORM_DEFAULT_VALUES_def)
qed

lemma sample_sent:
  obtains s t where "s \<noteq> []" and "t \<noteq> []" and "buildSettingJSON sample_form = Some s" and "buildSettingsJSON sample_form = Some t"
    and "transformFormDataToUpdatePayload sample_form 7 = Some (sent_members sample_form 7 s t @ key_member sample_form)"
proof -
  have "json_safe (JObject (write_settings sample_form []))"
    by (rule settings_safe [OF _ sample_typed]) (use config_read_back [OF _ sample_json(2)] in simp_all)
  then have t: "json_text (JObject (write_settings sample_form [])) \<noteq> []" by (rule text_not_empty)
  have s: "json_text (JObject (setting_members sample_form p)) \<noteq> []" for p
    by (rule text_not_empty) (rule setting_written(2) [OF sample_typed])
  note w = setting_written(1) [OF sample_typed] settings_written [OF sample_json(3)]
  show ?thesis by (rule that [OF s t w update_payload [OF w]])
qed

lemma sensitive_members:
  assumes "update_request canEditSensitive isMultiKey d channelId = Some p"
    and "transformFormDataToUpdatePayload d channelId = Some q"
  shows "map_of p k =
    (if k = ''key_mode'' then
       if canEditSensitive \<and> isMultiKey \<and> trim (f_key d) \<noteq> [] \<and> or_text (f_key_mode d) [] \<noteq> []
       then Some (JString (or_text (f_key_mode d) [])) else None
     else if k = ''key'' then if canEditSensitive \<and> trim (f_key d) \<noteq> [] then Some (JString (f_key d)) else None
     else if k = ''status'' then None
     else if \<not> canEditSensitive \<and> k \<in> set SENSITIVE_UPDATE_FIELDS then None
     else map_of q k)"
proof -
  from assms(2) obtain s t where q: "q = sent_members d channelId s t @ key_member d" by (rule payload_parts)
  have del: "map_of (fold AList.delete ks r) j = (if j \<in> set ks then None else map_of r j)" for ks r j
    by (induction ks arbitrary: r) (auto simp: fun_eq_iff)
  have k: "map_of q ''key'' = (if trim (f_key d) = [] then None else Some (JString (f_key d)))"
    "map_of q ''key_mode'' = None" "map_of q ''status'' = None"
    unfolding q map_of_append by (simp_all add: sent_without key_member_def map_add_def)
  have "''key_mode'' \<notin> set SENSITIVE_UPDATE_FIELDS" "''status'' \<notin> set SENSITIVE_UPDATE_FIELDS" "''key'' \<in> set SENSITIVE_UPDATE_FIELDS"
    by (simp_all add: SENSITIVE_UPDATE_FIELDS_def)
  with assms k show ?thesis
    by (cases canEditSensitive; cases "trim (f_key d) = []") (auto simp: update_request_def Let_def del sent_text_def)
qed

text \<open>C37: Where the payload of an update is built without raising: without the sensitive-write permission the
  request has none of the nine sensitive members and no \<^verbatim>\<open>key_mode\<close>, and every other member is
  that of the payload.  With the permission the key is sent exactly if one that is not blank was entered, and
  \<^verbatim>\<open>key_mode\<close> exactly if moreover the channel has several keys and a mode is chosen.  The
  status is never sent.\<close>

theorem sensitive_members_withheld:
  assumes "update_request canEditSensitive isMultiKey d channelId = Some p"
    and "transformFormDataToUpdatePayload d channelId = Some q"
  shows "map_of p k =
    (if k = ''key_mode'' then
       if canEditSensitive \<and> isMultiKey \<and> trim (f_key d) \<noteq> [] \<and> or_text (f_key_mode d) [] \<noteq> []
       then Some (JString (or_text (f_key_mode d) [])) else None
     else if k = ''key'' then if canEditSensitive \<and> trim (f_key d) \<noteq> [] then Some (JString (f_key d)) else None
     else if k = ''status'' then None
     else if \<not> canEditSensitive \<and> k \<in> set SENSITIVE_UPDATE_FIELDS then None
     else map_of q k)"
  by (rule sensitive_members [OF assms])

theorem sensitive_members_withheld_witness:
  "\<exists>p. update_request False True sample_form 7 = Some p \<and> map_of p ''key'' = None \<and> map_of p ''base_url'' = None \<and>
     map_of p ''models'' = Some (JString ''m'')"
proof -
  obtain s t where q: "transformFormDataToUpdatePayload sample_form 7 = Some (sent_members sample_form 7 s t @ key_member sample_form)"
    by (rule sample_sent)
  then obtain p where p: "update_request False True sample_form 7 = Some p" by (auto simp: update_request_def)
  have "map_of (sent_members sample_form 7 s t @ key_member sample_form) ''models'' = Some (JString ''m'')"
    by (simp add: sent_members_def sample_form_def)
  then show ?thesis
    using p sensitive_members_withheld [OF p q, of "''key''"] sensitive_members_withheld [OF p q, of "''base_url''"]
      sensitive_members_withheld [OF p q, of "''models''"]
    by (simp add: SENSITIVE_UPDATE_FIELDS_def)
qed



lemma existing_safe:
  "(\<And>v. json_parse (or_text (f_settings d) []) = Some v \<Longrightarrow> json_safe v) \<Longrightarrow> existing_settings d = JObject obj \<Longrightarrow>
     json_safe (JObject obj)"
  by (auto simp: existing_settings_def Let_def split: if_splits option.splits simp del: json_safe.simps)
    (auto simp: json_safe.simps)



section \<open>Saving without an edit\<close>

text \<open>A channel that holds what an update sent.\<close>

definition holds_payload :: "Channel \<Rightarrow> payload \<Rightarrow> bool" where
  "holds_payload ch p \<longleftrightarrow>
     js_get (JObject p) ''name'' = JString (ch_name ch) \<and> js_get (JObject p) ''type'' = JNumber (Fin (ch_type ch)) \<and>
     js_get (JObject p) ''models'' = JString (ch_models ch) \<and> js_get (JObject p) ''group'' = JString (ch_group ch) \<and>
     js_get (JObject p) ''base_url'' = sent_text (ch_base_url ch) \<and>
     js_get (JObject p) ''openai_organization'' = sent_text (ch_openai_organization ch) \<and>
     js_get (JObject p) ''model_mapping'' = sent_text (ch_model_mapping ch) \<and>
     map_option (\<lambda>r. JNumber (Fin r)) (ch_priority ch) = Some (js_get (JObject p) ''priority'') \<and>
     map_option (\<lambda>r. JNumber (Fin r)) (ch_weight ch) = Some (js_get (JObject p) ''weight'') \<and>
     js_get (JObject p) ''test_model'' = sent_text (ch_test_model ch) \<and>
     map_option (\<lambda>r. JNumber (Fin r)) (ch_auto_ban ch) = Some (js_get (JObject p) ''auto_ban'') \<and>
     js_get (JObject p) ''status_code_mapping'' = sent_text (ch_status_code_mapping ch) \<and>
     js_get (JObject p) ''tag'' = sent_text (ch_tag ch) \<and> js_get (JObject p) ''remark'' = JString (ch_remark ch) \<and>
     map_option JString (ch_setting ch) = Some (js_get (JObject p) ''setting'') \<and>
     js_get (JObject p) ''param_override'' = sent_text (ch_param_override ch) \<and>
     js_get (JObject p) ''header_override'' = sent_text (ch_header_override ch) \<and>
     js_get (JObject p) ''settings'' = JString (ch_settings ch) \<and>
     js_or (js_get (JObject p) ''other'') (JString []) = JString (ch_other ch)"

lemma null_if_empty_text [simp]: "null_if_empty (JString s) = JString t \<longleftrightarrow> s = t \<and> t \<noteq> []"
  by (auto simp: null_if_empty_def)

lemma other_read [simp]: "js_or (null_if_empty (JString s)) (JString []) = JString t \<longleftrightarrow> s = t"
  by (auto simp: null_if_empty_def js_or_def)

lemma or_text_again [simp]: "or_text (Some (or_text v [])) [] = or_text v []" "or_text (Some s) [] = s"
  by (auto simp: or_text_def split: option.split)

text \<open>The members as the channel has them.\<close>

lemma held_members:
  assumes "holds_payload ch (sent_members d i s t @ rest)"
  shows "ch_name ch = f_name d \<and>
     ch_type ch = f_type d \<and>
     ch_models ch = f_models d \<and>
     ch_group ch = formatGroups (f_group d) \<and>
     formatGroups (f_group d) \<noteq> [] \<and>
     or_text (ch_base_url ch) [] = normalizeBaseUrl (f_base_url d) \<and>
     or_text (ch_openai_organization ch) [] = or_text (f_openai_organization d) [] \<and>
     or_text (ch_model_mapping ch) [] = or_text (f_model_mapping d) [] \<and>
     number_or (ch_priority ch) 0 = number_or (f_priority d) 0 \<and>
     number_or (ch_weight ch) 0 = number_or (f_weight d) 0 \<and>
     or_text (ch_test_model ch) [] = or_text (f_test_model d) [] \<and>
     number_or (ch_auto_ban ch) 1 = number_or (f_auto_ban d) 1 \<and>
     or_text (ch_status_code_mapping ch) [] = or_text (f_status_code_mapping d) [] \<and>
     or_text (ch_tag ch) [] = or_text (f_tag d) [] \<and>
     ch_remark ch = or_text (f_remark d) [] \<and>
     ch_setting ch = Some s \<and>
     or_text (ch_param_override ch) [] = or_text (f_param_override d) [] \<and>
     or_text (ch_header_override ch) [] = or_text (f_header_override d) [] \<and>
     ch_settings ch = t \<and>
     ch_other ch = or_text (f_other d) []"
proof -
  have "JString z = null_if_empty (JString s) \<longleftrightarrow> s = z \<and> z \<noteq> []" for z s by (auto simp: null_if_empty_def)
  with assms show ?thesis by (auto simp: holds_payload_def sent_members_def sent_text_def number_or_def)
qed

lemma base_url_again:
  assumes "trim (normalizeBaseUrl v) = normalizeBaseUrl v"
  shows "normalizeBaseUrl (Some (normalizeBaseUrl v)) = normalizeBaseUrl v"
proof -
  have "normalizeBaseUrl (Some b) = rev (dropWhile (\<lambda>c. c = CHR ''/'') (rev (trim b)))" for b
    by (simp add: normalizeBaseUrl_def)
  with assms show ?thesis by (simp add: normalizeBaseUrl_def)
qed

definition group_name :: "string \<Rightarrow> bool" where
  "group_name g \<longleftrightarrow> CHR '','' \<notin> set g \<and> trim g = g \<and> g \<noteq> []"

lemma groups_again: "list_all group_name gs \<Longrightarrow> formatGroups gs \<noteq> [] \<Longrightarrow> parseGroups (formatGroups gs) = gs"
  by (simp add: parseGroups_def formatGroups_def comma_items_join list_all_iff group_name_def)

text \<open>C38: Let a form that the schema accepts send an update, and let a channel hold the members sent.  Opening
  the form on this channel and saving it without an edit sends the same members with the same texts again, without the
  key.  Assumed of the form: the stored settings and the routes, where they are JSON, have each key once and decimal
  numbers, the groups are non-empty trimmed names without commas, and the base URL has no white space before its final
  slashes.\<close>

theorem unedited_form_sends_same:
  assumes schema: "channelFormSchema url purl d"
    and safe: "\<And>v. json_parse (or_text (f_settings d) []) = Some v \<Longrightarrow> json_safe v"
      "\<And>v. json_parse (or_text (f_advanced_custom d) []) = Some v \<Longrightarrow> json_safe v"
    and names: "list_all group_name (f_group d)" "trim (normalizeBaseUrl (f_base_url d)) = normalizeBaseUrl (f_base_url d)"
    and sent: "transformFormDataToUpdatePayload d i = Some p" and held: "holds_payload ch p"
  shows "transformFormDataToUpdatePayload (transformChannelToFormDefaults ch) i = Some (AList.delete ''key'' p)"
proof -
  from sent obtain s t where st: "buildSettingJSON d = Some s" "buildSettingsJSON d = Some t"
    and p: "p = sent_members d i s t @ key_member d" by (rule payload_parts)
  note h = held_members [OF held [unfolded p]]
  let ?d' = "transformChannelToFormDefaults ch"
  obtain obj where obj: "existing_settings d = JObject obj" using accepted_parts(2) [OF schema] by (rule accepted_existing)
  have "buildSettingJSON ?d' = Some s"
    using setting_saved_again [OF accepted_parts(1) [OF schema], of ch] st(1) h by simp
  moreover have "buildSettingsJSON ?d' = Some t"
    using settings_saved_again [OF schema obj existing_safe [OF safe(1) obj] safe(2), of ch] st(2) h by simp
  ultimately have sent': "transformFormDataToUpdatePayload ?d' i = Some (sent_members ?d' i s t @ key_member ?d')"
    by (rule update_payload)
  have num: "number_or (Some (case v of Some r \<Rightarrow> r | None \<Rightarrow> e)) e = number_or v e" for v e
    by (simp add: number_or_def split: option.split)
  have "sent_members ?d' i s t = sent_members d i s t"
    using h by (simp add: sent_members_def sent_text_def num groups_again [OF names(1)] base_url_again [OF names(2)])
  moreover have "AList.delete ''key'' p = sent_members d i s t"
    using delete_same [OF sent_without [of "''key''" d i s t]] by (simp add: p key_member_def AList.delete_eq)
  ultimately show ?thesis using sent' by (simp add: key_member_def)
qed

theorem unedited_form_sends_same_witness:
  "\<exists>p ch. transformFormDataToUpdatePayload sample_form 7 = Some p \<and> holds_payload ch p \<and>
     transformFormDataToUpdatePayload (transformChannelToFormDefaults ch) 7 = Some (AList.delete ''key'' p)"
proof -
  obtain s t where st: "s \<noteq> []" "t \<noteq> []"
    and q: "transformFormDataToUpdatePayload sample_form 7 = Some (sent_members sample_form 7 s t @ key_member sample_form)"
    by (rule sample_sent)
  define ch where "ch = (sample_channel 7 [] (Some 0) ''default'')\<lparr>ch_setting := Some s, ch_settings := t, ch_auto_ban := Some 1\<rparr>"
  have held: "holds_payload ch (sent_members sample_form 7 s t @ key_member sample_form)"
    using st by (simp add: holds_payload_def sent_members_def ch_def sample_channel_def sample_form_def CHANNEL_FORM_DEFAULT_VALUES_def
        sent_text_def number_or_def normalizeBaseUrl_def formatGroups_def)
  have "trim ''default'' = ''default''" by code_simp
  then have g: "list_all group_name (f_group sample_form)"
    by (simp add: group_name_def sample_form_def CHANNEL_FORM_DEFAULT_VALUES_def)
  have u: "trim (normalizeBaseUrl (f_base_url sample_form)) = normalizeBaseUrl (f_base_url sample_form)"
    by (simp add: normalizeBaseUrl_def sample_form_def CHANNEL_FORM_DEFAULT_VALUES_def)
  from unedited_form_sends_same [OF sample_accepted sample_json(1,2) g u q held] q held show ?thesis by blast
qed

end
