(* ===== verification/Auth_Store.thy ===== *)
theory Auth_Store
  imports Interfaces
begin

text \<open>
  The authentication store (\<^verbatim>\<open>web/src/stores/auth-store.ts\<close>), the cross-tab session events
  (\<^verbatim>\<open>web/src/lib/auth-session-sync.ts\<close>) and the permission checks on the stored user
  (\<^verbatim>\<open>web/src/lib/admin-permissions.ts\<close>, \<^verbatim>\<open>web/src/lib/roles.ts\<close>).
  A user is its checked fields together with the whole response object it came from, which carries
  the optional fields unread here.
\<close>

section \<open>The store\<close>

record auth_user =
  user_id :: rat
  username :: string
  role :: js_number
  user_object :: js_value

record login_session =
  sid :: string
  current :: bool
  login_method :: string
  ip :: string
  user_agent :: string
  created_at :: js_number
  last_active_at :: js_number
  expires_at :: js_number

record auth_bundle =
  access_token :: string
  token_type :: string
  access_expires_at :: rat
  bundle_user :: auth_user
  bundle_session :: login_session

datatype bootstrap_state = Idle | Checking | Complete

record auth_state =
  user :: "auth_user option"
  accessToken :: "string option"
  accessExpiresAt :: "rat option"
  session :: "login_session option"
  pending2FAFlowToken :: "string option"
  bootstrapState :: bootstrap_state

definition initial_auth :: auth_state where
  "initial_auth = \<lparr>user = None, accessToken = None, accessExpiresAt = None, session = None,
     pending2FAFlowToken = None, bootstrapState = Idle\<rparr>"

definition setBundle :: "auth_bundle \<Rightarrow> auth_state \<Rightarrow> auth_state" where
  "setBundle b s = s\<lparr>user := Some (bundle_user b), accessToken := Some (access_token b),
     accessExpiresAt := Some (access_expires_at b), session := Some (bundle_session b),
     pending2FAFlowToken := None, bootstrapState := Complete\<rparr>"

definition setUser :: "auth_user option \<Rightarrow> auth_state \<Rightarrow> auth_state" where
  "setUser u s = s\<lparr>user := u\<rparr>"

definition setPending2FAFlowToken :: "string option \<Rightarrow> auth_state \<Rightarrow> auth_state" where
  "setPending2FAFlowToken t s = s\<lparr>pending2FAFlowToken := t\<rparr>"

definition setBootstrapState :: "bootstrap_state \<Rightarrow> auth_state \<Rightarrow> auth_state" where
  "setBootstrapState b s = s\<lparr>bootstrapState := b\<rparr>"

text \<open>\<^verbatim>\<open>reset(bootstrapState = 'complete')\<close>: the default is applied by the callers below.\<close>

definition reset :: "bootstrap_state \<Rightarrow> auth_state \<Rightarrow> auth_state" where
  "reset b s = s\<lparr>user := None, accessToken := None, accessExpiresAt := None, session := None,
     pending2FAFlowToken := None, bootstrapState := b\<rparr>"

lemmas store_defs = setBundle_def setUser_def setPending2FAFlowToken_def setBootstrapState_def
  reset_def

text \<open>
  The store's invariant: the access token, its expiry and the session come and go together, and a
  stored session has an identifier.
\<close>

definition auth_coherent :: "auth_state \<Rightarrow> bool" where
  "auth_coherent s \<longleftrightarrow>
     (accessToken s = None) = (session s = None) \<and>
     (accessExpiresAt s = None) = (session s = None) \<and>
     (\<forall>l. session s = Some l \<longrightarrow> sid l \<noteq> []) \<and>
     (\<forall>t. accessToken s = Some t \<longrightarrow> t \<noteq> []) \<and>
     (\<forall>e. accessExpiresAt s = Some e \<longrightarrow> 0 < e)"

definition valid_bundle :: "auth_bundle \<Rightarrow> bool" where
  "valid_bundle b \<longleftrightarrow> access_token b \<noteq> [] \<and> token_type b \<noteq> [] \<and> 0 < access_expires_at b \<and>
     sid (bundle_session b) \<noteq> [] \<and> 0 < user_id (bundle_user b)"

section \<open>Permissions of the stored user\<close>

definition ROLE_GUEST :: rat where "ROLE_GUEST = 0"
definition ROLE_USER :: rat where "ROLE_USER = 1"
definition ROLE_ADMIN :: rat where "ROLE_ADMIN = 10"
definition ROLE_SUPER_ADMIN :: rat where "ROLE_SUPER_ADMIN = 100"

definition ROLE_LABEL_KEYS :: "(rat \<times> string) list" where
  "ROLE_LABEL_KEYS = [(ROLE_SUPER_ADMIN, ''Super Admin''), (ROLE_ADMIN, ''Admin''),
     (ROLE_USER, ''User''), (ROLE_GUEST, ''Guest'')]"

definition getRoleLabelKey :: "js_number option \<Rightarrow> string" where
  "getRoleLabelKey r =
     (case r of
        Some (Fin q) \<Rightarrow> (case map_of ROLE_LABEL_KEYS q of Some k \<Rightarrow> k | None \<Rightarrow> ''Guest'')
      | _ \<Rightarrow> ''Guest'')"

definition hasPermission :: "auth_user option \<Rightarrow> string \<Rightarrow> string \<Rightarrow> bool" where
  "hasPermission u resource action =
     (case u of
        None \<Rightarrow> False
      | Some a \<Rightarrow>
          if role a = Fin ROLE_SUPER_ADMIN then True
          else js_get (js_get (js_get (js_get (user_object a) ''permissions'') ''admin_permissions'')
                 resource) action = JBool True)"

type_synonym permission_matrix = "(string \<times> (string \<times> bool) list) list"

record permission_resource =
  res_name :: string
  res_actions :: "string list"

record permission_role =
  role_key :: string
  role_grants :: permission_matrix

record permission_catalog =
  cat_resources :: "permission_resource list"
  cat_roles :: "permission_role list"

definition ADMIN_ROLE_KEY :: string where
  "ADMIN_ROLE_KEY = ''admin''"

definition roleGrants :: "permission_catalog \<Rightarrow> string \<Rightarrow> permission_matrix" where
  "roleGrants catalog k =
     (case find (\<lambda>r. role_key r = k) (cat_roles catalog) of
        None \<Rightarrow> []
      | Some r \<Rightarrow> role_grants r)"

text \<open>\<^verbatim>\<open>matrix?.[resource]?.[action]\<close>.\<close>

definition matrix_get :: "permission_matrix \<Rightarrow> string \<Rightarrow> string \<Rightarrow> bool option" where
  "matrix_get m r a = (case map_of m r of None \<Rightarrow> None | Some acts \<Rightarrow> map_of acts a)"

definition normalizeActions ::
  "permission_matrix option \<Rightarrow> permission_matrix \<Rightarrow> permission_resource \<Rightarrow> (string \<times> bool) list" where
  "normalizeActions v baseline r =
     fold (\<lambda>a acts. AList.update a
         (case Option.bind v (\<lambda>m. matrix_get m (res_name r) a) of
            Some b \<Rightarrow> b
          | None \<Rightarrow> (case matrix_get baseline (res_name r) a of Some b \<Rightarrow> b | None \<Rightarrow> False)) acts)
       (res_actions r) []"

definition normalizeAdminPermissions ::
  "permission_matrix option \<Rightarrow> permission_catalog \<Rightarrow> permission_matrix" where
  "normalizeAdminPermissions v catalog =
     fold (\<lambda>r m. AList.update (res_name r)
             (normalizeActions v (roleGrants catalog ADMIN_ROLE_KEY) r) m)
       (cat_resources catalog) []"

section \<open>Cross-tab session events\<close>

datatype sync_kind = EvAuthenticated | EvSignedOut

record sync_event =
  ev_kind :: sync_kind
  ev_sid :: string
  ev_source :: string
  ev_nonce :: string
  ev_timestamp :: js_number

text \<open>What a tab's environment provides: \<^verbatim>\<open>window\<close>, the tab's own source identifier.\<close>

record sync_env =
  has_window :: bool
  authSyncSource :: string

fun kind_name :: "sync_kind \<Rightarrow> string" where
  "kind_name EvAuthenticated = ''authenticated''"
| "kind_name EvSignedOut = ''signed_out''"

text \<open>The structured clone that reaches the other tabs.\<close>

definition encode_event :: "sync_event \<Rightarrow> js_value" where
  "encode_event e = JObject
     [(''kind'', JString (kind_name (ev_kind e))), (''sid'', JString (ev_sid e)),
      (''source'', JString (ev_source e)), (''nonce'', JString (ev_nonce e)),
      (''timestamp'', JNumber (ev_timestamp e))]"

definition isAuthSessionSyncEvent :: "js_value \<Rightarrow> bool" where
  "isAuthSessionSyncEvent v \<longleftrightarrow>
     truthy v \<and> is_object v \<and>
     (js_get v ''kind'' = JString ''authenticated'' \<or> js_get v ''kind'' = JString ''signed_out'') \<and>
     is_string (js_get v ''sid'') \<and> string_of (js_get v ''sid'') \<noteq> [] \<and>
     is_string (js_get v ''source'') \<and> is_string (js_get v ''nonce'') \<and>
     is_number (js_get v ''timestamp'')"

definition decode_event :: "js_value \<Rightarrow> sync_event" where
  "decode_event v =
     \<lparr>ev_kind = (if js_get v ''kind'' = JString ''authenticated'' then EvAuthenticated
                 else EvSignedOut),
      ev_sid = string_of (js_get v ''sid''), ev_source = string_of (js_get v ''source''),
      ev_nonce = string_of (js_get v ''nonce''), ev_timestamp = number_of (js_get v ''timestamp'')\<rparr>"

text \<open>
  \<^verbatim>\<open>publishAuthSessionEvent\<close>: the message posted, if any, with the nonce and the clock reading
  drawn at the call.
\<close>

definition publishAuthSessionEvent ::
  "sync_env \<Rightarrow> string \<Rightarrow> rat \<Rightarrow> sync_kind \<Rightarrow> string \<Rightarrow> js_value option" where
  "publishAuthSessionEvent env nonce now k s =
     (if \<not> has_window env \<or> s = [] then None
      else Some (encode_event \<lparr>ev_kind = k, ev_sid = s, ev_source = authSyncSource env,
             ev_nonce = nonce, ev_timestamp = Fin now\<rparr>))"

text \<open>\<^verbatim>\<open>Math.abs(Date.now() - timestamp) < 60_000\<close>; a comparison with \<^verbatim>\<open>NaN\<close> fails.\<close>

fun timestamp_fresh :: "rat \<Rightarrow> js_number \<Rightarrow> bool" where
  "timestamp_fresh now (Fin t) = (\<bar>now - t\<bar> < 60000)"
| "timestamp_fresh now _ = False"

text \<open>\<^verbatim>\<open>deliver\<close> of \<^verbatim>\<open>subscribeAuthSessionEvents\<close>: the event handed to the listener.\<close>

definition deliver_event :: "sync_env \<Rightarrow> rat \<Rightarrow> js_value \<Rightarrow> sync_event option" where
  "deliver_event env now v =
     (if isAuthSessionSyncEvent v \<and> ev_source (decode_event v) \<noteq> authSyncSource env \<and>
         timestamp_fresh now (ev_timestamp (decode_event v))
      then Some (decode_event v) else None)"

section \<open>Lemmas\<close>

lemma coherent_initial: "auth_coherent initial_auth"
  by (simp add: auth_coherent_def initial_auth_def)

lemma coherent_setBundle: "valid_bundle b \<Longrightarrow> auth_coherent (setBundle b s)"
  by (simp add: auth_coherent_def setBundle_def valid_bundle_def)

lemma coherent_reset: "auth_coherent (reset b s)"
  by (simp add: auth_coherent_def reset_def)

lemma coherent_frame [simp]:
  "auth_coherent (setUser u s) = auth_coherent s"
  "auth_coherent (setPending2FAFlowToken t s) = auth_coherent s"
  "auth_coherent (setBootstrapState b s) = auth_coherent s"
  by (simp_all add: auth_coherent_def store_defs)

lemma session_store [simp]:
  "session (setBundle b s) = Some (bundle_session b)"
  "session (setUser u s) = session s"
  "session (setPending2FAFlowToken t s) = session s"
  "session (setBootstrapState c s) = session s"
  "session (reset c s) = None"
  by (simp_all add: store_defs)

lemma decode_encode_event: "decode_event (encode_event e) = e"
  by (cases e; cases "ev_kind e") (auto simp: encode_event_def decode_event_def)

lemma encode_event_valid: "ev_sid e \<noteq> [] \<Longrightarrow> isAuthSessionSyncEvent (encode_event e)"
  by (cases "ev_kind e") (simp_all add: encode_event_def isAuthSessionSyncEvent_def is_object_def)

lemma map_of_normalizeActions:
  "map_of (normalizeActions v baseline r) a =
     (if a \<in> set (res_actions r)
      then Some (case Option.bind v (\<lambda>m. matrix_get m (res_name r) a) of
            Some b \<Rightarrow> b
          | None \<Rightarrow> (case matrix_get baseline (res_name r) a of Some b \<Rightarrow> b | None \<Rightarrow> False))
      else None)"
  by (simp add: normalizeActions_def map_of_fold_update_key)

lemma map_of_normalizeAdminPermissions:
  assumes "distinct (map res_name (cat_resources catalog))" and "r \<in> set (cat_resources catalog)"
  shows "map_of (normalizeAdminPermissions v catalog) (res_name r) =
     Some (normalizeActions v (roleGrants catalog ADMIN_ROLE_KEY) r)"
proof -
  have "find (\<lambda>r'. res_name r' = res_name r) (rev (cat_resources catalog)) = Some r"
  proof -
    from assms obtain xs ys where "cat_resources catalog = xs @ r # ys"
      by (auto dest: split_list)
    with assms(1) have "cat_resources catalog = xs @ r # ys" and "res_name r \<notin> res_name ` set ys"
      by auto
    then show ?thesis
      using find_None_iff [of "\<lambda>r'. res_name r' = res_name r" "rev ys"]
      by (auto simp: find_append image_iff split: option.splits)
  qed
  then show ?thesis by (simp add: normalizeAdminPermissions_def map_of_fold_update)
qed

section \<open>Properties\<close>

text \<open>The permission editor's matrix is complete for a catalog that lists each resource once:
  every action of every resource has a value, which is the user's own entry if there is one, else the
  admin role's baseline, else a refusal; and no action outside the catalog is granted.\<close>

lemma normalized_permissions:
  assumes "distinct (map res_name (cat_resources catalog))" and "r \<in> set (cat_resources catalog)"
  shows "matrix_get (normalizeAdminPermissions v catalog) (res_name r) a =
     (if a \<in> set (res_actions r)
      then Some (case Option.bind v (\<lambda>m. matrix_get m (res_name r) a) of
            Some b \<Rightarrow> b
          | None \<Rightarrow> (case matrix_get (roleGrants catalog ADMIN_ROLE_KEY) (res_name r) a of
                      Some b \<Rightarrow> b | None \<Rightarrow> False))
      else None)"
  using map_of_normalizeAdminPermissions [OF assms, of v]
  by (simp add: matrix_get_def [of "normalizeAdminPermissions v catalog"] map_of_normalizeActions)

lemma normalized_permissions_witness:
  "matrix_get (normalizeAdminPermissions (Some [(''channel'', [(''read'', True)])])
     \<lparr>cat_resources = [\<lparr>res_name = ''channel'', res_actions = [''read'', ''write'']\<rparr>], cat_roles = []\<rparr>)
     ''channel'' ''write'' = Some False"
  using normalized_permissions [of
      "\<lparr>cat_resources = [\<lparr>res_name = ''channel'', res_actions = [''read'', ''write'']\<rparr>], cat_roles = []\<rparr>"
      "\<lparr>res_name = ''channel'', res_actions = [''read'', ''write'']\<rparr>"
      "Some [(''channel'', [(''read'', True)])]" "''write''"]
  by (simp add: matrix_get_def roleGrants_def)

text \<open>A session event published by one tab is handed to the listener of a tab exactly when that
  tab has another source identifier and reads its clock less than a minute away, and it arrives as
  it was sent: a tab never reacts to its own events nor to stale ones.\<close>

lemma session_event_delivery:
  assumes "publishAuthSessionEvent env nonce now k s = Some message"
  shows "deliver_event env' now' message =
     (if authSyncSource env \<noteq> authSyncSource env' \<and> \<bar>now' - now\<bar> < 60000
      then Some \<lparr>ev_kind = k, ev_sid = s, ev_source = authSyncSource env, ev_nonce = nonce,
                 ev_timestamp = Fin now\<rparr>
      else None)"
  using assms
  by (auto simp: publishAuthSessionEvent_def deliver_event_def decode_encode_event encode_event_valid
      split: if_splits)

lemma session_event_delivery_witness:
  "Option.bind (publishAuthSessionEvent \<lparr>has_window = True, authSyncSource = ''a''\<rparr> ''n'' 1000
       EvSignedOut ''s'') (deliver_event \<lparr>has_window = True, authSyncSource = ''b''\<rparr> 2000) =
   Some \<lparr>ev_kind = EvSignedOut, ev_sid = ''s'', ev_source = ''a'', ev_nonce = ''n'',
     ev_timestamp = Fin 1000\<rparr>"
  using session_event_delivery [of "\<lparr>has_window = True, authSyncSource = ''a''\<rparr>" "''n''" 1000
      EvSignedOut "''s''" _ "\<lparr>has_window = True, authSyncSource = ''b''\<rparr>" 2000]
  by (simp add: publishAuthSessionEvent_def)

end
