(* ===== verification/Auth_Session.thy ===== *)
theory Auth_Session
  imports Auth_Store
begin

text \<open>
  Session coordination (\<^verbatim>\<open>web/src/lib/auth-session.ts\<close>): the guards on server responses, the
  operations that install, rotate and clear a session, the refresh runner with its retries, and the
  start-up check.

  The asynchronous runner is a state machine.  Each \<^verbatim>\<open>await\<close> of \<^verbatim>\<open>createRefreshRunner\<close> is a state
  in which any other code may run before the next event arrives: \<open>Requesting\<close> waits for the response
  to a request sent with an expected session id, \<open>RaceWait\<close> for the delay timer.
\<close>

section \<open>Guards on unknown values\<close>

definition isRecord :: "js_value \<Rightarrow> bool" where
  "isRecord v \<longleftrightarrow> truthy v \<and> is_object v"

definition isAuthUser :: "js_value \<Rightarrow> bool" where
  "isAuthUser v \<longleftrightarrow> isRecord v \<and>
     is_integer (js_get v ''id'') \<and> num_pos (number_of (js_get v ''id'')) \<and>
     is_string (js_get v ''username'') \<and> is_number (js_get v ''role'')"

definition isLoginSession :: "js_value \<Rightarrow> bool" where
  "isLoginSession v \<longleftrightarrow> isRecord v \<and>
     is_string (js_get v ''sid'') \<and> string_of (js_get v ''sid'') \<noteq> [] \<and>
     is_boolean (js_get v ''current'') \<and> is_string (js_get v ''login_method'') \<and>
     is_string (js_get v ''ip'') \<and> is_string (js_get v ''user_agent'') \<and>
     is_number (js_get v ''created_at'') \<and> is_number (js_get v ''last_active_at'') \<and>
     is_number (js_get v ''expires_at'')"

definition hasValidTokenFields :: "js_value \<Rightarrow> bool" where
  "hasValidTokenFields v \<longleftrightarrow>
     is_string (js_get v ''access_token'') \<and> string_of (js_get v ''access_token'') \<noteq> [] \<and>
     is_string (js_get v ''token_type'') \<and> string_of (js_get v ''token_type'') \<noteq> [] \<and>
     is_number (js_get v ''access_expires_at'') \<and> is_finite (js_get v ''access_expires_at'') \<and>
     num_pos (number_of (js_get v ''access_expires_at''))"

definition isAuthBundle :: "js_value \<Rightarrow> bool" where
  "isAuthBundle v \<longleftrightarrow> isRecord v \<and>
     hasValidTokenFields v \<and> isAuthUser (js_get v ''user'') \<and> isLoginSession (js_get v ''session'')"

definition isAuthTokenRotation :: "js_value \<Rightarrow> bool" where
  "isAuthTokenRotation v \<longleftrightarrow> isRecord v \<and> hasValidTokenFields v \<and>
     js_get v ''token_type'' = JString ''Bearer'' \<and> isLoginSession (js_get v ''session'') \<and>
     bool_of (js_get (js_get v ''session'') ''current'')"

text \<open>Reading a value whose shape a guard has established.\<close>

definition read_user :: "js_value \<Rightarrow> auth_user" where
  "read_user v = \<lparr>user_id = rat_of (js_get v ''id''), username = string_of (js_get v ''username''),
     role = number_of (js_get v ''role''), user_object = v\<rparr>"

definition read_session :: "js_value \<Rightarrow> login_session" where
  "read_session v = \<lparr>sid = string_of (js_get v ''sid''), current = bool_of (js_get v ''current''),
     login_method = string_of (js_get v ''login_method''), ip = string_of (js_get v ''ip''),
     user_agent = string_of (js_get v ''user_agent''),
     created_at = number_of (js_get v ''created_at''),
     last_active_at = number_of (js_get v ''last_active_at''),
     expires_at = number_of (js_get v ''expires_at'')\<rparr>"

definition read_bundle :: "js_value \<Rightarrow> auth_bundle" where
  "read_bundle v = \<lparr>access_token = string_of (js_get v ''access_token''),
     token_type = string_of (js_get v ''token_type''),
     access_expires_at = rat_of (js_get v ''access_expires_at''),
     bundle_user = read_user (js_get v ''user''),
     bundle_session = read_session (js_get v ''session'')\<rparr>"

section \<open>Installing, rotating and clearing a session\<close>

text \<open>
  The module's state: the store, \<^verbatim>\<open>authEpoch\<close>, and the session events published so far
  (an empty session id is never published).
\<close>

record auth_world =
  store :: auth_state
  authEpoch :: nat
  published :: "(sync_kind \<times> string) list"

definition publish :: "sync_kind \<Rightarrow> string \<Rightarrow> auth_world \<Rightarrow> auth_world" where
  "publish k s w = (if s = [] then w else w\<lparr>published := published w @ [(k, s)]\<rparr>)"

definition current_sid :: "auth_world \<Rightarrow> string option" where
  "current_sid w = map_option sid (session (store w))"

definition applyAuthBundle :: "auth_bundle \<Rightarrow> bool \<Rightarrow> auth_world \<Rightarrow> auth_world" where
  "applyAuthBundle b synchronizeTabs w =
     (let previousSID = current_sid w;
          w' = w\<lparr>authEpoch := authEpoch w + 1, store := setBundle b (store w)\<rparr>
      in if synchronizeTabs \<and> previousSID \<noteq> Some (sid (bundle_session b))
         then publish EvAuthenticated (sid (bundle_session b)) w' else w')"

datatype rotation_error = InvalidRotation | NoActiveSession | SessionMismatch

definition applyAuthRotation :: "js_value \<Rightarrow> auth_world \<Rightarrow> rotation_error + auth_world" where
  "applyAuthRotation v w =
     (if \<not> isAuthTokenRotation v then Inl InvalidRotation
      else case (user (store w), session (store w)) of
        (Some u, Some l) \<Rightarrow>
          let s = read_session (js_get v ''session'') in
          if sid s \<noteq> sid l then Inl SessionMismatch
          else Inr (applyAuthBundle
                 \<lparr>access_token = string_of (js_get v ''access_token''),
                  token_type = string_of (js_get v ''token_type''),
                  access_expires_at = rat_of (js_get v ''access_expires_at''),
                  bundle_user = u, bundle_session = s\<rparr> False w)
      | _ \<Rightarrow> Inl NoActiveSession)"

definition clearAuthentication :: "bool \<Rightarrow> bootstrap_state option \<Rightarrow> auth_world \<Rightarrow> auth_world" where
  "clearAuthentication synchronizeTabs b w =
     (let previous = current_sid w;
          w' = w\<lparr>authEpoch := authEpoch w + 1,
                 store := reset (case b of None \<Rightarrow> Complete | Some c \<Rightarrow> c) (store w)\<rparr>
      in case previous of
           Some s \<Rightarrow> if synchronizeTabs \<and> s \<noteq> [] then publish EvSignedOut s w' else w'
         | None \<Rightarrow> w')"

text \<open>\<^verbatim>\<open>queryClient.clear()\<close> is the query library's: a parameter.\<close>

definition clearAuthenticatedClientState ::
  "('q \<Rightarrow> 'q) \<Rightarrow> bool \<Rightarrow> 'q \<times> auth_world \<Rightarrow> 'q \<times> auth_world" where
  "clearAuthenticatedClientState clear_queries synchronizeTabs qw =
     (clear_queries (fst qw), clearAuthentication synchronizeTabs None (snd qw))"

section \<open>The refresh runner\<close>

record http_response =
  status :: nat
  response_data :: js_value
  response_error :: js_value

datatype refresh_error = Superseded | ResponseFailure js_value

datatype refresh_outcome =
    Authenticated auth_bundle
  | Anonymous
  | TransientError refresh_error
  | OutOfSync string

text \<open>The synchronous part of \<^verbatim>\<open>AuthRefreshRuntime\<close>; \<^verbatim>\<open>request\<close> and \<^verbatim>\<open>wait\<close> are the awaits.\<close>

record 'w refresh_runtime =
  getExpectedSID :: "'w \<Rightarrow> string option"
  parseBundle :: "js_value \<Rightarrow> auth_bundle option"
  acceptBundle :: "auth_bundle \<Rightarrow> 'w \<Rightarrow> 'w"
  clear :: "bool \<Rightarrow> bootstrap_state option \<Rightarrow> 'w \<Rightarrow> 'w"
  markTransient :: "'w \<Rightarrow> 'w"
  isCurrent :: "'w \<Rightarrow> bool"

datatype runner =
    Requesting "string option" nat bool
  | RaceWait nat nat bool
  | Finished refresh_outcome

definition refreshRaceDelays :: "nat list" where
  "refreshRaceDelays = [80, 200, 500]"

text \<open>The start of \<^verbatim>\<open>run(raceAttempt, allowMismatchRetry)\<close>, up to the request.\<close>

definition run_enter :: "'w refresh_runtime \<Rightarrow> nat \<Rightarrow> bool \<Rightarrow> 'w \<Rightarrow> runner" where
  "run_enter rt raceAttempt allow w =
     (if \<not> isCurrent rt w then Finished (TransientError Superseded)
      else Requesting (getExpectedSID rt w) raceAttempt allow)"

definition nullish_or :: "js_value \<Rightarrow> js_value \<Rightarrow> js_value" where
  "nullish_or a b = (if a = JUndefined \<or> a = JNull then b else a)"

text \<open>The rest of \<^verbatim>\<open>run\<close>, from the response to the next await or the outcome.\<close>

definition on_response ::
  "'w refresh_runtime \<Rightarrow> nat \<Rightarrow> bool \<Rightarrow> http_response \<Rightarrow> 'w \<Rightarrow> runner \<times> 'w" where
  "on_response rt raceAttempt allow resp w =
     (if \<not> isCurrent rt w then (Finished (TransientError Superseded), w)
      else
        let responseData = (if isRecord (response_data resp) then response_data resp else JUndefined);
            code = (case js_get responseData ''code'' of JString c \<Rightarrow> Some c | _ \<Rightarrow> None);
            bundle = parseBundle rt (js_get responseData ''data'')
        in
        if js_get responseData ''success'' = JBool True \<and> bundle \<noteq> None
        then (Finished (Authenticated (the bundle)), acceptBundle rt (the bundle) w)
        else if status resp = 409 \<and> code = Some ''AUTH_REFRESH_RACE'' then
          (if raceAttempt < length refreshRaceDelays
           then (RaceWait (refreshRaceDelays ! raceAttempt) raceAttempt allow, w)
           else (Finished (OutOfSync ''AUTH_REFRESH_RACE''), clear rt False None w))
        else if status resp = 409 \<and> code = Some ''AUTH_SESSION_MISMATCH'' then
          (if allow
           then let w' = clear rt False (Some Idle) w in (run_enter rt 0 False w', w')
           else (Finished (OutOfSync ''AUTH_SESSION_MISMATCH''), clear rt False None w))
        else if status resp = 401 then (Finished Anonymous, clear rt True None w)
        else if status resp = 0 \<or> 500 \<le> status resp \<or> status resp = 429
        then (Finished (TransientError
                 (ResponseFailure (nullish_or (response_error resp) (response_data resp)))),
              markTransient rt w)
        else (Finished (OutOfSync (case code of None \<Rightarrow> ''AUTH_INVALID_REFRESH_RESPONSE''
                                              | Some c \<Rightarrow> c)),
              clear rt False None w))"

text \<open>
  What can reach a running refresh: the response it waits for, its timer, or a change of the shared
  state made by any other code of the page.
\<close>

datatype 'w refresh_event = Response http_response | TimerFired | Other "'w \<Rightarrow> 'w"

fun runner_step :: "'w refresh_runtime \<Rightarrow> 'w refresh_event \<Rightarrow> runner \<times> 'w \<Rightarrow> runner \<times> 'w" where
  "runner_step rt (Other f) (r, w) = (r, f w)"
| "runner_step rt (Response resp) (Requesting s n allow, w) = on_response rt n allow resp w"
| "runner_step rt TimerFired (RaceWait d n allow, w) = (run_enter rt (Suc n) allow w, w)"
| "runner_step rt _ (r, w) = (r, w)"

definition createRefreshRunner :: "'w refresh_runtime \<Rightarrow> 'w \<Rightarrow> runner \<times> 'w" where
  "createRefreshRunner rt w = (run_enter rt 0 True w, w)"

text \<open>The requests a run sends, as the expected session ids they carry.\<close>

fun sent_by :: "runner \<Rightarrow> string option list" where
  "sent_by (Requesting s n allow) = [s]"
| "sent_by _ = []"

fun sends :: "'w refresh_runtime \<Rightarrow> 'w refresh_event list \<Rightarrow> runner \<times> 'w \<Rightarrow> string option list" where
  "sends rt [] rw = []"
| "sends rt (e # es) rw =
     (let rw' = runner_step rt e rw in
      (case (e, fst rw) of
         (Response _, Requesting _ _ _) \<Rightarrow> sent_by (fst rw')
       | (TimerFired, RaceWait _ _ _) \<Rightarrow> sent_by (fst rw')
       | _ \<Rightarrow> []) @ sends rt es rw')"

section \<open>The page's own runtime\<close>

datatype axios_result =
    AxiosOk nat js_value
  | AxiosFailed "(nat \<times> js_value) option" js_value
  | NotAxios js_value

text \<open>\<^verbatim>\<open>requestRefresh\<close>: the header it sends and the response record it makes of the result.\<close>

definition refresh_headers :: "string option \<Rightarrow> (string \<times> string) list" where
  "refresh_headers expectedSID =
     (case expectedSID of Some s \<Rightarrow> (if s = [] then [] else [(''X-Auth-Session'', s)]) | None \<Rightarrow> [])"

fun requestRefresh :: "axios_result \<Rightarrow> http_response" where
  "requestRefresh (AxiosOk st d) =
     \<lparr>status = st, response_data = d, response_error = JUndefined\<rparr>"
| "requestRefresh (NotAxios e) =
     \<lparr>status = 0, response_data = JUndefined, response_error = e\<rparr>"
| "requestRefresh (AxiosFailed (Some (st, d)) e) =
     \<lparr>status = st, response_data = d, response_error = e\<rparr>"
| "requestRefresh (AxiosFailed None e) =
     \<lparr>status = 0, response_data = JUndefined, response_error = e\<rparr>"

definition runRefresh :: "nat \<Rightarrow> auth_world refresh_runtime" where
  "runRefresh refreshEpoch =
     \<lparr>getExpectedSID = current_sid,
      parseBundle = (\<lambda>v. if isAuthBundle v then Some (read_bundle v) else None),
      acceptBundle = (\<lambda>b. applyAuthBundle b False),
      clear = (\<lambda>synchronizeTabs b w.
         if \<not> synchronizeTabs \<and> b = Some Idle then w\<lparr>store := reset Idle (store w)\<rparr>
         else clearAuthentication synchronizeTabs b w),
      markTransient = (\<lambda>w. w\<lparr>store := setBootstrapState Idle (store w)\<rparr>),
      isCurrent = (\<lambda>w. authEpoch w = refreshEpoch)\<rparr>"

section \<open>Start-up and request headers\<close>

definition currentValidAuthBundle :: "rat \<Rightarrow> auth_state \<Rightarrow> auth_bundle option" where
  "currentValidAuthBundle now s =
     (case (user s, accessToken s, accessExpiresAt s, session s) of
        (Some u, Some t, Some e, Some l) \<Rightarrow>
          if t = [] \<or> e = 0 \<or> e \<le> of_int \<lfloor>now / 1000\<rfloor> then None
          else Some \<lparr>access_token = t, token_type = ''Bearer'', access_expires_at = e,
                 bundle_user = u, bundle_session = l\<rparr>
      | _ \<Rightarrow> None)"

text \<open>
  \<^verbatim>\<open>bootstrapAuthentication\<close>: either an answer from the store alone, or (\<open>Inr\<close>) the state in which
  \<^verbatim>\<open>refreshAuthentication\<close> is called.
\<close>

definition bootstrapAuthentication ::
  "rat \<Rightarrow> auth_world \<Rightarrow> (refresh_outcome \<times> auth_world) + auth_world" where
  "bootstrapAuthentication now w =
     (case currentValidAuthBundle now (store w) of
        Some b \<Rightarrow> Inl (Authenticated b, w\<lparr>store := setBootstrapState Complete (store w)\<rparr>)
      | None \<Rightarrow>
          let hasStaleSession = (user (store w) \<noteq> None \<and> session (store w) \<noteq> None) in
          if bootstrapState (store w) = Complete \<and> \<not> hasStaleSession
          then Inl (Anonymous, w)
          else Inr (w\<lparr>store := setBootstrapState Checking (store w)\<rparr>))"

definition getCommonHeaders :: "auth_state \<Rightarrow> (string \<times> string) list" where
  "getCommonHeaders s =
     [(''Content-Type'', ''application/json'')] @
     (case accessToken s of
        Some t \<Rightarrow> (if t = [] then [] else [(''Authorization'', ''Bearer '' @ t)])
      | None \<Rightarrow> [])"

definition token_valid_after :: "rat \<Rightarrow> auth_state \<Rightarrow> bool" where
  "token_valid_after bound s =
     (case (accessToken s, accessExpiresAt s) of
        (Some t, Some e) \<Rightarrow> t \<noteq> [] \<and> e \<noteq> 0 \<and> bound < e
      | _ \<Rightarrow> False)"

text \<open>\<^verbatim>\<open>getFreshAuthHeaders\<close> before (\<open>Some\<close> headers without a refresh) and after its await.\<close>

definition freshHeaders_start :: "rat \<Rightarrow> auth_state \<Rightarrow> (string \<times> string) list option" where
  "freshHeaders_start now s =
     (if token_valid_after (of_int \<lfloor>now / 1000\<rfloor> + 60) s then Some (getCommonHeaders s) else None)"

datatype header_error = RequestFailed refresh_error | SessionExpired

definition freshHeaders_finish ::
  "rat \<Rightarrow> refresh_outcome \<Rightarrow> auth_state \<Rightarrow> header_error + (string \<times> string) list" where
  "freshHeaders_finish now outcome s =
     (case outcome of
        Authenticated _ \<Rightarrow> Inr (getCommonHeaders s)
      | _ \<Rightarrow>
          if token_valid_after (of_int \<lfloor>now / 1000\<rfloor>) s then Inr (getCommonHeaders s)
          else (case outcome of TransientError e \<Rightarrow> Inl (RequestFailed e) | _ \<Rightarrow> Inl SessionExpired))"

section \<open>Operations of the page on the session state\<close>

datatype auth_op =
    OpApplyBundle auth_bundle bool
  | OpRotate js_value
  | OpClear bool "bootstrap_state option"
  | OpSetUser "auth_user option"
  | OpSetPending "string option"
  | OpSetBootstrap bootstrap_state

fun auth_act :: "auth_op \<Rightarrow> auth_world \<Rightarrow> auth_world" where
  "auth_act (OpApplyBundle b sync) w = applyAuthBundle b sync w"
| "auth_act (OpRotate v) w = (case applyAuthRotation v w of Inl _ \<Rightarrow> w | Inr w' \<Rightarrow> w')"
| "auth_act (OpClear sync b) w = clearAuthentication sync b w"
| "auth_act (OpSetUser u) w = w\<lparr>store := setUser u (store w)\<rparr>"
| "auth_act (OpSetPending t) w = w\<lparr>store := setPending2FAFlowToken t (store w)\<rparr>"
| "auth_act (OpSetBootstrap b) w = w\<lparr>store := setBootstrapState b (store w)\<rparr>"

text \<open>A response handled by the refresh that was started at epoch \<open>g\<close>.\<close>

definition refresh_deliver :: "nat \<Rightarrow> nat \<times> bool \<times> http_response \<Rightarrow> auth_world \<Rightarrow> auth_world" where
  "refresh_deliver g = (\<lambda>(n, allow, resp) w. snd (on_response (runRefresh g) n allow resp w))"

text \<open>The callers of \<^verbatim>\<open>applyAuthBundle\<close> pass values that \<^verbatim>\<open>isAuthBundle\<close> has accepted.\<close>

fun auth_input_ok :: "(auth_op, nat \<times> bool \<times> http_response) input \<Rightarrow> bool" where
  "auth_input_ok (Act (OpApplyBundle b sync)) = valid_bundle b"
| "auth_input_ok _ = True"

definition initial_world :: auth_world where
  "initial_world = \<lparr>store = initial_auth, authEpoch = 0, published = []\<rparr>"

section \<open>Lemmas on the operations\<close>

lemma publish_frame [simp]:
  "store (publish k s w) = store w" "authEpoch (publish k s w) = authEpoch w"
  by (simp_all add: publish_def)

lemma applyAuthBundle_world [simp]:
  "store (applyAuthBundle b sync w) = setBundle b (store w)"
  "authEpoch (applyAuthBundle b sync w) = authEpoch w + 1"
  "published (applyAuthBundle b False w) = published w"
  by (simp_all add: applyAuthBundle_def Let_def)

lemma clearAuthentication_world [simp]:
  "store (clearAuthentication sync b w) =
     reset (case b of None \<Rightarrow> Complete | Some c \<Rightarrow> c) (store w)"
  "authEpoch (clearAuthentication sync b w) = authEpoch w + 1"
  "published (clearAuthentication False b w) = published w"
  by (simp_all add: clearAuthentication_def Let_def split: option.splits)

lemma runRefresh_simps [simp]:
  "getExpectedSID (runRefresh g) = current_sid"
  "parseBundle (runRefresh g) v = (if isAuthBundle v then Some (read_bundle v) else None)"
  "acceptBundle (runRefresh g) b = applyAuthBundle b False"
  "clear (runRefresh g) sync c w =
     (if \<not> sync \<and> c = Some Idle then w\<lparr>store := reset Idle (store w)\<rparr>
      else clearAuthentication sync c w)"
  "markTransient (runRefresh g) w = w\<lparr>store := setBootstrapState Idle (store w)\<rparr>"
  "isCurrent (runRefresh g) w = (authEpoch w = g)"
  by (simp_all add: runRefresh_def)

lemma read_session_sid: "isLoginSession v \<Longrightarrow> sid (read_session v) \<noteq> []"
  by (simp add: isLoginSession_def read_session_def)

lemma token_fields_valid:
  assumes "hasValidTokenFields v"
  shows "string_of (js_get v ''access_token'') \<noteq> []" "string_of (js_get v ''token_type'') \<noteq> []"
    "0 < rat_of (js_get v ''access_expires_at'')"
  using assms by (auto simp: hasValidTokenFields_def is_finite_iff)

lemma read_user_id: "isAuthUser v \<Longrightarrow> 0 < user_id (read_user v)"
  by (cases "js_get v ''id''" rule: is_integer.cases) (auto simp: isAuthUser_def read_user_def)

lemma read_bundle_valid: "isAuthBundle v \<Longrightarrow> valid_bundle (read_bundle v)"
  unfolding valid_bundle_def
  by (simp add: isAuthBundle_def read_bundle_def token_fields_valid read_session_sid read_user_id)

lemma on_response_superseded:
  "\<not> isCurrent rt w \<Longrightarrow> on_response rt n allow resp w = (Finished (TransientError Superseded), w)"
  by (simp add: on_response_def)

lemma rotation_cases:
  "applyAuthRotation v w = Inr w' \<Longrightarrow>
   \<exists>u l. isAuthTokenRotation v \<and> user (store w) = Some u \<and> session (store w) = Some l \<and>
     sid (read_session (js_get v ''session'')) = sid l \<and>
     w' = applyAuthBundle \<lparr>access_token = string_of (js_get v ''access_token''),
        token_type = string_of (js_get v ''token_type''),
        access_expires_at = rat_of (js_get v ''access_expires_at''),
        bundle_user = u, bundle_session = read_session (js_get v ''session'')\<rparr> False w"
  by (auto simp: applyAuthRotation_def Let_def split: if_splits option.splits)

lemma act_epoch_mono: "authEpoch w \<le> authEpoch (auth_act a w)"
  by (cases a) (auto split: sum.splits dest: rotation_cases)

lemma deliver_epoch_mono: "authEpoch w \<le> authEpoch (refresh_deliver g c w)"
  by (cases c) (auto simp: refresh_deliver_def on_response_def Let_def run_enter_def)

lemma deliver_stale: "g \<noteq> authEpoch w \<Longrightarrow> refresh_deliver g c w = w"
  by (cases c) (simp add: refresh_deliver_def on_response_superseded)

interpretation refresh_epochs: generation_machine authEpoch refresh_deliver auth_act
  by unfold_locales (simp_all add: deliver_stale act_epoch_mono deliver_epoch_mono)

lemma coherent_apply:
  "valid_bundle b \<Longrightarrow> auth_coherent (store (applyAuthBundle b sync w))"
  by (simp add: coherent_setBundle)

lemma coherent_rotation:
  assumes coh: "auth_coherent (store w)" and rot: "applyAuthRotation v w = Inr w'"
  shows "auth_coherent (store w')"
proof -
  obtain u l where v: "isAuthTokenRotation v" "session (store w) = Some l"
      "sid (read_session (js_get v ''session'')) = sid l"
    and w': "w' = applyAuthBundle \<lparr>access_token = string_of (js_get v ''access_token''),
        token_type = string_of (js_get v ''token_type''),
        access_expires_at = rat_of (js_get v ''access_expires_at''),
        bundle_user = u, bundle_session = read_session (js_get v ''session'')\<rparr> False w"
    using rotation_cases [OF rot] by blast
  then have "hasValidTokenFields v" by (simp add: isAuthTokenRotation_def)
  then show ?thesis
    using coh v(2,3) by (simp add: w' auth_coherent_def setBundle_def token_fields_valid)
qed

lemma coherent_deliver:
  "auth_coherent (store w) \<Longrightarrow> auth_coherent (store (refresh_deliver g c w))"
  by (cases c) (auto simp: refresh_deliver_def on_response_def Let_def run_enter_def coherent_reset
      coherent_setBundle read_bundle_valid)

lemma coherent_act:
  "auth_input_ok (Act a :: (auth_op, nat \<times> bool \<times> http_response) input) \<Longrightarrow>
   auth_coherent (store w) \<Longrightarrow> auth_coherent (store (auth_act a w))"
  by (cases a) (auto simp: coherent_setBundle coherent_reset coherent_rotation split: sum.splits)

interpretation auth_machine: invariant_machine initial_world "feed auth_act refresh_deliver"
  auth_input_ok "\<lambda>w. auth_coherent (store w)"
proof unfold_locales
  show "auth_coherent (store initial_world)" by (simp add: initial_world_def coherent_initial)
next
  fix e and w :: auth_world
  assume "auth_input_ok e" and "auth_coherent (store w)"
  then show "auth_coherent (store (feed auth_act refresh_deliver e w))"
    by (cases e) (simp_all add: coherent_act coherent_deliver)
qed

section \<open>Progress of the runner\<close>

text \<open>The requests a runner can still send, and the states a run can be in.\<close>

fun budget :: "runner \<Rightarrow> nat" where
  "budget (Requesting s n allow) = (3 - n) + (if allow then 4 else 0)"
| "budget (RaceWait d n allow) = (3 - n) + (if allow then 4 else 0)"
| "budget (Finished r) = 0"

fun runner_ok :: "runner \<Rightarrow> bool" where
  "runner_ok (Requesting s n allow) = (n \<le> 3)"
| "runner_ok (RaceWait d n allow) = (n < 3)"
| "runner_ok (Finished r) = True"

fun step_sends :: "'w refresh_event \<Rightarrow> runner \<Rightarrow> runner \<Rightarrow> string option list" where
  "step_sends (Response p) (Requesting s n allow) r' = sent_by r'"
| "step_sends TimerFired (RaceWait d n allow) r' = sent_by r'"
| "step_sends e r r' = []"

lemma sends_Cons:
  "sends rt (e # es) rw =
     step_sends e (fst rw) (fst (runner_step rt e rw)) @ sends rt es (runner_step rt e rw)"
  by (cases e; cases "fst rw") (simp_all add: Let_def)

lemma run_enter_cases:
  "run_enter rt n allow w = Finished (TransientError Superseded) \<or>
   run_enter rt n allow w = Requesting (getExpectedSID rt w) n allow"
  by (simp add: run_enter_def)

lemma on_response_budget:
  assumes "n \<le> 3" and "on_response rt n allow resp w = (r', w')"
  shows "runner_ok r' \<and> length (sent_by r') + budget r' \<le> budget (Requesting s n allow)"
  using assms
  by (auto simp: on_response_def Let_def refreshRaceDelays_def run_enter_def split: if_splits)

lemma step_budget:
  assumes "runner_ok (fst rw)"
  shows "runner_ok (fst (runner_step rt e rw)) \<and>
     length (step_sends e (fst rw) (fst (runner_step rt e rw))) + budget (fst (runner_step rt e rw))
       \<le> budget (fst rw)"
proof (cases rw)
  case (Pair r w)
  with assms show ?thesis
  proof (cases "(rt, e, rw)" rule: runner_step.cases)
    case (2 rt' resp s n allow w0)
    with assms have n: "n \<le> 3" by simp
    obtain r' w' where rw': "on_response rt n allow resp w0 = (r', w')" by fastforce
    from on_response_budget [OF n rw', of s] 2 rw' show ?thesis by simp
  qed (auto simp: run_enter_def)
qed

lemma sends_bound: "runner_ok (fst rw) \<Longrightarrow> length (sends rt es rw) \<le> budget (fst rw)"
proof (induction es arbitrary: rw)
  case Nil
  then show ?case by simp
next
  case (Cons e es)
  note step = step_budget [OF Cons.prems, of rt e]
  with Cons.IH [of "runner_step rt e rw"]
  have "length (sends rt es (runner_step rt e rw)) \<le> budget (fst (runner_step rt e rw))" by simp
  with step show ?case unfolding sends_Cons length_append by linarith
qed

text \<open>One round of a run: the state may change, the response arrives, the state may change, the
  timer of a race fires.\<close>

definition refresh_round ::
  "'w refresh_runtime \<Rightarrow> http_response \<times> ('w \<Rightarrow> 'w) \<times> ('w \<Rightarrow> 'w) \<Rightarrow> runner \<times> 'w \<Rightarrow> runner \<times> 'w" where
  "refresh_round rt = (\<lambda>(resp, f, h).
     fold (runner_step rt) [Other f, Response resp, Other h, TimerFired])"

fun load :: "runner \<Rightarrow> nat" where
  "load (Requesting s n allow) = Suc (budget (Requesting s n allow))"
| "load r = budget r"

fun awaiting_response :: "runner \<Rightarrow> bool" where
  "awaiting_response (Requesting s n allow) = (n \<le> 3)"
| "awaiting_response (Finished r) = True"
| "awaiting_response (RaceWait d n allow) = False"

lemma round_load:
  assumes "awaiting_response r"
  shows "awaiting_response (fst (refresh_round rt x (r, w))) \<and>
     load (fst (refresh_round rt x (r, w))) \<le> load r - 1"
proof (cases x)
  case (fields resp f h)
  show ?thesis
  proof (cases r)
    case (Requesting s n allow)
    then have n: "n \<le> 3" using assms by simp
    obtain r' w' where rw': "on_response rt n allow resp (f w) = (r', w')" by fastforce
    from on_response_budget [OF n rw', of s] show ?thesis
      by (cases r') (auto simp: fields refresh_round_def Requesting rw' run_enter_def)
  next
    case (RaceWait d n allow)
    with assms show ?thesis by simp
  next
    case (Finished out)
    then show ?thesis by (simp add: fields refresh_round_def)
  qed
qed

lemma rounds_finish:
  "awaiting_response (fst rw) \<Longrightarrow> load (fst rw) \<le> length xs \<Longrightarrow>
   \<exists>out w'. fold (refresh_round rt) xs rw = (Finished out, w')"
proof (induction xs arbitrary: rw)
  case Nil
  then show ?case by (cases rw; cases "fst rw") auto
next
  case (Cons x xs)
  obtain r w where rw: "rw = (r, w)" by fastforce
  from round_load [of r rt x w] Cons.prems
  have "awaiting_response (fst (refresh_round rt x rw))"
    and "load (fst (refresh_round rt x rw)) \<le> length xs" by (auto simp: rw)
  from Cons.IH [OF this] show ?case by simp
qed

section \<open>Properties\<close>

text \<open>C1: once a login, a rotation or a sign-out has moved the epoch past \<open>g\<close>, every response that a
  refresh started at epoch \<open>g\<close> still receives can be deleted from any later run of the page without
  changing the session state.\<close>

theorem superseded_refresh_irrelevant:
  assumes "g < authEpoch w"
  shows "fold (feed auth_act refresh_deliver) inputs w =
     fold (feed auth_act refresh_deliver) (filter (\<lambda>i. \<not> from_generation g i) inputs) w"
  using assms by (rule refresh_epochs.superseded_irrelevant)

theorem superseded_refresh_irrelevant_witness:
  "0 < authEpoch (clearAuthentication True None initial_world) \<and>
   fold (feed auth_act refresh_deliver)
     [Callback 0 (0, True, \<lparr>status = 401, response_data = JUndefined, response_error = JUndefined\<rparr>)]
     (clearAuthentication True None initial_world) = clearAuthentication True None initial_world"
proof -
  have h: "0 < authEpoch (clearAuthentication True None initial_world)" by simp
  show ?thesis
    using h superseded_refresh_irrelevant [OF h, of
      "[Callback 0 (0, True, \<lparr>status = 401, response_data = JUndefined, response_error = JUndefined\<rparr>)]"]
    by simp
qed

text \<open>Whatever the server answers and whatever else happens on the page, one refresh sends at
  most eight requests.\<close>

lemma refresh_request_bound:
  "length (sent_by (fst (createRefreshRunner rt w)) @ sends rt es (createRefreshRunner rt w)) \<le> 8"
proof -
  have "runner_ok (fst (createRefreshRunner rt w))" and
    "length (sent_by (fst (createRefreshRunner rt w))) + budget (fst (createRefreshRunner rt w)) \<le> 8"
    by (auto simp: createRefreshRunner_def run_enter_def)
  with sends_bound [of "createRefreshRunner rt w" rt es] show ?thesis by simp
qed

text \<open>C2: a refresh reaches an outcome within eight rounds of response and race timer, whatever the
  responses are and however other code changes the state in between.\<close>

theorem refresh_terminates:
  assumes "8 \<le> length rounds"
  shows "\<exists>outcome w'. fold (refresh_round rt) rounds (createRefreshRunner rt w) = (Finished outcome, w')"
proof (rule rounds_finish)
  show "awaiting_response (fst (createRefreshRunner rt w))"
    by (simp add: createRefreshRunner_def run_enter_def)
  have "load (fst (createRefreshRunner rt w)) \<le> 8"
    by (simp add: createRefreshRunner_def run_enter_def)
  with assms show "load (fst (createRefreshRunner rt w)) \<le> length rounds" by simp
qed

theorem refresh_terminates_witness:
  "\<exists>outcome w'. fold (refresh_round (runRefresh 0))
     (replicate 8 (\<lparr>status = 409, response_data = JObject [(''code'', JString ''AUTH_REFRESH_RACE'')],
        response_error = JUndefined\<rparr>, id, id))
     (createRefreshRunner (runRefresh 0) initial_world) = (Finished outcome, w')"
  by (rule refresh_terminates) simp

text \<open>A response that says the cookie belongs to another session clears the local session without
  ending the refresh: the next request goes out at once, without an expected session id, the epoch is
  unchanged (so the refresh is still the current one) and no other tab is told to sign out.\<close>

lemma mismatch_retry_stays_current:
  assumes "authEpoch w = g"
    and "status resp = 409" and "isRecord (response_data resp)"
    and "js_get (response_data resp) ''code'' = JString ''AUTH_SESSION_MISMATCH''"
    and "js_get (response_data resp) ''success'' \<noteq> JBool True"
  shows "on_response (runRefresh g) n True resp w =
     (Requesting None 0 False, w\<lparr>store := reset Idle (store w)\<rparr>)"
  using assms by (simp add: on_response_def run_enter_def current_sid_def Let_def)

lemma mismatch_retry_stays_current_witness:
  "on_response (runRefresh 0) 2 True \<lparr>status = 409,
     response_data = JObject [(''code'', JString ''AUTH_SESSION_MISMATCH'')],
     response_error = JUndefined\<rparr> initial_world =
   (Requesting None 0 False, initial_world\<lparr>store := reset Idle (store initial_world)\<rparr>)"
  by (rule mismatch_retry_stays_current)
    (simp_all add: initial_world_def isRecord_def is_object_def)

text \<open>A refresh reports an authenticated session only when the server said so with a well-formed
  bundle, and then exactly that bundle is in the store, under a new epoch and without telling other
  tabs.\<close>

lemma refresh_authenticated_installs:
  assumes "on_response (runRefresh g) n allow resp w = (Finished (Authenticated b), w')"
  shows "authEpoch w = g \<and> valid_bundle b \<and> store w' = setBundle b (store w) \<and>
     authEpoch w' = Suc g \<and> published w' = published w \<and>
     js_get (response_data resp) ''success'' = JBool True \<and>
     b = read_bundle (js_get (response_data resp) ''data'')"
  using assms
  by (auto simp: on_response_def Let_def read_bundle_valid run_enter_def split: if_splits)

definition sample_session_value :: js_value where
  "sample_session_value = JObject [(''sid'', JString ''s1''), (''current'', JBool True),
     (''login_method'', JString ''password''), (''ip'', JString ''127.0.0.1''),
     (''user_agent'', JString ''test''), (''created_at'', JNumber (Fin 100)),
     (''last_active_at'', JNumber (Fin 100)), (''expires_at'', JNumber (Fin 1000))]"

definition sample_bundle_value :: js_value where
  "sample_bundle_value = JObject [(''access_token'', JString ''tok''),
     (''token_type'', JString ''Bearer''), (''access_expires_at'', JNumber (Fin 600)),
     (''user'', JObject [(''id'', JNumber (Fin 42)), (''username'', JString ''ann''),
        (''role'', JNumber (Fin 1))]),
     (''session'', sample_session_value)]"

lemma sample_values_valid:
  "isAuthBundle sample_bundle_value" "isAuthTokenRotation sample_bundle_value"
  "read_session (js_get sample_bundle_value ''session'') = read_session sample_session_value"
  "sid (read_session sample_session_value) = ''s1''"
  by (auto simp: sample_bundle_value_def sample_session_value_def isAuthBundle_def isRecord_def
      is_object_def hasValidTokenFields_def isAuthUser_def isLoginSession_def isAuthTokenRotation_def
      read_session_def)

lemma refresh_authenticated_installs_witness:
  "authEpoch initial_world = 0 \<and> valid_bundle (read_bundle sample_bundle_value)"
proof -
  let ?resp = "\<lparr>status = 200, response_data = JObject [(''success'', JBool True),
      (''data'', sample_bundle_value)], response_error = JUndefined\<rparr>"
  have "on_response (runRefresh 0) 0 True ?resp initial_world =
      (Finished (Authenticated (read_bundle sample_bundle_value)),
       applyAuthBundle (read_bundle sample_bundle_value) False initial_world)"
    by (simp add: on_response_def initial_world_def isRecord_def is_object_def sample_values_valid)
  from refresh_authenticated_installs [OF this] show ?thesis by simp
qed

text \<open>A refresh that fails for a reason that may pass (no connection, a server error, rate
  limiting) never signs the user out: user, token, expiry, session and epoch are as before and
  nothing is published.\<close>

lemma transient_failure_keeps_session:
  assumes "on_response (runRefresh g) n allow resp w = (Finished (TransientError e), w')"
  shows "user (store w') = user (store w) \<and> accessToken (store w') = accessToken (store w) \<and>
     accessExpiresAt (store w') = accessExpiresAt (store w) \<and>
     session (store w') = session (store w) \<and> authEpoch w' = authEpoch w \<and>
     published w' = published w"
  using assms
  by (auto simp: on_response_def Let_def run_enter_def setBootstrapState_def split: if_splits)

lemma transient_failure_keeps_session_witness:
  "session (store (initial_world\<lparr>store := setBootstrapState Idle initial_auth\<rparr>)) =
   session (store initial_world)"
proof -
  have "on_response (runRefresh 0) 0 True \<lparr>status = 503, response_data = JUndefined,
      response_error = JNull\<rparr> initial_world =
    (Finished (TransientError (ResponseFailure JUndefined)),
     initial_world\<lparr>store := setBootstrapState Idle initial_auth\<rparr>)"
    by (simp add: on_response_def initial_world_def isRecord_def nullish_or_def)
  from transient_failure_keeps_session [OF this] show ?thesis by simp
qed

text \<open>Applying a token rotation either fails and leaves the session state as it was, or installs
  the new token of a well-formed rotation for the same session and the same user, without an event
  to other tabs.\<close>

lemma rotation_keeps_session_identity:
  "case applyAuthRotation v w of
     Inl InvalidRotation \<Rightarrow> \<not> isAuthTokenRotation v
   | Inl NoActiveSession \<Rightarrow> user (store w) = None \<or> session (store w) = None
   | Inl SessionMismatch \<Rightarrow>
       current_sid w \<noteq> Some (sid (read_session (js_get v ''session'')))
   | Inr w' \<Rightarrow> isAuthTokenRotation v \<and> current_sid w' = current_sid w \<and>
       user (store w') = user (store w) \<and> published w' = published w \<and>
       accessToken (store w') = Some (string_of (js_get v ''access_token'')) \<and>
       authEpoch w' = Suc (authEpoch w)"
  by (auto simp: applyAuthRotation_def Let_def current_sid_def applyAuthBundle_def setBundle_def
      split: option.splits)

text \<open>C3: in every state the page can reach, the access token, its expiry and the session are present
  together or absent together, and a present session has a session id and a token.\<close>

theorem session_state_coherent:
  assumes "list_all auth_input_ok inputs"
  shows "auth_coherent (store (fold (feed auth_act refresh_deliver) inputs initial_world))"
  using assms by (rule auth_machine.run_inv)

theorem session_state_coherent_witness:
  "auth_coherent (store (fold (feed auth_act refresh_deliver)
     [Act (OpApplyBundle (read_bundle sample_bundle_value) True), Act (OpSetUser None),
      Act (OpClear True None)] initial_world))"
  by (rule session_state_coherent) (simp add: read_bundle_valid sample_values_valid)

text \<open>After a refresh that did not authenticate, request headers are handed out only with a token
  that has not expired; otherwise the call fails, with the refresh's own error when that was
  transient and as an expired session when not.\<close>

lemma fresh_headers_sound:
  assumes "\<forall>b. outcome \<noteq> Authenticated b"
  shows "case freshHeaders_finish now outcome s of
      Inr h \<Rightarrow> (\<exists>t e. accessToken s = Some t \<and> t \<noteq> [] \<and> accessExpiresAt s = Some e \<and>
          of_int \<lfloor>now / 1000\<rfloor> < e \<and> (''Authorization'', ''Bearer '' @ t) \<in> set h)
    | Inl (RequestFailed e) \<Rightarrow> outcome = TransientError e
    | Inl SessionExpired \<Rightarrow> outcome = Anonymous \<or> (\<exists>c. outcome = OutOfSync c)"
  using assms
  by (cases outcome) (auto simp: freshHeaders_finish_def token_valid_after_def getCommonHeaders_def
      split: option.splits if_splits)

lemma fresh_headers_sound_witness:
  "freshHeaders_finish 5000 Anonymous initial_auth = Inl SessionExpired \<and>
   (Anonymous = Anonymous \<or> (\<exists>c. Anonymous = OutOfSync c))"
proof -
  have v: "freshHeaders_finish 5000 Anonymous initial_auth = Inl SessionExpired"
    by (simp add: freshHeaders_finish_def token_valid_after_def initial_auth_def)
  have "\<forall>b. Anonymous \<noteq> Authenticated b" by simp
  from fresh_headers_sound [OF this, where now = 5000 and s = initial_auth] v show ?thesis by simp
qed

end
