(* ===== verification/Http_Client.thy ===== *)
theory Http_Client
  imports Auth_Session
begin

text \<open>
  The HTTP client (\<^verbatim>\<open>web/src/lib/http-client.ts\<close>) and the server error codes it translates
  (\<^verbatim>\<open>web/src/lib/server-error-message.ts\<close>): sharing of identical GET requests in flight, and the
  response interceptors with the single retry after a refreshed session.  The translation function
  \<open>t\<close> of i18next is a parameter.
\<close>

section \<open>Server error codes\<close>

text \<open>The table is read by its own names only; a code that names a member of \<^verbatim>\<open>Object.prototype\<close> is not
  an error code of the server.\<close>

definition serverErrorMessageKeys :: "(string \<times> string) list" where
  "serverErrorMessageKeys =
    [(''AUTH_SESSION_LIMIT'',
      ''Too many active login sessions. On a device where you are already signed in, open Login sessions and use '' @
      [CHR 0xE2, CHR 0x80, CHR 0x9C] @ ''Sign out other sessions'' @ [CHR 0xE2, CHR 0x80, CHR 0x9D] @
      '' to revoke them. If you cannot access a signed-in device, reset your password to sign out all sessions.''),
     (''AUTH_SESSION_ISSUANCE_LIMIT'',
      ''Too many login sessions were created recently. Please wait for the rolling window to pass, then try again.''),
     (''TELEGRAM_BIND_DISABLED'', ''Telegram binding is disabled.''),
     (''TELEGRAM_BIND_INVALID_REQUEST'',
      ''The Telegram authorization request is invalid or expired.''),
     (''TELEGRAM_BIND_FLOW_INVALID'',
      ''This Telegram binding request has expired or has already been used.''),
     (''TELEGRAM_BIND_SESSION_INVALID'',
      ''The login session that started this Telegram binding is no longer valid.''),
     (''TELEGRAM_BIND_ALREADY_BOUND'', ''This Telegram account is already bound.''),
     (''TELEGRAM_BIND_USER_DELETED'', ''This user account no longer exists.''),
     (''TELEGRAM_BIND_USER_DISABLED'', ''This user account is disabled.''),
     (''TELEGRAM_BIND_INTERNAL_ERROR'', ''Telegram binding failed. Please try again.'')]"

definition serverErrorPayload :: "js_value \<Rightarrow> js_value option" where
  "serverErrorPayload v =
     (if \<not> isRecord v then None
      else let response = js_get v ''response'' in
        if isRecord response \<and> isRecord (js_get response ''data'')
        then Some (js_get response ''data'') else Some v)"

definition getServerErrorMessageKey :: "js_value \<Rightarrow> string option" where
  "getServerErrorMessageKey v =
     (case serverErrorPayload v of
        None \<Rightarrow> None
      | Some payload \<Rightarrow>
          (case js_get payload ''code'' of
             JString c \<Rightarrow> map_of serverErrorMessageKeys c
           | _ \<Rightarrow> None))"

section \<open>Sharing GET requests in flight\<close>

record get_options =
  disableDuplicate :: bool
  params :: "string option" \<comment> \<open>the JSON text of \<^verbatim>\<open>config.params\<close>, when it is set\<close>

text \<open>Requests are numbered; a promise is the number of the request it settles with.\<close>

record get_state =
  inFlightGet :: "(string \<times> nat) list"
  issued :: nat

definition session_label :: "string option \<Rightarrow> string" where
  "session_label session_sid =
     (case session_sid of None \<Rightarrow> ''anonymous'' | Some s \<Rightarrow> if s = [] then ''anonymous'' else s)"

definition request_key :: "string option \<Rightarrow> string \<Rightarrow> get_options \<Rightarrow> string" where
  "request_key session_sid url opts = session_label session_sid @ '':'' @ url @ ''?'' @ (case params opts of None \<Rightarrow> ''{}'' | Some p \<Rightarrow> p)"

definition api_get ::
  "string option \<Rightarrow> string \<Rightarrow> get_options \<Rightarrow> get_state \<Rightarrow> nat \<times> get_state" where
  "api_get session_sid url opts st =
     (if disableDuplicate opts then (issued st, st\<lparr>issued := issued st + 1\<rparr>)
      else let key = request_key session_sid url opts in
        case map_of (inFlightGet st) key of
          Some existing \<Rightarrow> (existing, st)
        | None \<Rightarrow> (issued st,
            st\<lparr>inFlightGet := AList.update key (issued st) (inFlightGet st), issued := issued st + 1\<rparr>))"

text \<open>The \<^verbatim>\<open>finally\<close> of the request stored under \<open>key\<close>.\<close>

definition api_get_settled :: "string \<Rightarrow> get_state \<Rightarrow> get_state" where
  "api_get_settled key st = st\<lparr>inFlightGet := AList.delete key (inFlightGet st)\<rparr>"

section \<open>Response interceptors\<close>

record request_config =
  skipBusinessError :: bool
  skipErrorHandler :: bool
  skipAuthRefresh :: bool
  authRetry :: bool
  acceptAuthRotation :: bool
  config_headers :: "(string \<times> string) list"

datatype http_effect = ToastError js_value | ReplaceLocation string | ClearSession

definition redirectToSignIn :: "string \<Rightarrow> http_effect list" where
  "redirectToSignIn pathname = (if pathname \<noteq> ''/sign-in'' then [ReplaceLocation ''/sign-in''] else [])"

text \<open>The request interceptor: the current token, if any, goes into the headers.\<close>

definition with_authorization :: "string option \<Rightarrow> request_config \<Rightarrow> request_config" where
  "with_authorization token cfg =
     (case token of
        Some t \<Rightarrow> if t = [] then cfg
          else cfg\<lparr>config_headers := AList.update ''Authorization'' (''Bearer '' @ t) (config_headers cfg)\<rparr>
      | None \<Rightarrow> cfg)"

text \<open>The success interceptor: a failed rotation is thrown, a business error is shown.\<close>

definition on_success ::
  "(string \<Rightarrow> string) \<Rightarrow> request_config \<Rightarrow> js_value \<Rightarrow> auth_world \<Rightarrow>
     rotation_error + (http_effect list \<times> auth_world)" where
  "on_success t cfg body w =
     (let rotated =
        (if acceptAuthRotation cfg \<and> js_get body ''success'' = JBool True
         then applyAuthRotation (js_get body ''data'') w else Inr w)
      in case rotated of
        Inl e \<Rightarrow> Inl e
      | Inr w' \<Rightarrow>
          Inr (if \<not> skipBusinessError cfg \<and> js_get body ''success'' = JBool False
               then [ToastError (case getServerErrorMessageKey body of
                       Some k \<Rightarrow> JString (t k)
                     | None \<Rightarrow> if truthy (js_get body ''message'') then js_get body ''message''
                              else JString (t ''Request failed''))]
               else [], w'))"

datatype http_phase = InFlight request_config | RefreshWait request_config | Rejected

definition error_message :: "(string \<Rightarrow> string) \<Rightarrow> js_value \<Rightarrow> js_value" where
  "error_message t err =
     (case getServerErrorMessageKey err of
        Some k \<Rightarrow> JString (t k)
      | None \<Rightarrow>
          let m = js_get (js_get (js_get err ''response'') ''data'') ''message'' in
          if truthy m then m
          else if truthy (js_get err ''message'') then js_get err ''message''
          else JString (t ''Request failed''))"

text \<open>The failure interceptor up to its await: \<open>cfg\<close> is \<^verbatim>\<open>error.config\<close>, absent in some errors.\<close>

definition on_failure ::
  "(string \<Rightarrow> string) \<Rightarrow> string \<Rightarrow> nat option \<Rightarrow> request_config option \<Rightarrow> js_value \<Rightarrow>
     http_effect list \<times> http_phase" where
  "on_failure t pathname st cfg err =
     (let skip = (case cfg of None \<Rightarrow> False | Some c \<Rightarrow> skipErrorHandler c) in
      if st = Some 401 then
        (case cfg of
           Some c \<Rightarrow>
             if \<not> skipAuthRefresh c \<and> \<not> authRetry c then ([], RefreshWait (c\<lparr>authRetry := True\<rparr>))
             else if authRetry c then
               ([ClearSession] @ (if skip then [] else [ToastError (JString (t ''Session expired!''))]) @
                redirectToSignIn pathname, Rejected)
             else (if skip then [] else [ToastError (JString (t ''Session expired!''))], Rejected)
         | None \<Rightarrow> ([ToastError (JString (t ''Session expired!''))], Rejected))
      else (if skip then [] else [ToastError (error_message t err)], Rejected))"

text \<open>The rest of the failure interceptor, once the refresh has an outcome.\<close>

definition after_refresh ::
  "(string \<Rightarrow> string) \<Rightarrow> string \<Rightarrow> refresh_outcome \<Rightarrow> string option \<Rightarrow> request_config \<Rightarrow>
     http_effect list \<times> http_phase" where
  "after_refresh t pathname outcome token cfg =
     (case outcome of
        Authenticated _ \<Rightarrow> ([], InFlight (with_authorization token cfg))
      | TransientError _ \<Rightarrow> ([], Rejected)
      | _ \<Rightarrow> ((if skipErrorHandler cfg then [] else [ToastError (JString (t ''Session expired!''))]) @
             redirectToSignIn pathname, Rejected))"

text \<open>
  One call of the client as a run: each event is the failure of the request in flight or the outcome
  of the refresh waited for.  The run counts the requests sent and collects the effects.
\<close>

datatype http_event = Fails "nat option" js_value | RefreshDone refresh_outcome "string option"

record http_run =
  phase :: http_phase
  sent_requests :: nat
  refreshes :: nat
  effects :: "http_effect list"

definition start_request :: "request_config \<Rightarrow> http_run" where
  "start_request cfg = \<lparr>phase = InFlight cfg, sent_requests = 1, refreshes = 0, effects = []\<rparr>"

fun http_step :: "(string \<Rightarrow> string) \<Rightarrow> string \<Rightarrow> http_event \<Rightarrow> http_run \<Rightarrow> http_run" where
  "http_step t path (Fails st err) r =
     (case phase r of
        InFlight cfg \<Rightarrow>
          (case on_failure t path st (Some cfg) err of (es, p) \<Rightarrow>
             r\<lparr>phase := p, effects := effects r @ es,
               refreshes := refreshes r + (case p of RefreshWait _ \<Rightarrow> 1 | _ \<Rightarrow> 0)\<rparr>)
      | _ \<Rightarrow> r)"
| "http_step t path (RefreshDone outcome token) r =
     (case phase r of
        RefreshWait cfg \<Rightarrow>
          (case after_refresh t path outcome token cfg of (es, p) \<Rightarrow>
             r\<lparr>phase := p, effects := effects r @ es,
               sent_requests := sent_requests r + (case p of InFlight _ \<Rightarrow> 1 | _ \<Rightarrow> 0)\<rparr>)
      | _ \<Rightarrow> r)"

section \<open>Lemmas\<close>

lemma with_authorization_retry [simp]: "authRetry (with_authorization tok cfg) = authRetry cfg"
  by (simp add: with_authorization_def split: option.splits)

text \<open>What is left of the retry allowance in a phase.\<close>

definition http_ok :: "http_run \<Rightarrow> bool" where
  "http_ok r \<longleftrightarrow>
     (case phase r of
        InFlight cfg \<Rightarrow> if authRetry cfg then sent_requests r \<le> 2 \<and> refreshes r \<le> 1
                        else sent_requests r = 1 \<and> refreshes r = 0
      | RefreshWait cfg \<Rightarrow> authRetry cfg \<and> sent_requests r = 1 \<and> refreshes r = 1
      | Rejected \<Rightarrow> sent_requests r \<le> 2 \<and> refreshes r \<le> 1)"

lemma http_step_ok: "http_ok r \<Longrightarrow> http_ok (http_step t path e r)"
  by (cases e; cases "phase r")
    (auto simp: http_ok_def on_failure_def after_refresh_def Let_def
       split: if_splits option.splits refresh_outcome.splits prod.splits)

lemma start_ok: "http_ok (start_request cfg)"
  by (simp add: http_ok_def start_request_def)

interpretation http_machine: invariant_machine "start_request cfg" "http_step t path" "\<lambda>_. True"
  http_ok for cfg t path
  by unfold_locales (simp_all add: start_ok http_step_ok)

lemma take_until_sep:
  "c \<notin> set a \<Longrightarrow> c \<notin> set b \<Longrightarrow> a @ c # x = b @ c # y \<Longrightarrow> a = b"
proof (induction a arbitrary: b)
  case Nil
  then show ?case by (cases b) auto
next
  case (Cons z a)
  then show ?case by (cases b) auto
qed

section \<open>Properties\<close>

text \<open>C5: one call of the HTTP client sends its request at most twice and refreshes the session at
  most once, however often the server answers 401.\<close>

theorem http_retry_bound:
  "sent_requests (fold (http_step t path) es (start_request cfg)) \<le> 2 \<and>
   refreshes (fold (http_step t path) es (start_request cfg)) \<le> 1"
proof -
  have "http_ok (fold (http_step t path) es (start_request cfg))"
    using http_machine.run_inv [of es] by (simp add: list_all_iff)
  then show ?thesis by (auto simp: http_ok_def split: http_phase.splits if_splits)
qed

text \<open>A 401 on the retried request ends the session: the session is cleared, the user is sent to
  the sign-in page unless already there, the call is rejected and no further refresh starts.\<close>

lemma second_unauthorized_signs_out:
  assumes "authRetry cfg" and "pathname \<noteq> ''/sign-in''"
  shows "snd (on_failure t pathname (Some 401) (Some cfg) err) = Rejected \<and>
     hd (fst (on_failure t pathname (Some 401) (Some cfg) err)) = ClearSession \<and>
     last (fst (on_failure t pathname (Some 401) (Some cfg) err)) = ReplaceLocation ''/sign-in''"
  using assms by (simp add: on_failure_def redirectToSignIn_def)

lemma second_unauthorized_signs_out_witness:
  "snd (on_failure id ''/keys'' (Some 401) (Some \<lparr>skipBusinessError = False, skipErrorHandler = True,
      skipAuthRefresh = False, authRetry = True, acceptAuthRotation = False, config_headers = []\<rparr>)
      JNull) = Rejected"
  using second_unauthorized_signs_out [of "\<lparr>skipBusinessError = False, skipErrorHandler = True,
      skipAuthRefresh = False, authRetry = True, acceptAuthRotation = False, config_headers = []\<rparr>"
      "''/keys''" id JNull] by simp

section \<open>Sessions and GET requests in flight\<close>

text \<open>The calls of a page, each with the promise it was given, and the requests that settle in between.\<close>

record get_call =
  call_promise :: nat
  call_sid :: "string option"
  call_url :: string
  call_opts :: get_options

abbreviation call_key :: "get_call \<Rightarrow> string" where
  "call_key c \<equiv> request_key (call_sid c) (call_url c) (call_opts c)"

datatype get_event = GetCall "string option" string get_options | GetSettled string

fun get_step :: "get_event \<Rightarrow> get_state \<times> get_call list \<Rightarrow> get_state \<times> get_call list" where
  "get_step (GetCall session_sid url opts) (st, calls) =
     (snd (api_get session_sid url opts st),
      calls @ [\<lparr>call_promise = fst (api_get session_sid url opts st), call_sid = session_sid, call_url = url, call_opts = opts\<rparr>])"
| "get_step (GetSettled key) (st, calls) = (api_get_settled key st, calls)"

definition get_start :: "get_state \<times> get_call list" where
  "get_start = (\<lparr>inFlightGet = [], issued = 0\<rparr>, [])"

definition same_request :: "get_call \<Rightarrow> get_call \<Rightarrow> bool" where
  "same_request a b \<longleftrightarrow> \<not> disableDuplicate (call_opts a) \<and> \<not> disableDuplicate (call_opts b) \<and> call_key a = call_key b"

definition gets_ok :: "get_state \<times> get_call list \<Rightarrow> bool" where
  "gets_ok = (\<lambda>(st, calls).
     sorted_wrt (\<lambda>a b. call_promise a = call_promise b \<longrightarrow> same_request a b) calls \<and>
     (\<forall>c \<in> set calls. call_promise c < issued st) \<and>
     (\<forall>k p. map_of (inFlightGet st) k = Some p \<longrightarrow> (\<exists>c \<in> set calls. call_promise c = p) \<and>
        (\<forall>c \<in> set calls. call_promise c = p \<longrightarrow> \<not> disableDuplicate (call_opts c) \<and> call_key c = k)))"

lemma gets_ok_shared:
  assumes "gets_ok (st, calls)" and "map_of (inFlightGet st) key = Some p"
    and n: "call_promise n = p" "call_key n = key" "\<not> disableDuplicate (call_opts n)"
  shows "gets_ok (st, calls @ [n])"
proof -
  have i: "(\<exists>c \<in> set calls. call_promise c = p) \<and>
      (\<forall>c \<in> set calls. call_promise c = p \<longrightarrow> \<not> disableDuplicate (call_opts c) \<and> call_key c = k)"
    if "map_of (inFlightGet st) k = Some p" for k
    using assms(1) that unfolding gets_ok_def by blast
  have u: "k = key" if "map_of (inFlightGet st) k = Some p" for k
    using i [OF that] i [OF assms(2)] by blast
  have "sorted_wrt (\<lambda>a b. call_promise a = call_promise b \<longrightarrow> same_request a b) (calls @ [n])"
    using assms(1) i [OF assms(2)] n by (auto simp: gets_ok_def sorted_wrt_append same_request_def)
  moreover have "p < issued st" using assms(1) i [OF assms(2)] by (auto simp: gets_ok_def)
  moreover have "(\<exists>c \<in> set (calls @ [n]). call_promise c = q) \<and> (\<forall>c \<in> set (calls @ [n]). call_promise c = q \<longrightarrow>
      \<not> disableDuplicate (call_opts c) \<and> call_key c = k)" if k: "map_of (inFlightGet st) k = Some q" for k q
  proof -
    have "(\<exists>c \<in> set calls. call_promise c = q) \<and>
        (\<forall>c \<in> set calls. call_promise c = q \<longrightarrow> \<not> disableDuplicate (call_opts c) \<and> call_key c = k)"
      using assms(1) k unfolding gets_ok_def by blast
    moreover have "call_key n = k" if "p = q" using u k n(2) that by simp
    ultimately show ?thesis using n by auto
  qed
  ultimately show ?thesis using assms(1) n(1) by (simp add: gets_ok_def)
qed

lemma gets_ok_call: "gets_ok (st, calls) \<Longrightarrow> gets_ok (get_step (GetCall session_sid url opts) (st, calls))"
proof -
  assume ok: "gets_ok (st, calls)"
  consider "disableDuplicate opts" | "\<not> disableDuplicate opts" "map_of (inFlightGet st) (request_key session_sid url opts) = None"
    | p where "\<not> disableDuplicate opts" "map_of (inFlightGet st) (request_key session_sid url opts) = Some p"
    by (cases "map_of (inFlightGet st) (request_key session_sid url opts)") auto
  then show ?thesis
  proof cases
    case 1
    with ok show ?thesis by (fastforce simp: gets_ok_def api_get_def sorted_wrt_append)
  next
    case 2
    with ok show ?thesis by (fastforce simp: gets_ok_def api_get_def sorted_wrt_append update_conv)
  next
    case 3
    with ok show ?thesis using gets_ok_shared [OF ok 3(2)] by (simp add: api_get_def)
  qed
qed

lemma gets_ok_settled: "gets_ok (st, calls) \<Longrightarrow> gets_ok (get_step (GetSettled key) (st, calls))"
  by (auto simp: gets_ok_def api_get_settled_def delete_conv' split: if_splits)

interpretation get_machine: invariant_machine get_start get_step "\<lambda>_. True" gets_ok
proof unfold_locales
  show "gets_ok get_start" by (simp add: gets_ok_def get_start_def)
  show "gets_ok (get_step e s)" if "gets_ok s" for e s
    using that gets_ok_call gets_ok_settled by (cases e; cases s) (simp_all del: get_step.simps)
qed

lemma same_key_same_session:
  assumes "request_key s1 url1 opts1 = request_key s2 url2 opts2"
    and "CHR '':'' \<notin> set (session_label s1)" and "CHR '':'' \<notin> set (session_label s2)"
  shows "session_label s1 = session_label s2"
  using take_until_sep [OF assms(2,3)] assms(1) by (simp add: request_key_def)

text \<open>C6: In every interleaving of GET calls and settled requests that starts with nothing in flight, and in
  which no session identifier contains a colon: two calls that are given the same promise both allow sharing, have the
  same request key and belong to the same session, where a missing or empty session identifier counts as
  \<^verbatim>\<open>anonymous\<close>.\<close>

theorem in_flight_get_not_shared_across_sessions:
  assumes "(st, calls) = fold get_step es get_start" and "i < j" and "j < length calls"
    and "call_promise (calls ! i) = call_promise (calls ! j)"
    and "\<forall>c \<in> set calls. CHR '':'' \<notin> set (session_label (call_sid c))"
  shows "same_request (calls ! i) (calls ! j) \<and>
    session_label (call_sid (calls ! i)) = session_label (call_sid (calls ! j))"
proof -
  have "gets_ok (st, calls)" unfolding assms(1) by (rule get_machine.run_inv) (simp add: list_all_iff)
  then have "same_request (calls ! i) (calls ! j)"
    using assms(2-4) by (auto simp: gets_ok_def sorted_wrt_iff_nth_less)
  moreover from this have "session_label (call_sid (calls ! i)) = session_label (call_sid (calls ! j))"
    using assms(2,3,5) by (auto simp: same_request_def intro: same_key_same_session)
  ultimately show ?thesis ..
qed

definition sample_calls :: "get_event list" where
  "sample_calls = [GetCall (Some ''s1'') ''/api/status'' \<lparr>disableDuplicate = False, params = None\<rparr>,
     GetCall (Some ''s2'') ''/api/status'' \<lparr>disableDuplicate = False, params = None\<rparr>,
     GetSettled ''s2:/api/status?{}'',
     GetCall (Some ''s1'') ''/api/status'' \<lparr>disableDuplicate = False, params = Some ''{}''\<rparr>]"

theorem in_flight_get_not_shared_across_sessions_witness:
  "let calls = snd (fold get_step sample_calls get_start) in
     call_promise (calls ! 0) = call_promise (calls ! 2) \<and> call_promise (calls ! 0) \<noteq> call_promise (calls ! 1) \<and>
     same_request (calls ! 0) (calls ! 2)"
proof -
  define st calls where "st = fst (fold get_step sample_calls get_start)" and "calls = snd (fold get_step sample_calls get_start)"
  have c: "length calls = 3" "call_promise (calls ! 0) = 0" "call_promise (calls ! 1) = 1" "call_promise (calls ! 2) = 0"
    "\<forall>c \<in> set calls. CHR '':'' \<notin> set (session_label (call_sid c))"
    by (simp_all add: calls_def sample_calls_def get_start_def api_get_def api_get_settled_def request_key_def session_label_def)
  have "(st, calls) = fold get_step sample_calls get_start" by (simp add: st_def calls_def)
  from in_flight_get_not_shared_across_sessions [OF this, of 0 2] c show ?thesis by (simp add: calls_def Let_def)
qed

end
