(* ===== verification/Refresh_Flight.thy ===== *)
theory Refresh_Flight
  imports Auth_Session
begin

text \<open>
  The single refresh in flight of a page (\<^verbatim>\<open>refreshAuthentication\<close> and
  \<^verbatim>\<open>performRefreshWithBrowserLock\<close> of \<^verbatim>\<open>web/src/lib/auth-session.ts\<close>): promises are numbered, the
  current one either waits for the browser lock or runs, and every settled promise is recorded with
  what it settled with.  The browser's lock manager is outside the model: it grants a request or
  rejects it, as events.
\<close>

datatype flight = LockWait nat | Running nat runner

datatype settled = LockError js_value | Outcome refresh_outcome

record flight_state =
  tab :: auth_world
  refreshPromise :: "(nat \<times> flight) option"
  promises :: nat
  settled_with :: "(nat \<times> settled) list"

text \<open>
  A flight whose runner has its outcome settles its promise and clears \<^verbatim>\<open>refreshPromise\<close>.  The promise that
  callers hold is the one \<^verbatim>\<open>finally\<close> returns, which settles after its callback has cleared the variable; no
  caller sees the outcome before the clearing, so that both are one step.
\<close>

definition land :: "nat \<Rightarrow> nat \<Rightarrow> runner \<times> auth_world \<Rightarrow> flight_state \<Rightarrow> flight_state" where
  "land p epoch rw st =
     (case fst rw of
        Finished out \<Rightarrow> st\<lparr>tab := snd rw, refreshPromise := None,
                          settled_with := settled_with st @ [(p, Outcome out)]\<rparr>
      | r \<Rightarrow> st\<lparr>tab := snd rw, refreshPromise := Some (p, Running epoch r)\<rparr>)"

text \<open>\<^verbatim>\<open>performRefreshWithBrowserLock\<close> up to its first await; \<open>locks\<close> says that the browser has them.\<close>

definition performRefreshWithBrowserLock :: "bool \<Rightarrow> nat \<Rightarrow> nat \<Rightarrow> flight_state \<Rightarrow> flight_state" where
  "performRefreshWithBrowserLock locks p refreshEpoch st =
     (if \<not> locks then land p refreshEpoch (createRefreshRunner (runRefresh refreshEpoch) (tab st)) st
      else st\<lparr>refreshPromise := Some (p, LockWait refreshEpoch)\<rparr>)"

definition refreshAuthentication :: "bool \<Rightarrow> flight_state \<Rightarrow> nat \<times> flight_state" where
  "refreshAuthentication locks st =
     (case refreshPromise st of
        Some (p, _) \<Rightarrow> (p, st)
      | None \<Rightarrow> (promises st,
          performRefreshWithBrowserLock locks (promises st) (authEpoch (tab st))
            (st\<lparr>promises := promises st + 1\<rparr>)))"

text \<open>
  What can happen next.  The rejection of the lock request is asynchronous: the \<^verbatim>\<open>try\<close> block has
  returned the promise without awaiting it, so its \<^verbatim>\<open>catch\<close> does not run.
\<close>

datatype flight_event =
    CallRefresh bool
  | LockGranted
  | LockRejected js_value
  | RefreshEvent "auth_world refresh_event"

fun flight_step :: "flight_event \<Rightarrow> flight_state \<Rightarrow> flight_state" where
  "flight_step (CallRefresh locks) st = snd (refreshAuthentication locks st)"
| "flight_step LockGranted st =
     (case refreshPromise st of
        Some (p, LockWait epoch) \<Rightarrow> land p epoch (createRefreshRunner (runRefresh epoch) (tab st)) st
      | _ \<Rightarrow> st)"
| "flight_step (LockRejected e) st =
     (case refreshPromise st of
        Some (p, LockWait epoch) \<Rightarrow>
          st\<lparr>refreshPromise := None, settled_with := settled_with st @ [(p, LockError e)]\<rparr>
      | _ \<Rightarrow> st)"
| "flight_step (RefreshEvent ev) st =
     (case refreshPromise st of
        Some (p, Running epoch r) \<Rightarrow> land p epoch (runner_step (runRefresh epoch) ev (r, tab st)) st
      | _ \<Rightarrow> (case ev of Other f \<Rightarrow> st\<lparr>tab := f (tab st)\<rparr> | _ \<Rightarrow> st))"

definition no_refresh :: "auth_world \<Rightarrow> flight_state" where
  "no_refresh w = \<lparr>tab = w, refreshPromise = None, promises = 0, settled_with = []\<rparr>"

section \<open>Every promise is settled once, or is the one in flight\<close>

definition flights_ok :: "flight_state \<Rightarrow> bool" where
  "flights_ok st \<longleftrightarrow>
     map fst (settled_with st) @ (case refreshPromise st of None \<Rightarrow> [] | Some (p, _) \<Rightarrow> [p]) =
       [0..<promises st]"

lemma flight_step_ok: "flights_ok st \<Longrightarrow> flights_ok (flight_step e st)"
proof (cases e)
  case (CallRefresh locks)
  assume "flights_ok st"
  then show ?thesis
    by (cases "refreshPromise st")
      (auto simp: CallRefresh refreshAuthentication_def performRefreshWithBrowserLock_def
        flights_ok_def land_def split: runner.splits)
next
  case LockGranted
  assume "flights_ok st"
  then show ?thesis
    by (auto simp: LockGranted flights_ok_def land_def split: option.splits flight.splits runner.splits)
next
  case (LockRejected err)
  assume "flights_ok st"
  then show ?thesis
    by (auto simp: LockRejected flights_ok_def split: option.splits flight.splits)
next
  case (RefreshEvent ev)
  assume "flights_ok st"
  then show ?thesis
    by (auto simp: RefreshEvent flights_ok_def land_def
        split: option.splits flight.splits refresh_event.splits runner.splits)
qed

interpretation flights: invariant_machine "no_refresh w" flight_step "\<lambda>_. True" flights_ok for w
  by unfold_locales (simp add: no_refresh_def flights_ok_def, rule flight_step_ok)

section \<open>Properties\<close>

text \<open>C4: in every run of the page, promises of \<^verbatim>\<open>refreshAuthentication\<close> settle in the order they were
  created, each at most once, and at most one is not yet settled: at any moment at most one refresh
  is in flight and everyone who asks meanwhile is given that one.\<close>

theorem single_refresh_in_flight:
  "let st = fold flight_step es (no_refresh w) in
     map fst (settled_with st) = [0..<length (settled_with st)] \<and>
     (case refreshPromise st of
        None \<Rightarrow> promises st = length (settled_with st)
      | Some (p, _) \<Rightarrow> p = length (settled_with st) \<and> promises st = p + 1 \<and>
          (\<forall>locks. refreshAuthentication locks st = (p, st)))"
proof -
  let ?st = "fold flight_step es (no_refresh w)"
  have ok: "flights_ok ?st" using flights.run_inv [of es] by (simp add: list_all_iff)
  show ?thesis
  proof (cases "refreshPromise ?st")
    case None
    with ok have "map fst (settled_with ?st) = [0..<promises ?st]" by (simp add: flights_ok_def)
    moreover from this have "promises ?st = length (settled_with ?st)"
      by (metis length_map length_upt minus_nat.diff_0)
    ultimately show ?thesis by (simp add: None Let_def)
  next
    case (Some pf)
    obtain p f where pf: "pf = (p, f)" by fastforce
    from ok Some pf have eq: "map fst (settled_with ?st) @ [p] = [0..<promises ?st]"
      by (simp add: flights_ok_def)
    then have len: "promises ?st = length (settled_with ?st) + 1"
      by (metis length_append_singleton length_map length_upt minus_nat.diff_0 Suc_eq_plus1)
    from eq have "map fst (settled_with ?st) @ [p] = [0..<length (settled_with ?st)] @
        [length (settled_with ?st)]" unfolding len by simp
    then show ?thesis using Some pf len by (simp add: Let_def refreshAuthentication_def)
  qed
qed

text \<open>When the browser rejects the request for the refresh lock, the promise is rejected and the
  session state is left as it was; a page that was checking its session at start-up stays in the
  state \<^verbatim>\<open>checking\<close>, since the \<^verbatim>\<open>catch\<close> that would reset it guards only the call and not the promise.\<close>

lemma lock_rejection_leaves_checking:
  assumes "refreshPromise st = None" and "bootstrapState (store (tab st)) = Checking"
  shows "let st' = flight_step (LockRejected e) (snd (refreshAuthentication True st)) in
     bootstrapState (store (tab st')) = Checking \<and> refreshPromise st' = None \<and>
     settled_with st' = settled_with st @ [(promises st, LockError e)]"
  using assms
  by (simp add: refreshAuthentication_def performRefreshWithBrowserLock_def Let_def)

definition checking_world :: auth_world where
  "checking_world = initial_world\<lparr>store := setBootstrapState Checking initial_auth\<rparr>"

lemma lock_rejection_leaves_checking_witness:
  "bootstrapState (store (tab (flight_step (LockRejected JNull)
     (snd (refreshAuthentication True (no_refresh checking_world)))))) = Checking"
  using lock_rejection_leaves_checking [of "no_refresh checking_world" JNull]
  by (simp add: no_refresh_def checking_world_def setBootstrapState_def Let_def)

text \<open>A refresh that another login, rotation or sign-out has superseded while it waited for the
  lock sends no request: it settles as a transient failure and leaves the session as it is.\<close>

lemma superseded_lock_wait_sends_nothing:
  assumes "refreshPromise st = Some (p, LockWait epoch)" and "authEpoch (tab st) \<noteq> epoch"
  shows "let st' = flight_step LockGranted st in
     tab st' = tab st \<and> refreshPromise st' = None \<and>
     settled_with st' = settled_with st @ [(p, Outcome (TransientError Superseded))]"
  using assms by (simp add: land_def createRefreshRunner_def run_enter_def Let_def)

lemma superseded_lock_wait_sends_nothing_witness:
  "settled_with (flight_step LockGranted
     (flight_step (RefreshEvent (Other (clearAuthentication True None)))
       (snd (refreshAuthentication True (no_refresh initial_world))))) =
   [(0, Outcome (TransientError Superseded))]"
  using superseded_lock_wait_sends_nothing [of "flight_step (RefreshEvent (Other (clearAuthentication True None)))
       (snd (refreshAuthentication True (no_refresh initial_world)))" 0 0]
  by (simp add: refreshAuthentication_def performRefreshWithBrowserLock_def no_refresh_def
      initial_world_def Let_def)

end
