(* ===== verification/Chat_Message.thy ===== *)
theory Chat_Message
  imports Interfaces
begin

text \<open>
  The playground's messages: the types (\<^verbatim>\<open>features/playground/types.ts\<close>, \<^verbatim>\<open>constants.ts\<close>) and the
  functions on one message or on the message list
  (\<^verbatim>\<open>lib/message/message-utils.ts\<close>, \<^verbatim>\<open>message-timing-utils.ts\<close>, \<^verbatim>\<open>message-update-utils.ts\<close>,
  \<^verbatim>\<open>message-reasoning-utils.ts\<close>, \<^verbatim>\<open>conversation-message-utils.ts\<close> and the view helpers).
  Identifiers made by \<^verbatim>\<open>nanoid\<close> and readings of \<^verbatim>\<open>Date.now()\<close> are arguments: \<open>clk n\<close> is the reading
  of the \<open>n\<close>-th call of the clock that a function makes.
\<close>

section \<open>Types\<close>

datatype message_role = User | Assistant | System

datatype message_status = Loading | Streaming | MsgComplete | Errored

record message_version =
  version_id :: string
  content :: string

record reasoning_info =
  reasoning_content :: string
  reasoning_duration :: rat
  reasoning_startedAt :: "rat option"
  reasoning_completedAt :: "rat option"
  reasoning_durationMs :: "rat option"

record message =
  key :: string
  sender :: message_role \<comment> \<open>\<^verbatim>\<open>from\<close>\<close>
  versions :: "message_version list"
  createdAt :: "rat option"
  startedAt :: "rat option"
  completedAt :: "rat option"
  durationMs :: "rat option"
  sources :: "(string \<times> string) list option"
  reasoning :: "reasoning_info option"
  isReasoningStreaming :: "bool option"
  isReasoningComplete :: "bool option"
  isContentComplete :: "bool option"
  msg_status :: "message_status option"
  errorCode :: "string option option"

datatype part_type = TextPart | ImagePart

record content_part =
  part_kind :: part_type
  part_text :: "string option"
  image_url :: "string option"

datatype message_content = Plain string | Parts "content_part list"

type_synonym clock = "nat \<Rightarrow> rat"

definition API_REQUEST_ERROR :: string where
  "API_REQUEST_ERROR = ''Request error occurred''"

definition INTERRUPTED :: string where
  "INTERRUPTED = ''Generation was interrupted''"

section \<open>One message\<close>

definition createMessageVersion :: "string \<Rightarrow> string \<Rightarrow> message_version" where
  "createMessageVersion i c = \<lparr>version_id = i, content = c\<rparr>"

definition getCurrentVersion :: "message \<Rightarrow> message_version" where
  "getCurrentVersion m =
     (case versions m of v # _ \<Rightarrow> v | [] \<Rightarrow> \<lparr>version_id = ''default'', content = []\<rparr>)"

definition getMessageContent :: "message \<Rightarrow> string" where
  "getMessageContent m = content (getCurrentVersion m)"

definition hasMessageContent :: "message \<Rightarrow> bool" where
  "hasMessageContent m \<longleftrightarrow> trim (getMessageContent m) \<noteq> []"

definition updateCurrentVersionContent :: "message \<Rightarrow> string \<Rightarrow> message" where
  "updateCurrentVersionContent m c = m\<lparr>versions := [(getCurrentVersion m)\<lparr>content := c\<rparr>]\<rparr>"

definition createUserMessage :: "string \<Rightarrow> string \<Rightarrow> string \<Rightarrow> rat \<Rightarrow> message" where
  "createUserMessage k i c created =
     \<lparr>key = k, sender = User, versions = [createMessageVersion i c], createdAt = Some created,
      startedAt = None, completedAt = None, durationMs = None, sources = None, reasoning = None,
      isReasoningStreaming = None, isReasoningComplete = None, isContentComplete = None,
      msg_status = None, errorCode = None\<rparr>"

definition createLoadingAssistantMessage :: "string \<Rightarrow> string \<Rightarrow> rat \<Rightarrow> message" where
  "createLoadingAssistantMessage k i started =
     \<lparr>key = k, sender = Assistant, versions = [createMessageVersion i []], createdAt = Some started,
      startedAt = Some started, completedAt = None, durationMs = None, sources = None,
      reasoning = None, isReasoningStreaming = Some False, isReasoningComplete = Some False,
      isContentComplete = Some False, msg_status = Some Loading, errorCode = None\<rparr>"

definition buildMessageContent :: "string \<Rightarrow> string list \<Rightarrow> message_content" where
  "buildMessageContent text imageUrls =
     (let validImages = filter (\<lambda>url. trim url \<noteq> []) imageUrls in
      if validImages = [] then Plain text
      else Parts (\<lparr>part_kind = TextPart, part_text = Some text, image_url = None\<rparr> #
             map (\<lambda>url. \<lparr>part_kind = ImagePart, part_text = None, image_url = Some (trim url)\<rparr>)
               validImages))"

fun getTextContent :: "message_content \<Rightarrow> string" where
  "getTextContent (Plain s) = s"
| "getTextContent (Parts ps) =
     (case find (\<lambda>p. part_kind p = TextPart) ps of
        Some p \<Rightarrow> (case part_text p of Some s \<Rightarrow> s | None \<Rightarrow> [])
      | None \<Rightarrow> [])"

definition formatMessageForAPI :: "message \<Rightarrow> message_role \<times> string" where
  "formatMessageForAPI m = (sender m, content (getCurrentVersion m))"

definition isValidMessage :: "message \<Rightarrow> bool" where
  "isValidMessage m =
     (if versions m = [] then False
      else if sender m = Assistant \<and> \<not> hasMessageContent m then False else True)"

section \<open>Timing\<close>

definition nullish :: "'a option \<Rightarrow> 'a \<Rightarrow> 'a" where
  "nullish a b = (case a of Some x \<Rightarrow> x | None \<Rightarrow> b)"

definition completeAssistantTiming :: "rat \<Rightarrow> message \<Rightarrow> message" where
  "completeAssistantTiming done m =
     (if sender m \<noteq> Assistant then m
      else let started = nullish (startedAt m) (nullish (createdAt m) done) in
        m\<lparr>startedAt := Some started, completedAt := Some done,
          durationMs := Some (max 0 (done - started))\<rparr>)"

definition startReasoningTiming :: "rat \<Rightarrow> message \<Rightarrow> reasoning_info" where
  "startReasoningTiming started m =
     (case reasoning m of
        None \<Rightarrow> \<lparr>reasoning_content = [], reasoning_duration = 0, reasoning_startedAt = Some started,
                 reasoning_completedAt = None, reasoning_durationMs = None\<rparr>
      | Some r \<Rightarrow> r\<lparr>reasoning_startedAt := Some (nullish (reasoning_startedAt r) started)\<rparr>)"

definition completeReasoningTiming :: "rat \<Rightarrow> message \<Rightarrow> message" where
  "completeReasoningTiming done m =
     (case reasoning m of
        None \<Rightarrow> m
      | Some r \<Rightarrow>
          if reasoning_durationMs r \<noteq> None then m
          else let started = nullish (reasoning_startedAt r) (nullish (startedAt m) done);
                   ms = max 0 (done - started)
               in m\<lparr>reasoning := Some (r\<lparr>reasoning_startedAt := Some started,
                      reasoning_completedAt := Some done, reasoning_durationMs := Some ms,
                      reasoning_duration := of_int \<lceil>ms / 1000\<rceil>\<rparr>)\<rparr>)"

section \<open>The last assistant message\<close>

definition updateLastAssistantMessage :: "message list \<Rightarrow> (message \<Rightarrow> message) \<Rightarrow> message list" where
  "updateLastAssistantMessage messages updater =
     (if messages = [] then messages
      else if sender (last messages) \<noteq> Assistant then messages
      else messages[length messages - 1 := updater (last messages)])"

definition updateAssistantMessageWithError ::
  "rat \<Rightarrow> message list \<Rightarrow> string \<Rightarrow> string option \<Rightarrow> string \<Rightarrow> message list" where
  "updateAssistantMessageWithError now messages err code title =
     updateLastAssistantMessage messages (\<lambda>m.
       completeAssistantTiming now
         ((updateCurrentVersionContent m (title @ '': '' @ err))
            \<lparr>msg_status := Some Errored, isReasoningStreaming := Some False,
             errorCode := Some (case code of Some c \<Rightarrow> if c = [] then None else Some c | None \<Rightarrow> None)\<rparr>))"

section \<open>Reasoning tags\<close>

record parsed_think =
  visibleContent :: string
  parsed_reasoning :: string
  hasUnclosedTag :: bool

text \<open>The loop of \<^verbatim>\<open>parseThinkTags\<close>, with its three variables.\<close>

function think_loop :: "string \<Rightarrow> nat \<Rightarrow> string list \<Rightarrow> string list \<Rightarrow> string list \<times> string list \<times> bool" where
  "think_loop s currentPos visibleParts reasoningParts =
     (case index_of_from ''<think>'' s currentPos of
        None \<Rightarrow> (if currentPos < length s then visibleParts @ [drop currentPos s] else visibleParts,
                 reasoningParts, False)
      | Some openPos \<Rightarrow>
          let visibleParts' = (if openPos > currentPos then visibleParts @ [slice s currentPos openPos]
                               else visibleParts)
          in (case index_of_from ''</think>'' s (openPos + 7) of
                None \<Rightarrow> (visibleParts', reasoningParts @ [drop (openPos + 7) s], True)
              | Some closePos \<Rightarrow>
                  think_loop s (closePos + 8) visibleParts'
                    (reasoningParts @ [slice s (openPos + 7) closePos])))"
  by pat_completeness auto

termination
proof (relation "measure (\<lambda>(s, pos, _, _). length s - pos)", goal_cases)
  case 1
  then show ?case by simp
next
  case (2 s pos vis rea openPos vis' closePos)
  then show ?case
    using index_of_from_bounds [of "''<think>''" s pos openPos]
      index_of_from_bounds [of "''</think>''" s "openPos + 7" closePos] by auto
qed

declare think_loop.simps [simp del]

definition parseThinkTags :: "string \<Rightarrow> parsed_think" where
  "parseThinkTags s =
     (if \<not> str_includes ''<think>'' s
      then \<lparr>visibleContent = s, parsed_reasoning = [], hasUnclosedTag = False\<rparr>
      else case think_loop s 0 [] [] of (vis, rea, unclosed) \<Rightarrow>
        \<lparr>visibleContent = trim (join [] vis), parsed_reasoning = trim (join [CHR 10, CHR 10] rea),
         hasUnclosedTag = unclosed\<rparr>)"

section \<open>The conversation\<close>

text \<open>Identifiers are drawn in the order of the calls: \<open>ids n\<close> is the \<open>n\<close>-th.\<close>

definition appendUserMessagePair ::
  "(nat \<Rightarrow> string) \<Rightarrow> rat \<Rightarrow> message list \<Rightarrow> string \<Rightarrow> message list" where
  "appendUserMessagePair ids submittedAt messages c =
     messages @ [createUserMessage (ids 0) (ids 1) c submittedAt,
                 createLoadingAssistantMessage (ids 2) (ids 3) submittedAt]"

definition createRegeneratedMessages ::
  "(nat \<Rightarrow> string) \<Rightarrow> rat \<Rightarrow> message list \<Rightarrow> string \<Rightarrow> message list option" where
  "createRegeneratedMessages ids now messages messageKey =
     (case find_index (\<lambda>m. key m = messageKey) messages of
        None \<Rightarrow> None
      | Some i \<Rightarrow>
          if sender (messages ! i) = User
          then Some (take (i + 1) messages @ [createLoadingAssistantMessage (ids 0) (ids 1) now])
          else Some (take i messages @ [createLoadingAssistantMessage (ids 0) (ids 1) now]))"

definition removeMessageByKey :: "message list \<Rightarrow> string \<Rightarrow> message list" where
  "removeMessageByKey messages k = filter (\<lambda>m. key m \<noteq> k) messages"

fun getPreviousUserMessage :: "message list \<Rightarrow> nat \<Rightarrow> message option" where
  "getPreviousUserMessage messages 0 = None"
| "getPreviousUserMessage messages (Suc i) =
     (if sender (messages ! i) = User then Some (messages ! i) else getPreviousUserMessage messages i)"

definition applyMessageEdit ::
  "(nat \<Rightarrow> string) \<Rightarrow> rat \<Rightarrow> message list \<Rightarrow> string \<Rightarrow> string \<Rightarrow> bool \<Rightarrow> (message list \<times> bool) option" where
  "applyMessageEdit ids submittedAt messages messageKey c shouldSubmit =
     (case find_index (\<lambda>m. key m = messageKey) messages of
        None \<Rightarrow> None
      | Some i \<Rightarrow>
          let updated = map (\<lambda>m. if key m = messageKey
                then (updateCurrentVersionContent m c)
                       \<lparr>createdAt := (if shouldSubmit then Some submittedAt else createdAt m)\<rparr>
                else m) messages
          in if \<not> shouldSubmit \<or> sender (updated ! i) \<noteq> User then Some (updated, False)
             else Some (take (i + 1) updated @
                    [createLoadingAssistantMessage (ids 0) (ids 1) submittedAt], True))"

definition getEditingMessageContent :: "message list \<Rightarrow> string option \<Rightarrow> string" where
  "getEditingMessageContent messages editingKey =
     (case editingKey of
        None \<Rightarrow> []
      | Some k \<Rightarrow>
          if k = [] then []
          else (case find (\<lambda>m. key m = k) messages of Some m \<Rightarrow> getMessageContent m | None \<Rightarrow> []))"

record render_state =
  alwaysShowActions :: bool
  render_content :: string
  isEditing :: bool

definition getChatMessageRenderState ::
  "message list \<Rightarrow> message \<Rightarrow> nat \<Rightarrow> string option \<Rightarrow> render_state" where
  "getChatMessageRenderState messages m messageIndex editingKey =
     \<lparr>alwaysShowActions = (messageIndex + 1 = length messages \<and> sender m = Assistant),
      render_content = getMessageContent m, isEditing = (editingKey = Some (key m))\<rparr>"

section \<open>View state of a message\<close>

record action_state =
  act_content :: string
  act_hasContent :: bool
  act_isAssistant :: bool
  act_isLoading :: bool
  act_isUser :: bool

definition getMessageActionState :: "message \<Rightarrow> action_state" where
  "getMessageActionState m =
     \<lparr>act_content = getMessageContent m, act_hasContent = hasMessageContent m,
      act_isAssistant = (sender m = Assistant),
      act_isLoading = (msg_status m = Some Loading \<or> msg_status m = Some Streaming),
      act_isUser = (sender m = User)\<rparr>"

definition getMessageActionsVisibilityClass :: "bool \<Rightarrow> string" where
  "getMessageActionsVisibilityClass alwaysVisible =
     (if alwaysVisible then ''opacity-100'' else ''opacity-0 group-hover:opacity-100 max-md:opacity-100'')"

record editor_state =
  canSave :: bool
  hasChanged :: bool
  showSaveAndSubmit :: bool

definition getMessageEditorState :: "message \<Rightarrow> string \<Rightarrow> string \<Rightarrow> editor_state" where
  "getMessageEditorState m editText originalText =
     (let hasText = (trim editText \<noteq> []); changed = (editText \<noteq> originalText) in
      \<lparr>canSave = (hasText \<and> changed), hasChanged = changed, showSaveAndSubmit = (sender m = User)\<rparr>)"

datatype error_kind = Generic | ModelPrice

record error_state =
  err_content :: string
  err_kind :: error_kind
  showSettingsLink :: bool

definition isAdminRole :: "rat option \<Rightarrow> bool" where
  "isAdminRole r = (case r of None \<Rightarrow> False | Some q \<Rightarrow> q \<ge> 10)"

definition isErrorMessage :: "message \<Rightarrow> bool" where
  "isErrorMessage m \<longleftrightarrow> msg_status m = Some Errored"

definition FALLBACK_ERROR_CONTENT :: string where
  "FALLBACK_ERROR_CONTENT = ''An unknown error occurred''"

definition getMessageErrorState :: "message \<Rightarrow> bool \<Rightarrow> error_state option" where
  "getMessageErrorState m isAdmin =
     (if \<not> isErrorMessage m then None
      else let c = (if getMessageContent m = [] then FALLBACK_ERROR_CONTENT else getMessageContent m);
               isModelPriceError = (errorCode m = Some (Some ''model_price_error''))
           in Some \<lparr>err_content = c, err_kind = (if isModelPriceError then ModelPrice else Generic),
                    showSettingsLink = (isModelPriceError \<and> isAdmin)\<rparr>)"

datatype layout_mode = Alternating | AllLeft

datatype alignment = AlignLeft | AlignRight

definition getMessageAlignment :: "message \<Rightarrow> layout_mode \<Rightarrow> alignment" where
  "getMessageAlignment m mode =
     (if mode = AllLeft then AlignLeft else if sender m = User then AlignRight else AlignLeft)"

definition getMessageAlignmentClass :: "alignment \<Rightarrow> string" where
  "getMessageAlignmentClass a =
     (if a = AlignRight then ''items-end text-right'' else ''items-start text-left'')"

definition shouldShowMessageLoader :: "message \<Rightarrow> bool \<Rightarrow> string \<Rightarrow> bool" where
  "shouldShowMessageLoader m isAssistant versionContent \<longleftrightarrow>
     isAssistant \<and> isReasoningStreaming m \<noteq> Some True \<and>
     (msg_status m = Some Loading \<or> (msg_status m = Some Streaming \<and> versionContent = []))"

definition shouldShowMessageContent :: "message \<Rightarrow> string \<Rightarrow> bool" where
  "shouldShowMessageContent m versionContent \<longleftrightarrow>
     (sender m = User \<or> isReasoningStreaming m \<noteq> Some True) \<and> versionContent \<noteq> []"

definition getDisplayContent :: "message \<Rightarrow> string \<Rightarrow> string" where
  "getDisplayContent m versionContent =
     (if sender m \<noteq> Assistant then versionContent
      else if \<not> str_includes ''<think>'' versionContent then versionContent
      else visibleContent (parseThinkTags versionContent))"

record content_state =
  displayContent :: string
  hasSources :: bool
  cs_isAssistant :: bool
  showLoader :: bool
  showMessageContent :: bool
  cs_sources :: "(string \<times> string) list"
  cs_reasoning :: "string option" \<comment> \<open>\<^verbatim>\<open>hasReasoning\<close> with \<^verbatim>\<open>reasoningContent\<close>\<close>

definition getMessageContentState :: "message \<Rightarrow> string \<Rightarrow> content_state" where
  "getMessageContentState m versionContent =
     (let isAssistant = (sender m = Assistant);
          srcs = nullish (sources m) [];
          reasoningContent = (if isAssistant then map_option reasoning_content (reasoning m) else None)
      in \<lparr>displayContent = getDisplayContent m versionContent, hasSources = (srcs \<noteq> []),
          cs_isAssistant = isAssistant,
          showLoader = shouldShowMessageLoader m isAssistant versionContent,
          showMessageContent = shouldShowMessageContent m versionContent, cs_sources = srcs,
          cs_reasoning = (case reasoningContent of
             Some r \<Rightarrow> if r = [] then None else Some r | None \<Rightarrow> None)\<rparr>)"

section \<open>Lemmas\<close>

lemma getCurrentVersion_update [simp]:
  "getCurrentVersion (updateCurrentVersionContent m c) = (getCurrentVersion m)\<lparr>content := c\<rparr>"
  by (simp add: updateCurrentVersionContent_def getCurrentVersion_def split: list.splits)

lemma getMessageContent_update [simp]:
  "getMessageContent (updateCurrentVersionContent m c) = c"
  by (simp add: getMessageContent_def)

lemma update_content_frame [simp]:
  "sender (updateCurrentVersionContent m c) = sender m"
  "key (updateCurrentVersionContent m c) = key m"
  "reasoning (updateCurrentVersionContent m c) = reasoning m"
  "msg_status (updateCurrentVersionContent m c) = msg_status m"
  "startedAt (updateCurrentVersionContent m c) = startedAt m"
  by (simp_all add: updateCurrentVersionContent_def)

lemma content_frame [simp]:
  "getCurrentVersion (m\<lparr>reasoning := r\<rparr>) = getCurrentVersion m"
  "getCurrentVersion (m\<lparr>isReasoningStreaming := b\<rparr>) = getCurrentVersion m"
  "getCurrentVersion (m\<lparr>msg_status := st\<rparr>) = getCurrentVersion m"
  "getCurrentVersion (m\<lparr>startedAt := x\<rparr>) = getCurrentVersion m"
  "getCurrentVersion (m\<lparr>completedAt := y\<rparr>) = getCurrentVersion m"
  "getCurrentVersion (m\<lparr>durationMs := z\<rparr>) = getCurrentVersion m"
  "getCurrentVersion (m\<lparr>errorCode := e\<rparr>) = getCurrentVersion m"
  by (simp_all add: getCurrentVersion_def)

lemma completeAssistantTiming_frame [simp]:
  "getCurrentVersion (completeAssistantTiming d m) = getCurrentVersion m"
  "sender (completeAssistantTiming d m) = sender m"
  "key (completeAssistantTiming d m) = key m"
  "reasoning (completeAssistantTiming d m) = reasoning m"
  "msg_status (completeAssistantTiming d m) = msg_status m"
  "isReasoningStreaming (completeAssistantTiming d m) = isReasoningStreaming m"
  by (simp_all add: completeAssistantTiming_def Let_def)

lemma completeReasoningTiming_frame [simp]:
  "getCurrentVersion (completeReasoningTiming d m) = getCurrentVersion m"
  "sender (completeReasoningTiming d m) = sender m"
  "key (completeReasoningTiming d m) = key m"
  "msg_status (completeReasoningTiming d m) = msg_status m"
  "isReasoningStreaming (completeReasoningTiming d m) = isReasoningStreaming m"
  "map_option reasoning_content (reasoning (completeReasoningTiming d m)) =
     map_option reasoning_content (reasoning m)"
  by (auto simp: completeReasoningTiming_def Let_def split: option.splits)

lemma getMessageContent_timing [simp]:
  "getMessageContent (completeAssistantTiming d m) = getMessageContent m"
  "getMessageContent (completeReasoningTiming d m) = getMessageContent m"
  by (simp_all add: getMessageContent_def)

subsection \<open>Texts with reasoning tags\<close>

text \<open>
  A text as it is meant: visible text \<open>v\<close>, then closed reasoning blocks each followed by visible text,
  and possibly a block still open at the end.
\<close>

fun render_think :: "string \<Rightarrow> (string \<times> string) list \<Rightarrow> string option \<Rightarrow> string" where
  "render_think v [] None = v"
| "render_think v [] (Some r) = v @ ''<think>'' @ r"
| "render_think v ((r, v') # ps) u = v @ ''<think>'' @ r @ ''</think>'' @ render_think v' ps u"

definition think_free :: "string \<Rightarrow> (string \<times> string) list \<Rightarrow> string option \<Rightarrow> bool" where
  "think_free v ps u \<longleftrightarrow>
     list_all (\<lambda>x. \<not> str_includes ''<think>'' x) (v # map snd ps) \<and>
     list_all (\<lambda>x. \<not> str_includes ''</think>'' x) (map fst ps @ (case u of Some r \<Rightarrow> [r] | None \<Rightarrow> []))"

definition think_parts :: "(string \<times> string) list \<Rightarrow> string option \<Rightarrow> string list" where
  "think_parts ps u = map fst ps @ (case u of Some r \<Rightarrow> [r] | None \<Rightarrow> [])"

lemma think_free_Cons [simp]:
  "think_free v ((r, v') # ps) u \<longleftrightarrow>
     \<not> str_includes ''<think>'' v \<and> \<not> str_includes ''</think>'' r \<and> think_free v' ps u"
  by (auto simp: think_free_def)

lemma first_open:
  "\<not> str_includes ''<think>'' v \<Longrightarrow>
   index_of_from ''<think>'' (pre @ v @ ''<think>'' @ rest) (length pre) = Some (length pre + length v)"
  using index_of_append [of "''<think>''" v _ _ rest] by (simp add: index_of_from_def)

lemma first_close:
  "\<not> str_includes ''</think>'' r \<Longrightarrow>
   index_of_from ''</think>'' (pre @ r @ ''</think>'' @ rest) (length pre) = Some (length pre + length r)"
  using index_of_append [of "''</think>''" r _ _ rest] by (simp add: index_of_from_def)

lemma think_loop_render:
  "think_free v ps u \<Longrightarrow>
   think_loop (pre @ render_think v ps u) (length pre) vis rea =
     (vis @ filter (\<lambda>x. x \<noteq> []) (v # map snd ps), rea @ think_parts ps u, u \<noteq> None)"
proof (induction v ps u arbitrary: pre vis rea rule: render_think.induct)
  case (1 v)
  then have "index_of_from ''<think>'' (pre @ v) (length pre) = None"
    by (simp add: think_free_def index_of_from_def str_includes_def)
  then show ?case by (auto simp: think_loop.simps think_parts_def)
next
  case (2 v r)
  then have free: "\<not> str_includes ''<think>'' v" and r: "\<not> str_includes ''</think>'' r"
    by (auto simp: think_free_def)
  have "index_of_from ''</think>'' (pre @ v @ ''<think>'' @ r) (length pre + length v + 7) = None"
    using r by (simp add: index_of_from_def str_includes_def)
  with first_open [OF free, of pre r] show ?case
    by (auto simp: think_loop.simps [of "pre @ v @ _"] think_parts_def slice_def)
next
  case (3 v r v' ps u)
  then have free: "\<not> str_includes ''<think>'' v" and r: "\<not> str_includes ''</think>'' r"
    and rest: "think_free v' ps u" by auto
  define t where "t = pre @ v @ ''<think>'' @ r @ ''</think>'' @ render_think v' ps u"
  have o: "index_of_from ''<think>'' t (length pre) = Some (length pre + length v)"
    unfolding t_def using first_open [OF free, of pre "r @ ''</think>'' @ render_think v' ps u"] by simp
  have c: "index_of_from ''</think>'' t (length pre + length v + 7) =
      Some (length pre + length v + 7 + length r)"
    unfolding t_def using first_close [OF r, of "pre @ v @ ''<think>''" "render_think v' ps u"]
    by (simp add: numeral_eq_Suc ac_simps)
  have next_loop: "think_loop t (length pre + length v + 7 + length r + 8) vis' rea' =
      (vis' @ filter (\<lambda>x. x \<noteq> []) (v' # map snd ps), rea' @ think_parts ps u, u \<noteq> None)" for vis' rea'
    unfolding t_def using "3.IH" [OF rest, of "pre @ v @ ''<think>'' @ r @ ''</think>''" vis' rea']
    by (simp add: numeral_eq_Suc ac_simps)
  have sl: "slice t (length pre) (length pre + length v) = v"
    "slice t (length pre + length v + 7) (length pre + length v + 7 + length r) = r"
    by (simp_all add: t_def slice_def numeral_eq_Suc)
  define a where "a = length pre + length v"
  define b where "b = a + 7 + length r"
  have pos: "length pre < a \<longleftrightarrow> v \<noteq> []" by (simp add: a_def)
  note facts = o c next_loop sl
  have "think_loop t (length pre) vis rea =
      (vis @ filter (\<lambda>x. x \<noteq> []) (v # map snd ((r, v') # ps)), rea @ think_parts ((r, v') # ps) u, u \<noteq> None)"
    by (subst think_loop.simps) (simp add: facts [folded a_def, folded b_def] pos think_parts_def Let_def)
  then show ?case by (simp add: t_def)
qed

lemma concat_nonempty: "concat (filter (\<lambda>x. x \<noteq> []) xs) = concat xs"
  by (induction xs) auto

lemma render_includes:
  "think_free v ps u \<Longrightarrow> str_includes ''<think>'' (render_think v ps u) \<longleftrightarrow> ps \<noteq> [] \<or> u \<noteq> None"
  by (cases "(v, ps, u)" rule: render_think.cases)
    (auto simp: think_free_def str_includes_iff)

lemma render_exists: "\<exists>v ps u. s = render_think v ps u \<and> think_free v ps u"
proof (induction "length s" arbitrary: s rule: less_induct)
  case less
  show ?case
  proof (cases "index_of ''<think>'' s")
    case None
    then have "s = render_think s [] None \<and> think_free s [] None"
      by (simp add: think_free_def str_includes_def)
    then show ?thesis by blast
  next
    case (Some i)
    define v where "v = take i s"
    define w where "w = drop (i + 7) s"
    have s: "s = v @ ''<think>'' @ w" using index_of_split [OF Some] by (simp add: v_def w_def numeral_eq_Suc)
    have v: "\<not> str_includes ''<think>'' v" using index_of_take_free [OF Some] by (simp add: v_def)
    show ?thesis
    proof (cases "index_of ''</think>'' w")
      case None
      then have "s = render_think v [] (Some w) \<and> think_free v [] (Some w)"
        using s v by (simp add: think_free_def str_includes_def)
      then show ?thesis by blast
    next
      case (Some j)
      define r where "r = take j w"
      define x where "x = drop (j + 8) w"
      have w: "w = r @ ''</think>'' @ x" using index_of_split [OF Some] by (simp add: r_def x_def numeral_eq_Suc)
      have r: "\<not> str_includes ''</think>'' r" using index_of_take_free [OF Some] by (simp add: r_def)
      have "length x < length s" by (simp add: s w)
      from less [OF this] obtain v' ps u where "x = render_think v' ps u" "think_free v' ps u" by blast
      with s w v r have "s = render_think v ((r, v') # ps) u \<and> think_free v ((r, v') # ps) u" by simp
      then show ?thesis by blast
    qed
  qed
qed

lemma parse_render:
  assumes "think_free v ps u"
  shows "parseThinkTags (render_think v ps u) =
    (if ps = [] \<and> u = None then \<lparr>visibleContent = v, parsed_reasoning = [], hasUnclosedTag = False\<rparr>
     else \<lparr>visibleContent = trim (concat (v # map snd ps)),
           parsed_reasoning = trim (join [CHR 10, CHR 10] (think_parts ps u)),
           hasUnclosedTag = (u \<noteq> None)\<rparr>)"
  using think_loop_render [OF assms, of "[]" "[]" "[]"] render_includes [OF assms]
  by (auto simp: parseThinkTags_def join_Nil_sep concat_nonempty)

section \<open>Properties\<close>

text \<open>C15: every content is visible text interleaved with reasoning blocks, the last of which may be
  still open, and \<^verbatim>\<open>parseThinkTags\<close> separates them: the visible content is the trimmed concatenation
  of the visible texts, the reasoning the trimmed blocks joined by a blank line, and the flag tells
  whether a block is open; a content without a tag is returned as it is.\<close>

theorem parseThinkTags_separates:
  "(\<exists>v ps u. s = render_think v ps u \<and> think_free v ps u) \<and>
   (\<forall>v ps u. s = render_think v ps u \<and> think_free v ps u \<longrightarrow>
     parseThinkTags s =
      (if ps = [] \<and> u = None then \<lparr>visibleContent = v, parsed_reasoning = [], hasUnclosedTag = False\<rparr>
       else \<lparr>visibleContent = trim (concat (v # map snd ps)),
             parsed_reasoning = trim (join [CHR 10, CHR 10] (think_parts ps u)),
             hasUnclosedTag = (u \<noteq> None)\<rparr>))"
  using render_exists [of s] parse_render by blast

theorem parseThinkTags_separates_witness:
  "parseThinkTags ''a<think>b</think> c<think>d'' =
     \<lparr>visibleContent = ''a c'', parsed_reasoning = [CHR ''b'', CHR 10, CHR 10, CHR ''d''],
      hasUnclosedTag = True\<rparr>"
proof -
  have "think_free ''a'' [(''b'', '' c'')] (Some ''d'')" by code_simp
  moreover have "''a<think>b</think> c<think>d'' = render_think ''a'' [(''b'', '' c'')] (Some ''d'')"
    by simp
  ultimately have "parseThinkTags ''a<think>b</think> c<think>d'' =
      \<lparr>visibleContent = trim (concat (''a'' # map snd [(''b'', '' c'')])),
       parsed_reasoning = trim (join [CHR 10, CHR 10] (think_parts [(''b'', '' c'')] (Some ''d''))),
       hasUnclosedTag = True\<rparr>"
    using parseThinkTags_separates [THEN conjunct2, rule_format, of "''a<think>b</think> c<think>d''"
        "''a''" "[(''b'', '' c'')]" "Some ''d''"] by (simp del: render_think.simps)
  then show ?thesis by (simp add: think_parts_def trim_def trim_start_def trim_end_def js_space_def)
qed

text \<open>Regenerating at a message keeps the conversation before it unchanged, drops everything after
  it (and the message itself unless it is the user's) and ends with one loading answer; an unknown key
  changes nothing.\<close>

lemma regenerated_messages:
  "(createRegeneratedMessages ids now messages k = None \<longleftrightarrow> k \<notin> key ` set messages) \<and>
   (\<forall>pre m post. messages = pre @ m # post \<and> k \<notin> key ` set pre \<and> key m = k \<longrightarrow>
      createRegeneratedMessages ids now messages k =
        Some (pre @ (if sender m = User then [m] else []) @
              [createLoadingAssistantMessage (ids 0) (ids 1) now]))"
proof -
  have idx: "find_index (\<lambda>m. key m = k) (pre @ m # post) = Some (length pre)"
    if "k \<notin> key ` set pre" and "key m = k" for pre post and m :: message
    using that by (intro find_index_first) (metis image_eqI)+
  have none: "find_index (\<lambda>m. key m = k) messages = None \<longleftrightarrow> k \<notin> key ` set messages"
    by (auto simp: find_index_None)
  have "createRegeneratedMessages ids now messages k = None \<longleftrightarrow> k \<notin> key ` set messages"
    unfolding none [symmetric] by (simp add: createRegeneratedMessages_def split: option.split)
  moreover have "createRegeneratedMessages ids now (pre @ m # post) k =
        Some (pre @ (if sender m = User then [m] else []) @
              [createLoadingAssistantMessage (ids 0) (ids 1) now])"
    if "k \<notin> key ` set pre" and "key m = k" for pre post and m :: message
    by (simp add: createRegeneratedMessages_def idx [OF that])
  ultimately show ?thesis by blast
qed

end
