(* ===== verification/Chat_Streaming.thy ===== *)
theory Chat_Streaming
  imports Chat_Message
begin

text \<open>
  Building an assistant message from a stream or from a whole response
  (\<^verbatim>\<open>features/playground/lib/message/message-streaming-utils.ts\<close>) and the request payload
  (\<^verbatim>\<open>lib/streaming/payload-builder.ts\<close>).
\<close>

section \<open>Streaming\<close>

datatype stream_type = ReasoningChunk | ContentChunk

definition processStreamingContent :: "clock \<Rightarrow> message \<Rightarrow> string option \<Rightarrow> message" where
  "processStreamingContent clk m contentChunk =
     (let fullContent = content (getCurrentVersion m) @ nullish contentChunk [] in
      if reasoning m = None \<and> \<not> str_includes ''<think>'' fullContent
      then (updateCurrentVersionContent m fullContent)\<lparr>isReasoningStreaming := Some False\<rparr>
      else let parsed = parseThinkTags fullContent;
               finalReasoning = (if parsed_reasoning parsed \<noteq> []
                 then Some ((startReasoningTiming (clk 0) m)\<lparr>reasoning_content := parsed_reasoning parsed\<rparr>)
                 else reasoning m)
           in (updateCurrentVersionContent m fullContent)
                \<lparr>reasoning := finalReasoning, isReasoningStreaming := Some (hasUnclosedTag parsed)\<rparr>)"

definition getAppendableChunk :: "string \<Rightarrow> string \<Rightarrow> string" where
  "getAppendableChunk currentContent chunk =
     (if currentContent = [] \<or> \<not> starts_with currentContent chunk then chunk
      else drop (length currentContent) chunk)"

fun applyStreamingChunk :: "clock \<Rightarrow> message \<Rightarrow> stream_type \<Rightarrow> string \<Rightarrow> message" where
  "applyStreamingChunk clk m ReasoningChunk chunk =
     (if msg_status m = Some Errored then m
      else let r = startReasoningTiming (clk 0) m;
               appendable = getAppendableChunk (reasoning_content r) chunk
           in m\<lparr>reasoning := Some (r\<lparr>reasoning_content := reasoning_content r @ appendable\<rparr>),
                isReasoningStreaming := Some True, msg_status := Some Streaming\<rparr>)"
| "applyStreamingChunk clk m ContentChunk chunk =
     (if msg_status m = Some Errored then m
      else let appendable = getAppendableChunk (content (getCurrentVersion m)) chunk;
               contentMessage = processStreamingContent clk m (Some appendable)
           in (if isReasoningStreaming contentMessage = Some True then contentMessage
               else completeReasoningTiming (clk 1) contentMessage)\<lparr>msg_status := Some Streaming\<rparr>)"

section \<open>Finishing a message\<close>

definition first_nonempty :: "string option list \<Rightarrow> string" where
  "first_nonempty xs = (case find (\<lambda>x. x \<noteq> None \<and> x \<noteq> Some []) xs of Some (Some s) \<Rightarrow> s | _ \<Rightarrow> [])"

definition finalizeMessage :: "clock \<Rightarrow> message \<Rightarrow> string option \<Rightarrow> message" where
  "finalizeMessage clk m apiReasoningContent =
     (let c = content (getCurrentVersion m);
          parsedThinkTags = (if str_includes ''<think>'' c then Some (parseThinkTags c) else None);
          visible = (case parsedThinkTags of Some p \<Rightarrow> visibleContent p | None \<Rightarrow> c);
          finalReasoning = first_nonempty [apiReasoningContent,
             map_option reasoning_content (reasoning m), map_option parsed_reasoning parsedThinkTags]
      in completeReasoningTiming (clk 1)
           ((updateCurrentVersionContent m visible)
              \<lparr>reasoning := (if finalReasoning \<noteq> []
                 then Some ((startReasoningTiming (clk 0) m)\<lparr>reasoning_content := finalReasoning\<rparr>)
                 else None),
               isReasoningStreaming := Some False\<rparr>))"

definition completeAssistantMessage :: "clock \<Rightarrow> message \<Rightarrow> message" where
  "completeAssistantMessage clk m =
     completeAssistantTiming (clk 2) ((finalizeMessage clk m None)\<lparr>msg_status := Some MsgComplete\<rparr>)"

definition isAssistantMessageFinal :: "message \<Rightarrow> bool" where
  "isAssistantMessageFinal m \<longleftrightarrow> msg_status m = Some MsgComplete \<or> msg_status m = Some Errored"

definition isAssistantMessagePending :: "message \<Rightarrow> bool" where
  "isAssistantMessagePending m \<longleftrightarrow> msg_status m = Some Loading \<or> msg_status m = Some Streaming"

definition isPendingAssistantMessage :: "message option \<Rightarrow> bool" where
  "isPendingAssistantMessage m =
     (case m of None \<Rightarrow> False | Some a \<Rightarrow> sender a = Assistant \<and> isAssistantMessagePending a)"

section \<open>Whole responses\<close>

record choice_message =
  choice_content :: "string option"
  choice_reasoning :: "string option"

type_synonym completion_choice = "choice_message option"

text \<open>A response is its \<^verbatim>\<open>choices\<close>, which may be missing.\<close>

type_synonym completion_response = "completion_choice list option"

definition first_choice :: "completion_response \<Rightarrow> completion_choice option" where
  "first_choice r = (case r of Some (c # _) \<Rightarrow> Some c | _ \<Rightarrow> None)"

definition hasChatCompletionChoice :: "completion_response \<Rightarrow> bool" where
  "hasChatCompletionChoice r \<longleftrightarrow> first_choice r \<noteq> None"

definition applyChatCompletionChoice :: "clock \<Rightarrow> message \<Rightarrow> completion_choice \<Rightarrow> message" where
  "applyChatCompletionChoice clk m choice =
     completeAssistantTiming (clk 2)
       ((finalizeMessage clk
           (updateCurrentVersionContent m (nullish (Option.bind choice choice_content) []))
           (Option.bind choice choice_reasoning))\<lparr>msg_status := Some MsgComplete\<rparr>)"

definition applyChatCompletionResponse :: "clock \<Rightarrow> message \<Rightarrow> completion_response \<Rightarrow> message option" where
  "applyChatCompletionResponse clk m r =
     (case first_choice r of None \<Rightarrow> None | Some c \<Rightarrow> Some (applyChatCompletionChoice clk m c))"

section \<open>Messages found in storage\<close>

text \<open>The loop from the end: the last index at which \<open>P\<close> holds.\<close>

fun last_index_below :: "('a \<Rightarrow> bool) \<Rightarrow> 'a list \<Rightarrow> nat \<Rightarrow> nat option" where
  "last_index_below P xs 0 = None"
| "last_index_below P xs (Suc i) = (if P (xs ! i) then Some i else last_index_below P xs i)"

definition sanitize_message :: "(string \<Rightarrow> string) \<Rightarrow> clock \<Rightarrow> message \<Rightarrow> message" where
  "sanitize_message t clk m =
     (let finalized = finalizeMessage clk m None;
          hasReasoning = (case reasoning finalized of
             Some r \<Rightarrow> trim (reasoning_content r) \<noteq> [] | None \<Rightarrow> False)
      in if hasMessageContent finalized \<or> hasReasoning
         then completeAssistantTiming (clk 2)
                (finalized\<lparr>msg_status := Some MsgComplete, isReasoningStreaming := Some False\<rparr>)
         else completeAssistantTiming (clk 2)
                ((updateCurrentVersionContent finalized (t API_REQUEST_ERROR @ '': '' @ t INTERRUPTED))
                   \<lparr>msg_status := Some Errored, isReasoningStreaming := Some False\<rparr>))"

definition sanitizeMessagesOnLoad :: "(string \<Rightarrow> string) \<Rightarrow> clock \<Rightarrow> message list \<Rightarrow> message list" where
  "sanitizeMessagesOnLoad t clk messages =
     (case last_index_below (\<lambda>m. isPendingAssistantMessage (Some m)) messages (length messages) of
        None \<Rightarrow> messages
      | Some i \<Rightarrow> messages[i := sanitize_message t clk (messages ! i)])"

section \<open>Request payload\<close>

record playground_config =
  model :: string
  cfg_group :: string
  temperature :: js_number
  top_p :: js_number
  max_tokens :: js_number
  frequency_penalty :: js_number
  presence_penalty :: js_number
  seed :: "js_number option"
  stream :: bool

record parameter_enabled =
  en_temperature :: bool
  en_top_p :: bool
  en_max_tokens :: bool
  en_frequency_penalty :: bool
  en_presence_penalty :: bool
  en_seed :: bool

record completion_request =
  req_model :: string
  req_group :: string
  req_messages :: "(message_role \<times> string) list"
  req_stream :: bool
  req_temperature :: "js_number option"
  req_top_p :: "js_number option"
  req_max_tokens :: "js_number option"
  req_frequency_penalty :: "js_number option"
  req_presence_penalty :: "js_number option"
  req_seed :: "js_number option"

definition buildChatCompletionPayload ::
  "message list \<Rightarrow> playground_config \<Rightarrow> parameter_enabled \<Rightarrow> completion_request" where
  "buildChatCompletionPayload messages config enabled =
     \<lparr>req_model = model config, req_group = cfg_group config,
      req_messages = map formatMessageForAPI (filter isValidMessage messages),
      req_stream = stream config,
      req_temperature = (if en_temperature enabled then Some (temperature config) else None),
      req_top_p = (if en_top_p enabled then Some (top_p config) else None),
      req_max_tokens = (if en_max_tokens enabled then Some (max_tokens config) else None),
      req_frequency_penalty = (if en_frequency_penalty enabled then Some (frequency_penalty config) else None),
      req_presence_penalty = (if en_presence_penalty enabled then Some (presence_penalty config) else None),
      req_seed = (if en_seed enabled then seed config else None)\<rparr>"

section \<open>Lemmas\<close>

lemma getMessageContent_chunk:
  assumes "msg_status m \<noteq> Some Errored"
  shows "getMessageContent (applyStreamingChunk clk m ContentChunk c) =
    getMessageContent m @ getAppendableChunk (getMessageContent m) c"
  using assms
  by (simp add: processStreamingContent_def Let_def nullish_def getMessageContent_def)

lemma chunk_status:
  "msg_status m \<noteq> Some Errored \<Longrightarrow> msg_status (applyStreamingChunk clk m ty c) = Some Streaming"
  by (cases ty) (simp_all add: Let_def)

lemma processStreamingContent_frame [simp]:
  "sender (processStreamingContent clk m c) = sender m"
  "key (processStreamingContent clk m c) = key m"
  by (simp_all add: processStreamingContent_def Let_def)

lemma chunk_sender [simp]: "sender (applyStreamingChunk clk m ty c) = sender m"
  by (cases ty) (simp_all add: Let_def)

lemma chunk_key [simp]: "key (applyStreamingChunk clk m ty c) = key m"
  by (cases ty) (simp_all add: Let_def)

text \<open>What a sequence of content chunks amounts to, starting from the text \<open>a\<close>.\<close>

fun accumulated :: "string \<Rightarrow> string list \<Rightarrow> string" where
  "accumulated a [] = a"
| "accumulated a (c # cs) = accumulated (if a \<noteq> [] \<and> starts_with a c then c else a @ c) cs"

lemma append_appendable:
  "a @ getAppendableChunk a c = (if a \<noteq> [] \<and> starts_with a c then c else a @ c)"
  by (auto simp: getAppendableChunk_def starts_with_iff)

lemma stream_accumulates:
  "msg_status m \<noteq> Some Errored \<Longrightarrow>
   getMessageContent (fold (\<lambda>c m. applyStreamingChunk clk m ContentChunk c) cs m) =
     accumulated (getMessageContent m) cs"
proof (induction cs arbitrary: m)
  case Nil
  then show ?case by simp
next
  case (Cons c cs)
  have ok: "msg_status (applyStreamingChunk clk m ContentChunk c) \<noteq> Some Errored"
    using chunk_status [OF Cons.prems, of clk ContentChunk c] by simp
  have "getMessageContent (applyStreamingChunk clk m ContentChunk c) =
      (if getMessageContent m \<noteq> [] \<and> starts_with (getMessageContent m) c then c
       else getMessageContent m @ c)"
    using getMessageContent_chunk [OF Cons.prems] append_appendable by simp
  with Cons.IH [OF ok] show ?case by simp
qed

text \<open>Chunks that each repeat all the text before them, and chunks that never do.\<close>

fun cumulative :: "string \<Rightarrow> string list \<Rightarrow> bool" where
  "cumulative a [] = True"
| "cumulative a (c # cs) = (starts_with a c \<and> cumulative c cs)"

fun fresh_deltas :: "string \<Rightarrow> string list \<Rightarrow> bool" where
  "fresh_deltas a [] = True"
| "fresh_deltas a (c # cs) = ((a = [] \<or> \<not> starts_with a c) \<and> fresh_deltas (a @ c) cs)"

lemma accumulated_cumulative: "cumulative a cs \<Longrightarrow> accumulated a cs = last (a # cs)"
  by (induction a cs rule: cumulative.induct) auto

lemma accumulated_deltas: "fresh_deltas a cs \<Longrightarrow> accumulated a cs = a @ concat cs"
  by (induction a cs rule: fresh_deltas.induct) auto

lemma finalize_frame [simp]:
  "sender (finalizeMessage clk m r) = sender m" "key (finalizeMessage clk m r) = key m"
  "isReasoningStreaming (finalizeMessage clk m r) = Some False"
  by (simp_all add: finalizeMessage_def Let_def)

lemma finalize_content:
  "getMessageContent (finalizeMessage clk m r) =
     (if str_includes ''<think>'' (getMessageContent m)
      then visibleContent (parseThinkTags (getMessageContent m)) else getMessageContent m)"
  by (simp add: finalizeMessage_def Let_def getMessageContent_def)

lemma finalize_reasoning:
  "map_option reasoning_content (reasoning (finalizeMessage clk m r)) =
     (let f = first_nonempty [r, map_option reasoning_content (reasoning m),
          if str_includes ''<think>'' (getMessageContent m)
          then Some (parsed_reasoning (parseThinkTags (getMessageContent m))) else None]
      in if f = [] then None else Some f)"
  by (simp add: finalizeMessage_def Let_def getMessageContent_def cong: if_cong)

lemma finalize_duration:
  "reasoning (finalizeMessage clk m r) = Some i \<Longrightarrow> reasoning_durationMs i \<noteq> None"
  by (auto simp: finalizeMessage_def completeReasoningTiming_def Let_def split: if_splits)

lemma sanitize_final:
  "sender m = Assistant \<Longrightarrow> isAssistantMessageFinal (sanitize_message t clk m) \<and>
     sender (sanitize_message t clk m) = Assistant \<and> key (sanitize_message t clk m) = key m"
  by (auto simp: sanitize_message_def isAssistantMessageFinal_def Let_def)

lemma last_index_Some:
  "last_index_below P xs n = Some i \<Longrightarrow> i < n \<and> P (xs ! i) \<and> (\<forall>j. i < j \<and> j < n \<longrightarrow> \<not> P (xs ! j))"
proof (induction n)
  case 0
  then show ?case by simp
next
  case (Suc n)
  then show ?case by (cases "P (xs ! n)") (auto simp: less_Suc_eq)
qed

lemma last_index_None:
  "last_index_below P xs n = None \<longleftrightarrow> (\<forall>j < n. \<not> P (xs ! j))"
  by (induction n) (auto simp: less_Suc_eq)

section \<open>Properties\<close>

text \<open>Streaming the chunks of a provider that repeats all the text so far in each chunk gives the
  last chunk, and streaming the chunks of a provider that sends only new text gives their
  concatenation, as long as none of them happens to begin with the whole text before it.\<close>

lemma streamed_content:
  assumes "msg_status m \<noteq> Some Errored"
  shows "(cumulative (getMessageContent m) cs \<longrightarrow>
      getMessageContent (fold (\<lambda>c m. applyStreamingChunk clk m ContentChunk c) cs m) =
        last (getMessageContent m # cs)) \<and>
    (fresh_deltas (getMessageContent m) cs \<longrightarrow>
      getMessageContent (fold (\<lambda>c m. applyStreamingChunk clk m ContentChunk c) cs m) =
        getMessageContent m @ concat cs)"
  unfolding stream_accumulates [OF assms]
  using accumulated_cumulative [of "getMessageContent m" cs] accumulated_deltas [of "getMessageContent m" cs]
  by blast

definition loading_message :: message where
  "loading_message = createLoadingAssistantMessage ''k'' ''v'' 0"

lemma loading_message_simps [simp]:
  "msg_status loading_message = Some Loading" "getMessageContent loading_message = []"
  by (simp_all add: loading_message_def createLoadingAssistantMessage_def getMessageContent_def
      getCurrentVersion_def createMessageVersion_def)

lemma streamed_content_witness:
  "getMessageContent (fold (\<lambda>c m. applyStreamingChunk (\<lambda>_. 0) m ContentChunk c) [''a'', ''b'', ''a'']
     loading_message) = ''aba'' \<and>
   getMessageContent (fold (\<lambda>c m. applyStreamingChunk (\<lambda>_. 0) m ContentChunk c) [''a'', ''ab'', ''aba'']
     loading_message) = ''aba''"
  using streamed_content [of loading_message "[''a'', ''b'', ''a'']" "\<lambda>_. 0"]
    streamed_content [of loading_message "[''a'', ''ab'', ''aba'']" "\<lambda>_. 0"] by simp

text \<open>A chunk of new text that begins with the whole text so far is taken for a repetition: its
  beginning is dropped.  In particular a stream whose first two chunks are equal shows the text once.\<close>

lemma repeated_delta_lost:
  assumes "msg_status m \<noteq> Some Errored" and "getMessageContent m \<noteq> []"
  shows "getMessageContent (applyStreamingChunk clk m ContentChunk (getMessageContent m @ c)) =
     getMessageContent m @ c"
  using getMessageContent_chunk [OF assms(1)] append_appendable assms(2) by simp

lemma repeated_delta_lost_witness:
  "getMessageContent (applyStreamingChunk (\<lambda>_. 0)
     (applyStreamingChunk (\<lambda>_. 0) loading_message ContentChunk ''ha'') ContentChunk ''ha'') = ''ha''"
proof -
  let ?m = "applyStreamingChunk (\<lambda>_. 0) loading_message ContentChunk ''ha''"
  have "msg_status ?m = Some Streaming" by (rule chunk_status) simp
  moreover have "getMessageContent ?m = ''ha''"
    by (subst getMessageContent_chunk) (simp_all add: getAppendableChunk_def)
  ultimately show ?thesis using repeated_delta_lost [of ?m "\<lambda>_. 0" "[]"] by simp
qed

text \<open>Completing an assistant message leaves it final: its status is complete, no reasoning is
  marked as streaming, the duration is known and not negative, the content is the visible part of
  the raw text, and the reasoning is the one streamed separately or, failing that, the one between
  the tags.\<close>

lemma completed_message:
  assumes "sender m = Assistant"
  shows "let m' = completeAssistantMessage clk m in
     isAssistantMessageFinal m' \<and> isReasoningStreaming m' = Some False \<and>
     (\<exists>d. durationMs m' = Some d \<and> 0 \<le> d) \<and>
     getMessageContent m' = getDisplayContent m (getMessageContent m) \<and>
     map_option reasoning_content (reasoning m') =
       (let f = first_nonempty [map_option reasoning_content (reasoning m),
          if str_includes ''<think>'' (getMessageContent m)
          then Some (parsed_reasoning (parseThinkTags (getMessageContent m))) else None]
        in if f = [] then None else Some f)"
proof -
  have "durationMs (completeAssistantMessage clk m) \<noteq> None \<and>
      (\<forall>d. durationMs (completeAssistantMessage clk m) = Some d \<longrightarrow> 0 \<le> d)"
    using assms by (simp add: completeAssistantMessage_def completeAssistantTiming_def Let_def)
  moreover have "getMessageContent (completeAssistantMessage clk m) =
      getDisplayContent m (getMessageContent m)"
    using assms finalize_content [of clk m None]
    by (simp add: completeAssistantMessage_def getDisplayContent_def getMessageContent_def)
  moreover have "first_nonempty (None # xs) = first_nonempty xs" for xs
    by (simp add: first_nonempty_def)
  ultimately show ?thesis
    using finalize_reasoning [of clk m None]
    by (auto simp: completeAssistantMessage_def isAssistantMessageFinal_def Let_def)
qed

lemma completed_message_witness:
  "sender loading_message = Assistant \<and>
   isAssistantMessageFinal (completeAssistantMessage (\<lambda>_. 5) loading_message)"
proof -
  have "sender loading_message = Assistant"
    by (simp add: loading_message_def createLoadingAssistantMessage_def)
  with completed_message [OF this, of "\<lambda>_. 5"] show ?thesis by (simp add: Let_def)
qed

text \<open>Loading a conversation in which at most one answer was still being generated leaves no
  pending answer, and leaves the number, the keys and every other message as they were.\<close>

lemma sanitized_on_load:
  assumes "\<forall>i j. i < length ms \<and> j < length ms \<and> isPendingAssistantMessage (Some (ms ! i)) \<and>
      isPendingAssistantMessage (Some (ms ! j)) \<longrightarrow> i = j"
  shows "(\<forall>m \<in> set (sanitizeMessagesOnLoad t clk ms). \<not> isPendingAssistantMessage (Some m)) \<and>
     map key (sanitizeMessagesOnLoad t clk ms) = map key ms \<and>
     (\<forall>i < length ms. \<not> isPendingAssistantMessage (Some (ms ! i)) \<longrightarrow>
        sanitizeMessagesOnLoad t clk ms ! i = ms ! i)"
proof (cases "last_index_below (\<lambda>m. isPendingAssistantMessage (Some m)) ms (length ms)")
  case None
  then have "\<forall>j < length ms. \<not> isPendingAssistantMessage (Some (ms ! j))" by (simp add: last_index_None)
  with None show ?thesis by (auto simp: sanitizeMessagesOnLoad_def in_set_conv_nth)
next
  case (Some i)
  from last_index_Some [OF this] have i: "i < length ms" and p: "isPendingAssistantMessage (Some (ms ! i))"
    by auto
  have eq: "sanitizeMessagesOnLoad t clk ms = ms[i := sanitize_message t clk (ms ! i)]"
    by (simp add: sanitizeMessagesOnLoad_def Some)
  from p have a: "sender (ms ! i) = Assistant" by (simp add: isPendingAssistantMessage_def)
  have fin: "\<not> isPendingAssistantMessage (Some (sanitize_message t clk (ms ! i)))"
    using sanitize_final [OF a, of t clk]
    by (auto simp: isPendingAssistantMessage_def isAssistantMessagePending_def isAssistantMessageFinal_def)
  have others: "\<not> isPendingAssistantMessage (Some (ms ! j))" if "j < length ms" "j \<noteq> i" for j
    using assms i p that by blast
  have "\<not> isPendingAssistantMessage (Some (ms[i := sanitize_message t clk (ms ! i)] ! j))"
    if "j < length ms" for j
    using others [OF that] fin i by (cases "j = i") auto
  moreover have "map key (ms[i := sanitize_message t clk (ms ! i)]) = map key ms"
    using sanitize_final [OF a, of t clk] i by (simp add: map_update list_update_same_conv)
  moreover have "ms[i := sanitize_message t clk (ms ! i)] ! j = ms ! j"
    if "\<not> isPendingAssistantMessage (Some (ms ! j))" for j
    using p that by (cases "j = i") auto
  ultimately show ?thesis unfolding eq by (auto simp: in_set_conv_nth)
qed

lemma sanitized_on_load_witness:
  "list_all (\<lambda>m. \<not> isPendingAssistantMessage (Some m)) (sanitizeMessagesOnLoad id (\<lambda>_. 5) [loading_message])"
proof -
  have "\<forall>i j. i < length [loading_message] \<and> j < length [loading_message] \<and>
      isPendingAssistantMessage (Some ([loading_message] ! i)) \<and>
      isPendingAssistantMessage (Some ([loading_message] ! j)) \<longrightarrow> i = j" by simp
  from sanitized_on_load [OF this, of id "\<lambda>_. 5"] show ?thesis by (simp add: list_all_iff)
qed

text \<open>An answer that is still streaming, and a failed one, are sent to the model as soon as they
  have some text, and an empty message of the user is sent too; only assistant messages without any
  text are left out of the request.\<close>

lemma payload_messages:
  "req_messages (buildChatCompletionPayload messages config enabled) =
     map (\<lambda>m. (sender m, getMessageContent m))
       (filter (\<lambda>m. versions m \<noteq> [] \<and> \<not> (sender m = Assistant \<and> trim (getMessageContent m) = [])) messages)"
proof -
  have "isValidMessage = (\<lambda>m. versions m \<noteq> [] \<and> \<not> (sender m = Assistant \<and> trim (getMessageContent m) = []))"
    by (rule ext) (simp add: isValidMessage_def hasMessageContent_def)
  moreover have "formatMessageForAPI = (\<lambda>m. (sender m, getMessageContent m))"
    by (rule ext) (simp add: formatMessageForAPI_def getMessageContent_def)
  ultimately show ?thesis by (simp only: buildChatCompletionPayload_def completion_request.simps)
qed

end
