(* ===== verification/Stream_Controller.thy ===== *)
theory Stream_Controller
  imports Json Chat_Streaming
begin

text \<open>
  Server-sent events of a chat completion: reading one event
  (\<^verbatim>\<open>features/playground/lib/streaming/stream-utils.ts\<close>, \<^verbatim>\<open>request-error-utils.ts\<close>) and the controller of
  the event sources (\<^verbatim>\<open>createStreamRequestController\<close> in \<^verbatim>\<open>hooks/use-stream-request.ts\<close>).  The fields
  that the TypeScript types declare as strings are read as strings; a payload with another type in
  such a field is outside the model.  Sources are numbered in the order they are created, listeners are
  known by the generation and the source they close over, and the callbacks made are logged with the
  generation of the request they belong to.
\<close>

section \<open>Reading events\<close>

definition CONNECTION_CLOSED :: string where "CONNECTION_CLOSED = ''Connection closed''"
definition PARSE_ERROR :: string where "PARSE_ERROR = ''Error parsing response data''"
definition STREAM_START_ERROR :: string where "STREAM_START_ERROR = ''Error establishing connection''"

definition text_or :: "js_value \<Rightarrow> string \<Rightarrow> string" where
  "text_or v d = (case v of JString s \<Rightarrow> if s = [] then d else s | _ \<Rightarrow> d)"

definition text_or_none :: "js_value \<Rightarrow> string option" where
  "text_or_none v = (case v of JString s \<Rightarrow> if s = [] then None else Some s | _ \<Rightarrow> None)"

definition js_index :: "js_value \<Rightarrow> nat \<Rightarrow> js_value" where
  "js_index v n = (case v of JArray xs \<Rightarrow> if n < length xs then xs ! n else JUndefined | _ \<Rightarrow> JUndefined)"

text \<open>\<^verbatim>\<open>StreamErrorDetails\<close>: message and optional code.\<close>

definition parseStreamErrorDetails :: "string option \<Rightarrow> string \<times> string option" where
  "parseStreamErrorDetails data =
     (case data of
        None \<Rightarrow> (API_REQUEST_ERROR, None)
      | Some d \<Rightarrow>
          if d = [] then (API_REQUEST_ERROR, None)
          else (case json_parse d of
                  None \<Rightarrow> (d, None)
                | Some parsed \<Rightarrow>
                    let e = js_get parsed ''error'' in
                    if \<not> truthy e then (d, None)
                    else (text_or (js_get e ''message'') d, text_or_none (js_get e ''code''))))"

text \<open>\<open>None\<close> when \<^verbatim>\<open>JSON.parse\<close> or the access to a null chunk throws.\<close>

definition parseStreamMessageUpdates :: "string \<Rightarrow> (stream_type \<times> string) list option" where
  "parseStreamMessageUpdates data =
     (case json_parse data of
        None \<Rightarrow> None
      | Some JNull \<Rightarrow> None
      | Some chunk \<Rightarrow>
          let delta = js_get (js_index (js_get chunk ''choices'') 0) ''delta'' in
          if \<not> truthy delta then Some []
          else Some ((case text_or_none (js_get delta ''reasoning_content'') of
                        Some r \<Rightarrow> [(ReasoningChunk, r)] | None \<Rightarrow> []) @
                     (case text_or_none (js_get delta ''content'') of
                        Some c \<Rightarrow> [(ContentChunk, c)] | None \<Rightarrow> [])))"

definition isStreamDoneMessage :: "string \<Rightarrow> bool" where
  "isStreamDoneMessage data \<longleftrightarrow> data = ''[DONE]''"

definition isStreamClosedReadyState :: "nat option \<Rightarrow> bool" where
  "isStreamClosedReadyState readyState \<longleftrightarrow> readyState = Some 2"

definition getStreamReadyStateError :: "nat option \<Rightarrow> nat option \<Rightarrow> string option" where
  "getStreamReadyStateError eventReadyState httpStatus =
     (case (eventReadyState, httpStatus) of
        (Some r, Some st) \<Rightarrow>
          if 2 \<le> r \<and> st \<noteq> 200 then Some (''HTTP '' @ nat_digits st @ '': '' @ CONNECTION_CLOSED) else None
      | _ \<Rightarrow> None)"

definition parseRequestErrorDetails :: "js_value \<Rightarrow> string \<times> string option" where
  "parseRequestErrorDetails err =
     (let d = js_get (js_get err ''response'') ''data'' in
      (text_or (js_get d ''message'') (text_or (js_get err ''message'') API_REQUEST_ERROR),
       text_or_none (js_get (js_get d ''error'') ''code'')))"

section \<open>The controller\<close>

datatype callback = OnUpdate stream_type string | OnComplete | OnError string "string option"

text \<open>What \<^verbatim>\<open>getHeaders\<close> can throw.\<close>

datatype thrown = ErrorObject string | OtherThrown

record controller =
  source :: "nat option"
  generation :: nat
  awaiting_headers :: bool \<comment> \<open>the \<^verbatim>\<open>send\<close> of the current generation is at its await\<close>
  created :: nat
  closed_sources :: "nat list"
  completed :: "nat list" \<comment> \<open>sources whose closure has \<^verbatim>\<open>completed = true\<close>\<close>
  isStreaming :: bool
  callbacks :: "(nat \<times> callback) list"

definition createStreamRequestController :: controller where
  "createStreamRequestController = \<lparr>source = None, generation = 0, awaiting_headers = False, created = 0,
     closed_sources = [], completed = [], isStreaming = False, callbacks = []\<rparr>"

definition close_source :: "nat option \<Rightarrow> controller \<Rightarrow> controller" where
  "close_source src c = (case src of None \<Rightarrow> c | Some x \<Rightarrow> c\<lparr>closed_sources := closed_sources c @ [x]\<rparr>)"

definition closeActiveSource :: "nat \<Rightarrow> controller \<Rightarrow> controller" where
  "closeActiveSource target c =
     (let c' = close_source (Some target) c in
      if source c' = Some target then c'\<lparr>source := None, isStreaming := False\<rparr> else c')"

definition call_back :: "nat \<Rightarrow> callback \<Rightarrow> controller \<Rightarrow> controller" where
  "call_back g cb c = c\<lparr>callbacks := callbacks c @ [(g, cb)]\<rparr>"

text \<open>\<^verbatim>\<open>send\<close> up to its await.\<close>

definition send_request :: "controller \<Rightarrow> controller" where
  "send_request c =
     (close_source (source c) (c\<lparr>generation := generation c + 1, source := None\<rparr>))
       \<lparr>isStreaming := False, awaiting_headers := True\<rparr>"

definition isCurrent_source :: "nat \<Rightarrow> nat \<Rightarrow> controller \<Rightarrow> bool" where
  "isCurrent_source g src c \<longleftrightarrow> generation c = g \<and> source c = Some src"

definition handleError :: "nat \<Rightarrow> nat \<Rightarrow> string \<Rightarrow> string option \<Rightarrow> controller \<Rightarrow> controller" where
  "handleError g src msg code c =
     (if \<not> isCurrent_source g src c \<or> src \<in> set (completed c) then c
      else closeActiveSource src
             (call_back g (OnError msg code) (c\<lparr>completed := src # completed c\<rparr>)))"

text \<open>The rest of \<^verbatim>\<open>send\<close> after the headers; \<open>throws\<close> tells that \<^verbatim>\<open>stream()\<close> throws.\<close>

definition headers_ready :: "nat \<Rightarrow> bool \<Rightarrow> controller \<Rightarrow> controller" where
  "headers_ready g throws c =
     (if generation c \<noteq> g \<or> \<not> awaiting_headers c then c
      else let src = created c;
               c' = c\<lparr>awaiting_headers := False, created := src + 1, source := Some src, isStreaming := True\<rparr>
           in if throws then handleError g src STREAM_START_ERROR None c' else c')"

definition headers_failed :: "nat \<Rightarrow> thrown \<Rightarrow> controller \<Rightarrow> controller" where
  "headers_failed g err c =
     (if generation c \<noteq> g \<or> \<not> awaiting_headers c then c
      else call_back g (OnError (case err of ErrorObject m \<Rightarrow> m | OtherThrown \<Rightarrow> STREAM_START_ERROR) None)
             (c\<lparr>awaiting_headers := False\<rparr>))"

definition on_message :: "nat \<Rightarrow> nat \<Rightarrow> string option \<Rightarrow> controller \<Rightarrow> controller" where
  "on_message g src event_data c =
     (if \<not> isCurrent_source g src c \<or> src \<in> set (completed c) then c
      else let data = nullish event_data [] in
        if isStreamDoneMessage data
        then call_back g OnComplete (closeActiveSource src (c\<lparr>completed := src # completed c\<rparr>))
        else (case parseStreamMessageUpdates data of
                None \<Rightarrow> handleError g src PARSE_ERROR None c
              | Some updates \<Rightarrow> fold (\<lambda>(ty, chunk). call_back g (OnUpdate ty chunk)) updates c))"

definition on_error :: "nat \<Rightarrow> nat \<Rightarrow> nat option \<Rightarrow> string option \<Rightarrow> controller \<Rightarrow> controller" where
  "on_error g src readyState event_data c =
     (if \<not> isCurrent_source g src c \<or> src \<in> set (completed c) then c
      else if isStreamClosedReadyState readyState then c
      else (case parseStreamErrorDetails event_data of (msg, code) \<Rightarrow> handleError g src msg code c))"

definition on_readystatechange ::
  "nat \<Rightarrow> nat \<Rightarrow> nat option \<Rightarrow> nat option \<Rightarrow> controller \<Rightarrow> controller" where
  "on_readystatechange g src eventReadyState httpStatus c =
     (if \<not> isCurrent_source g src c \<or> src \<in> set (completed c) then c
      else (case getStreamReadyStateError eventReadyState httpStatus of
              Some msg \<Rightarrow> if msg = [] then c else handleError g src msg None c
            | None \<Rightarrow> c))"

definition cancel :: "bool \<Rightarrow> controller \<Rightarrow> controller" where
  "cancel notify c =
     (let c' = close_source (source c)
                 (c\<lparr>generation := generation c + 1, source := None, awaiting_headers := False\<rparr>)
      in if notify then c'\<lparr>isStreaming := False\<rparr> else c')"

datatype controller_op = Send | Stop | Dispose

fun controller_act :: "controller_op \<Rightarrow> controller \<Rightarrow> controller" where
  "controller_act Send c = send_request c"
| "controller_act Stop c = cancel True c"
| "controller_act Dispose c = cancel False c"

datatype source_event =
    HeadersReady bool
  | HeadersFailed thrown
  | MessageEvent nat "string option"
  | ErrorEvent nat "nat option" "string option"
  | ReadyStateEvent nat "nat option" "nat option"

fun controller_deliver :: "nat \<Rightarrow> source_event \<Rightarrow> controller \<Rightarrow> controller" where
  "controller_deliver g (HeadersReady throws) c = headers_ready g throws c"
| "controller_deliver g (HeadersFailed e) c = headers_failed g e c"
| "controller_deliver g (MessageEvent src d) c = on_message g src d c"
| "controller_deliver g (ErrorEvent src r d) c = on_error g src r d c"
| "controller_deliver g (ReadyStateEvent src r st) c = on_readystatechange g src r st c"

section \<open>Superseded requests\<close>

lemmas controller_defs = headers_ready_def headers_failed_def on_message_def on_error_def
  on_readystatechange_def handleError_def isCurrent_source_def

lemma controller_stale: "g \<noteq> generation c \<Longrightarrow> controller_deliver g e c = c"
  by (cases e) (simp_all add: controller_defs)

lemma generation_frame [simp]:
  "generation (close_source src c) = generation c"
  "generation (closeActiveSource x c) = generation c"
  "generation (call_back g cb c) = generation c"
  by (simp_all add: close_source_def closeActiveSource_def call_back_def Let_def split: option.splits)

lemma generation_updates [simp]:
  "generation (fold (\<lambda>(ty, chunk). call_back g (OnUpdate ty chunk)) us c) = generation c"
  by (induction us arbitrary: c) auto

lemma generation_handleError [simp]: "generation (handleError g src m code c) = generation c"
  by (simp add: handleError_def)

lemma deliver_generation: "generation (controller_deliver g e c) = generation c"
  by (cases e)
    (auto simp: headers_ready_def headers_failed_def on_message_def on_error_def
      on_readystatechange_def Let_def split: option.splits prod.splits)

lemma act_generation: "generation (controller_act a c) = generation c + 1"
  by (cases a) (simp_all add: send_request_def cancel_def Let_def)

interpretation streams: generation_machine generation controller_deliver controller_act
  by unfold_locales (simp_all add: controller_stale act_generation deliver_generation)

section \<open>The controller's invariant\<close>

fun terminal :: "callback \<Rightarrow> bool" where
  "terminal (OnUpdate ty c) = False"
| "terminal _ = True"

definition of_request :: "nat \<Rightarrow> (nat \<times> callback) list \<Rightarrow> callback list" where
  "of_request g entries = map snd (filter (\<lambda>(h, cb). h = g) entries)"

text \<open>Nothing is reported to a request after its completion or its error.\<close>

definition well_ended :: "callback list \<Rightarrow> bool" where
  "well_ended cbs \<longleftrightarrow> list_all (\<lambda>cb. \<not> terminal cb) (butlast cbs)"

definition controller_ok :: "controller \<Rightarrow> bool" where
  "controller_ok c \<longleftrightarrow>
     \<comment> \<open>every source but the active one is closed\<close>
     set (closed_sources c) = {..<created c} - (case source c of None \<Rightarrow> {} | Some x \<Rightarrow> {x}) \<and>
     (case source c of None \<Rightarrow> True | Some x \<Rightarrow> x < created c \<and> x \<notin> set (completed c)) \<and>
     set (completed c) \<subseteq> {..<created c} \<and>
     (awaiting_headers c \<longrightarrow> source c = None) \<and>
     \<comment> \<open>a request that has ended is neither waiting nor streaming\<close>
     (\<forall>(h, cb) \<in> set (callbacks c). h \<le> generation c \<and>
        (h = generation c \<and> terminal cb \<longrightarrow> source c = None \<and> \<not> awaiting_headers c)) \<and>
     (\<forall>g. well_ended (of_request g (callbacks c)))"

lemma of_request_snoc:
  "of_request g (entries @ [(h, cb)]) = (if h = g then of_request g entries @ [cb] else of_request g entries)"
  by (simp add: of_request_def)

lemma well_ended_snoc:
  "well_ended (cbs @ [cb]) \<longleftrightarrow> list_all (\<lambda>cb. \<not> terminal cb) cbs"
  by (simp add: well_ended_def)

text \<open>A callback to a request that has not ended keeps the log in order.\<close>

lemma log_callback:
  assumes "controller_ok c" and "source c \<noteq> None \<or> awaiting_headers c"
  shows "well_ended (of_request g (callbacks c @ [(generation c, cb)]))"
proof (cases "g = generation c")
  case True
  have "list_all (\<lambda>cb. \<not> terminal cb) (of_request g (callbacks c))"
    using assms True unfolding controller_ok_def of_request_def by (auto simp: list_all_iff)
  with True show ?thesis by (simp add: of_request_snoc well_ended_snoc)
next
  case False
  with assms(1) show ?thesis by (simp add: of_request_snoc controller_ok_def)
qed

lemma initial_controller_ok: "controller_ok createStreamRequestController"
  by (simp add: controller_ok_def createStreamRequestController_def of_request_def well_ended_def)

lemma send_ok: "controller_ok c \<Longrightarrow> controller_ok (send_request c)"
  by (fastforce simp: controller_ok_def send_request_def close_source_def split: option.splits)

lemma cancel_ok: "controller_ok c \<Longrightarrow> controller_ok (cancel notify c)"
  by (fastforce simp: controller_ok_def cancel_def close_source_def Let_def split: option.splits)

lemma update_ok:
  assumes "controller_ok c" and "source c \<noteq> None"
  shows "controller_ok (call_back (generation c) (OnUpdate ty chunk) c)"
proof -
  from assms have "well_ended (of_request g (callbacks c @ [(generation c, OnUpdate ty chunk)]))" for g
    by (intro log_callback) auto
  with assms show ?thesis by (auto simp: controller_ok_def call_back_def)
qed

lemma updates_ok:
  "controller_ok c \<Longrightarrow> source c \<noteq> None \<Longrightarrow>
   controller_ok (fold (\<lambda>(ty, chunk). call_back (generation c) (OnUpdate ty chunk)) us c)"
proof (induction us arbitrary: c)
  case Nil
  then show ?case by simp
next
  case (Cons u us)
  obtain ty chunk where u: "u = (ty, chunk)" by fastforce
  let ?c = "call_back (generation c) (OnUpdate ty chunk) c"
  have "controller_ok ?c" by (rule update_ok [OF Cons.prems])
  moreover have "source ?c \<noteq> None" using Cons.prems by (simp add: call_back_def)
  ultimately show ?case using Cons.IH [of ?c] by (simp add: u)
qed

text \<open>Ending the active request, by error or completion.\<close>

lemma ended_ok:
  assumes "controller_ok c" and "source c = Some src" and "terminal cb"
  shows "controller_ok (c\<lparr>completed := src # completed c, closed_sources := closed_sources c @ [src],
    source := None, isStreaming := False, callbacks := callbacks c @ [(generation c, cb)]\<rparr>)" (is ?before)
    and "controller_ok (c\<lparr>completed := src # completed c, callbacks := callbacks c @ [(generation c, cb)],
    closed_sources := closed_sources c @ [src], source := None, isStreaming := False\<rparr>)" (is ?after)
proof -
  from assms have w: "well_ended (of_request g (callbacks c @ [(generation c, cb)]))" for g
    by (intro log_callback) auto
  with assms show ?before by (auto simp: controller_ok_def)
  from w assms show ?after by (auto simp: controller_ok_def)
qed

lemma handleError_ok: "controller_ok c \<Longrightarrow> controller_ok (handleError g src m code c)"
  using ended_ok(2) [of c src "OnError m code"]
  by (auto simp: handleError_def isCurrent_source_def closeActiveSource_def close_source_def
      call_back_def Let_def)

lemma headers_ready_ok: "controller_ok c \<Longrightarrow> controller_ok (headers_ready g throws c)"
proof -
  assume ok: "controller_ok c"
  let ?c = "c\<lparr>awaiting_headers := False, created := created c + 1, source := Some (created c), isStreaming := True\<rparr>"
  have "controller_ok ?c" if "generation c = g" "awaiting_headers c"
    using ok that by (fastforce simp: controller_ok_def)
  then show ?thesis using ok handleError_ok by (simp add: headers_ready_def Let_def)
qed

lemma headers_failed_ok: "controller_ok c \<Longrightarrow> controller_ok (headers_failed g e c)"
proof -
  assume ok: "controller_ok c"
  have "controller_ok (c\<lparr>awaiting_headers := False, callbacks := callbacks c @ [(generation c, OnError m None)]\<rparr>)"
    if "awaiting_headers c" for m
  proof -
    from ok that have "well_ended (of_request g (callbacks c @ [(generation c, OnError m None)]))" for g
      by (intro log_callback) auto
    with ok that show ?thesis by (auto simp: controller_ok_def)
  qed
  then show ?thesis using ok by (auto simp: headers_failed_def call_back_def)
qed

lemma on_message_ok: "controller_ok c \<Longrightarrow> controller_ok (on_message g src d c)"
  using ended_ok(1) [of c src OnComplete] updates_ok [of c] handleError_ok [of c]
  by (auto simp: on_message_def isCurrent_source_def closeActiveSource_def close_source_def
      call_back_def Let_def split: option.splits)

lemma controller_deliver_ok: "controller_ok c \<Longrightarrow> controller_ok (controller_deliver g e c)"
  by (cases e)
    (auto simp: headers_ready_ok headers_failed_ok on_message_ok on_error_def on_readystatechange_def
      handleError_ok split: option.splits prod.splits)

lemma controller_act_ok: "controller_ok c \<Longrightarrow> controller_ok (controller_act a c)"
  by (cases a) (simp_all add: send_ok cancel_ok)

interpretation stream_machine: invariant_machine createStreamRequestController
  "feed controller_act controller_deliver" "\<lambda>_. True" controller_ok
proof
  show "controller_ok createStreamRequestController" by (rule initial_controller_ok)
  show "controller_ok (feed controller_act controller_deliver e s)" if "controller_ok s" for e s
    using that by (cases e) (simp_all add: controller_act_ok controller_deliver_ok)
qed

section \<open>Properties\<close>

text \<open>C11: In every run of the controller from its creation, whatever is sent, stopped, disposed of or delivered
  in whatever order, the closed event sources are exactly the created ones except the active one, if any.\<close>

theorem no_source_leaks:
  "let c = fold (feed controller_act controller_deliver) es createStreamRequestController in
     set (closed_sources c) = {..<created c} - set_option (source c)"
proof -
  have "controller_ok (fold (feed controller_act controller_deliver) es createStreamRequestController)"
    using stream_machine.run_inv [of es] by (simp add: list_all_iff)
  then show ?thesis by (auto simp: controller_ok_def Let_def split: option.splits)
qed

text \<open>C10: in every run of the controller, a request is told of its completion or of its failure at
  most once, and of nothing afterwards.\<close>

theorem one_terminal_callback:
  "well_ended (of_request g (callbacks
     (fold (feed controller_act controller_deliver) es createStreamRequestController)))"
proof -
  have "controller_ok (fold (feed controller_act controller_deliver) es createStreamRequestController)"
    using stream_machine.run_inv [of es] by (simp add: list_all_iff)
  then show ?thesis by (simp add: controller_ok_def)
qed

text \<open>Once a request was stopped, disposed of or replaced by the next one, whatever its source
  still delivers can be left out of the run: no update, completion or error of it is reported, and no
  source is opened for it.\<close>

lemma superseded_stream_irrelevant:
  assumes "g < generation c"
  shows "fold (feed controller_act controller_deliver) es c =
     fold (feed controller_act controller_deliver) (filter (\<lambda>i. \<not> from_generation g i) es) c"
  using assms by (rule streams.superseded_irrelevant)

lemma superseded_stream_irrelevant_witness:
  "fold (feed controller_act controller_deliver)
     [Act Send, Callback 1 (HeadersReady False), Act Stop, Callback 1 (MessageEvent 0 (Some ''[DONE]''))]
     createStreamRequestController =
   fold (feed controller_act controller_deliver)
     [Act Send, Callback 1 (HeadersReady False), Act Stop] createStreamRequestController"
proof -
  let ?c = "fold (feed controller_act controller_deliver)
     [Act Send, Callback 1 (HeadersReady False), Act Stop] createStreamRequestController"
  have "generation ?c = 2"
    using act_generation [of Send createStreamRequestController]
    by (simp add: act_generation deliver_generation createStreamRequestController_def
        del: controller_act.simps controller_deliver.simps)
  then have "1 < generation ?c" by simp
  from superseded_stream_irrelevant [OF this, of "[Callback 1 (MessageEvent 0 (Some ''[DONE]''))]"]
  show ?thesis by simp
qed

section \<open>A started request ends\<close>

text \<open>The request is streaming from its source, or it has been told of its end.\<close>

definition streams_or_ended :: "nat \<Rightarrow> nat \<Rightarrow> controller \<Rightarrow> bool" where
  "streams_or_ended g src c \<longleftrightarrow> generation c = g \<and> \<not> awaiting_headers c \<and>
     (source c = Some src \<and> src \<notin> set (completed c) \<or>
      source c = None \<and> \<not> isStreaming c \<and> list_ex terminal (of_request g (callbacks c)))"

lemma ended_by_error:
  "streams_or_ended g src c \<Longrightarrow> streams_or_ended g src (handleError g x m code c)"
  by (auto simp: streams_or_ended_def handleError_def isCurrent_source_def closeActiveSource_def close_source_def call_back_def
      of_request_snoc Let_def)

lemma updates_frame:
  "(fold (\<lambda>(ty, chunk). call_back g (OnUpdate ty chunk)) us c) =
     c\<lparr>callbacks := callbacks c @ map (\<lambda>(ty, chunk). (g, OnUpdate ty chunk)) us\<rparr>"
  by (induction us arbitrary: c) (auto simp: call_back_def)

lemma deliver_streams_or_ended:
  assumes "streams_or_ended g src c"
  shows "streams_or_ended g src (controller_deliver g e c)"
proof (cases e)
  case (MessageEvent x d)
  show ?thesis
  proof (cases "isCurrent_source g x c \<and> x \<notin> set (completed c)")
    case True
    then have "x = src" using assms by (auto simp: streams_or_ended_def isCurrent_source_def)
    with True assms ended_by_error [OF assms] show ?thesis
      by (auto simp: MessageEvent on_message_def Let_def updates_frame streams_or_ended_def isCurrent_source_def
          closeActiveSource_def close_source_def call_back_def of_request_snoc split: option.splits)
  qed (use assms in \<open>auto simp: MessageEvent on_message_def\<close>)
next
  case (HeadersReady t)
  with assms show ?thesis by (simp add: headers_ready_def streams_or_ended_def)
next
  case (HeadersFailed t)
  with assms show ?thesis by (simp add: headers_failed_def streams_or_ended_def)
next
  case (ErrorEvent x r d)
  with assms ended_by_error [OF assms] show ?thesis by (simp add: on_error_def split: prod.splits)
next
  case (ReadyStateEvent x r st)
  with assms ended_by_error [OF assms] show ?thesis by (simp add: on_readystatechange_def split: option.splits)
qed

lemma run_streams_or_ended: "streams_or_ended g src c \<Longrightarrow> streams_or_ended g src (fold (controller_deliver g) evs c)"
  by (induction evs arbitrary: c) (simp_all add: deliver_streams_or_ended)

lemma done_ends:
  assumes "streams_or_ended g src c"
  shows "let c' = controller_deliver g (MessageEvent src (Some ''[DONE]'')) c in
    source c' = None \<and> \<not> isStreaming c' \<and> list_ex terminal (of_request g (callbacks c'))"
  using assms by (auto simp: streams_or_ended_def on_message_def isCurrent_source_def isStreamDoneMessage_def nullish_def
      closeActiveSource_def close_source_def call_back_def of_request_snoc Let_def)

text \<open>C9: in every run of the controller, a request that got its headers comes to an end when its source delivers
  the final marker: whatever it delivered before, the request has then been told of its completion or failure, no
  source is active and the page does not show it as streaming.\<close>

theorem started_request_ends:
  "let c = controller_act Send (fold (feed controller_act controller_deliver) es createStreamRequestController);
       g = generation c;
       c' = fold (controller_deliver g) (HeadersReady throws # evs @ [MessageEvent (created c) (Some ''[DONE]'')]) c
   in list_ex terminal (of_request g (callbacks c')) \<and> source c' = None \<and> \<not> isStreaming c'"
proof -
  define c where "c = controller_act Send (fold (feed controller_act controller_deliver) es createStreamRequestController)"
  have "controller_ok (fold (feed controller_act controller_deliver) es createStreamRequestController)"
    using stream_machine.run_inv [of es] by (simp add: list_all_iff)
  then have ok: "controller_ok c" unfolding c_def by (simp add: send_ok)
  have w: "awaiting_headers c" unfolding c_def by (simp add: send_request_def)
  have "created c \<notin> set (completed c)" using ok by (auto simp: controller_ok_def)
  then have "streams_or_ended (generation c) (created c) (controller_deliver (generation c) (HeadersReady throws) c)"
    using w by (auto simp: headers_ready_def streams_or_ended_def handleError_def isCurrent_source_def closeActiveSource_def
        close_source_def call_back_def of_request_snoc Let_def)
  from done_ends [OF run_streams_or_ended [OF this, of evs]] show ?thesis
    unfolding c_def [symmetric] Let_def by simp
qed

end
