(* ===== verification/Chat_Handler.thy ===== *)
theory Chat_Handler
  imports Stream_Controller
begin

text \<open>
  Sending a conversation and receiving the answer (\<^verbatim>\<open>features/playground/hooks/use-chat-handler.ts\<close>).
  The refs of the hook are the fields of a record.  \<^verbatim>\<open>onMessageUpdate\<close> hands an updater to React, which
  either evaluates it at once (possible only when nothing is waiting to be rendered, which an
  unchanged state does not need) or when it renders: \<open>dispatch\<close> takes that choice as an argument, and a queued updater is evaluated against the
  generation of the moment at which it runs.  Each updater carries the readings of the clock that its
  evaluation will make.
\<close>

section \<open>State\<close>

datatype updater =
    FlushUpdate nat string string \<comment> \<open>generation, reasoning, content\<close>
  | CompleteUpdate nat
  | ErrorUpdate nat string "string option" string
  | ResponseUpdate nat completion_response
  | StopUpdate nat
  | ReplaceMessages "message list"
  | RemoveMessage string

datatype stream_op = OpenStream completion_request | PostCompletion completion_request | StopStream

record handler =
  requestGeneration :: nat
  pending_generation :: nat
  pending_content :: string
  pending_reasoning :: string
  flush_timer :: "nat option"
  abort_controller :: "nat option"
  aborted :: "nat list"
  isRequesting :: bool
  messages :: "message list"
  queue :: "(clock \<times> updater) list"
  unrendered :: bool
  stream_ops :: "stream_op list"
  toasts :: "string list"

definition initial_handler :: "message list \<Rightarrow> handler" where
  "initial_handler ms = \<lparr>requestGeneration = 0, pending_generation = 0, pending_content = [],
     pending_reasoning = [], flush_timer = None, abort_controller = None, aborted = [],
     isRequesting = False, messages = ms, queue = [], unrendered = False, stream_ops = [], toasts = []\<rparr>"

section \<open>Updaters\<close>

definition flush_message :: "clock \<Rightarrow> string \<Rightarrow> string \<Rightarrow> message \<Rightarrow> message" where
  "flush_message clk r c m =
     (let m1 = (if r = [] then m else applyStreamingChunk clk m ReasoningChunk r) in
      if c = [] then m1 else applyStreamingChunk (\<lambda>n. clk (n + 1)) m1 ContentChunk c)"

fun run_updater :: "nat \<Rightarrow> clock \<times> updater \<Rightarrow> message list \<Rightarrow> message list" where
  "run_updater cur (clk, FlushUpdate g r c) prev =
     (if g \<noteq> cur then prev else updateLastAssistantMessage prev (flush_message clk r c))"
| "run_updater cur (clk, CompleteUpdate g) prev =
     (if g \<noteq> cur then prev
      else updateLastAssistantMessage prev (\<lambda>m.
        if isAssistantMessageFinal m then m else completeAssistantMessage clk m))"
| "run_updater cur (clk, ErrorUpdate g err code title) prev =
     (if g \<noteq> cur then prev else updateAssistantMessageWithError (clk 0) prev err code title)"
| "run_updater cur (clk, ResponseUpdate g resp) prev =
     (if g \<noteq> cur then prev
      else updateLastAssistantMessage prev (\<lambda>m. nullish (applyChatCompletionResponse clk m resp) m))"
| "run_updater cur (clk, StopUpdate g) prev =
     (if g \<noteq> cur then prev
      else updateLastAssistantMessage prev (\<lambda>m.
        if isAssistantMessagePending m then completeAssistantMessage clk m else m))"
| "run_updater cur (clk, ReplaceMessages ms) prev = ms"
| "run_updater cur (clk, RemoveMessage k) prev = removeMessageByKey prev k"

definition dispatch :: "bool \<Rightarrow> clock \<Rightarrow> updater \<Rightarrow> handler \<Rightarrow> handler" where
  "dispatch eager clk u h =
     (if eager \<and> \<not> unrendered h
      then let ms = run_updater (requestGeneration h) (clk, u) (messages h)
           in h\<lparr>messages := ms, unrendered := (ms \<noteq> messages h)\<rparr>
      else h\<lparr>queue := queue h @ [(clk, u)], unrendered := True\<rparr>)"

definition render :: "handler \<Rightarrow> handler" where
  "render h = h\<lparr>messages := fold (run_updater (requestGeneration h)) (queue h) (messages h),
     queue := [], unrendered := False\<rparr>"

section \<open>The hook\<close>

definition mergePendingStreamChunk :: "string \<Rightarrow> string \<Rightarrow> string" where
  "mergePendingStreamChunk currentChunk nextChunk =
     (if currentChunk = [] \<or> \<not> starts_with currentChunk nextChunk then currentChunk @ nextChunk
      else nextChunk)"

definition discardPendingStreamUpdates :: "nat \<Rightarrow> handler \<Rightarrow> handler" where
  "discardPendingStreamUpdates g h =
     h\<lparr>flush_timer := None, pending_generation := g, pending_content := [], pending_reasoning := []\<rparr>"

definition flushStreamUpdates :: "bool \<Rightarrow> clock \<Rightarrow> nat \<Rightarrow> handler \<Rightarrow> handler" where
  "flushStreamUpdates eager clk g h =
     (if g \<noteq> requestGeneration h then h
      else let h1 = h\<lparr>flush_timer := None\<rparr> in
        if pending_generation h1 \<noteq> g then h1
        else if pending_reasoning h1 = [] \<and> pending_content h1 = [] then h1
        else dispatch eager clk (FlushUpdate g (pending_reasoning h1) (pending_content h1))
               (h1\<lparr>pending_generation := g, pending_content := [], pending_reasoning := []\<rparr>))"

definition scheduleStreamFlush :: "nat \<Rightarrow> handler \<Rightarrow> handler" where
  "scheduleStreamFlush g h =
     (if g \<noteq> requestGeneration h then h
      else if flush_timer h \<noteq> None then h else h\<lparr>flush_timer := Some g\<rparr>)"

definition KNOWN_ERROR_MESSAGES :: "string list" where
  "KNOWN_ERROR_MESSAGES = [API_REQUEST_ERROR, ''Network connection failed or server not responding'',
     PARSE_ERROR, STREAM_START_ERROR, CONNECTION_CLOSED, INTERRUPTED]"

definition getDisplayError :: "(string \<Rightarrow> string) \<Rightarrow> string \<Rightarrow> string" where
  "getDisplayError t err =
     (if err \<in> set KNOWN_ERROR_MESSAGES then t err
      else if ends_with ('': '' @ CONNECTION_CLOSED) err
      then take (length err - length CONNECTION_CLOSED) err @ t CONNECTION_CLOSED
      else err)"

definition handleStreamUpdate :: "nat \<Rightarrow> stream_type \<Rightarrow> string \<Rightarrow> handler \<Rightarrow> handler" where
  "handleStreamUpdate g ty chunk h =
     (if g \<noteq> requestGeneration h then h
      else if pending_generation h \<noteq> g then h
      else scheduleStreamFlush g
        (case ty of
           ReasoningChunk \<Rightarrow> h\<lparr>pending_reasoning := mergePendingStreamChunk (pending_reasoning h) chunk\<rparr>
         | ContentChunk \<Rightarrow> h\<lparr>pending_content := mergePendingStreamChunk (pending_content h) chunk\<rparr>))"

definition handleStreamComplete :: "bool \<Rightarrow> clock \<Rightarrow> clock \<Rightarrow> nat \<Rightarrow> handler \<Rightarrow> handler" where
  "handleStreamComplete eager clk clk' g h =
     (if g \<noteq> requestGeneration h then h
      else dispatch eager clk' (CompleteUpdate g)
             ((flushStreamUpdates eager clk g h)\<lparr>isRequesting := False\<rparr>))"

definition handleStreamError ::
  "(string \<Rightarrow> string) \<Rightarrow> bool \<Rightarrow> clock \<Rightarrow> clock \<Rightarrow> nat \<Rightarrow> string \<Rightarrow> string option \<Rightarrow> handler \<Rightarrow> handler" where
  "handleStreamError t eager clk clk' g err code h =
     (if g \<noteq> requestGeneration h then h
      else let h1 = flushStreamUpdates eager clk g h;
               displayError = getDisplayError t err
           in dispatch eager clk' (ErrorUpdate g displayError code (t API_REQUEST_ERROR))
                (h1\<lparr>isRequesting := False, toasts := toasts h1 @ [displayError]\<rparr>))"

definition abort_current :: "handler \<Rightarrow> handler" where
  "abort_current h = (case abort_controller h of
     None \<Rightarrow> h | Some g \<Rightarrow> h\<lparr>aborted := g # aborted h, abort_controller := None\<rparr>)"

definition sendStreamingChat ::
  "playground_config \<Rightarrow> parameter_enabled \<Rightarrow> message list \<Rightarrow> handler \<Rightarrow> handler" where
  "sendStreamingChat config enabled ms h =
     (let g = requestGeneration h + 1;
          h1 = discardPendingStreamUpdates g (abort_current (h\<lparr>requestGeneration := g\<rparr>))
      in h1\<lparr>isRequesting := True,
            stream_ops := stream_ops h1 @ [OpenStream (buildChatCompletionPayload ms config enabled)]\<rparr>)"

text \<open>\<^verbatim>\<open>sendNonStreamingChat\<close> up to its await, and the three ways it goes on.\<close>

definition sendNonStreamingChat ::
  "playground_config \<Rightarrow> parameter_enabled \<Rightarrow> message list \<Rightarrow> handler \<Rightarrow> handler" where
  "sendNonStreamingChat config enabled ms h =
     (let g = requestGeneration h + 1;
          h1 = h\<lparr>requestGeneration := g, stream_ops := stream_ops h @ [StopStream]\<rparr>;
          h2 = abort_current (discardPendingStreamUpdates g h1)
      in h2\<lparr>abort_controller := Some g, isRequesting := True,
            stream_ops := stream_ops h2 @ [PostCompletion (buildChatCompletionPayload ms config enabled)]\<rparr>)"

definition finally_request :: "nat \<Rightarrow> handler \<Rightarrow> handler" where
  "finally_request g h =
     (if requestGeneration h = g then h\<lparr>abort_controller := None, isRequesting := False\<rparr> else h)"

definition response_arrived ::
  "(string \<Rightarrow> string) \<Rightarrow> bool \<Rightarrow> clock \<Rightarrow> clock \<Rightarrow> nat \<Rightarrow> completion_response \<Rightarrow> handler \<Rightarrow> handler" where
  "response_arrived t eager clk clk' g resp h =
     finally_request g
       (if g \<in> set (aborted h) \<or> requestGeneration h \<noteq> g then h
        else if \<not> hasChatCompletionChoice resp
        then handleStreamError t eager clk clk' g API_REQUEST_ERROR None h
        else dispatch eager clk (ResponseUpdate g resp) h)"

definition request_failed ::
  "(string \<Rightarrow> string) \<Rightarrow> bool \<Rightarrow> clock \<Rightarrow> clock \<Rightarrow> nat \<Rightarrow> js_value \<Rightarrow> handler \<Rightarrow> handler" where
  "request_failed t eager clk clk' g err h =
     finally_request g
       (if g \<in> set (aborted h) \<or> requestGeneration h \<noteq> g then h
        else case parseRequestErrorDetails err of (msg, code) \<Rightarrow>
          handleStreamError t eager clk clk' g msg code h)"

definition sendChat ::
  "playground_config \<Rightarrow> parameter_enabled \<Rightarrow> message list \<Rightarrow> handler \<Rightarrow> handler" where
  "sendChat config enabled ms h =
     (if stream config then sendStreamingChat config enabled ms h else sendNonStreamingChat config enabled ms h)"

definition stopGeneration :: "bool \<Rightarrow> clock \<Rightarrow> clock \<Rightarrow> handler \<Rightarrow> handler" where
  "stopGeneration eager clk clk' h =
     (let stopped = requestGeneration h;
          h1 = flushStreamUpdates eager clk stopped h;
          idle = stopped + 1;
          h2 = discardPendingStreamUpdates idle (h1\<lparr>requestGeneration := idle\<rparr>);
          h3 = abort_current (h2\<lparr>stream_ops := stream_ops h2 @ [StopStream]\<rparr>)
      in dispatch eager clk' (StopUpdate idle) (h3\<lparr>isRequesting := False\<rparr>))"

text \<open>The cleanup of the effect when the component goes away.  \<open>flush_timer\<close> is the pending timer, which is cleared; the
  reference to it stays in the source, but with the new generation no update of the old request reads it.\<close>

definition unmount :: "handler \<Rightarrow> handler" where
  "unmount h = abort_current (h\<lparr>requestGeneration := requestGeneration h + 1, flush_timer := None\<rparr>)"

section \<open>Events\<close>

datatype handler_op =
    SendChat playground_config parameter_enabled "message list"
  | StopGeneration bool clock clock
  | Unmount
  | Render
  | UpdateMessages bool clock updater

datatype handler_event =
    StreamUpdate stream_type string
  | StreamComplete bool clock clock
  | StreamError bool clock clock string "string option"
  | FlushTimer bool clock
  | ResponseArrived bool clock clock completion_response
  | RequestFailed bool clock clock js_value

fun handler_act :: "handler_op \<Rightarrow> handler \<Rightarrow> handler" where
  "handler_act (SendChat config enabled ms) h = sendChat config enabled ms h"
| "handler_act (StopGeneration eager clk clk') h = stopGeneration eager clk clk' h"
| "handler_act Unmount h = unmount h"
| "handler_act Render h = render h"
| "handler_act (UpdateMessages eager clk u) h = dispatch eager clk u h"

fun handler_deliver :: "(string \<Rightarrow> string) \<Rightarrow> nat \<Rightarrow> handler_event \<Rightarrow> handler \<Rightarrow> handler" where
  "handler_deliver t g (StreamUpdate ty chunk) h = handleStreamUpdate g ty chunk h"
| "handler_deliver t g (StreamComplete eager clk clk') h = handleStreamComplete eager clk clk' g h"
| "handler_deliver t g (StreamError eager clk clk' err code) h =
     handleStreamError t eager clk clk' g err code h"
| "handler_deliver t g (FlushTimer eager clk) h =
     (if flush_timer h = Some g then flushStreamUpdates eager clk g h else h)"
| "handler_deliver t g (ResponseArrived eager clk clk' resp) h = response_arrived t eager clk clk' g resp h"
| "handler_deliver t g (RequestFailed eager clk clk' err) h = request_failed t eager clk clk' g err h"

section \<open>Superseded requests\<close>

declare applyStreamingChunk.simps [simp del]

lemma handler_stale: "g \<noteq> requestGeneration h \<Longrightarrow> handler_deliver t g e h = h"
  by (cases e)
    (simp_all add: handleStreamUpdate_def handleStreamComplete_def handleStreamError_def
      flushStreamUpdates_def response_arrived_def request_failed_def finally_request_def)

lemma dispatch_generation [simp]: "requestGeneration (dispatch eager clk u h) = requestGeneration h"
  by (simp add: dispatch_def Let_def)

lemma flush_generation [simp]: "requestGeneration (flushStreamUpdates eager clk g h) = requestGeneration h"
  by (simp add: flushStreamUpdates_def Let_def)

lemma abort_generation [simp]: "requestGeneration (abort_current h) = requestGeneration h"
  by (simp add: abort_current_def split: option.splits)

lemma error_generation [simp]:
  "requestGeneration (handleStreamError t eager clk clk' g err code h) = requestGeneration h"
  by (simp add: handleStreamError_def Let_def)

lemma finally_generation [simp]: "requestGeneration (finally_request g h) = requestGeneration h"
  by (simp add: finally_request_def)

lemma handler_deliver_generation [simp]:
  "requestGeneration (handler_deliver t g e h) = requestGeneration h"
  by (cases e)
    (simp_all add: handleStreamUpdate_def handleStreamComplete_def scheduleStreamFlush_def
      response_arrived_def request_failed_def split: stream_type.splits prod.splits)

lemma handler_act_generation: "requestGeneration h \<le> requestGeneration (handler_act a h)"
  by (cases a)
    (simp_all add: sendChat_def sendStreamingChat_def sendNonStreamingChat_def stopGeneration_def
      unmount_def render_def discardPendingStreamUpdates_def Let_def)

interpretation chats: generation_machine requestGeneration "handler_deliver t" handler_act for t
  by unfold_locales (simp_all add: handler_stale handler_act_generation)

section \<open>What will be shown\<close>

text \<open>The messages once everything queued is rendered.\<close>

definition view :: "handler \<Rightarrow> message list" where
  "view h = fold (run_updater (requestGeneration h)) (queue h) (messages h)"

definition queue_ok :: "handler \<Rightarrow> bool" where
  "queue_ok h \<longleftrightarrow> unrendered h \<or> queue h = []"

lemma view_dispatch:
  "queue_ok h \<Longrightarrow> view (dispatch eager clk u h) = run_updater (requestGeneration h) (clk, u) (view h)"
  by (auto simp: view_def dispatch_def queue_ok_def Let_def)

lemma queue_ok_dispatch: "queue_ok h \<Longrightarrow> queue_ok (dispatch eager clk u h)"
  by (auto simp: queue_ok_def dispatch_def Let_def)

lemma render_view [simp]: "messages (render h) = view h" "view (render h) = view h"
  by (simp_all add: render_def view_def)

lemma view_frame [simp]:
  "view (h\<lparr>flush_timer := x\<rparr>) = view h" "view (h\<lparr>pending_generation := g\<rparr>) = view h"
  "view (h\<lparr>pending_content := c\<rparr>) = view h" "view (h\<lparr>pending_reasoning := r\<rparr>) = view h"
  "view (h\<lparr>isRequesting := b\<rparr>) = view h"
  by (simp_all add: view_def)

lemma abort_frame [simp]:
  "messages (abort_current h) = messages h" "queue (abort_current h) = queue h"
  "unrendered (abort_current h) = unrendered h"
  by (simp_all add: abort_current_def split: option.splits)

lemma queue_ok_frame [simp]:
  "queue_ok (h\<lparr>flush_timer := x\<rparr>) = queue_ok h" "queue_ok (h\<lparr>pending_generation := g\<rparr>) = queue_ok h"
  "queue_ok (h\<lparr>pending_content := c\<rparr>) = queue_ok h" "queue_ok (h\<lparr>pending_reasoning := r\<rparr>) = queue_ok h"
  "queue_ok (h\<lparr>isRequesting := b\<rparr>) = queue_ok h" "queue_ok (render h)"
  "queue_ok (h\<lparr>requestGeneration := g\<rparr>) = queue_ok h" "queue_ok (h\<lparr>stream_ops := ops\<rparr>) = queue_ok h"
  "queue_ok (abort_current h) = queue_ok h"
  by (simp_all add: queue_ok_def render_def)

lemma updateLast_eq:
  "ms \<noteq> [] \<Longrightarrow> sender (last ms) = Assistant \<Longrightarrow>
   updateLastAssistantMessage ms f = butlast ms @ [f (last ms)]"
  by (cases ms rule: rev_cases) (simp_all add: updateLastAssistantMessage_def)

lemma flush_message_frame [simp]:
  "sender (flush_message clk r c m) = sender m" "key (flush_message clk r c m) = key m"
  by (simp_all add: flush_message_def Let_def)

lemma reasoning_chunk_content [simp]:
  "getMessageContent (applyStreamingChunk clk m ReasoningChunk r) = getMessageContent m"
  by (simp add: applyStreamingChunk.simps getMessageContent_def Let_def)

lemma pending_not_errored: "isAssistantMessagePending m \<Longrightarrow> msg_status m \<noteq> Some Errored"
  by (auto simp: isAssistantMessagePending_def)

lemma chunk_pending:
  "isAssistantMessagePending m \<Longrightarrow> isAssistantMessagePending (applyStreamingChunk clk m ty c)"
  using chunk_status [OF pending_not_errored] by (simp add: isAssistantMessagePending_def)

lemma flush_message_pending:
  "isAssistantMessagePending m \<Longrightarrow> isAssistantMessagePending (flush_message clk r c m)"
  by (simp add: flush_message_def Let_def chunk_pending)

lemma flush_message_content:
  assumes "msg_status m \<noteq> Some Errored"
  shows "getMessageContent (flush_message clk r c m) =
    getMessageContent m @ getAppendableChunk (getMessageContent m) c"
proof -
  let ?m = "if r = [] then m else applyStreamingChunk clk m ReasoningChunk r"
  have st: "msg_status ?m \<noteq> Some Errored"
    using assms chunk_status [OF assms, of clk ReasoningChunk r] by simp
  have ct: "getMessageContent ?m = getMessageContent m" by simp
  show ?thesis
  proof (cases "c = []")
    case True
    then have "getAppendableChunk (getMessageContent m) c = []" by (simp add: getAppendableChunk_def)
    with True ct show ?thesis by (simp add: flush_message_def Let_def)
  next
    case False
    with getMessageContent_chunk [OF st, of "\<lambda>n. clk (n + 1)" c] ct show ?thesis
      by (simp add: flush_message_def Let_def)
  qed
qed

section \<open>Batching is invisible when no batch repeats the one before\<close>

definition batch_safe :: "string list \<Rightarrow> bool" where
  "batch_safe cs \<longleftrightarrow>
     (\<forall>j \<in> set [0..<length cs]. \<forall>i \<in> set [0..<j]. \<forall>k \<in> set [j..<length cs].
        \<not> starts_with (concat (drop i (take j cs))) (concat (drop j (take (k + 1) cs))))"

lemma batch_safe_nth:
  "batch_safe xs \<Longrightarrow> i < j \<Longrightarrow> j \<le> k \<Longrightarrow> k < length xs \<Longrightarrow>
   \<not> starts_with (concat (drop i (take j xs))) (concat (drop j (take (k + 1) xs)))"
  by (auto simp: batch_safe_def)

lemma batch_safeD:
  assumes "batch_safe (as @ bs @ cs @ ds)" and "bs \<noteq> []" and "cs \<noteq> []"
  shows "\<not> starts_with (concat bs) (concat cs)"
proof -
  let ?xs = "as @ bs @ cs @ ds" and ?i = "length as" and ?j = "length as + length bs"
    and ?k = "length as + length bs + length cs - 1"
  have "?i < ?j" "?j \<le> ?k" "?k < length ?xs"
    using assms(2,3) by (cases bs; cases cs; simp)+
  note ns = batch_safe_nth [OF assms(1) this]
  have k: "?k + 1 = length as + length bs + length cs" using assms(3) by (cases cs) auto
  show ?thesis using ns unfolding k by simp
qed

fun chunk_of :: "(handler_op, handler_event) input \<Rightarrow> string list" where
  "chunk_of (Callback g (StreamUpdate ContentChunk c)) = [c]"
| "chunk_of _ = []"

text \<open>What may happen while the stream \<open>g\<close> is running: its chunks, its timer, rendering.\<close>

fun streaming_input :: "nat \<Rightarrow> (handler_op, handler_event) input \<Rightarrow> bool" where
  "streaming_input g (Callback h (StreamUpdate ty c)) = (h = g \<and> c \<noteq> [])"
| "streaming_input g (Callback h (FlushTimer eager clk)) = (h = g)"
| "streaming_input g (Act Render) = True"
| "streaming_input g _ = False"

definition streaming_state :: "nat \<Rightarrow> string list \<Rightarrow> handler \<Rightarrow> bool" where
  "streaming_state g seen h \<longleftrightarrow>
     requestGeneration h = g \<and> pending_generation h = g \<and> queue_ok h \<and> view h \<noteq> [] \<and>
     sender (last (view h)) = Assistant \<and> isAssistantMessagePending (last (view h)) \<and>
     (\<exists>as bs. seen = as @ bs \<and> getMessageContent (last (view h)) = concat as \<and>
        pending_content h = concat bs)"

lemma streaming_stateI:
  "requestGeneration h = g \<Longrightarrow> pending_generation h = g \<Longrightarrow> queue_ok h \<Longrightarrow> view h \<noteq> [] \<Longrightarrow>
   sender (last (view h)) = Assistant \<Longrightarrow> isAssistantMessagePending (last (view h)) \<Longrightarrow>
   getMessageContent (last (view h)) = concat as \<Longrightarrow> pending_content h = concat bs \<Longrightarrow>
   streaming_state g (as @ bs) h"
  unfolding streaming_state_def by blast

lemma concat_nonempty_chunks: "list_all (\<lambda>c. c \<noteq> []) xs \<Longrightarrow> concat xs = [] \<longleftrightarrow> xs = []"
  by (cases xs) auto

lemma flush_streaming_state:
  assumes st: "streaming_state g seen h" and safe: "batch_safe (seen @ later)"
    and ne: "list_all (\<lambda>c. c \<noteq> []) seen"
  shows "streaming_state g seen (flushStreamUpdates eager clk g h) \<and>
     getMessageContent (last (view (flushStreamUpdates eager clk g h))) = concat seen \<and>
     pending_content (flushStreamUpdates eager clk g h) = []"
proof -
  from st obtain as bs where seen: "seen = as @ bs" and ct: "getMessageContent (last (view h)) = concat as"
    and pc: "pending_content h = concat bs" by (auto simp: streaming_state_def)
  show ?thesis
  proof (cases "pending_reasoning h = [] \<and> pending_content h = []")
    case True
    with pc have "concat bs = []" by simp
    with ne seen have "bs = []" using concat_nonempty_chunks [of bs] by simp
    have eq: "flushStreamUpdates eager clk g h = h\<lparr>flush_timer := None\<rparr>"
      using True st by (simp add: flushStreamUpdates_def Let_def streaming_state_def)
    have "streaming_state g (as @ []) (h\<lparr>flush_timer := None\<rparr>)"
      by (rule streaming_stateI) (use st ct True in \<open>simp_all add: streaming_state_def\<close>)
    with True seen ct \<open>bs = []\<close> show ?thesis by (simp add: eq)
  next
    case False
    let ?m = "last (view h)"
    have eq: "view (flushStreamUpdates eager clk g h) =
        butlast (view h) @ [flush_message clk (pending_reasoning h) (concat bs) ?m]"
      using False st pc
      by (auto simp: flushStreamUpdates_def Let_def streaming_state_def view_dispatch updateLast_eq)
    have "getAppendableChunk (concat as) (concat bs) = concat bs"
    proof (cases "as = [] \<or> bs = []")
      case True
      then show ?thesis by (auto simp: getAppendableChunk_def)
    next
      case False
      with batch_safeD [of "[]" as bs later] safe seen
      have "\<not> starts_with (concat as) (concat bs)" by simp
      then show ?thesis by (simp add: getAppendableChunk_def)
    qed
    then have cont: "getMessageContent (last (view (flushStreamUpdates eager clk g h))) = concat seen"
      using flush_message_content [of ?m clk "pending_reasoning h" "concat bs"] st ct
      by (simp add: eq seen streaming_state_def pending_not_errored)
    have fields: "pending_generation (flushStreamUpdates eager clk g h) = g"
      "pending_content (flushStreamUpdates eager clk g h) = []"
      "queue_ok (flushStreamUpdates eager clk g h)"
      using False st
      by (auto simp: flushStreamUpdates_def Let_def streaming_state_def dispatch_def queue_ok_def)
    have "streaming_state g (seen @ []) (flushStreamUpdates eager clk g h)"
      by (rule streaming_stateI)
        (use st eq cont fields flush_message_pending [of ?m] in \<open>simp_all add: streaming_state_def\<close>)
    with cont fields show ?thesis by simp
  qed
qed

lemma streaming_step:
  assumes st: "streaming_state g seen h" and safe: "batch_safe (seen @ chunk_of i @ later)"
    and ne: "list_all (\<lambda>c. c \<noteq> []) seen" and inp: "streaming_input g i"
  shows "streaming_state g (seen @ chunk_of i) (feed handler_act (handler_deliver t) i h)"
proof (cases "(g, i)" rule: streaming_input.cases)
  case (1 g' h' ty c)
  with inp have i: "i = Callback g (StreamUpdate ty c)" and c: "c \<noteq> []" by auto
  have frame: "view (handleStreamUpdate g ty c h) = view h" "queue_ok (handleStreamUpdate g ty c h) = queue_ok h"
    "requestGeneration (handleStreamUpdate g ty c h) = requestGeneration h"
    "pending_generation (handleStreamUpdate g ty c h) = pending_generation h"
    by (auto simp: handleStreamUpdate_def scheduleStreamFlush_def split: stream_type.splits)
  show ?thesis
  proof (cases ty)
    case ReasoningChunk
    have "pending_content (handleStreamUpdate g ty c h) = pending_content h"
      by (simp add: ReasoningChunk handleStreamUpdate_def scheduleStreamFlush_def)
    with st frame show ?thesis by (simp add: i ReasoningChunk streaming_state_def)
  next
    case ContentChunk
    from st obtain as bs where seen: "seen = as @ bs" and ct: "getMessageContent (last (view h)) = concat as"
      and pc: "pending_content h = concat bs" by (auto simp: streaming_state_def)
    have "mergePendingStreamChunk (concat bs) c = concat bs @ c"
    proof (cases "bs = []")
      case True
      then show ?thesis by (simp add: mergePendingStreamChunk_def)
    next
      case False
      with batch_safeD [of as bs "[c]" later] safe seen i ContentChunk
      have "\<not> starts_with (concat bs) c" by simp
      then show ?thesis by (simp add: mergePendingStreamChunk_def)
    qed
    then have "pending_content (handleStreamUpdate g ty c h) = concat (bs @ [c])"
      using st pc by (simp add: ContentChunk handleStreamUpdate_def scheduleStreamFlush_def streaming_state_def)
    then have "streaming_state g (as @ bs @ [c]) (handleStreamUpdate g ty c h)"
      by (intro streaming_stateI) (use st frame ct in \<open>simp_all add: streaming_state_def\<close>)
    then show ?thesis by (simp add: i ContentChunk seen)
  qed
next
  case (2 g' h' eager clk)
  with inp have i: "i = Callback g (FlushTimer eager clk)" by auto
  show ?thesis
    using st flush_streaming_state [OF st _ ne, of later eager clk] safe by (simp add: i)
next
  case (3 g')
  then have i: "i = Act Render" by simp
  from st show ?thesis by (simp add: i streaming_state_def) (simp add: render_def)
qed (use inp in auto)

lemma streaming_run:
  assumes "streaming_state g seen h" and "batch_safe (seen @ concat (map chunk_of is))"
    and "list_all (\<lambda>c. c \<noteq> []) seen" and "list_all (streaming_input g) is"
  shows "streaming_state g (seen @ concat (map chunk_of is)) (fold (feed handler_act (handler_deliver t)) is h)"
  using assms
proof (induction "is" arbitrary: seen h)
  case Nil
  then show ?case by simp
next
  case (Cons i "is")
  have "list_all (\<lambda>c. c \<noteq> []) (chunk_of i)" using Cons.prems(4)
    by (cases "(g, i)" rule: streaming_input.cases; cases i rule: chunk_of.cases) auto
  moreover have "streaming_state g (seen @ chunk_of i) (feed handler_act (handler_deliver t) i h)"
    using Cons.prems streaming_step [of g seen h i "concat (map chunk_of is)" t] by simp
  ultimately show ?case using Cons.IH [of "seen @ chunk_of i"] Cons.prems by simp
qed

lemma chunk_of_nonempty:
  "list_all (streaming_input g) is \<Longrightarrow> list_all (\<lambda>c. c \<noteq> []) (concat (map chunk_of is))"
proof (induction "is")
  case Nil
  then show ?case by simp
next
  case (Cons i "is")
  then show ?case
    by (cases "(g, i)" rule: streaming_input.cases; cases i rule: chunk_of.cases) auto
qed

lemma complete_view:
  assumes "streaming_state g seen h" and "batch_safe seen" and "list_all (\<lambda>c. c \<noteq> []) seen"
  shows "\<exists>m. getMessageContent m = concat seen \<and> sender m = Assistant \<and>
    view (handleStreamComplete eager clk clk' g h) = butlast (view h) @ [completeAssistantMessage clk' m]"
proof -
  let ?h = "flushStreamUpdates eager clk g h"
  from flush_streaming_state [OF assms(1), of "[]" eager clk] assms(2,3)
  have st: "streaming_state g seen ?h" and ct: "getMessageContent (last (view ?h)) = concat seen" by auto
  have b: "butlast (view ?h) = butlast (view h)"
    using assms(1)
    by (auto simp: flushStreamUpdates_def Let_def view_dispatch updateLast_eq streaming_state_def)
  have nf: "\<not> isAssistantMessageFinal (last (view ?h))"
    using st by (auto simp: streaming_state_def isAssistantMessagePending_def isAssistantMessageFinal_def)
  have "view (handleStreamComplete eager clk clk' g h) =
      butlast (view ?h) @ [completeAssistantMessage clk' (last (view ?h))]"
    using st nf assms(1)
    by (simp add: handleStreamComplete_def view_dispatch streaming_state_def updateLast_eq)
  with st ct b show ?thesis by (auto simp: streaming_state_def)
qed

lemma complete_content:
  "sender m = Assistant \<Longrightarrow>
   getMessageContent (completeAssistantMessage clk m) = getDisplayContent m (getMessageContent m) \<and>
   msg_status (completeAssistantMessage clk m) = Some MsgComplete"
  using finalize_content [of clk m None]
  by (simp add: completeAssistantMessage_def getDisplayContent_def getMessageContent_def)

section \<open>Properties\<close>

text \<open>C7: for a stream in which no run of chunks begins with the run before it, the answer does not
  depend on when the pending text is flushed, when React evaluates the updates or when it renders:
  after completion it is the visible part of all chunks put together.\<close>

theorem batched_stream_content:
  assumes "streaming_state g [] h" and "list_all (streaming_input g) inputs"
    and "batch_safe (concat (map chunk_of inputs))"
  shows "let h' = fold (feed handler_act (handler_deliver t))
      (inputs @ [Callback g (StreamComplete eager clk clk'), Act Render]) h;
      raw = concat (concat (map chunk_of inputs))
    in messages h' \<noteq> [] \<and> msg_status (last (messages h')) = Some MsgComplete \<and>
       getMessageContent (last (messages h')) =
         (if str_includes ''<think>'' raw then visibleContent (parseThinkTags raw) else raw)"
proof -
  let ?h = "fold (feed handler_act (handler_deliver t)) inputs h"
  have "streaming_state g (concat (map chunk_of inputs)) ?h"
    using streaming_run [OF assms(1) _ _ assms(2), of t] assms(3) by simp
  from complete_view [OF this assms(3) chunk_of_nonempty [OF assms(2)], of eager clk clk']
  obtain m where "getMessageContent m = concat (concat (map chunk_of inputs))" "sender m = Assistant"
    "view (handleStreamComplete eager clk clk' g ?h) = butlast (view ?h) @ [completeAssistantMessage clk' m]"
    by blast
  with complete_content [of m clk'] show ?thesis by (simp add: Let_def getDisplayContent_def)
qed

definition sample_handler :: handler where
  "sample_handler = initial_handler [loading_message]"

lemma sample_streaming: "streaming_state 0 [] sample_handler"
  using streaming_stateI [of sample_handler 0 "[]" "[]"]
  by (simp add: sample_handler_def initial_handler_def queue_ok_def view_def isAssistantMessagePending_def)
    (simp add: loading_message_def createLoadingAssistantMessage_def)

theorem batched_stream_content_witness:
  "getMessageContent (last (messages (fold (feed handler_act (handler_deliver id))
     [Callback 0 (StreamUpdate ContentChunk ''ab''), Callback 0 (FlushTimer False (\<lambda>_. 1)),
      Callback 0 (StreamUpdate ContentChunk ''cd''), Act Render, Callback 0 (StreamUpdate ContentChunk ''ef''),
      Callback 0 (StreamComplete True (\<lambda>_. 2) (\<lambda>_. 3)), Act Render] sample_handler))) = ''abcdef''"
proof -
  let ?is = "[Callback 0 (StreamUpdate ContentChunk ''ab''), Callback 0 (FlushTimer False (\<lambda>_. 1)),
      Callback 0 (StreamUpdate ContentChunk ''cd''), Act Render, Callback 0 (StreamUpdate ContentChunk ''ef'')]
    :: (handler_op, handler_event) input list"
  have cs: "concat (map chunk_of ?is) = [''ab'', ''cd'', ''ef'']" by simp
  have "batch_safe [''ab'', ''cd'', ''ef'']" by code_simp
  moreover have "\<not> str_includes ''<think>'' ''abcdef''" by code_simp
  ultimately show ?thesis
    using batched_stream_content [OF sample_streaming, of ?is id True "\<lambda>_. 2" "\<lambda>_. 3"] cs
    by (simp add: Let_def)
qed

text \<open>Otherwise the answer depends on the timing: when the text shown so far arrives again in two
  chunks that are flushed together, they are taken for a repetition and lost, although each chunk on
  its own would have been added.\<close>

lemma merged_chunks_lost:
  assumes "streaming_state g (as @ []) h" and "pending_content h = []"
    and "getMessageContent (last (view h)) = c1 @ c2" and "c1 \<noteq> []" and "c2 \<noteq> []" and "\<not> starts_with c1 c2"
  shows "let h' = flushStreamUpdates eager clk g
      (handleStreamUpdate g ContentChunk c2 (handleStreamUpdate g ContentChunk c1 h))
    in getMessageContent (last (view h')) = c1 @ c2"
proof -
  let ?h = "handleStreamUpdate g ContentChunk c2 (handleStreamUpdate g ContentChunk c1 h)"
  have st: "requestGeneration h = g" "pending_generation h = g" "queue_ok h" "view h \<noteq> []"
    "sender (last (view h)) = Assistant" "isAssistantMessagePending (last (view h))"
    using assms(1) by (auto simp: streaming_state_def)
  have h: "pending_content ?h = c1 @ c2" "view ?h = view h" "queue_ok ?h" "requestGeneration ?h = g"
    "pending_generation ?h = g"
    using st assms(2,4,6)
    by (auto simp: handleStreamUpdate_def scheduleStreamFlush_def mergePendingStreamChunk_def)
  then have "view (flushStreamUpdates eager clk g ?h) =
      butlast (view h) @ [flush_message clk (pending_reasoning ?h) (c1 @ c2) (last (view h))]"
    using st assms(4)
    by (simp add: flushStreamUpdates_def Let_def view_dispatch updateLast_eq)
  moreover have "getAppendableChunk (c1 @ c2) (c1 @ c2) = []"
    using assms(4) starts_with_append [of "c1 @ c2" "[]"] by (simp add: getAppendableChunk_def)
  ultimately show ?thesis
    using flush_message_content [OF pending_not_errored [OF st(6)], of clk "pending_reasoning ?h" "c1 @ c2"]
      assms(3) by (simp add: Let_def)
qed

definition after_two_chunks :: handler where
  "after_two_chunks = flushStreamUpdates True (\<lambda>_. 1) 0
     (handleStreamUpdate 0 ContentChunk ''b'' (handleStreamUpdate 0 ContentChunk ''a'' sample_handler))"

lemma after_two_chunks_state:
  "streaming_state 0 [''a'', ''b''] after_two_chunks \<and> pending_content after_two_chunks = [] \<and>
   getMessageContent (last (view after_two_chunks)) = ''ab''"
proof -
  let ?is = "[Callback 0 (StreamUpdate ContentChunk ''a''), Callback 0 (StreamUpdate ContentChunk ''b'')]
    :: (handler_op, handler_event) input list"
  have safe: "batch_safe [''a'', ''b'']" by code_simp
  have "streaming_state 0 [''a'', ''b'']
      (handleStreamUpdate 0 ContentChunk ''b'' (handleStreamUpdate 0 ContentChunk ''a'' sample_handler))"
    using streaming_run [OF sample_streaming, of ?is id] safe by simp
  from flush_streaming_state [OF this, of "[]" True "\<lambda>_. 1"] safe show ?thesis
    by (simp add: after_two_chunks_def)
qed

lemma merged_chunks_lost_witness:
  "getMessageContent (last (view (flushStreamUpdates True (\<lambda>_. 2) 0
     (handleStreamUpdate 0 ContentChunk ''b'' (handleStreamUpdate 0 ContentChunk ''a'' after_two_chunks))))) =
   ''ab''"
  using merged_chunks_lost [of 0 "[''a'', ''b'']" after_two_chunks "''a''" "''b''" True "\<lambda>_. 2"]
    after_two_chunks_state by (simp add: Let_def)

text \<open>Stopping the generation completes the answer, but keeps the text that is still pending only
  if React evaluates the flush at once: an updater that runs when the page renders finds the
  generation already moved on and drops the text.\<close>

lemma stop_may_drop_pending_text:
  assumes "streaming_state g seen h" and "queue h = []" and "pending_content h = c" and "c \<noteq> []"
    and "getMessageContent (last (messages h)) = [] \<or> \<not> starts_with (getMessageContent (last (messages h))) c"
  shows "let m = last (messages h);
      m' = last (messages (render (stopGeneration eager clk clk' h)));
      raw = (if eager \<and> \<not> unrendered h then getMessageContent m @ c else getMessageContent m)
    in msg_status m' = Some MsgComplete \<and> getMessageContent m' = getDisplayContent m raw"
proof -
  let ?m = "last (messages h)"
  have st: "requestGeneration h = g" "pending_generation h = g" "messages h \<noteq> []"
    "sender ?m = Assistant" "isAssistantMessagePending ?m"
    using assms(1,2) by (auto simp: streaming_state_def view_def)
  define f where "f = flush_message clk (pending_reasoning h) c"
  define now where "now = (eager \<and> \<not> unrendered h)"
  define h1 where "h1 = flushStreamUpdates eager clk g h"
  have h1: "messages h1 = (if now then butlast (messages h) @ [f ?m] else messages h)"
    "queue h1 = (if now then [] else [(clk, FlushUpdate g (pending_reasoning h) c)])"
    "queue_ok h1"
    using st assms(2-4)
    by (auto simp: h1_def now_def f_def flushStreamUpdates_def dispatch_def Let_def updateLast_eq queue_ok_def)
  have v: "messages (render (stopGeneration eager clk clk' h)) =
      run_updater (g + 1) (clk', StopUpdate (g + 1)) (fold (run_updater (g + 1)) (queue h1) (messages h1))"
    using st(1) h1(3)
    by (simp add: stopGeneration_def Let_def h1_def [symmetric] view_dispatch discardPendingStreamUpdates_def)
      (simp add: view_def)
  define m where "m = (if now then f ?m else ?m)"
  have m: "sender m = Assistant" "isAssistantMessagePending m"
    using st flush_message_pending [of ?m] by (simp_all add: m_def f_def)
  have "fold (run_updater (g + 1)) (queue h1) (messages h1) = butlast (messages h) @ [m]"
    using st(3) by (simp add: h1 m_def)
  with v m have last: "last (messages (render (stopGeneration eager clk clk' h))) =
      completeAssistantMessage clk' m" by (simp add: updateLast_eq)
  have "getMessageContent (f ?m) = getMessageContent ?m @ c"
    using flush_message_content [OF pending_not_errored [OF st(5)], of clk "pending_reasoning h" c] assms(5)
    by (auto simp: f_def getAppendableChunk_def)
  then have content: "getMessageContent m = (if now then getMessageContent ?m @ c else getMessageContent ?m)"
    by (simp add: m_def)
  have disp: "getDisplayContent m x = getDisplayContent ?m x" for x
    using m(1) st(4) by (simp add: getDisplayContent_def)
  show ?thesis unfolding Let_def last now_def [symmetric]
    using complete_content [OF m(1), of clk'] content disp by metis
qed

definition pending_handler :: handler where
  "pending_handler = handleStreamUpdate 0 ContentChunk ''text'' sample_handler"

lemma pending_handler_simps:
  "streaming_state 0 [''text''] pending_handler" "queue pending_handler = []"
  "pending_content pending_handler = ''text''" "messages pending_handler = [loading_message]"
  "unrendered pending_handler = False"
proof -
  have "batch_safe [''text'']" by code_simp
  then show "streaming_state 0 [''text''] pending_handler"
    using streaming_step [OF sample_streaming, of "Callback 0 (StreamUpdate ContentChunk ''text'')" "[]" id]
    by (simp add: pending_handler_def)
qed (simp_all add: pending_handler_def handleStreamUpdate_def scheduleStreamFlush_def sample_handler_def
    initial_handler_def mergePendingStreamChunk_def)

lemma stop_may_drop_pending_text_witness:
  "getMessageContent (last (messages (render (stopGeneration False (\<lambda>_. 1) (\<lambda>_. 2) pending_handler)))) = [] \<and>
   getMessageContent (last (messages (render (stopGeneration True (\<lambda>_. 1) (\<lambda>_. 2) pending_handler)))) = ''text''"
proof -
  have think: "\<not> str_includes ''<think>'' ''text''" "\<not> str_includes ''<think>'' []" by code_simp+
  note inst = stop_may_drop_pending_text [OF pending_handler_simps(1,2,3), of _ "\<lambda>_. 1" "\<lambda>_. 2"]
  show ?thesis
    using inst [of False] inst [of True] think
    by (simp add: pending_handler_simps Let_def getDisplayContent_def del: render_view)
qed

text \<open>C8: once a request was stopped or replaced, whatever its stream, its timer or its response still
  delivers can be left out of the run: it changes neither the conversation nor the state of the
  request that replaced it.\<close>

theorem superseded_chat_irrelevant:
  assumes "g < requestGeneration h"
  shows "fold (feed handler_act (handler_deliver t)) inputs h =
     fold (feed handler_act (handler_deliver t)) (filter (\<lambda>i. \<not> from_generation g i) inputs) h"
  using assms by (rule chats.superseded_irrelevant)

theorem superseded_chat_irrelevant_witness:
  "fold (feed handler_act (handler_deliver id)) [Callback 0 (StreamUpdate ContentChunk ''late'')]
     (unmount sample_handler) = unmount sample_handler"
proof -
  have "0 < requestGeneration (unmount sample_handler)" by (simp add: unmount_def)
  from superseded_chat_irrelevant [OF this, of id "[Callback 0 (StreamUpdate ContentChunk ''late'')]"]
  show ?thesis by simp
qed

end
