(* ===== verification/Chat_Storage.thy ===== *)
theory Chat_Storage
  imports Json Chat_Streaming "HOL-Library.Sublist"
begin

text \<open>
  The playground's local storage (\<^verbatim>\<open>features/playground/lib/storage/storage.ts\<close> and
  \<^verbatim>\<open>storage-schema.ts\<close>): schemas, envelopes, clean-up of what is loaded and the size limits.  Local
  storage is an association list from keys to texts; \<open>fits\<close> tells which texts the browser accepts
  (\<^verbatim>\<open>setItem\<close> throws otherwise).  The validator of the package zod is the parameter \<open>zparse\<close>: it maps a
  schema and a value to the parsed value, or to \<open>None\<close> when it throws.
\<close>

section \<open>Schemas\<close>

datatype schema =
    ZString
  | ZNumber
  | ZBoolean
  | ZEnum "string list"
  | ZArray nat schema \<comment> \<open>with its minimal length\<close>
  | ZObject "(string \<times> field) list"
and field = Required schema | Optional schema | NullableOptional schema

definition playgroundConfigSchema :: schema where
  "playgroundConfigSchema = ZObject
    [(''model'', Optional ZString), (''group'', Optional ZString), (''temperature'', Optional ZNumber),
     (''top_p'', Optional ZNumber), (''max_tokens'', Optional ZNumber),
     (''frequency_penalty'', Optional ZNumber), (''presence_penalty'', Optional ZNumber),
     (''seed'', NullableOptional ZNumber), (''stream'', Optional ZBoolean)]"

definition parameterEnabledSchema :: schema where
  "parameterEnabledSchema = ZObject
    [(''temperature'', Optional ZBoolean), (''top_p'', Optional ZBoolean), (''max_tokens'', Optional ZBoolean),
     (''frequency_penalty'', Optional ZBoolean), (''presence_penalty'', Optional ZBoolean),
     (''seed'', Optional ZBoolean)]"

definition messageRoleSchema :: schema where
  "messageRoleSchema = ZEnum [''user'', ''assistant'', ''system'']"

definition messageStatusSchema :: schema where
  "messageStatusSchema = ZEnum [''loading'', ''streaming'', ''complete'', ''error'']"

definition messageVersionSchema :: schema where
  "messageVersionSchema = ZObject [(''id'', Required ZString), (''content'', Required ZString)]"

definition sourceSchema :: schema where
  "sourceSchema = ZObject [(''href'', Required ZString), (''title'', Required ZString)]"

definition reasoningSchema :: schema where
  "reasoningSchema = ZObject
    [(''content'', Required ZString), (''duration'', Required ZNumber), (''startedAt'', Optional ZNumber),
     (''completedAt'', Optional ZNumber), (''durationMs'', Optional ZNumber)]"

definition messageSchema :: schema where
  "messageSchema = ZObject
    [(''key'', Required ZString), (''from'', Required messageRoleSchema),
     (''versions'', Required (ZArray 1 messageVersionSchema)), (''createdAt'', Optional ZNumber),
     (''startedAt'', Optional ZNumber), (''completedAt'', Optional ZNumber), (''durationMs'', Optional ZNumber),
     (''sources'', Optional (ZArray 0 sourceSchema)), (''reasoning'', Optional reasoningSchema),
     (''isReasoningStreaming'', Optional ZBoolean), (''isReasoningComplete'', Optional ZBoolean),
     (''isContentComplete'', Optional ZBoolean), (''status'', Optional messageStatusSchema),
     (''errorCode'', NullableOptional ZString)]"

definition messagesSchema :: schema where
  "messagesSchema = ZArray 0 messageSchema"

definition STORAGE_VERSION :: rat where "STORAGE_VERSION = 1"
definition MAX_STORED_MESSAGES :: nat where "MAX_STORED_MESSAGES = 100"
definition MAX_STORED_MESSAGES_BYTES :: nat where "MAX_STORED_MESSAGES_BYTES = 1024 * 1024"
definition MAX_LOADED_MESSAGES_CHARS :: nat where "MAX_LOADED_MESSAGES_CHARS = 120000"
definition MAX_LOADED_MESSAGE_CHARS :: nat where "MAX_LOADED_MESSAGE_CHARS = 40000"
definition MIN_PREFIX_COLLAPSE_LENGTH :: nat where "MIN_PREFIX_COLLAPSE_LENGTH = 2000"
definition MIN_REPEATED_SECTION_COUNT :: nat where "MIN_REPEATED_SECTION_COUNT = 3"

definition TRUNCATED_CONTENT_SUFFIX :: string where
  "TRUNCATED_CONTENT_SUFFIX = [CHR 10, CHR 10] @ ''[...]''"

type_synonym validator = "schema \<Rightarrow> js_value \<Rightarrow> js_value option"
type_synonym storage = "(string \<times> string) list"

section \<open>Messages as values\<close>

fun role_name :: "message_role \<Rightarrow> string" where
  "role_name User = ''user''" | "role_name Assistant = ''assistant''" | "role_name System = ''system''"

fun status_name :: "message_status \<Rightarrow> string" where
  "status_name Loading = ''loading''" | "status_name Streaming = ''streaming''"
| "status_name MsgComplete = ''complete''" | "status_name Errored = ''error''"

definition opt_field :: "string \<Rightarrow> ('a \<Rightarrow> js_value) \<Rightarrow> 'a option \<Rightarrow> (string \<times> js_value) list" where
  "opt_field k f x = (case x of None \<Rightarrow> [] | Some a \<Rightarrow> [(k, f a)])"

definition js_rat :: "rat \<Rightarrow> js_value" where
  "js_rat r = JNumber (Fin r)"

definition encode_version :: "message_version \<Rightarrow> js_value" where
  "encode_version v = JObject [(''id'', JString (version_id v)), (''content'', JString (content v))]"

definition encode_source :: "string \<times> string \<Rightarrow> js_value" where
  "encode_source s = JObject [(''href'', JString (fst s)), (''title'', JString (snd s))]"

definition encode_reasoning :: "reasoning_info \<Rightarrow> js_value" where
  "encode_reasoning r = JObject
     ([(''content'', JString (reasoning_content r)), (''duration'', js_rat (reasoning_duration r))] @
      opt_field ''startedAt'' js_rat (reasoning_startedAt r) @
      opt_field ''completedAt'' js_rat (reasoning_completedAt r) @
      opt_field ''durationMs'' js_rat (reasoning_durationMs r))"

definition encode_message :: "message \<Rightarrow> js_value" where
  "encode_message m = JObject
     ([(''key'', JString (key m)), (''from'', JString (role_name (sender m))),
       (''versions'', JArray (map encode_version (versions m)))] @
      opt_field ''createdAt'' js_rat (createdAt m) @ opt_field ''startedAt'' js_rat (startedAt m) @
      opt_field ''completedAt'' js_rat (completedAt m) @ opt_field ''durationMs'' js_rat (durationMs m) @
      opt_field ''sources'' (\<lambda>ss. JArray (map encode_source ss)) (sources m) @
      opt_field ''reasoning'' encode_reasoning (reasoning m) @
      opt_field ''isReasoningStreaming'' JBool (isReasoningStreaming m) @
      opt_field ''isReasoningComplete'' JBool (isReasoningComplete m) @
      opt_field ''isContentComplete'' JBool (isContentComplete m) @
      opt_field ''status'' (\<lambda>s. JString (status_name s)) (msg_status m) @
      opt_field ''errorCode'' (\<lambda>c. case c of None \<Rightarrow> JNull | Some s \<Rightarrow> JString s) (errorCode m))"

text \<open>The cast \<^verbatim>\<open>as Message[]\<close>: the fields of a validated value.\<close>

definition get_opt :: "(js_value \<Rightarrow> 'a) \<Rightarrow> js_value \<Rightarrow> string \<Rightarrow> 'a option" where
  "get_opt f v k = (let x = js_get v k in if x = JUndefined then None else Some (f x))"

definition array_of :: "js_value \<Rightarrow> js_value list" where
  "array_of v = (case v of JArray xs \<Rightarrow> xs | _ \<Rightarrow> [])"

definition decode_role :: "string \<Rightarrow> message_role" where
  "decode_role s = (if s = ''user'' then User else if s = ''assistant'' then Assistant else System)"

definition decode_status :: "string \<Rightarrow> message_status" where
  "decode_status s = (if s = ''loading'' then Loading else if s = ''streaming'' then Streaming
     else if s = ''complete'' then MsgComplete else Errored)"

definition decode_version :: "js_value \<Rightarrow> message_version" where
  "decode_version v = \<lparr>version_id = string_of (js_get v ''id''), content = string_of (js_get v ''content'')\<rparr>"

definition decode_source :: "js_value \<Rightarrow> string \<times> string" where
  "decode_source v = (string_of (js_get v ''href''), string_of (js_get v ''title''))"

definition decode_reasoning :: "js_value \<Rightarrow> reasoning_info" where
  "decode_reasoning v =
     \<lparr>reasoning_content = string_of (js_get v ''content''), reasoning_duration = rat_of (js_get v ''duration''),
      reasoning_startedAt = get_opt rat_of v ''startedAt'',
      reasoning_completedAt = get_opt rat_of v ''completedAt'',
      reasoning_durationMs = get_opt rat_of v ''durationMs''\<rparr>"

definition decode_message :: "js_value \<Rightarrow> message" where
  "decode_message v =
     \<lparr>key = string_of (js_get v ''key''), sender = decode_role (string_of (js_get v ''from'')),
      versions = map decode_version (array_of (js_get v ''versions'')),
      createdAt = get_opt rat_of v ''createdAt'', startedAt = get_opt rat_of v ''startedAt'',
      completedAt = get_opt rat_of v ''completedAt'', durationMs = get_opt rat_of v ''durationMs'',
      sources = get_opt (\<lambda>x. map decode_source (array_of x)) v ''sources'',
      reasoning = get_opt decode_reasoning v ''reasoning'',
      isReasoningStreaming = get_opt bool_of v ''isReasoningStreaming'',
      isReasoningComplete = get_opt bool_of v ''isReasoningComplete'',
      isContentComplete = get_opt bool_of v ''isContentComplete'',
      msg_status = get_opt (\<lambda>x. decode_status (string_of x)) v ''status'',
      errorCode = get_opt (\<lambda>x. case x of JString s \<Rightarrow> Some s | _ \<Rightarrow> None) v ''errorCode''\<rparr>"

section \<open>Reading and writing\<close>

definition CONFIG_KEY :: string where "CONFIG_KEY = ''playground_config''"
definition MESSAGES_KEY :: string where "MESSAGES_KEY = ''playground_messages''"
definition PARAMETER_ENABLED_KEY :: string where "PARAMETER_ENABLED_KEY = ''playground_parameter_enabled''"

text \<open>\<open>Inl ()\<close> is a thrown \<^verbatim>\<open>SyntaxError\<close>, \<open>Inr None\<close> is \<^verbatim>\<open>null\<close>.\<close>

definition readStoredValue :: "string \<Rightarrow> storage \<Rightarrow> unit + js_value option" where
  "readStoredValue k st =
     (case map_of st k of
        None \<Rightarrow> Inr None
      | Some saved \<Rightarrow>
          if saved = [] then Inr None
          else (case json_parse saved of None \<Rightarrow> Inl () | Some v \<Rightarrow> Inr (Some v)))"

definition readStoredMessagesValue :: "storage \<Rightarrow> (unit + js_value option) \<times> storage" where
  "readStoredMessagesValue st =
     (case map_of st MESSAGES_KEY of
        None \<Rightarrow> (Inr None, st)
      | Some saved \<Rightarrow>
          if saved = [] then (Inr None, st)
          else if length saved > MAX_STORED_MESSAGES_BYTES then (Inr None, AList.delete MESSAGES_KEY st)
          else (case json_parse saved of None \<Rightarrow> (Inl (), st) | Some v \<Rightarrow> (Inr (Some v), st)))"

definition unwrapStoredValue :: "js_value \<Rightarrow> js_value" where
  "unwrapStoredValue v =
     (case v of
        JObject fs \<Rightarrow>
          if ''version'' \<in> fst ` set fs \<and> ''data'' \<in> fst ` set fs then js_get v ''data'' else v
      | _ \<Rightarrow> v)"

definition envelope :: "js_value \<Rightarrow> js_value" where
  "envelope data = JObject [(''version'', js_rat STORAGE_VERSION), (''data'', data)]"

definition writeStoredValue :: "(string \<Rightarrow> bool) \<Rightarrow> string \<Rightarrow> js_value \<Rightarrow> storage \<Rightarrow> storage" where
  "writeStoredValue fits k data st =
     (let txt = json_text (envelope data) in if fits txt then AList.update k txt st else st)"

section \<open>Clean-up of loaded messages\<close>

definition trimMessages :: "message list \<Rightarrow> message list" where
  "trimMessages ms =
     (if length ms \<le> MAX_STORED_MESSAGES then ms else drop (length ms - MAX_STORED_MESSAGES) ms)"

definition getMessageSize :: "message \<Rightarrow> nat" where
  "getMessageSize m =
     (let versionsSize = fold (\<lambda>v total. total + length (content v)) (versions m) 0;
          reasoningSize = (case reasoning m of Some r \<Rightarrow> length (reasoning_content r) | None \<Rightarrow> 0)
      in versionsSize + reasoningSize)"

definition truncateText :: "string \<Rightarrow> nat \<Rightarrow> string" where
  "truncateText s maxLength =
     (if length s \<le> maxLength then s
      else if maxLength \<le> length TRUNCATED_CONTENT_SUFFIX then take maxLength s
      else take (maxLength - length TRUNCATED_CONTENT_SUFFIX) s @ TRUNCATED_CONTENT_SUFFIX)"

text \<open>
  The pattern \<^verbatim>\<open>^#{2,6}\s+\d+\.\s+.+$\<close> with the flags \<^verbatim>\<open>g\<close> and \<^verbatim>\<open>m\<close>.  Only the number of hashes is
  ambiguous for the first part, and it must be all of them; white space before the heading's text is
  taken greedily, giving back just enough for one character when nothing else is left.
\<close>

definition line_end :: "char \<Rightarrow> bool" where
  "line_end c \<longleftrightarrow> c = CHR 10 \<or> c = CHR 13"

text \<open>The length matched by \<^verbatim>\<open>\s+.+$\<close> at the start of \<open>s\<close>.\<close>

definition match_heading_text :: "string \<Rightarrow> nat option" where
  "match_heading_text s =
     (let ws = takeWhile js_space s; rest = dropWhile js_space s in
      if ws = [] then None
      else if rest \<noteq> [] then Some (length ws + length (takeWhile (\<lambda>c. \<not> line_end c) rest))
      else (case filter (\<lambda>p. \<not> line_end (ws ! p)) [1..<length ws] of
              [] \<Rightarrow> None
            | ps \<Rightarrow> Some (last ps + length (takeWhile (\<lambda>c. \<not> line_end c) (drop (last ps) ws)))))"

definition match_heading :: "string \<Rightarrow> nat option" where
  "match_heading s =
     (let hs = takeWhile (\<lambda>c. c = CHR ''#'') s; s1 = drop (length hs) s;
          ws = takeWhile js_space s1; s2 = drop (length ws) s1;
          ds = takeWhile is_digit s2; s3 = drop (length ds) s2
      in if length hs < 2 \<or> 6 < length hs \<or> ws = [] \<or> ds = [] then None
         else (case s3 of
                 c # s4 \<Rightarrow> if c = CHR ''.'' then map_option (\<lambda>n. length hs + length ws + length ds + 1 + n)
                                               (match_heading_text s4) else None
               | [] \<Rightarrow> None))"

text \<open>\<^verbatim>\<open>text.matchAll\<close>: \<open>bol\<close> tells whether the position is the beginning of a line.\<close>

function heading_matches :: "nat \<Rightarrow> bool \<Rightarrow> string \<Rightarrow> (string \<times> nat) list" where
  "heading_matches pos bol [] = []"
| "heading_matches pos bol (c # s) =
     (case (if bol then match_heading (c # s) else None) of
        Some n \<Rightarrow>
          if n = 0 then []
          else (take n (c # s), pos) # heading_matches (pos + n) (line_end (last (take n (c # s)))) (drop n (c # s))
      | None \<Rightarrow> heading_matches (pos + 1) (line_end c) s)"
  by pat_completeness auto

termination
  by (relation "measure (\<lambda>(_, _, s). length s)") auto

declare heading_matches.simps [simp del]

definition getSectionOccurrences :: "string \<Rightarrow> (string \<times> nat) list" where
  "getSectionOccurrences s = heading_matches 0 True s"

definition getHeadingCounts :: "(string \<times> nat) list \<Rightarrow> (string \<times> nat) list" where
  "getHeadingCounts occurrences =
     fold (\<lambda>(heading, _) counts. AList.update heading (nullish (map_of counts heading) 0 + 1) counts)
       occurrences []"

definition findLastRepeatedSectionRunStart :: "string \<Rightarrow> nat option" where
  "findLastRepeatedSectionRunStart s =
     (let occurrences = getSectionOccurrences s;
          headingCounts = getHeadingCounts occurrences;
          found = fold (\<lambda>(heading, i) (seen, idxs).
             if nullish (map_of headingCounts heading) 0 < MIN_REPEATED_SECTION_COUNT \<or> heading \<in> set seen
             then (seen, idxs) else (heading # seen, idxs @ [i])) (rev occurrences) ([], [])
      in case snd found of [] \<Rightarrow> None | i # is \<Rightarrow> Some (fold min is i))"

definition collapseRepeatedSectionSnapshots :: "string \<Rightarrow> string" where
  "collapseRepeatedSectionSnapshots s =
     (if length s < MIN_PREFIX_COLLAPSE_LENGTH then s
      else case findLastRepeatedSectionRunStart s of None \<Rightarrow> s | Some i \<Rightarrow> drop i s)"

definition normalizeStoredMessageForLoad :: "clock \<Rightarrow> message \<Rightarrow> message" where
  "normalizeStoredMessageForLoad clk m =
     (let versions' = map (\<lambda>v. v\<lparr>content :=
              truncateText (collapseRepeatedSectionSnapshots (content v)) MAX_LOADED_MESSAGE_CHARS\<rparr>) (versions m);
          reasoning' = map_option (\<lambda>r. r\<lparr>reasoning_content :=
              truncateText (reasoning_content r) MAX_LOADED_MESSAGE_CHARS\<rparr>) (reasoning m);
          changed = (versions' \<noteq> versions m \<or> reasoning' \<noteq> reasoning m);
          normalized = (if changed then m\<lparr>versions := versions', reasoning := reasoning'\<rparr> else m)
      in if \<not> isAssistantMessagePending normalized then normalized
         else if \<not> hasMessageContent normalized \<and>
                 (case reasoning normalized of Some r \<Rightarrow> trim (reasoning_content r) = [] | None \<Rightarrow> True)
         then normalized
         else let completed = nullish (completedAt normalized)
                    (nullish (Option.bind (reasoning normalized) reasoning_completedAt)
                       (nullish (startedAt normalized) (nullish (createdAt normalized) (clk 0))))
              in completeAssistantTiming completed
                   ((finalizeMessage (\<lambda>n. clk (n + 1)) normalized None)
                      \<lparr>msg_status := Some MsgComplete, isReasoningStreaming := Some False\<rparr>))"

text \<open>The loop from the end of \<^verbatim>\<open>trimMessagesByContentSize\<close>, on the reversed list.\<close>

fun take_by_size :: "nat \<Rightarrow> message list \<Rightarrow> message list \<Rightarrow> message list" where
  "take_by_size totalSize result [] = result"
| "take_by_size totalSize result (m # ms) =
     (if result \<noteq> [] \<and> totalSize + getMessageSize m > MAX_LOADED_MESSAGES_CHARS then result
      else take_by_size (totalSize + getMessageSize m) (result @ [m]) ms)"

definition trimMessagesByContentSize :: "message list \<Rightarrow> message list" where
  "trimMessagesByContentSize ms = rev (take_by_size 0 [] (rev ms))"

section \<open>Loading and saving\<close>

definition saveMessages :: "validator \<Rightarrow> (string \<Rightarrow> bool) \<Rightarrow> message list \<Rightarrow> storage \<Rightarrow> storage" where
  "saveMessages zparse fits ms st =
     (case zparse messagesSchema (JArray (map encode_message (trimMessages ms))) of
        None \<Rightarrow> st
      | Some parsed \<Rightarrow> writeStoredValue fits MESSAGES_KEY parsed st)"

text \<open>
  The array returned by \<^verbatim>\<open>trimMessagesByContentSize\<close> is always a new one, so that
  \<^verbatim>\<open>sizeTrimmed !== trimmed\<close> always holds and the messages are saved at every load.
\<close>

definition clean_messages :: "(string \<Rightarrow> string) \<Rightarrow> (nat \<Rightarrow> clock) \<Rightarrow> clock \<Rightarrow> message list \<Rightarrow> message list" where
  "clean_messages t clks clk parsed =
     (let normalized = map (\<lambda>(i, m). normalizeStoredMessageForLoad (clks i) m) (enumerate 0 parsed);
          trimmed = trimMessages normalized;
          sizeTrimmed = trimMessagesByContentSize trimmed
      in sanitizeMessagesOnLoad t clk sizeTrimmed)"

definition loadMessages ::
  "validator \<Rightarrow> (string \<Rightarrow> bool) \<Rightarrow> (string \<Rightarrow> string) \<Rightarrow> (nat \<Rightarrow> clock) \<Rightarrow> clock \<Rightarrow> storage \<Rightarrow>
     message list option \<times> storage" where
  "loadMessages zparse fits t clks clk st =
     (case readStoredMessagesValue st of
        (Inl _, st') \<Rightarrow> (None, st')
      | (Inr None, st') \<Rightarrow> (None, st')
      | (Inr (Some saved), st') \<Rightarrow>
          if \<not> truthy saved then (None, st')
          else (case zparse messagesSchema (unwrapStoredValue saved) of
                  None \<Rightarrow> (None, st')
                | Some parsed \<Rightarrow>
                    let sanitized = clean_messages t clks clk (map decode_message (array_of parsed))
                    in (Some sanitized, saveMessages zparse fits sanitized st')))"

text \<open>The other two entries; \<open>[]\<close> stands for the empty object returned on failure.\<close>

definition load_object :: "validator \<Rightarrow> string \<Rightarrow> schema \<Rightarrow> storage \<Rightarrow> js_value" where
  "load_object zparse k sch st =
     (case readStoredValue k st of
        Inr (Some saved) \<Rightarrow>
          if \<not> truthy saved then JObject []
          else (case zparse sch (unwrapStoredValue saved) of Some v \<Rightarrow> v | None \<Rightarrow> JObject [])
      | _ \<Rightarrow> JObject [])"

definition loadConfig :: "validator \<Rightarrow> storage \<Rightarrow> js_value" where
  "loadConfig zparse st = load_object zparse CONFIG_KEY playgroundConfigSchema st"

definition loadParameterEnabled :: "validator \<Rightarrow> storage \<Rightarrow> js_value" where
  "loadParameterEnabled zparse st = load_object zparse PARAMETER_ENABLED_KEY parameterEnabledSchema st"

definition saveConfig :: "validator \<Rightarrow> (string \<Rightarrow> bool) \<Rightarrow> js_value \<Rightarrow> storage \<Rightarrow> storage" where
  "saveConfig zparse fits config st =
     (case zparse playgroundConfigSchema config of
        None \<Rightarrow> st | Some parsed \<Rightarrow> writeStoredValue fits CONFIG_KEY parsed st)"

definition saveParameterEnabled :: "validator \<Rightarrow> (string \<Rightarrow> bool) \<Rightarrow> js_value \<Rightarrow> storage \<Rightarrow> storage" where
  "saveParameterEnabled zparse fits enabled st =
     (case zparse parameterEnabledSchema enabled of
        None \<Rightarrow> st | Some parsed \<Rightarrow> writeStoredValue fits PARAMETER_ENABLED_KEY parsed st)"

definition clearPlaygroundData :: "storage \<Rightarrow> storage" where
  "clearPlaygroundData st =
     AList.delete MESSAGES_KEY (AList.delete PARAMETER_ENABLED_KEY (AList.delete CONFIG_KEY st))"

section \<open>What the validator accepts\<close>

text \<open>A value of the shape a schema describes, without further keys.\<close>

fun conforms :: "schema \<Rightarrow> js_value \<Rightarrow> bool"
  and field_ok :: "field \<Rightarrow> js_value \<Rightarrow> bool"
  and fields_ok :: "(string \<times> field) list \<Rightarrow> (string \<times> js_value) list \<Rightarrow> bool" where
  "conforms ZString v = is_string v"
| "conforms ZNumber v = is_finite v"
| "conforms ZBoolean v = is_boolean v"
| "conforms (ZEnum es) v = (case v of JString s \<Rightarrow> s \<in> set es | _ \<Rightarrow> False)"
| "conforms (ZArray n s) v = (case v of JArray xs \<Rightarrow> n \<le> length xs \<and> list_all (conforms s) xs | _ \<Rightarrow> False)"
| "conforms (ZObject fs) v =
     (case v of
        JObject kvs \<Rightarrow> distinct (map fst kvs) \<and> set (map fst kvs) \<subseteq> set (map fst fs) \<and> fields_ok fs kvs
      | _ \<Rightarrow> False)"
| "field_ok (Required s) v = conforms s v"
| "field_ok (Optional s) v = (v = JUndefined \<or> conforms s v)"
| "field_ok (NullableOptional s) v = (v = JUndefined \<or> v = JNull \<or> conforms s v)"
| "fields_ok [] kvs = True"
| "fields_ok (f # fs) kvs = (field_ok (snd f) (js_get (JObject kvs) (fst f)) \<and> fields_ok fs kvs)"

text \<open>The documented behaviour of the validator that the program relies on: a conforming value is
  returned as it is.\<close>

definition accepts_conforming :: "validator \<Rightarrow> bool" where
  "accepts_conforming zparse \<longleftrightarrow> (\<forall>s v. conforms s v \<longrightarrow> zparse s v = Some v)"

section \<open>Lemmas\<close>

lemma map_of_opt_field [simp]:
  "map_of (opt_field k f x) k' = (if k' = k then map_option f x else None)"
  by (auto simp: opt_field_def split: option.splits)

lemma keys_opt_field [simp]:
  "map fst (opt_field k f x) = (if x = None then [] else [k])"
  "fst ` set (opt_field k f x) = (if x = None then {} else {k})"
  by (auto simp: opt_field_def split: option.splits)

lemma list_all_opt_field [simp]:
  "list_all P (opt_field k f x) = (case x of None \<Rightarrow> True | Some a \<Rightarrow> P (k, f a))"
  by (auto simp: opt_field_def split: option.splits)

lemma decode_version_encode [simp]: "decode_version (encode_version v) = v"
  by (simp add: decode_version_def encode_version_def)

lemma decode_source_encode [simp]: "decode_source (encode_source v) = v"
  by (simp add: decode_source_def encode_source_def)

lemma js_rat_simps [simp]: "rat_of (js_rat r) = r" "js_rat r \<noteq> JUndefined"
  by (simp_all add: js_rat_def)

lemma decode_reasoning_encode [simp]: "decode_reasoning (encode_reasoning r) = r"
  by (cases r)
    (simp add: decode_reasoning_def encode_reasoning_def get_opt_def Let_def map_add_def split: option.splits)

lemma encode_not_undefined [simp]:
  "encode_reasoning r \<noteq> JUndefined" "encode_message m \<noteq> JUndefined" "encode_version v \<noteq> JUndefined"
  by (simp_all add: encode_reasoning_def encode_message_def encode_version_def)

lemma decode_role_name [simp]: "decode_role (role_name r) = r"
  by (cases r) (simp_all add: decode_role_def)

lemma decode_status_name [simp]: "decode_status (status_name s) = s"
  by (cases s) (simp_all add: decode_status_def)

lemma map_decode [simp]:
  "map decode_version (map encode_version vs) = vs" "map decode_source (map encode_source ss) = ss"
  "map (decode_version \<circ> encode_version) vs = vs" "map (decode_source \<circ> encode_source) ss = ss"
  by (simp_all add: comp_def)

text \<open>The fields of an encoded message, read back one by one.\<close>

definition opt_value :: "('a \<Rightarrow> js_value) \<Rightarrow> 'a option \<Rightarrow> js_value" where
  "opt_value f x = (case x of None \<Rightarrow> JUndefined | Some a \<Rightarrow> f a)"

lemma get_opt_field:
  "js_get v k = opt_value f x \<Longrightarrow> (\<And>a. f a \<noteq> JUndefined) \<Longrightarrow> (\<And>a. d (f a) = a) \<Longrightarrow> get_opt d v k = x"
  by (cases x) (auto simp: get_opt_def opt_value_def)

lemma get_encoded_field:
  "js_get (encode_message m) ''key'' = JString (key m)"
  "js_get (encode_message m) ''from'' = JString (role_name (sender m))"
  "js_get (encode_message m) ''versions'' = JArray (map encode_version (versions m))"
  "js_get (encode_message m) ''createdAt'' = opt_value js_rat (createdAt m)"
  "js_get (encode_message m) ''startedAt'' = opt_value js_rat (startedAt m)"
  "js_get (encode_message m) ''completedAt'' = opt_value js_rat (completedAt m)"
  "js_get (encode_message m) ''durationMs'' = opt_value js_rat (durationMs m)"
  "js_get (encode_message m) ''sources'' = opt_value (\<lambda>ss. JArray (map encode_source ss)) (sources m)"
  "js_get (encode_message m) ''reasoning'' = opt_value encode_reasoning (reasoning m)"
  "js_get (encode_message m) ''isReasoningStreaming'' = opt_value JBool (isReasoningStreaming m)"
  "js_get (encode_message m) ''isReasoningComplete'' = opt_value JBool (isReasoningComplete m)"
  "js_get (encode_message m) ''isContentComplete'' = opt_value JBool (isContentComplete m)"
  "js_get (encode_message m) ''status'' = opt_value (\<lambda>s. JString (status_name s)) (msg_status m)"
  "js_get (encode_message m) ''errorCode'' =
     opt_value (\<lambda>c. case c of None \<Rightarrow> JNull | Some s \<Rightarrow> JString s) (errorCode m)"
  by (simp_all add: encode_message_def map_add_def opt_value_def split: option.split)

lemma decode_encode_message: "decode_message (encode_message m) = m"
proof -
  note gets = get_opt_field [OF get_encoded_field(4)] get_opt_field [OF get_encoded_field(5)]
    get_opt_field [OF get_encoded_field(6)] get_opt_field [OF get_encoded_field(7)]
    get_opt_field [OF get_encoded_field(8)] get_opt_field [OF get_encoded_field(9)]
    get_opt_field [OF get_encoded_field(10)] get_opt_field [OF get_encoded_field(11)]
    get_opt_field [OF get_encoded_field(12)] get_opt_field [OF get_encoded_field(13)]
    get_opt_field [OF get_encoded_field(14)]
  show ?thesis
    unfolding decode_message_def
    by (simp add: gets get_encoded_field array_of_def split: option.split)
qed

lemma conforms_version: "conforms messageVersionSchema (encode_version v)"
  by (simp add: messageVersionSchema_def encode_version_def)

lemma conforms_source: "conforms sourceSchema (encode_source v)"
  by (simp add: sourceSchema_def encode_source_def)

lemma conforms_js_rat [simp]: "is_finite (js_rat r)"
  by (simp add: js_rat_def)

lemma subseq_keys: "subseq xs ys \<Longrightarrow> set xs \<subseteq> set ys \<and> (distinct ys \<longrightarrow> distinct xs)"
  by (induction rule: list_emb.induct) auto

lemma keys_opt: "subseq (map fst ys) zs \<Longrightarrow> subseq (map fst (opt_field k f x @ ys)) (k # zs)"
  by (cases x) (auto simp: opt_field_def)

lemma keys_opt_end: "subseq (map fst (opt_field k f x)) [k]"
  by (cases x) (auto simp: opt_field_def)

lemmas keys_intros = subseq_Cons2 keys_opt keys_opt_end

lemma conforms_object:
  assumes "subseq (map fst kvs) (map fst fs)" and "distinct (map fst fs)" and "fields_ok fs kvs"
  shows "conforms (ZObject fs) (JObject kvs)"
  using subseq_keys [OF assms(1)] assms(2,3) by simp

lemma conforms_reasoning: "conforms reasoningSchema (encode_reasoning r)"
  unfolding reasoningSchema_def encode_reasoning_def
proof (rule conforms_object)
  show "subseq (map fst ([(''content'', JString (reasoning_content r)), (''duration'', js_rat (reasoning_duration r))] @
      opt_field ''startedAt'' js_rat (reasoning_startedAt r) @
      opt_field ''completedAt'' js_rat (reasoning_completedAt r) @
      opt_field ''durationMs'' js_rat (reasoning_durationMs r)))
     (map fst [(''content'', Required ZString), (''duration'', Required ZNumber), (''startedAt'', Optional ZNumber),
     (''completedAt'', Optional ZNumber), (''durationMs'', Optional ZNumber)])"
    unfolding append_Cons append_Nil list.map fst_conv by (intro keys_intros)
qed (simp_all add: map_add_def split: option.splits)

lemma conforms_role: "conforms messageRoleSchema (JString (role_name r))"
  by (cases r) (simp_all add: messageRoleSchema_def)

lemma conforms_status: "conforms messageStatusSchema (JString (status_name r))"
  by (cases r) (simp_all add: messageStatusSchema_def)

lemma field_ok_opt:
  "(\<And>a. conforms s (f a)) \<Longrightarrow> field_ok (Optional s) (opt_value f x)"
  "field_ok (NullableOptional ZString) (opt_value (\<lambda>c. case c of None \<Rightarrow> JNull | Some s \<Rightarrow> JString s) y)"
  by (auto simp: opt_value_def split: option.splits)

lemma conforms_message:
  assumes "versions m \<noteq> []"
  shows "conforms messageSchema (encode_message m)"
  unfolding messageSchema_def encode_message_def
proof (rule conforms_object)
  show "subseq (map fst ([(''key'', JString (key m)), (''from'', JString (role_name (sender m))),
       (''versions'', JArray (map encode_version (versions m)))] @
      opt_field ''createdAt'' js_rat (createdAt m) @ opt_field ''startedAt'' js_rat (startedAt m) @
      opt_field ''completedAt'' js_rat (completedAt m) @ opt_field ''durationMs'' js_rat (durationMs m) @
      opt_field ''sources'' (\<lambda>ss. JArray (map encode_source ss)) (sources m) @
      opt_field ''reasoning'' encode_reasoning (reasoning m) @
      opt_field ''isReasoningStreaming'' JBool (isReasoningStreaming m) @
      opt_field ''isReasoningComplete'' JBool (isReasoningComplete m) @
      opt_field ''isContentComplete'' JBool (isContentComplete m) @
      opt_field ''status'' (\<lambda>s. JString (status_name s)) (msg_status m) @
      opt_field ''errorCode'' (\<lambda>c. case c of None \<Rightarrow> JNull | Some s \<Rightarrow> JString s) (errorCode m)))
    (map fst [(''key'', Required ZString), (''from'', Required messageRoleSchema),
     (''versions'', Required (ZArray 1 messageVersionSchema)), (''createdAt'', Optional ZNumber),
     (''startedAt'', Optional ZNumber), (''completedAt'', Optional ZNumber), (''durationMs'', Optional ZNumber),
     (''sources'', Optional (ZArray 0 sourceSchema)), (''reasoning'', Optional reasoningSchema),
     (''isReasoningStreaming'', Optional ZBoolean), (''isReasoningComplete'', Optional ZBoolean),
     (''isContentComplete'', Optional ZBoolean), (''status'', Optional messageStatusSchema),
     (''errorCode'', NullableOptional ZString)])"
    unfolding append_Cons append_Nil list.map fst_conv by (intro keys_intros)
  show "distinct (map fst [(''key'', Required ZString), (''from'', Required messageRoleSchema),
     (''versions'', Required (ZArray 1 messageVersionSchema)), (''createdAt'', Optional ZNumber),
     (''startedAt'', Optional ZNumber), (''completedAt'', Optional ZNumber), (''durationMs'', Optional ZNumber),
     (''sources'', Optional (ZArray 0 sourceSchema)), (''reasoning'', Optional reasoningSchema),
     (''isReasoningStreaming'', Optional ZBoolean), (''isReasoningComplete'', Optional ZBoolean),
     (''isContentComplete'', Optional ZBoolean), (''status'', Optional messageStatusSchema),
     (''errorCode'', NullableOptional ZString)])" by simp
qed (use assms in \<open>simp only: fields_ok.simps fst_conv snd_conv get_encoded_field [unfolded encode_message_def]\<close>,
     intro conjI TrueI field_ok_opt; use assms in \<open>simp add: conforms_role conforms_status conforms_reasoning
      conforms_version conforms_source list_all_iff Suc_le_eq\<close>)

text \<open>Messages whose numbers JSON can write.\<close>

definition opt_decimal :: "rat option \<Rightarrow> bool" where
  "opt_decimal x = (case x of None \<Rightarrow> True | Some r \<Rightarrow> decimal r)"

definition decimal_message :: "message \<Rightarrow> bool" where
  "decimal_message m \<longleftrightarrow>
     opt_decimal (createdAt m) \<and> opt_decimal (startedAt m) \<and> opt_decimal (completedAt m) \<and>
     opt_decimal (durationMs m) \<and>
     (case reasoning m of
        None \<Rightarrow> True
      | Some r \<Rightarrow> decimal (reasoning_duration r) \<and> opt_decimal (reasoning_startedAt r) \<and>
          opt_decimal (reasoning_completedAt r) \<and> opt_decimal (reasoning_durationMs r))"

lemma safe_js_rat [simp]: "json_safe (js_rat r) = decimal r"
  by (simp add: js_rat_def)

lemma conforms_distinct: "conforms (ZObject fs) (JObject kvs) \<Longrightarrow> distinct (map fst kvs)"
  by simp

lemma safe_version [simp]: "json_safe (encode_version v)"
  by (simp add: encode_version_def)

lemma safe_source [simp]: "json_safe (encode_source v)"
  by (simp add: encode_source_def)

lemma safe_reasoning:
  assumes "decimal (reasoning_duration r)" and "opt_decimal (reasoning_startedAt r)"
    and "opt_decimal (reasoning_completedAt r)" and "opt_decimal (reasoning_durationMs r)"
  shows "json_safe (encode_reasoning r)"
proof -
  have "distinct (map fst (case encode_reasoning r of JObject kvs \<Rightarrow> kvs | _ \<Rightarrow> []))"
    using conforms_reasoning [of r] unfolding reasoningSchema_def encode_reasoning_def
    by (simp only: js_value.case conforms.simps)
  with assms show ?thesis
    by (simp add: encode_reasoning_def opt_decimal_def split: option.splits)
qed

lemma safe_arrays [simp]:
  "list_all json_safe (map encode_version vs)" "list_all json_safe (map encode_source ss)"
  by (simp_all add: list_all_iff)

lemma case_option_True [simp]: "case x of None \<Rightarrow> True | Some a \<Rightarrow> True"
  by (cases x) auto

lemma safe_error_code [simp]: "json_safe (case c of None \<Rightarrow> JNull | Some s \<Rightarrow> JString s)"
  by (cases c) auto

lemma safe_message:
  assumes "versions m \<noteq> []" and "decimal_message m"
  shows "json_safe (encode_message m)"
proof -
  have "distinct (map fst (case encode_message m of JObject kvs \<Rightarrow> kvs | _ \<Rightarrow> []))"
    using conforms_message [OF assms(1)] unfolding messageSchema_def encode_message_def
    by (simp only: js_value.case conforms.simps)
  moreover have "case reasoning m of None \<Rightarrow> True | Some r \<Rightarrow> json_safe (encode_reasoning r)"
    using assms(2) by (cases "reasoning m") (auto simp: decimal_message_def safe_reasoning)
  then have "list_all (\<lambda>(k, v). json_safe v) (case encode_message m of JObject kvs \<Rightarrow> kvs | _ \<Rightarrow> [])"
    using assms(2) by (simp add: encode_message_def decimal_message_def opt_decimal_def cong: option.case_cong)
  ultimately show ?thesis by (simp add: encode_message_def)
qed

lemma safe_envelope:
  assumes "list_all (\<lambda>m. versions m \<noteq> [] \<and> decimal_message m) ms"
  shows "json_safe (envelope (JArray (map encode_message ms)))"
proof -
  have "decimal STORAGE_VERSION" using decimal_int [of 1] by (simp add: STORAGE_VERSION_def)
  with assms show ?thesis by (auto simp: envelope_def list_all_iff safe_message)
qed

section \<open>Clean messages stay as they are\<close>

definition total_size :: "message list \<Rightarrow> nat" where
  "total_size ms = sum_list (map getMessageSize ms)"

text \<open>A finished message within the limits.\<close>

definition settled_message :: "message \<Rightarrow> bool" where
  "settled_message m \<longleftrightarrow> versions m \<noteq> [] \<and> decimal_message m \<and> \<not> isAssistantMessagePending m \<and>
     list_all (\<lambda>v. length (content v) \<le> MAX_LOADED_MESSAGE_CHARS \<and>
       collapseRepeatedSectionSnapshots (content v) = content v) (versions m) \<and>
     (case reasoning m of None \<Rightarrow> True | Some r \<Rightarrow> length (reasoning_content r) \<le> MAX_LOADED_MESSAGE_CHARS)"

lemma normalize_settled: "settled_message m \<Longrightarrow> normalizeStoredMessageForLoad clk m = m"
proof -
  assume s: "settled_message m"
  have v: "map (\<lambda>v. v\<lparr>content := truncateText (collapseRepeatedSectionSnapshots (content v))
      MAX_LOADED_MESSAGE_CHARS\<rparr>) (versions m) = versions m"
    using s by (auto simp: settled_message_def list_all_iff truncateText_def intro!: map_idI)
  have r: "map_option (\<lambda>r. r\<lparr>reasoning_content := truncateText (reasoning_content r)
      MAX_LOADED_MESSAGE_CHARS\<rparr>) (reasoning m) = reasoning m"
    using s by (cases "reasoning m") (auto simp: settled_message_def truncateText_def)
  from s v r show ?thesis
    by (simp add: normalizeStoredMessageForLoad_def settled_message_def Let_def)
qed

lemma take_by_size_all:
  "n + total_size ms \<le> MAX_LOADED_MESSAGES_CHARS \<Longrightarrow> take_by_size n res ms = res @ ms"
  by (induction n res ms rule: take_by_size.induct) (auto simp: total_size_def)

lemma trim_by_size_all:
  "total_size ms \<le> MAX_LOADED_MESSAGES_CHARS \<Longrightarrow> trimMessagesByContentSize ms = ms"
proof -
  assume "total_size ms \<le> MAX_LOADED_MESSAGES_CHARS"
  then have "total_size (rev ms) \<le> MAX_LOADED_MESSAGES_CHARS"
    by (simp add: total_size_def rev_map [symmetric] sum_list_rev)
  then show ?thesis by (simp add: trimMessagesByContentSize_def take_by_size_all)
qed

lemma sanitize_settled:
  "list_all (\<lambda>m. \<not> isAssistantMessagePending m) ms \<Longrightarrow> sanitizeMessagesOnLoad t clk ms = ms"
proof -
  assume "list_all (\<lambda>m. \<not> isAssistantMessagePending m) ms"
  then have "last_index_below (\<lambda>m. isPendingAssistantMessage (Some m)) ms (length ms) = None"
    by (auto simp: last_index_None isPendingAssistantMessage_def list_all_iff)
  then show ?thesis by (simp add: sanitizeMessagesOnLoad_def)
qed

lemma clean_settled:
  assumes "list_all settled_message ms" and "length ms \<le> MAX_STORED_MESSAGES"
    and "total_size ms \<le> MAX_LOADED_MESSAGES_CHARS"
  shows "clean_messages t clks clk ms = ms"
proof -
  have "map (\<lambda>(i, m). normalizeStoredMessageForLoad (clks i) m) (enumerate 0 ms) = map snd (enumerate 0 ms)"
  proof (rule map_cong [OF refl])
    fix im assume "im \<in> set (enumerate 0 ms)"
    then have "snd im \<in> set ms" by (metis map_snd_enumerate nth_mem image_eqI set_map)
    with assms(1) show "(case im of (i, m) \<Rightarrow> normalizeStoredMessageForLoad (clks i) m) = snd im"
      by (cases im) (auto simp: list_all_iff normalize_settled)
  qed
  then have "map (\<lambda>(i, m). normalizeStoredMessageForLoad (clks i) m) (enumerate 0 ms) = ms" by simp
  moreover have "sanitizeMessagesOnLoad t clk ms = ms"
    using assms(1) by (intro sanitize_settled) (auto simp: list_all_iff settled_message_def)
  ultimately show ?thesis using assms by (simp add: clean_messages_def Let_def trimMessages_def trim_by_size_all)
qed

lemma saved_messages:
  assumes "accepts_conforming zparse" and "list_all (\<lambda>m. versions m \<noteq> []) ms"
    and "length ms \<le> MAX_STORED_MESSAGES"
  shows "saveMessages zparse fits ms st =
    (let txt = json_text (envelope (JArray (map encode_message ms)))
     in if fits txt then AList.update MESSAGES_KEY txt st else st)"
proof -
  have "conforms messagesSchema (JArray (map encode_message ms))"
    using assms(2) by (auto simp: messagesSchema_def list_all_iff conforms_message)
  with assms(1,3) show ?thesis
    by (simp add: saveMessages_def trimMessages_def accepts_conforming_def writeStoredValue_def)
qed

lemma map_decode_encode [simp]: "map (decode_message \<circ> encode_message) ms = ms"
  by (simp add: comp_def decode_encode_message)

lemma update_again [simp]: "AList.update k v (AList.update k v al) = AList.update k v al"
  by (induction al) auto

lemma unwrap_envelope [simp]: "unwrapStoredValue (envelope v) = v"
  by (simp add: unwrapStoredValue_def envelope_def)

lemma envelope_text: "json_text (envelope v) \<noteq> []"
  by (simp add: envelope_def)

lemma truthy_envelope [simp]: "truthy (envelope v)"
  by (simp add: envelope_def)

text \<open>The stored text is at least as long as each message's content.\<close>

lemma join_length: "x \<in> set xs \<Longrightarrow> length x \<le> length (join sep xs)"
  by (induction sep xs rule: join.induct) auto

lemma array_text_length: "v \<in> set vs \<Longrightarrow> length (json_text v) \<le> length (json_text (JArray vs))"
  using join_length [of "json_text v" "map json_text vs" "'',''"] by simp

lemma object_text_length:
  assumes "(k, v) \<in> set fs" and "v \<noteq> JUndefined"
  shows "length (json_text v) \<le> length (json_text (JObject fs))"
proof -
  let ?f = "\<lambda>(k, v). json_string k @ '':'' @ json_text v"
  have "?f (k, v) \<in> set (map ?f (filter (\<lambda>(k, v). v \<noteq> JUndefined) fs))" using assms by force
  from join_length [OF this, of "'',''"] show ?thesis by simp
qed

lemma stored_text_length:
  assumes "v \<in> set (versions m)"
  shows "length (content v) \<le> length (json_text (envelope (JArray [encode_message m])))"
proof -
  have "length (content v) \<le> length (json_text (JString (content v)))"
    using length_escaped [of "content v"] by (simp add: json_string_def)
  also have "\<dots> \<le> length (json_text (encode_version v))"
    unfolding encode_version_def by (rule object_text_length [of "''content''"]) simp_all
  also have "\<dots> \<le> length (json_text (JArray (map encode_version (versions m))))"
    using assms by (intro array_text_length) auto
  also have "\<dots> \<le> length (json_text (encode_message m))"
    unfolding encode_message_def by (rule object_text_length [of "''versions''"]) simp_all
  also have "\<dots> \<le> length (json_text (JArray [encode_message m]))"
    by (rule array_text_length) simp
  also have "\<dots> \<le> length (json_text (envelope (JArray [encode_message m])))"
    unfolding envelope_def by (rule object_text_length [of "''data''"]) simp_all
  finally show ?thesis .
qed

section \<open>Properties\<close>

text \<open>C12: At most 100 messages are loaded exactly as they were saved, and loading leaves the storage as it is,
  under these conditions: no answer is pending, every message has a version, every content and reasoning is within the
  limit for one message and all together within the limit for the conversation,
  \<^verbatim>\<open>collapseRepeatedSectionSnapshots\<close> leaves every content as it is (as it does below 2000
  characters; it may cut a longer text in which a heading is repeated), times and durations are decimal numbers, the
  JSON text is within the byte limit and accepted by the browser, and the validator returns conforming values
  unchanged.\<close>

theorem messages_round_trip:
  assumes "accepts_conforming zparse" and "list_all settled_message ms" and "length ms \<le> MAX_STORED_MESSAGES"
    and "total_size ms \<le> MAX_LOADED_MESSAGES_CHARS"
    and "length (json_text (envelope (JArray (map encode_message ms)))) \<le> MAX_STORED_MESSAGES_BYTES"
    and "fits (json_text (envelope (JArray (map encode_message ms))))"
  shows "loadMessages zparse fits t clks clk (saveMessages zparse fits ms st) =
     (Some ms, saveMessages zparse fits ms st)"
proof -
  define stored where "stored = json_text (envelope (JArray (map encode_message ms)))"
  have vs: "list_all (\<lambda>m. versions m \<noteq> []) ms"
    using assms(2) by (auto simp: list_all_iff settled_message_def)
  have saved: "saveMessages zparse fits ms st' = AList.update MESSAGES_KEY stored st'" for st'
    using saved_messages [OF assms(1) vs assms(3), of fits st'] assms(6) by (simp add: stored_def Let_def)
  have "json_parse stored = Some (envelope (JArray (map encode_message ms)))"
    unfolding stored_def
    by (rule json_round_trip, rule safe_envelope)
      (use assms(2) in \<open>auto simp: list_all_iff settled_message_def\<close>)
  then have r: "readStoredMessagesValue (AList.update MESSAGES_KEY stored st) =
      (Inr (Some (envelope (JArray (map encode_message ms)))), AList.update MESSAGES_KEY stored st)"
    using assms(5) envelope_text by (simp add: readStoredMessagesValue_def update_conv stored_def)
  have z: "zparse messagesSchema (JArray (map encode_message ms)) = Some (JArray (map encode_message ms))"
    using assms(1) vs
    by (auto simp: accepts_conforming_def messagesSchema_def list_all_iff conforms_message)
  have c: "clean_messages t clks clk ms = ms" by (rule clean_settled [OF assms(2-4)])
  show ?thesis
    unfolding saved
    by (simp add: loadMessages_def r z c saved array_of_def Let_def)
qed

definition sample_validator :: validator where
  "sample_validator sch v = (if conforms sch v then Some v else None)"

lemma sample_validator_accepts: "accepts_conforming sample_validator"
  by (simp add: accepts_conforming_def sample_validator_def)

definition sample_message :: message where
  "sample_message = createUserMessage ''k'' ''v'' ''hi'' 5"

theorem messages_round_trip_witness:
  "fst (loadMessages sample_validator (\<lambda>_. True) id (\<lambda>_ _. 0) (\<lambda>_. 0)
     (saveMessages sample_validator (\<lambda>_. True) [sample_message] [])) = Some [sample_message]"
proof -
  have "length (json_text (envelope (JArray (map encode_message [sample_message])))) < 200" by code_simp
  then have len: "length (json_text (envelope (JArray (map encode_message [sample_message])))) \<le>
      MAX_STORED_MESSAGES_BYTES" by (simp add: MAX_STORED_MESSAGES_BYTES_def)
  have dec: "decimal 5" by code_simp
  have "collapseRepeatedSectionSnapshots ''hi'' = ''hi''"
    by (simp add: collapseRepeatedSectionSnapshots_def MIN_PREFIX_COLLAPSE_LENGTH_def)
  with dec have settled: "list_all settled_message [sample_message]"
    by (simp add: settled_message_def sample_message_def createUserMessage_def decimal_message_def
        opt_decimal_def isAssistantMessagePending_def createMessageVersion_def MAX_LOADED_MESSAGE_CHARS_def)
  have small: "length [sample_message] \<le> MAX_STORED_MESSAGES"
    "total_size [sample_message] \<le> MAX_LOADED_MESSAGES_CHARS"
    by (simp_all add: MAX_STORED_MESSAGES_def MAX_LOADED_MESSAGES_CHARS_def total_size_def getMessageSize_def
        sample_message_def createUserMessage_def createMessageVersion_def)
  show ?thesis
    using messages_round_trip [OF sample_validator_accepts settled small len, of "\<lambda>_. True" id "\<lambda>_ _. 0" "\<lambda>_. 0" "[]"]
    by simp
qed

text \<open>Saving does not enforce the limit that loading does: a conversation of few enough messages
  whose text is longer than the limit is stored, and the next load deletes it without returning even
  the part that would fit.\<close>

lemma oversized_conversation_deleted:
  assumes "accepts_conforming zparse" and "list_all (\<lambda>m. versions m \<noteq> []) ms"
    and "length ms \<le> MAX_STORED_MESSAGES"
    and "MAX_STORED_MESSAGES_BYTES < length (json_text (envelope (JArray (map encode_message ms))))"
    and "fits (json_text (envelope (JArray (map encode_message ms))))"
  shows "fst (loadMessages zparse fits t clks clk (saveMessages zparse fits ms st)) = None \<and>
     map_of (snd (loadMessages zparse fits t clks clk (saveMessages zparse fits ms st))) MESSAGES_KEY = None"
  using saved_messages [OF assms(1-3), of fits st] assms(4,5) envelope_text
  by (simp add: loadMessages_def readStoredMessagesValue_def update_conv delete_conv Let_def)

definition long_message :: message where
  "long_message = createUserMessage ''k'' ''v'' (replicate (Suc (1024 * 1024)) (CHR ''a'')) 5"

lemma oversized_conversation_deleted_witness:
  "fst (loadMessages sample_validator (\<lambda>_. True) id (\<lambda>_ _. 0) (\<lambda>_. 0)
     (saveMessages sample_validator (\<lambda>_. True) [long_message] [])) = None"
proof -
  define v where "v = \<lparr>version_id = ''v'', content = replicate (Suc (1024 * 1024)) (CHR ''a'')\<rparr>"
  have "v \<in> set (versions long_message)"
    by (simp only: v_def long_message_def createUserMessage_def createMessageVersion_def message.simps
        list.set insertI1)
  from stored_text_length [OF this]
  have "Suc (1024 * 1024) \<le> length (json_text (envelope (JArray (map encode_message [long_message]))))"
    by (simp only: v_def message_version.simps length_replicate list.map)
  then have len: "MAX_STORED_MESSAGES_BYTES <
      length (json_text (envelope (JArray (map encode_message [long_message]))))"
    by (simp add: MAX_STORED_MESSAGES_BYTES_def)
  have vs: "list_all (\<lambda>m. versions m \<noteq> []) [long_message]"
    by (simp add: long_message_def createUserMessage_def)
  have small: "length [long_message] \<le> MAX_STORED_MESSAGES" by (simp add: MAX_STORED_MESSAGES_def)
  show ?thesis
    using oversized_conversation_deleted [OF sample_validator_accepts vs small len, of "\<lambda>_. True" id
        "\<lambda>_ _. 0" "\<lambda>_. 0" "[]"] by simp
qed

text \<open>Whatever is stored, loading returns at most a hundred messages.\<close>

lemma loaded_at_most_hundred:
  "case fst (loadMessages zparse fits t clks clk st) of
     None \<Rightarrow> True | Some ms \<Rightarrow> length ms \<le> MAX_STORED_MESSAGES"
proof -
  have take: "length (take_by_size n res ms) \<le> length res + length ms" for n res ms
    by (induction n res ms rule: take_by_size.induct) auto
  have "length (clean_messages t clks clk ms) \<le> MAX_STORED_MESSAGES" for ms
  proof -
    define ns where "ns = trimMessages (map (\<lambda>(i, m). normalizeStoredMessageForLoad (clks i) m) (enumerate 0 ms))"
    have "length ns \<le> MAX_STORED_MESSAGES" by (simp add: ns_def trimMessages_def)
    moreover have "length (trimMessagesByContentSize ns) \<le> length ns"
      using take [of 0 "[]" "rev ns"] by (simp add: trimMessagesByContentSize_def)
    ultimately show ?thesis
      by (simp add: clean_messages_def Let_def ns_def [symmetric] sanitizeMessagesOnLoad_def split: option.splits)
  qed
  then show ?thesis by (auto simp: loadMessages_def Let_def split: option.splits sum.splits prod.splits)
qed

end
