(* ===== verification/Playground.thy ===== *)
theory Playground
  imports Chat_Handler Chat_Storage
begin

text \<open>
  The rest of the playground: options and fall-backs (\<^verbatim>\<open>lib/options/playground-option-utils.ts\<close>,
  \<^verbatim>\<open>hooks/use-playground-options.ts\<close>), parameters (\<^verbatim>\<open>lib/parameters/playground-parameters.ts\<close>), input
  controls (\<^verbatim>\<open>lib/input\<close>), the conversation's actions (\<^verbatim>\<open>hooks/use-playground-conversation.ts\<close>,
  \<^verbatim>\<open>use-message-action-guard.ts\<close>) and the saving of messages with a delay
  (\<^verbatim>\<open>hooks/use-playground-state.ts\<close>, \<^verbatim>\<open>lib/state/playground-state-utils.ts\<close>).
\<close>

section \<open>Options\<close>

record model_option =
  model_label :: string
  model_value :: string

record group_option =
  group_label :: string
  group_value :: string
  group_ratio :: js_number
  group_desc :: "string option"

definition getModelFallback :: "model_option list \<Rightarrow> string \<Rightarrow> string option" where
  "getModelFallback models currentModel =
     (if list_ex (\<lambda>m. model_value m = currentModel) models \<or> models = [] then None
      else Some (model_value (hd models)))"

definition shouldClearModelForGroup :: "model_option list \<Rightarrow> string \<Rightarrow> bool" where
  "shouldClearModelForGroup models currentModel =
     (if currentModel = [] then False else \<not> list_ex (\<lambda>m. model_value m = currentModel) models)"

definition getGroupFallback :: "group_option list \<Rightarrow> string \<Rightarrow> string option" where
  "getGroupFallback groups currentGroup =
     (if list_ex (\<lambda>g. group_value g = currentGroup) groups \<or> groups = [] then None
      else Some (case find (\<lambda>g. group_value g = ''default'') groups of
                   Some g \<Rightarrow> group_value g | None \<Rightarrow> group_value (hd groups)))"

definition getOptionLoadErrorMessage :: "thrown \<Rightarrow> string \<Rightarrow> string" where
  "getOptionLoadErrorMessage err fallbackMessage =
     (case err of ErrorObject m \<Rightarrow> m | OtherThrown \<Rightarrow> fallbackMessage)"

text \<open>The effects that run when the models or the groups have been loaded.\<close>

definition models_loaded :: "model_option list \<Rightarrow> playground_config \<Rightarrow> playground_config" where
  "models_loaded models cfg =
     (case getModelFallback models (model cfg) of
        Some fallback \<Rightarrow>
          if fallback \<noteq> [] then cfg\<lparr>model := fallback\<rparr>
          else if shouldClearModelForGroup models (model cfg) then cfg\<lparr>model := []\<rparr> else cfg
      | None \<Rightarrow> if shouldClearModelForGroup models (model cfg) then cfg\<lparr>model := []\<rparr> else cfg)"

definition groups_loaded :: "group_option list \<Rightarrow> playground_config \<Rightarrow> playground_config" where
  "groups_loaded groups cfg =
     (case getGroupFallback groups (cfg_group cfg) of
        Some fallback \<Rightarrow> if fallback \<noteq> [] then cfg\<lparr>cfg_group := fallback\<rparr> else cfg
      | None \<Rightarrow> cfg)"

section \<open>Defaults\<close>

definition DEFAULT_GROUP :: string where "DEFAULT_GROUP = ''default''"

definition DEFAULT_CONFIG :: playground_config where
  "DEFAULT_CONFIG = \<lparr>model = ''gpt-4o'', cfg_group = DEFAULT_GROUP, temperature = Fin (7 / 10),
     top_p = Fin 1, max_tokens = Fin 4096, frequency_penalty = Fin 0, presence_penalty = Fin 0,
     seed = None, stream = True\<rparr>"

definition DEFAULT_PARAMETER_ENABLED :: parameter_enabled where
  "DEFAULT_PARAMETER_ENABLED = \<lparr>en_temperature = True, en_top_p = True, en_max_tokens = False,
     en_frequency_penalty = True, en_presence_penalty = True, en_seed = False\<rparr>"

text \<open>\<^verbatim>\<open>{ ...DEFAULT, ...loaded }\<close>: a loaded field replaces the default one.\<close>

definition field_or :: "(js_value \<Rightarrow> 'a) \<Rightarrow> js_value \<Rightarrow> string \<Rightarrow> 'a \<Rightarrow> 'a" where
  "field_or f v k d = nullish (get_opt f v k) d"

definition getInitialPlaygroundConfig :: "validator \<Rightarrow> storage \<Rightarrow> playground_config" where
  "getInitialPlaygroundConfig zparse st =
     (let v = loadConfig zparse st; d = DEFAULT_CONFIG in
      \<lparr>model = field_or string_of v ''model'' (model d), cfg_group = field_or string_of v ''group'' (cfg_group d),
       temperature = field_or number_of v ''temperature'' (temperature d),
       top_p = field_or number_of v ''top_p'' (top_p d),
       max_tokens = field_or number_of v ''max_tokens'' (max_tokens d),
       frequency_penalty = field_or number_of v ''frequency_penalty'' (frequency_penalty d),
       presence_penalty = field_or number_of v ''presence_penalty'' (presence_penalty d),
       seed = field_or (\<lambda>x. case x of JNumber n \<Rightarrow> Some n | _ \<Rightarrow> None) v ''seed'' (seed d),
       stream = field_or bool_of v ''stream'' (stream d)\<rparr>)"

definition getInitialParameterEnabled :: "validator \<Rightarrow> storage \<Rightarrow> parameter_enabled" where
  "getInitialParameterEnabled zparse st =
     (let v = loadParameterEnabled zparse st; d = DEFAULT_PARAMETER_ENABLED in
      \<lparr>en_temperature = field_or bool_of v ''temperature'' (en_temperature d),
       en_top_p = field_or bool_of v ''top_p'' (en_top_p d),
       en_max_tokens = field_or bool_of v ''max_tokens'' (en_max_tokens d),
       en_frequency_penalty = field_or bool_of v ''frequency_penalty'' (en_frequency_penalty d),
       en_presence_penalty = field_or bool_of v ''presence_penalty'' (en_presence_penalty d),
       en_seed = field_or bool_of v ''seed'' (en_seed d)\<rparr>)"

section \<open>Parameters\<close>

datatype parameter_key = Temperature | TopP | FrequencyPenalty | PresencePenalty | MaxTokens | Seed

record parameter_control =
  control_key :: parameter_key
  labelKey :: string
  descriptionKey :: string
  control_min :: rat
  control_max :: rat
  control_step :: rat

definition PLAYGROUND_PARAMETER_CONTROLS :: "parameter_control list" where
  "PLAYGROUND_PARAMETER_CONTROLS =
    [\<lparr>control_key = Temperature, labelKey = ''Temperature'',
      descriptionKey = ''Controls randomness and creativity'',
      control_min = 1 / 10, control_max = 1, control_step = 1 / 10\<rparr>,
     \<lparr>control_key = TopP, labelKey = ''Top P'',
      descriptionKey = ''Limits token selection to a probability mass'',
      control_min = 1 / 10, control_max = 1, control_step = 1 / 10\<rparr>,
     \<lparr>control_key = FrequencyPenalty, labelKey = ''Frequency Penalty'',
      descriptionKey = ''Reduces repeated wording'',
      control_min = -2, control_max = 2, control_step = 1 / 10\<rparr>,
     \<lparr>control_key = PresencePenalty, labelKey = ''Presence Penalty'',
      descriptionKey = ''Encourages new topics'',
      control_min = -2, control_max = 2, control_step = 1 / 10\<rparr>,
     \<lparr>control_key = MaxTokens, labelKey = ''Max Tokens'',
      descriptionKey = ''Caps the response length'',
      control_min = 0, control_max = 200000, control_step = 1\<rparr>,
     \<lparr>control_key = Seed, labelKey = ''Seed'',
      descriptionKey = ''Keeps compatible responses more repeatable'',
      control_min = 0, control_max = 2147483647, control_step = 1\<rparr>]"

datatype parameter_input = TextInput string | NumberInput js_number

text \<open>\<^verbatim>\<open>Number.parseFloat\<close>: the longest numeric prefix after white space.\<close>

definition parse_float :: "string \<Rightarrow> js_number" where
  "parse_float s =
     (let s1 = trim_start s;
          neg = (s1 \<noteq> [] \<and> hd s1 = CHR ''-'');
          s2 = (if s1 \<noteq> [] \<and> (hd s1 = CHR ''-'' \<or> hd s1 = CHR ''+'') then tl s1 else s1);
          ip = takeWhile is_digit s2;
          r1 = dropWhile is_digit s2;
          fp = (if r1 \<noteq> [] \<and> hd r1 = CHR ''.'' then takeWhile is_digit (tl r1) else []);
          r2 = (if r1 \<noteq> [] \<and> hd r1 = CHR ''.'' then dropWhile is_digit (tl r1) else r1);
          e = (case parse_exp r2 of Some (e, _) \<Rightarrow> e | None \<Rightarrow> 0)
      in if starts_with ''Infinity'' s2 then (if neg then NegInf else PosInf)
         else if ip = [] \<and> fp = [] then NaN
         else let v = of_nat (digits_val (ip @ fp)) * power10 (e - int (length fp))
              in Fin (if neg then - v else v))"

text \<open>\<^verbatim>\<open>Math.min(max, Math.max(min, x))\<close>, \<^verbatim>\<open>Math.trunc\<close> and \<^verbatim>\<open>Number(x.toFixed(1))\<close>; the step of the
  sliders is \<^verbatim>\<open>0.1\<close>, one decimal place.\<close>

fun clamp :: "rat \<Rightarrow> rat \<Rightarrow> js_number \<Rightarrow> rat" where
  "clamp lo hi (Fin r) = min hi (max lo r)"
| "clamp lo hi PosInf = hi"
| "clamp lo hi NegInf = min hi lo"
| "clamp lo hi NaN = lo"

definition trunc :: "rat \<Rightarrow> rat" where
  "trunc r = (if r < 0 then - of_int \<lfloor>- r\<rfloor> else of_int \<lfloor>r\<rfloor>)"

definition to_fixed1 :: "rat \<Rightarrow> rat" where
  "to_fixed1 r = (if r < 0 then - (of_int \<lfloor>(- r) * 10 + 1 / 2\<rfloor> / 10) else of_int \<lfloor>r * 10 + 1 / 2\<rfloor> / 10)"

definition normalizeParameterNumberValue :: "parameter_key \<Rightarrow> parameter_input \<Rightarrow> rat option" where
  "normalizeParameterNumberValue k v =
     (let fallback = (if k = Seed then None else Some 0) in
      if v = TextInput [] then fallback
      else let parsed = (case v of NumberInput n \<Rightarrow> n | TextInput s \<Rightarrow> parse_float s) in
        (case find (\<lambda>c. control_key c = k) PLAYGROUND_PARAMETER_CONTROLS of
           None \<Rightarrow> fallback
         | Some control \<Rightarrow>
             if parsed = NaN then fallback
             else let clamped = clamp (control_min control) (control_max control) parsed in
               if control_step control \<ge> 1 then Some (trunc clamped) else Some (to_fixed1 clamped)))"

definition getParameterControlValueText :: "parameter_key \<Rightarrow> js_value \<Rightarrow> string" where
  "getParameterControlValueText k v =
     (if k = Seed \<and> v = JNull then ''Not set''
      else case v of JString s \<Rightarrow> s | JNumber n \<Rightarrow> number_text n | JBool b \<Rightarrow> if b then ''true'' else ''false''
           | _ \<Rightarrow> ''null'')"

section \<open>Configuration\<close>

text \<open>The fields \<^verbatim>\<open>updateConfig\<close> and \<^verbatim>\<open>updateParameterEnabled\<close> can set, with the new value.\<close>

datatype config_update =
    SetModel string
  | SetGroup string
  | SetTemperature js_number
  | SetTopP js_number
  | SetMaxTokens js_number
  | SetFrequencyPenalty js_number
  | SetPresencePenalty js_number
  | SetSeed "js_number option"
  | SetStream bool

fun set_config :: "config_update \<Rightarrow> playground_config \<Rightarrow> playground_config" where
  "set_config (SetModel v) c = c\<lparr>model := v\<rparr>"
| "set_config (SetGroup v) c = c\<lparr>cfg_group := v\<rparr>"
| "set_config (SetTemperature v) c = c\<lparr>temperature := v\<rparr>"
| "set_config (SetTopP v) c = c\<lparr>top_p := v\<rparr>"
| "set_config (SetMaxTokens v) c = c\<lparr>max_tokens := v\<rparr>"
| "set_config (SetFrequencyPenalty v) c = c\<lparr>frequency_penalty := v\<rparr>"
| "set_config (SetPresencePenalty v) c = c\<lparr>presence_penalty := v\<rparr>"
| "set_config (SetSeed v) c = c\<lparr>seed := v\<rparr>"
| "set_config (SetStream v) c = c\<lparr>stream := v\<rparr>"

fun set_enabled :: "parameter_key \<Rightarrow> bool \<Rightarrow> parameter_enabled \<Rightarrow> parameter_enabled" where
  "set_enabled Temperature b e = e\<lparr>en_temperature := b\<rparr>"
| "set_enabled TopP b e = e\<lparr>en_top_p := b\<rparr>"
| "set_enabled MaxTokens b e = e\<lparr>en_max_tokens := b\<rparr>"
| "set_enabled FrequencyPenalty b e = e\<lparr>en_frequency_penalty := b\<rparr>"
| "set_enabled PresencePenalty b e = e\<lparr>en_presence_penalty := b\<rparr>"
| "set_enabled Seed b e = e\<lparr>en_seed := b\<rparr>"

definition encode_config :: "playground_config \<Rightarrow> js_value" where
  "encode_config c = JObject
     [(''model'', JString (model c)), (''group'', JString (cfg_group c)),
      (''temperature'', JNumber (temperature c)), (''top_p'', JNumber (top_p c)),
      (''max_tokens'', JNumber (max_tokens c)), (''frequency_penalty'', JNumber (frequency_penalty c)),
      (''presence_penalty'', JNumber (presence_penalty c)),
      (''seed'', case seed c of None \<Rightarrow> JNull | Some n \<Rightarrow> JNumber n), (''stream'', JBool (stream c))]"

definition encode_enabled :: "parameter_enabled \<Rightarrow> js_value" where
  "encode_enabled e = JObject
     [(''temperature'', JBool (en_temperature e)), (''top_p'', JBool (en_top_p e)),
      (''max_tokens'', JBool (en_max_tokens e)), (''frequency_penalty'', JBool (en_frequency_penalty e)),
      (''presence_penalty'', JBool (en_presence_penalty e)), (''seed'', JBool (en_seed e))]"

record settings =
  config :: playground_config
  parameterEnabled :: parameter_enabled
  local_storage :: storage

text \<open>The source saves inside the updater that React runs before it shows the new settings; here a change and its save are
  one step.\<close>

definition updateConfig ::
  "validator \<Rightarrow> (string \<Rightarrow> bool) \<Rightarrow> config_update \<Rightarrow> settings \<Rightarrow> settings" where
  "updateConfig zparse fits u s =
     (let updated = set_config u (config s) in
      s\<lparr>config := updated, local_storage := saveConfig zparse fits (encode_config updated) (local_storage s)\<rparr>)"

definition updateParameterEnabled ::
  "validator \<Rightarrow> (string \<Rightarrow> bool) \<Rightarrow> parameter_key \<Rightarrow> bool \<Rightarrow> settings \<Rightarrow> settings" where
  "updateParameterEnabled zparse fits k v s =
     (let updated = set_enabled k v (parameterEnabled s) in
      s\<lparr>parameterEnabled := updated,
        local_storage := saveParameterEnabled zparse fits (encode_enabled updated) (local_storage s)\<rparr>)"

definition resetConfig :: "validator \<Rightarrow> (string \<Rightarrow> bool) \<Rightarrow> settings \<Rightarrow> settings" where
  "resetConfig zparse fits s =
     s\<lparr>config := DEFAULT_CONFIG, parameterEnabled := DEFAULT_PARAMETER_ENABLED,
       local_storage := saveParameterEnabled zparse fits (encode_enabled DEFAULT_PARAMETER_ENABLED)
         (saveConfig zparse fits (encode_config DEFAULT_CONFIG) (local_storage s))\<rparr>"

text \<open>The settings of a newly opened page.\<close>

definition initial_settings :: "validator \<Rightarrow> storage \<Rightarrow> settings" where
  "initial_settings zparse st =
     \<lparr>config = getInitialPlaygroundConfig zparse st, parameterEnabled = getInitialParameterEnabled zparse st,
      local_storage = st\<rparr>"

section \<open>Input\<close>

definition getSubmittableInputText :: "string option \<Rightarrow> bool \<Rightarrow> string option" where
  "getSubmittableInputText msg disabled =
     (case msg of
        None \<Rightarrow> None
      | Some s \<Rightarrow> if disabled \<or> trim s = [] then None else Some s)"

record input_control_state =
  canSubmit :: bool
  isSelectorDisabled :: bool
  shouldShowStop :: bool

definition getInputControlState ::
  "bool \<Rightarrow> group_option list \<Rightarrow> bool \<Rightarrow> bool \<Rightarrow> bool \<Rightarrow> model_option list \<Rightarrow> string \<Rightarrow> input_control_state" where
  "getInputControlState disabled groups hasStopHandler isGenerating isModelLoading models s =
     \<lparr>canSubmit = (\<not> disabled \<and> models \<noteq> [] \<and> trim s \<noteq> []),
      isSelectorDisabled = (disabled \<or> isModelLoading \<or> groups = []),
      shouldShowStop = (isGenerating \<and> hasStopHandler)\<rparr>"

section \<open>Actions of the conversation\<close>

text \<open>
  \<open>shown\<close> is the message list of the last render, which the callbacks close over; \<open>editing\<close> is
  \<^verbatim>\<open>editingMessageKey\<close>.
\<close>

definition handleSendMessage ::
  "(nat \<Rightarrow> string) \<Rightarrow> rat \<Rightarrow> bool \<Rightarrow> clock \<Rightarrow> playground_config \<Rightarrow> parameter_enabled \<Rightarrow> message list \<Rightarrow> string \<Rightarrow>
     handler \<Rightarrow> handler" where
  "handleSendMessage ids now eager clk cfg enabled shown s h =
     (let next = appendUserMessagePair ids now shown s in
      sendChat cfg enabled next (dispatch eager clk (ReplaceMessages next) h))"

definition handleRegenerateMessage ::
  "(nat \<Rightarrow> string) \<Rightarrow> rat \<Rightarrow> bool \<Rightarrow> clock \<Rightarrow> playground_config \<Rightarrow> parameter_enabled \<Rightarrow> message list \<Rightarrow> string \<Rightarrow>
     handler \<Rightarrow> handler" where
  "handleRegenerateMessage ids now eager clk cfg enabled shown k h =
     (case createRegeneratedMessages ids now shown k of
        None \<Rightarrow> h
      | Some next \<Rightarrow> sendChat cfg enabled next (dispatch eager clk (ReplaceMessages next) h))"

definition applyEdit ::
  "(nat \<Rightarrow> string) \<Rightarrow> rat \<Rightarrow> bool \<Rightarrow> clock \<Rightarrow> playground_config \<Rightarrow> parameter_enabled \<Rightarrow> message list \<Rightarrow> string \<Rightarrow>
     bool \<Rightarrow> string option \<times> handler \<Rightarrow> string option \<times> handler" where
  "applyEdit ids now eager clk cfg enabled shown newContent shouldSubmit = (\<lambda>(editing, h).
     case editing of
       None \<Rightarrow> (editing, h)
     | Some k \<Rightarrow>
         if k = [] then (editing, h)
         else (case applyMessageEdit ids now shown k newContent shouldSubmit of
                 None \<Rightarrow> (editing, h)
               | Some (ms, shouldSend) \<Rightarrow>
                   let h' = dispatch eager clk (ReplaceMessages ms) h in
                   (None, if shouldSend then sendChat cfg enabled ms h' else h')))"

definition handleEditMessage :: "string \<Rightarrow> string option \<Rightarrow> string option" where
  "handleEditMessage k editing = Some k"

definition handleEditOpenChange :: "bool \<Rightarrow> string option \<Rightarrow> string option" where
  "handleEditOpenChange isOpen editing = (if \<not> isOpen then None else editing)"

definition clearMessages :: "bool \<Rightarrow> clock \<Rightarrow> handler \<Rightarrow> handler" where
  "clearMessages eager clk h = dispatch eager clk (ReplaceMessages []) h"

definition handleDeleteMessage :: "bool \<Rightarrow> clock \<Rightarrow> string \<Rightarrow> handler \<Rightarrow> handler" where
  "handleDeleteMessage eager clk k h = dispatch eager clk (RemoveMessage k) h"

text \<open>\<^verbatim>\<open>guardAction\<close>: no action while an answer is being generated.\<close>

definition guardAction :: "(string \<Rightarrow> string) \<Rightarrow> bool \<Rightarrow> (handler \<Rightarrow> handler) \<Rightarrow> handler \<Rightarrow> handler" where
  "guardAction t isGenerating action h =
     (if isGenerating
      then h\<lparr>toasts := toasts h @ [t ''Please wait for the current generation to complete'']\<rparr>
      else action h)"

section \<open>Saving with a delay\<close>

record save_state =
  latestMessages :: "message list"
  hasLoadedMessages :: bool
  save_timer :: bool
  load_cancelled :: bool
  saves :: "message list list" \<comment> \<open>what was passed to \<^verbatim>\<open>saveMessages\<close>, last first\<close>

definition initial_save :: save_state where
  "initial_save = \<lparr>latestMessages = [], hasLoadedMessages = False, save_timer = False,
     load_cancelled = False, saves = []\<rparr>"

definition persistMessages :: "message list \<Rightarrow> save_state \<Rightarrow> save_state" where
  "persistMessages ms s =
     (let s1 = s\<lparr>latestMessages := ms\<rparr> in
      if \<not> hasLoadedMessages s1 then s1 else s1\<lparr>save_timer := True\<rparr>)"

definition messages_loaded :: "message list \<Rightarrow> save_state \<Rightarrow> save_state" where
  "messages_loaded ms s =
     (if load_cancelled s then s else s\<lparr>latestMessages := ms, hasLoadedMessages := True\<rparr>)"

definition save_timer_fires :: "save_state \<Rightarrow> save_state" where
  "save_timer_fires s =
     (if save_timer s then s\<lparr>save_timer := False, saves := latestMessages s # saves s\<rparr> else s)"

definition unmount_state :: "save_state \<Rightarrow> save_state" where
  "unmount_state s =
     (if save_timer s then s\<lparr>save_timer := False, saves := latestMessages s # saves s, load_cancelled := True\<rparr>
      else s\<lparr>load_cancelled := True\<rparr>)"

datatype save_event = Updated "message list" | Loaded "message list" | SaveTimer

fun save_step :: "save_event \<Rightarrow> save_state \<Rightarrow> save_state" where
  "save_step (Updated ms) s = persistMessages ms s"
| "save_step (Loaded ms) s = messages_loaded ms s"
| "save_step SaveTimer s = save_timer_fires s"

section \<open>Lemmas\<close>

text \<open>What is shown after the load and its updates.\<close>

fun shown_after :: "save_event list \<Rightarrow> message list \<Rightarrow> message list" where
  "shown_after [] ms = ms"
| "shown_after (Updated ms' # es) ms = shown_after es ms'"
| "shown_after (Loaded ms' # es) ms = shown_after es ms'"
| "shown_after (SaveTimer # es) ms = shown_after es ms"

fun is_update :: "save_event \<Rightarrow> bool" where
  "is_update (Updated ms) = True"
| "is_update _ = False"

fun is_loaded :: "save_event \<Rightarrow> bool" where
  "is_loaded (Loaded ms) = True"
| "is_loaded _ = False"

definition saving_ok :: "save_state \<Rightarrow> bool" where
  "saving_ok s \<longleftrightarrow> hasLoadedMessages s \<and> \<not> load_cancelled s \<and>
     (save_timer s \<or> (\<exists>rest. saves s = latestMessages s # rest))"

lemma save_step_ok: "\<not> is_loaded e \<Longrightarrow> saving_ok s \<Longrightarrow> saving_ok (save_step e s)"
  by (cases e) (auto simp: saving_ok_def persistMessages_def save_timer_fires_def Let_def)

lemma save_run_ok: "list_all (\<lambda>e. \<not> is_loaded e) es \<Longrightarrow> saving_ok s \<Longrightarrow> saving_ok (fold save_step es s)"
  by (induction es arbitrary: s) (auto simp: save_step_ok)

lemma save_run_latest:
  "list_all (\<lambda>e. \<not> is_loaded e) es \<Longrightarrow>
   latestMessages (fold save_step es s) = shown_after es (latestMessages s)"
proof (induction es arbitrary: s)
  case Nil
  then show ?case by simp
next
  case (Cons e es)
  then show ?case by (cases e) (auto simp: persistMessages_def save_timer_fires_def Let_def)
qed

lemma to_fixed1_bounds:
  assumes "of_int lo / 10 \<le> r" and "r \<le> of_int hi / 10"
  shows "of_int lo / 10 \<le> to_fixed1 r \<and> to_fixed1 r \<le> of_int hi / 10"
proof -
  have r: "of_int lo \<le> r * 10" "r * 10 \<le> of_int hi" using assms by (simp_all add: field_simps)
  show ?thesis
  proof (cases "r < 0")
    case True
    have "- hi \<le> \<lfloor>(- r) * 10 + 1 / 2\<rfloor>" using r by (simp add: le_floor_iff)
    moreover have "\<lfloor>(- r) * 10 + 1 / 2\<rfloor> \<le> - lo" using r by (simp add: floor_le_iff)
    ultimately have "lo \<le> - \<lfloor>(- r) * 10 + 1 / 2\<rfloor> \<and> - \<lfloor>(- r) * 10 + 1 / 2\<rfloor> \<le> hi" by linarith
    then have "(of_int lo :: rat) \<le> of_int (- \<lfloor>(- r) * 10 + 1 / 2\<rfloor>) \<and>
        (of_int (- \<lfloor>(- r) * 10 + 1 / 2\<rfloor>) :: rat) \<le> of_int hi" by (simp only: of_int_le_iff)
    then show ?thesis using True by (simp add: to_fixed1_def field_simps)
  next
    case False
    have "lo \<le> \<lfloor>r * 10 + 1 / 2\<rfloor> \<and> \<lfloor>r * 10 + 1 / 2\<rfloor> \<le> hi"
      using r by (simp add: le_floor_iff floor_le_iff)
    then have "(of_int lo :: rat) \<le> of_int \<lfloor>r * 10 + 1 / 2\<rfloor> \<and> (of_int \<lfloor>r * 10 + 1 / 2\<rfloor> :: rat) \<le> of_int hi"
      by (simp only: of_int_le_iff)
    then show ?thesis using False by (simp add: to_fixed1_def field_simps)
  qed
qed

lemma clamp_bounds: "lo \<le> hi \<Longrightarrow> lo \<le> clamp lo hi n \<and> clamp lo hi n \<le> hi"
  by (cases n) auto

lemma trunc_bounds: "0 \<le> r \<Longrightarrow> r \<le> of_int hi \<Longrightarrow> 0 \<le> trunc r \<and> trunc r \<le> of_int hi"
  by (auto simp: trunc_def floor_le_iff)

section \<open>Properties\<close>

text \<open>With streaming on, sending a message requests an answer to the earlier conversation followed by exactly this
  message: the placeholder of the answer is not sent.\<close>

lemma sent_payload:
  assumes "stream cfg"
  shows "\<exists>ops. stream_ops (handleSendMessage ids now eager clk cfg enabled shown s h) =
      ops @ [OpenStream (buildChatCompletionPayload (appendUserMessagePair ids now shown s) cfg enabled)] \<and>
    req_messages (buildChatCompletionPayload (appendUserMessagePair ids now shown s) cfg enabled) =
      map formatMessageForAPI (filter isValidMessage shown) @ [(User, s)]"
proof -
  have "isValidMessage (createUserMessage k i s now)" for k i
    by (simp add: isValidMessage_def createUserMessage_def)
  moreover have "\<not> isValidMessage (createLoadingAssistantMessage k i now)" for k i
    by (simp add: isValidMessage_def createLoadingAssistantMessage_def hasMessageContent_def
        getMessageContent_def getCurrentVersion_def createMessageVersion_def)
  moreover have "formatMessageForAPI (createUserMessage k i s now) = (User, s)" for k i
    by (simp add: formatMessageForAPI_def createUserMessage_def getCurrentVersion_def createMessageVersion_def)
  ultimately show ?thesis
    using assms
    by (simp add: handleSendMessage_def sendChat_def sendStreamingChat_def buildChatCompletionPayload_def
        appendUserMessagePair_def Let_def)
qed

lemma sent_payload_witness:
  "req_messages (buildChatCompletionPayload (appendUserMessagePair (\<lambda>_. ''i'') 1 [] ''hi'') DEFAULT_CONFIG
     DEFAULT_PARAMETER_ENABLED) = [(User, ''hi'')]"
proof -
  have "stream DEFAULT_CONFIG" by (simp add: DEFAULT_CONFIG_def)
  from sent_payload [OF this, of "\<lambda>_. ''i''" 1 True "\<lambda>_. 0" DEFAULT_PARAMETER_ENABLED "[]" "''hi''" sample_handler]
  show ?thesis by auto
qed

text \<open>C13: Let the stored messages have been loaded, and let at least one update and any number of save timers
  follow, but no second load.  When the page is left, the last list of messages passed to
  \<^verbatim>\<open>saveMessages\<close> is that of the last update, whether the save timer has fired before or
  not.\<close>

theorem unmount_saves_latest:
  assumes "list_all (\<lambda>e. \<not> is_loaded e) es" and "list_ex is_update es"
  shows "\<exists>rest. saves (unmount_state (fold save_step es (messages_loaded ms initial_save))) =
     shown_after es ms # rest"
proof -
  let ?s0 = "messages_loaded ms initial_save"
  have s0: "hasLoadedMessages ?s0" "\<not> load_cancelled ?s0" "latestMessages ?s0 = ms"
    by (simp_all add: messages_loaded_def initial_save_def)
  from assms(2) obtain as u bs where es: "es = as @ u # bs" and u: "is_update u"
    unfolding list_ex_iff by (metis split_list)
  have loaded: "hasLoadedMessages (fold save_step as s) \<and> \<not> load_cancelled (fold save_step as s)"
    if "hasLoadedMessages s" "\<not> load_cancelled s" "list_all (\<lambda>e. \<not> is_loaded e) as" for s as
    using that
  proof (induction as arbitrary: s)
    case Nil
    then show ?case by simp
  next
    case (Cons e as)
    then show ?case by (cases e) (auto simp: persistMessages_def save_timer_fires_def Let_def)
  qed
  have "saving_ok (save_step u (fold save_step as ?s0))"
    using u loaded [OF s0(1,2), of as] assms(1) es
    by (cases u) (auto simp: saving_ok_def persistMessages_def Let_def)
  then have ok: "saving_ok (fold save_step es ?s0)"
    using save_run_ok [of bs] assms(1) es by simp
  have "latestMessages (fold save_step es ?s0) = shown_after es ms"
    using save_run_latest [OF assms(1), of ?s0] s0 by simp
  with ok show ?thesis by (auto simp: unmount_state_def saving_ok_def)
qed

theorem unmount_saves_latest_witness:
  "\<exists>rest. saves (unmount_state (fold save_step [Updated [sample_message], SaveTimer, Updated []]
     (messages_loaded [] initial_save))) = [] # rest"
  using unmount_saves_latest [of "[Updated [sample_message], SaveTimer, Updated []]" "[]"] by simp

lemma control_cases:
  assumes "c \<in> set PLAYGROUND_PARAMETER_CONTROLS"
  obtains "c = PLAYGROUND_PARAMETER_CONTROLS ! 0" | "c = PLAYGROUND_PARAMETER_CONTROLS ! 1"
    | "c = PLAYGROUND_PARAMETER_CONTROLS ! 2" | "c = PLAYGROUND_PARAMETER_CONTROLS ! 3"
    | "c = PLAYGROUND_PARAMETER_CONTROLS ! 4" | "c = PLAYGROUND_PARAMETER_CONTROLS ! 5"
proof -
  from assms obtain i where "i < length PLAYGROUND_PARAMETER_CONTROLS"
    and i: "c = PLAYGROUND_PARAMETER_CONTROLS ! i" by (metis in_set_conv_nth)
  then have "i = 0 \<or> i = 1 \<or> i = 2 \<or> i = 3 \<or> i = 4 \<or> i = 5"
    by (auto simp: PLAYGROUND_PARAMETER_CONTROLS_def less_Suc_eq)
  with i that show thesis by blast
qed

text \<open>A parameter value that can be read as a number is brought into the range of its control.\<close>

lemma normalized_parameter_in_range:
  assumes "c \<in> set PLAYGROUND_PARAMETER_CONTROLS" and "v = NumberInput n \<or> (v = TextInput s \<and> s \<noteq> [] \<and> parse_float s = n)"
    and "n \<noteq> NaN"
  shows "\<exists>r. normalizeParameterNumberValue (control_key c) v = Some r \<and> control_min c \<le> r \<and> r \<le> control_max c"
proof -
  have ne: "v \<noteq> TextInput []" using assms(2) by blast
  have p: "(case v of NumberInput n \<Rightarrow> n | TextInput s \<Rightarrow> parse_float s) = n"
    using assms(2) by (metis parameter_input.simps(5,6))
  have f: "find (\<lambda>d. control_key d = control_key c) PLAYGROUND_PARAMETER_CONTROLS = Some c"
    using assms(1) by (elim control_cases) (simp_all add: PLAYGROUND_PARAMETER_CONTROLS_def)
  define x where "x = clamp (control_min c) (control_max c) n"
  have eq: "normalizeParameterNumberValue (control_key c) v =
      Some (if control_step c \<ge> 1 then trunc x else to_fixed1 x)"
    using ne assms(3) by (simp add: normalizeParameterNumberValue_def f p x_def Let_def)
  have lohi: "control_min c \<le> control_max c"
    using assms(1) by (elim control_cases) (simp_all add: PLAYGROUND_PARAMETER_CONTROLS_def)
  have x: "control_min c \<le> x" "x \<le> control_max c"
    using clamp_bounds [OF lohi, of n] by (simp_all add: x_def)
  consider "control_step c \<ge> 1" "control_min c = 0" "\<exists>hi. control_max c = of_int hi"
    | "\<not> control_step c \<ge> 1" "\<exists>lo hi. control_min c = of_int lo / 10 \<and> control_max c = of_int hi / 10"
  proof -
    have "(control_min c = 0 \<and> control_max c = of_int 200000 \<and> control_step c \<ge> 1) \<or>
        (control_min c = 0 \<and> control_max c = of_int 2147483647 \<and> control_step c \<ge> 1) \<or>
        (control_min c = of_int 1 / 10 \<and> control_max c = of_int 10 / 10 \<and> \<not> control_step c \<ge> 1) \<or>
        (control_min c = of_int (- 20) / 10 \<and> control_max c = of_int 20 / 10 \<and> \<not> control_step c \<ge> 1)"
      using assms(1) by (elim control_cases) (simp_all add: PLAYGROUND_PARAMETER_CONTROLS_def)
    then show thesis using that by blast
  qed
  then show ?thesis
  proof cases
    case 1
    then obtain hi where "control_max c = of_int hi" by blast
    with trunc_bounds [of x hi] x 1 show ?thesis by (simp add: eq)
  next
    case 2
    then obtain lo hi where "control_min c = of_int lo / 10" "control_max c = of_int hi / 10" by blast
    with to_fixed1_bounds [of lo x hi] x 2 show ?thesis by (simp add: eq)
  qed
qed

lemma normalized_parameter_in_range_witness:
  "\<exists>r. normalizeParameterNumberValue Temperature (NumberInput (Fin 7)) = Some r \<and> r \<le> 1"
proof -
  let ?c = "hd PLAYGROUND_PARAMETER_CONTROLS"
  have "?c \<in> set PLAYGROUND_PARAMETER_CONTROLS" and k: "control_key ?c = Temperature" and "control_max ?c = 1"
    by (simp_all add: PLAYGROUND_PARAMETER_CONTROLS_def)
  with normalized_parameter_in_range [of ?c "NumberInput (Fin 7)" "Fin 7" "[]"] show ?thesis
    by (auto simp: k)
qed

section \<open>Settings survive a reload\<close>

text \<open>Numbers that are finite and that JSON writes exactly.\<close>

fun written_exactly :: "js_number \<Rightarrow> bool" where
  "written_exactly (Fin r) = decimal r"
| "written_exactly _ = False"

definition storable_config :: "playground_config \<Rightarrow> bool" where
  "storable_config c \<longleftrightarrow> list_all written_exactly
     ([temperature c, top_p c, max_tokens c, frequency_penalty c, presence_penalty c] @
      (case seed c of None \<Rightarrow> [] | Some n \<Rightarrow> [n]))"

lemma written_exactly_Fin: "written_exactly n \<Longrightarrow> \<exists>r. n = Fin r \<and> decimal r"
  by (cases n) auto

lemma config_conforms:
  assumes "storable_config c"
  shows "conforms playgroundConfigSchema (encode_config c)" and "json_safe (encode_config c)"
  using assms
  by (auto simp: storable_config_def playgroundConfigSchema_def encode_config_def dest!: written_exactly_Fin
      split: option.splits)

lemma enabled_conforms:
  "conforms parameterEnabledSchema (encode_enabled e)" "json_safe (encode_enabled e)"
  by (simp_all add: parameterEnabledSchema_def encode_enabled_def)

lemma load_stored_object:
  assumes "accepts_conforming zparse" and "conforms sch (JObject kvs)" and "json_safe (JObject kvs)"
    and "map_of st k = Some (json_text (envelope (JObject kvs)))"
  shows "load_object zparse k sch st = JObject kvs"
proof -
  have "decimal STORAGE_VERSION" using decimal_int [of 1] by (simp add: STORAGE_VERSION_def)
  with assms(3) have "json_safe (envelope (JObject kvs))" by (simp add: envelope_def)
  then have "json_parse (json_text (envelope (JObject kvs))) = Some (envelope (JObject kvs))"
    by (rule json_round_trip)
  moreover have "json_text (envelope (JObject kvs)) \<noteq> []" by (simp add: envelope_def)
  ultimately have "readStoredValue k st = Inr (Some (envelope (JObject kvs)))"
    using assms(4) by (simp add: readStoredValue_def)
  moreover have "unwrapStoredValue (envelope (JObject kvs)) = JObject kvs"
    by (simp add: envelope_def unwrapStoredValue_def)
  ultimately show ?thesis
    using assms(1,2) by (simp add: load_object_def accepts_conforming_def envelope_def)
qed

lemma loaded_config:
  assumes "accepts_conforming zparse" and "storable_config c"
    and "map_of st CONFIG_KEY = Some (json_text (envelope (encode_config c)))"
  shows "getInitialPlaygroundConfig zparse st = c"
proof -
  have "loadConfig zparse st = encode_config c"
    using load_stored_object [OF assms(1) config_conforms [OF assms(2), unfolded encode_config_def], of st CONFIG_KEY]
      assms(3) by (simp add: loadConfig_def encode_config_def)
  then show ?thesis
    by (cases c) (simp add: getInitialPlaygroundConfig_def field_or_def get_opt_def nullish_def encode_config_def
        Let_def split: option.splits)
qed

lemma loaded_enabled:
  assumes "accepts_conforming zparse"
    and "map_of st PARAMETER_ENABLED_KEY = Some (json_text (envelope (encode_enabled e)))"
  shows "getInitialParameterEnabled zparse st = e"
proof -
  have "loadParameterEnabled zparse st = encode_enabled e"
    using load_stored_object [OF assms(1) enabled_conforms [of e, unfolded encode_enabled_def], of st PARAMETER_ENABLED_KEY]
      assms(2) by (simp add: loadParameterEnabled_def encode_enabled_def)
  then show ?thesis
    by (cases e) (simp add: getInitialParameterEnabled_def field_or_def get_opt_def nullish_def encode_enabled_def
        Let_def)
qed

lemma saved_entries:
  assumes "accepts_conforming zparse" and "\<forall>txt. fits txt"
  shows "storable_config c \<Longrightarrow>
      saveConfig zparse fits (encode_config c) st = AList.update CONFIG_KEY (json_text (envelope (encode_config c))) st"
    and "saveParameterEnabled zparse fits (encode_enabled e) st =
      AList.update PARAMETER_ENABLED_KEY (json_text (envelope (encode_enabled e))) st"
  using assms config_conforms(1) enabled_conforms(1)
  by (simp_all add: saveConfig_def saveParameterEnabled_def accepts_conforming_def writeStoredValue_def Let_def)

lemma distinct_keys [simp]:
  "CONFIG_KEY \<noteq> PARAMETER_ENABLED_KEY" "PARAMETER_ENABLED_KEY \<noteq> CONFIG_KEY"
  by (simp_all add: CONFIG_KEY_def PARAMETER_ENABLED_KEY_def)

lemma default_storable: "storable_config DEFAULT_CONFIG"
proof -
  have "decimal (7 / 10)" by code_simp
  moreover have "decimal 1" "decimal 4096" "decimal 0"
    using decimal_int [of 1] decimal_int [of 4096] decimal_int [of 0] by simp_all
  ultimately show ?thesis by (simp add: storable_config_def DEFAULT_CONFIG_def)
qed

text \<open>What every change of the settings keeps: the stored entries, where there are any, restore what is
  shown.\<close>

datatype settings_op = ChangeConfig config_update | ChangeEnabled parameter_key bool | Reset_Settings

fun settings_step :: "validator \<Rightarrow> (string \<Rightarrow> bool) \<Rightarrow> settings_op \<Rightarrow> settings \<Rightarrow> settings" where
  "settings_step zparse fits (ChangeConfig u) s = updateConfig zparse fits u s"
| "settings_step zparse fits (ChangeEnabled k b) s = updateParameterEnabled zparse fits k b s"
| "settings_step zparse fits Reset_Settings s = resetConfig zparse fits s"

fun storable_op :: "settings_op \<Rightarrow> bool" where
  "storable_op (ChangeConfig (SetTemperature n)) = written_exactly n"
| "storable_op (ChangeConfig (SetTopP n)) = written_exactly n"
| "storable_op (ChangeConfig (SetMaxTokens n)) = written_exactly n"
| "storable_op (ChangeConfig (SetFrequencyPenalty n)) = written_exactly n"
| "storable_op (ChangeConfig (SetPresencePenalty n)) = written_exactly n"
| "storable_op (ChangeConfig (SetSeed (Some n))) = written_exactly n"
| "storable_op _ = True"

definition settings_ok :: "validator \<Rightarrow> settings \<Rightarrow> bool" where
  "settings_ok zparse s \<longleftrightarrow> storable_config (config s) \<and>
     getInitialPlaygroundConfig zparse (local_storage s) = config s \<and>
     getInitialParameterEnabled zparse (local_storage s) = parameterEnabled s"

lemma set_config_storable:
  "storable_op (ChangeConfig u) \<Longrightarrow> storable_config c \<Longrightarrow> storable_config (set_config u c)"
  by (cases u rule: config_update.exhaust) (auto simp: storable_config_def split: option.splits)

lemma other_entry:
  "k \<noteq> CONFIG_KEY \<Longrightarrow> getInitialPlaygroundConfig zparse (AList.update k v st) = getInitialPlaygroundConfig zparse st"
  "k \<noteq> PARAMETER_ENABLED_KEY \<Longrightarrow>
     getInitialParameterEnabled zparse (AList.update k v st) = getInitialParameterEnabled zparse st"
  by (simp_all add: getInitialPlaygroundConfig_def getInitialParameterEnabled_def loadConfig_def
      loadParameterEnabled_def load_object_def readStoredValue_def update_conv)

lemma settings_step_ok:
  assumes "accepts_conforming zparse" and "\<forall>txt. fits txt" and "storable_op op" and "settings_ok zparse s"
  shows "settings_ok zparse (settings_step zparse fits op s)"
proof (cases op)
  case (ChangeConfig u)
  with assms(3,4) have c: "storable_config (set_config u (config s))"
    by (simp add: set_config_storable settings_ok_def)
  with ChangeConfig assms show ?thesis
    by (simp add: settings_ok_def updateConfig_def Let_def saved_entries other_entry update_conv
        loaded_config [OF assms(1) c])
next
  case (ChangeEnabled k b)
  with assms show ?thesis
    by (simp add: settings_ok_def updateParameterEnabled_def Let_def saved_entries other_entry update_conv
        loaded_enabled [OF assms(1), of _ "set_enabled k b (parameterEnabled s)"])
next
  case Reset_Settings
  with assms show ?thesis
    by (simp add: settings_ok_def resetConfig_def saved_entries other_entry update_conv default_storable
        loaded_config [OF assms(1) default_storable] loaded_enabled [OF assms(1), of _ DEFAULT_PARAMETER_ENABLED])
qed

lemma initial_settings_ok:
  "storable_config (getInitialPlaygroundConfig zparse st) \<Longrightarrow> settings_ok zparse (initial_settings zparse st)"
  by (simp add: settings_ok_def initial_settings_def)

text \<open>C14: whatever settings the user changes or resets, in whatever order, opening the page again shows
  exactly the settings that were shown last, provided the validator returns conforming values unchanged,
  the browser accepts the texts and the numbers are ones JSON writes exactly.\<close>

theorem settings_survive_reload:
  assumes "accepts_conforming zparse" and "\<forall>txt. fits txt" and "list_all storable_op ops"
    and "storable_config (getInitialPlaygroundConfig zparse st)"
  shows "let s = fold (settings_step zparse fits) ops (initial_settings zparse st) in
    initial_settings zparse (local_storage s) = s"
proof -
  have "settings_ok zparse (fold (settings_step zparse fits) ops s)" if "settings_ok zparse s" for s
    using assms(3) that
    by (induction ops arbitrary: s) (simp_all add: settings_step_ok [OF assms(1,2)])
  from this [OF initial_settings_ok [OF assms(4)]] show ?thesis
    by (simp add: Let_def settings_ok_def initial_settings_def)
qed

theorem settings_survive_reload_witness:
  "let s = fold (settings_step sample_validator (\<lambda>_. True)) [ChangeConfig (SetModel ''m''), ChangeEnabled Seed True]
      (initial_settings sample_validator []) in initial_settings sample_validator (local_storage s) = s"
proof -
  have "getInitialPlaygroundConfig sample_validator [] = DEFAULT_CONFIG"
    by (simp add: getInitialPlaygroundConfig_def loadConfig_def load_object_def readStoredValue_def field_or_def
        get_opt_def nullish_def Let_def)
  then show ?thesis
    using settings_survive_reload [OF sample_validator_accepts, of "\<lambda>_. True"
        "[ChangeConfig (SetModel ''m''), ChangeEnabled Seed True]" "[]"] default_storable by simp
qed

end
