(* ===== verification/Status_Code_Rules.thy ===== *)
theory Status_Code_Rules
  imports Interfaces Json "HOL-Library.Product_Lexorder"
begin

text \<open>
  The status code rules of the routing settings (\<^verbatim>\<open>web/src/lib/http-status-code-rules.ts\<close>): a list of
  codes and ranges typed by an administrator, parsed, merged and printed again.  The separators include
  the full-width comma (code unit 65292), so the text is a list of code units as natural numbers here.
  \<^verbatim>\<open>Number.parseInt\<close> of a digit string is its exact value: a value large enough to be rounded is
  rejected as out of range either way.
\<close>

section \<open>Definitions\<close>

record StatusCodeRange =
  range_start :: nat
  range_end :: nat

record ParsedHttpStatusCodeRules =
  rules_ok :: bool
  ranges :: "StatusCodeRange list"
  tokens :: "nat list list"
  normalized :: "nat list"
  invalidTokens :: "nat list list"

definition units :: "string \<Rightarrow> nat list" where
  "units s = map of_char s"

text \<open>The white space of \<^verbatim>\<open>trim\<close> and of \<^verbatim>\<open>\s\<close>.\<close>

definition unit_space :: "nat \<Rightarrow> bool" where
  "unit_space c \<longleftrightarrow> 9 \<le> c \<and> c \<le> 13 \<or> c = 32 \<or> c = 160 \<or> c = 5760 \<or> 8192 \<le> c \<and> c \<le> 8202 \<or>
     c = 8232 \<or> c = 8233 \<or> c = 8239 \<or> c = 8287 \<or> c = 12288 \<or> c = 65279"

definition unit_trim :: "nat list \<Rightarrow> nat list" where
  "unit_trim s = rev (dropWhile unit_space (rev (dropWhile unit_space s)))"

definition unit_digit :: "nat \<Rightarrow> bool" where
  "unit_digit c \<longleftrightarrow> 48 \<le> c \<and> c \<le> 57"

definition unit_val :: "nat list \<Rightarrow> nat" where
  "unit_val s = foldl (\<lambda>a c. 10 * a + (c - 48)) 0 s"

definition isNumber :: "nat list \<Rightarrow> bool" where
  "isNumber s \<longleftrightarrow> s \<noteq> [] \<and> list_all unit_digit s"

definition isValidCode :: "nat \<Rightarrow> bool" where
  "isValidCode code \<longleftrightarrow> 100 \<le> code \<and> code \<le> 599"

definition parseToken :: "nat list \<Rightarrow> StatusCodeRange option" where
  "parseToken token =
     (let cleaned = filter (\<lambda>c. \<not> unit_space c) (unit_trim token) in
      if cleaned = [] then None
      else if 45 \<in> set cleaned then
        (let parts = split_on 45 cleaned; a = parts ! 0; b = parts ! 1 in
         if \<not> isNumber a \<or> \<not> isNumber b then None
         else let start = unit_val a; stop = unit_val b in
           if \<not> isValidCode start \<or> \<not> isValidCode stop \<or> start > stop then None
           else Some \<lparr>range_start = start, range_end = stop\<rparr>)
      else if \<not> isNumber cleaned then None
      else let code = unit_val cleaned in
        if \<not> isValidCode code then None else Some \<lparr>range_start = code, range_end = code\<rparr>)"

definition merge_into :: "StatusCodeRange list \<Rightarrow> StatusCodeRange \<Rightarrow> StatusCodeRange list" where
  "merge_into merged current =
     (if merged = [] \<or> range_start current > range_end (last merged) + 1 then merged @ [current]
      else butlast merged @
        [(last merged)\<lparr>range_end := max (range_end (last merged)) (range_end current)\<rparr>])"

definition mergeRanges :: "StatusCodeRange list \<Rightarrow> StatusCodeRange list" where
  "mergeRanges rs =
     (if rs = [] then [] else foldl merge_into [] (sort_key (\<lambda>r. (range_start r, range_end r)) rs))"

definition range_token :: "StatusCodeRange \<Rightarrow> nat list" where
  "range_token r =
     (if range_start r = range_end r then units (nat_digits (range_start r))
      else units (nat_digits (range_start r)) @ [45] @ units (nat_digits (range_end r)))"

text \<open>The argument is \<^verbatim>\<open>(input ?? '').toString()\<close>.\<close>

definition rule_segments :: "nat list \<Rightarrow> nat list list" where
  "rule_segments raw =
     filter (\<lambda>s. s \<noteq> []) (map unit_trim (split_on 44 (map (\<lambda>c. if c = 65292 then 44 else c) raw)))"

definition parseHttpStatusCodeRules :: "nat list \<Rightarrow> ParsedHttpStatusCodeRules" where
  "parseHttpStatusCodeRules input =
     (let raw = unit_trim input in
      if raw = [] then
        \<lparr>rules_ok = True, ranges = [], tokens = [], normalized = [], invalidTokens = []\<rparr>
      else
        let segments = rule_segments raw;
            parsed = List.map_filter parseToken segments;
            invalid = filter (\<lambda>s. parseToken s = None) segments
        in if invalid \<noteq> [] then
             \<lparr>rules_ok = False, ranges = [], tokens = [], normalized = raw, invalidTokens = invalid\<rparr>
           else
             let merged = mergeRanges parsed; toks = map range_token merged in
             \<lparr>rules_ok = True, ranges = merged, tokens = toks, normalized = join [44] toks,
              invalidTokens = []\<rparr>)"

section \<open>Ranges as sets of codes\<close>

definition codes :: "StatusCodeRange list \<Rightarrow> nat set" where
  "codes rs = (\<Union>r \<in> set rs. {range_start r..range_end r})"

text \<open>The normal form: ascending ranges with at least one code missing between any two.\<close>

definition separated :: "StatusCodeRange list \<Rightarrow> bool" where
  "separated rs \<longleftrightarrow> sorted_wrt (\<lambda>r s. range_end r + 1 < range_start s) rs"

definition valid_range :: "StatusCodeRange \<Rightarrow> bool" where
  "valid_range r \<longleftrightarrow> isValidCode (range_start r) \<and> isValidCode (range_end r) \<and> range_start r \<le> range_end r"

lemma codes_simps [simp]:
  "codes [] = {}" "codes (r # rs) = {range_start r..range_end r} \<union> codes rs"
  "codes (rs @ ss) = codes rs \<union> codes ss"
  by (auto simp: codes_def)

lemma parseToken_valid: "parseToken s = Some r \<Longrightarrow> valid_range r"
  by (auto simp: parseToken_def valid_range_def Let_def split: if_splits)

text \<open>One step: the last range is the only one the current one can touch.\<close>

lemma merge_into_codes:
  assumes "merged = [] \<or> range_start (last merged) \<le> range_start r" and "range_start r \<le> range_end r"
  shows "codes (merge_into merged r) = codes merged \<union> {range_start r..range_end r}"
proof (cases "merged = [] \<or> range_start r > range_end (last merged) + 1")
  case True
  then show ?thesis by (auto simp: merge_into_def)
next
  case False
  then obtain ms l where m: "merged = ms @ [l]" by (metis append_butlast_last_id)
  with False assms show ?thesis by (auto simp: merge_into_def)
qed

lemma merge_into_normal:
  assumes "separated merged" and "list_all valid_range merged" and "valid_range r"
    and "merged = [] \<or> range_start (last merged) \<le> range_start r"
  shows "separated (merge_into merged r) \<and> list_all valid_range (merge_into merged r) \<and>
    merge_into merged r \<noteq> [] \<and> range_start (last (merge_into merged r)) \<le> range_start r"
proof (cases merged rule: rev_cases)
  case Nil
  with assms show ?thesis by (simp add: merge_into_def separated_def)
next
  case (snoc ms l)
  show ?thesis
  proof (cases "range_start r > range_end l + 1")
    case True
    have "range_end q + 1 < range_start r" if "q \<in> set ms" for q
    proof -
      from that assms(1) snoc have "range_end q + 1 < range_start l"
        by (auto simp: separated_def sorted_wrt_append)
      moreover from assms(2) snoc have "range_start l \<le> range_end l" by (simp add: valid_range_def)
      ultimately show ?thesis using True by linarith
    qed
    with True snoc assms show ?thesis
      by (auto simp: merge_into_def separated_def sorted_wrt_append valid_range_def)
  next
    case False
    with snoc assms show ?thesis
      by (auto simp: merge_into_def separated_def sorted_wrt_append valid_range_def isValidCode_def)
  qed
qed

lemma merge_fold:
  assumes "separated merged" and "list_all valid_range merged" and "list_all valid_range rs"
    and "sorted (map range_start rs)" and "merged = [] \<or> (\<forall>r \<in> set rs. range_start (last merged) \<le> range_start r)"
  shows "separated (foldl merge_into merged rs) \<and> list_all valid_range (foldl merge_into merged rs) \<and>
    codes (foldl merge_into merged rs) = codes merged \<union> codes rs"
  using assms
proof (induction rs arbitrary: merged)
  case Nil
  then show ?case by simp
next
  case (Cons r rs)
  have le: "merged = [] \<or> range_start (last merged) \<le> range_start r" using Cons.prems(5) by auto
  have v: "valid_range r" using Cons.prems(3) by simp
  note n = merge_into_normal [OF Cons.prems(1,2) v le]
  have "\<forall>s \<in> set rs. range_start (last (merge_into merged r)) \<le> range_start s"
    using n Cons.prems(4) by fastforce
  with n Cons.prems(3,4) Cons.IH [of "merge_into merged r"]
  have "separated (foldl merge_into (merge_into merged r) rs) \<and>
      list_all valid_range (foldl merge_into (merge_into merged r) rs) \<and>
      codes (foldl merge_into (merge_into merged r) rs) = codes (merge_into merged r) \<union> codes rs" by simp
  moreover have "range_start r \<le> range_end r" using v by (simp add: valid_range_def)
  ultimately show ?case by (simp add: merge_into_codes [OF le] Un_assoc)
qed

lemma sorted_starts: "sorted (map range_start (sort_key (\<lambda>r. (range_start r, range_end r)) rs))"
proof -
  have "sorted (map (\<lambda>r. (range_start r, range_end r)) (sort_key (\<lambda>r. (range_start r, range_end r)) rs))"
    by (rule sorted_sort_key)
  then have "sorted_wrt (\<lambda>r s. (range_start r, range_end r) \<le> (range_start s, range_end s))
      (sort_key (\<lambda>r. (range_start r, range_end r)) rs)"
    by (simp add: sorted_map)
  then show ?thesis unfolding sorted_map by (rule sorted_wrt_mono_rel [rotated]) auto
qed

lemma mergeRanges_spec:
  assumes "list_all valid_range rs"
  shows "separated (mergeRanges rs)" "list_all valid_range (mergeRanges rs)" "codes (mergeRanges rs) = codes rs"
proof -
  let ?s = "sort_key (\<lambda>r. (range_start r, range_end r)) rs"
  have "list_all valid_range ?s" using assms by (simp add: list_all_iff)
  from merge_fold [of "[]" ?s, OF _ _ this sorted_starts]
  have "separated (foldl merge_into [] ?s) \<and> list_all valid_range (foldl merge_into [] ?s) \<and>
      codes (foldl merge_into [] ?s) = codes ?s" by (simp add: separated_def)
  moreover have "codes ?s = codes rs" by (simp add: codes_def)
  ultimately show "separated (mergeRanges rs)" "list_all valid_range (mergeRanges rs)" "codes (mergeRanges rs) = codes rs"
    by (auto simp: mergeRanges_def separated_def)
qed

text \<open>Merging what is merged.\<close>

lemma merge_separated:
  "separated (ms @ rs) \<Longrightarrow> foldl merge_into ms rs = ms @ rs"
proof (induction rs arbitrary: ms)
  case Nil
  then show ?case by simp
next
  case (Cons r rs)
  then have "merge_into ms r = ms @ [r]"
    by (cases ms rule: rev_cases) (auto simp: merge_into_def separated_def sorted_wrt_append)
  with Cons show ?case by simp
qed

lemma mergeRanges_id:
  assumes "separated rs" and "list_all valid_range rs"
  shows "mergeRanges rs = rs"
proof -
  have "sorted_wrt (\<lambda>r s. (range_start r, range_end r) \<le> (range_start s, range_end s)) rs"
    using assms
  proof (induction rs)
    case Nil
    then show ?case by simp
  next
    case (Cons r rs)
    have "range_start r \<le> range_end r" using Cons.prems(2) by (simp add: valid_range_def)
    moreover have "range_end r + 1 < range_start q" if "q \<in> set rs" for q
      using Cons.prems(1) that by (simp add: separated_def)
    ultimately have "range_start r < range_start q" if "q \<in> set rs" for q
      using that by (meson add_lessD1 le_less_trans)
    then have "\<forall>q \<in> set rs. (range_start r, range_end r) \<le> (range_start q, range_end q)" by simp
    with Cons show ?case by (simp add: separated_def)
  qed
  then have "sorted (map (\<lambda>r. (range_start r, range_end r)) rs)" by (simp only: sorted_map)
  then have "sort_key (\<lambda>r. (range_start r, range_end r)) rs = rs"
    by (metis sort_key_id_if_sorted)
  with merge_separated [of "[]" rs] assms(1) show ?thesis by (simp add: mergeRanges_def)
qed

section \<open>Printed ranges are read back\<close>

lemma unit_trim_id: "list_all (\<lambda>c. \<not> unit_space c) s \<Longrightarrow> unit_trim s = s"
proof -
  have "dropWhile unit_space t = t" if "list_all (\<lambda>c. \<not> unit_space c) t" for t
    using that by (cases t) auto
  then show "list_all (\<lambda>c. \<not> unit_space c) s \<Longrightarrow> unit_trim s = s"
    by (simp add: unit_trim_def list_all_rev)
qed

lemma unit_trim_ends:
  "s = [] \<or> (\<not> unit_space (hd s) \<and> \<not> unit_space (last s)) \<Longrightarrow> unit_trim s = s"
proof -
  assume a: "s = [] \<or> (\<not> unit_space (hd s) \<and> \<not> unit_space (last s))"
  then have "dropWhile unit_space s = s" by (cases s) auto
  moreover have "dropWhile unit_space (rev s) = rev s"
    using a by (cases s rule: rev_cases) auto
  ultimately show ?thesis by (simp add: unit_trim_def)
qed

lemma unit_trim_idem [simp]: "unit_trim (unit_trim s) = unit_trim s"
proof (rule unit_trim_ends)
  define t where "t = dropWhile unit_space s"
  have u: "unit_trim s = rev (dropWhile unit_space (rev t))" by (simp add: unit_trim_def t_def)
  show "unit_trim s = [] \<or> (\<not> unit_space (hd (unit_trim s)) \<and> \<not> unit_space (last (unit_trim s)))"
  proof (cases "unit_trim s = []")
    case False
    then have ne: "dropWhile unit_space (rev t) \<noteq> []" by (simp add: u)
    then have "\<not> unit_space (last (unit_trim s))" by (simp add: u last_rev hd_dropWhile)
    moreover have "t \<noteq> []" using ne by auto
    then have "\<not> unit_space (hd t)" by (simp add: t_def hd_dropWhile)
    moreover have "hd (unit_trim s) = hd t"
    proof -
      have "rev t = takeWhile unit_space (rev t) @ dropWhile unit_space (rev t)" by simp
      then have "t = rev (dropWhile unit_space (rev t)) @ rev (takeWhile unit_space (rev t))"
        by (metis rev_append rev_rev_ident)
      with ne show ?thesis unfolding u by (metis hd_append2 rev_is_Nil_conv)
    qed
    ultimately show ?thesis by simp
  qed simp
qed

lemma is_digit_unit: "is_digit c \<longleftrightarrow> unit_digit (of_char c)"
  by (simp add: is_digit_def unit_digit_def)

lemma unit_val_units: "unit_val (units s) = digits_val s"
proof -
  have "foldl (\<lambda>a c. 10 * a + (c - 48)) n (map of_char s) = foldl (\<lambda>a c. 10 * a + digit_val c) n s" for n :: nat
    by (induction s arbitrary: n) (simp_all add: digit_val_def)
  then show ?thesis by (simp add: unit_val_def units_def digits_val_def)
qed

lemma isNumber_digits [simp]: "isNumber (units (nat_digits n))"
  using nat_digits_digits [of n] by (simp add: isNumber_def units_def list_all_iff is_digit_unit)

lemma number_units: "isNumber s \<Longrightarrow> c \<in> set s \<Longrightarrow> unit_digit c"
  by (simp add: isNumber_def list_all_iff)

lemma digit_not_space: "unit_digit c \<Longrightarrow> \<not> unit_space c"
  by (auto simp: unit_digit_def unit_space_def)

lemma token_units: "c \<in> set (range_token r) \<Longrightarrow> unit_digit c \<or> c = 45"
  using number_units [OF isNumber_digits] by (auto simp: range_token_def split: if_splits)

lemma token_not_Nil: "range_token r \<noteq> []"
  by (simp add: range_token_def units_def)

lemma token_no_space: "list_all (\<lambda>c. \<not> unit_space c) (range_token r)"
  unfolding list_all_iff using token_units digit_not_space by (fastforce simp: unit_space_def)

lemma units_not_Nil [simp]: "units (nat_digits n) \<noteq> []"
  by (simp add: units_def)

lemma dash_not_digit: "45 \<notin> set (units (nat_digits n))"
  using number_units [OF isNumber_digits [of n], of 45] by (auto simp: unit_digit_def)

lemma parse_range_token:
  assumes "valid_range r"
  shows "parseToken (range_token r) = Some r"
proof -
  have clean: "filter (\<lambda>c. \<not> unit_space c) (unit_trim (range_token r)) = range_token r"
    using token_no_space [of r] by (simp add: unit_trim_id filter_id_conv list_all_iff)
  show ?thesis
  proof (cases "range_start r = range_end r")
    case True
    with assms clean dash_not_digit show ?thesis
      by (cases r) (simp add: parseToken_def token_not_Nil range_token_def unit_val_units valid_range_def Let_def)
  next
    case False
    have "split_on 45 (range_token r) = [units (nat_digits (range_start r)), units (nat_digits (range_end r))]"
      using False dash_not_digit by (simp add: range_token_def split_on_append split_on_none)
    with False assms clean show ?thesis
      by (cases r) (simp add: parseToken_def token_not_Nil unit_val_units valid_range_def Let_def, simp add: range_token_def)
  qed
qed

lemma join_token_units:
  "c \<in> set (join [44] (map range_token rs)) \<Longrightarrow> unit_digit c \<or> c = 45 \<or> c = 44"
proof (induction rs rule: induct_list012)
  case (3 r s rs)
  then show ?case using token_units by (auto dest: token_units)
qed (auto dest: token_units)

lemma segments_of_tokens:
  assumes "rs \<noteq> []"
  shows "rule_segments (join [44] (map range_token rs)) = map range_token rs"
    and "unit_trim (join [44] (map range_token rs)) = join [44] (map range_token rs)"
    and "join [44] (map range_token rs) \<noteq> []"
proof -
  let ?t = "join [44] (map range_token rs)"
  have ascii: "\<not> unit_space c \<and> c \<noteq> 65292" if "c \<in> set ?t" for c
    using join_token_units [OF that] by (auto simp: unit_digit_def unit_space_def)
  then show "unit_trim ?t = ?t" by (intro unit_trim_id) (auto simp: list_all_iff)
  have "map (\<lambda>c. if c = 65292 then 44 else c) ?t = ?t" using ascii by (intro map_idI) auto
  moreover have "split_on 44 ?t = map range_token rs"
  proof (rule split_on_join)
    show "map range_token rs \<noteq> []" using assms by simp
    show "\<forall>x \<in> set (map range_token rs). 44 \<notin> set x"
      by (auto dest!: token_units simp: unit_digit_def)
  qed
  moreover have "map unit_trim (map range_token rs) = map range_token rs"
    by (simp add: unit_trim_id token_no_space)
  ultimately show "rule_segments ?t = map range_token rs"
    by (simp add: rule_segments_def filter_id_conv token_not_Nil)
  show "?t \<noteq> []" using assms token_not_Nil by (cases rs; cases "tl rs") auto
qed

lemma all_tokens_valid: "list_all valid_range (List.map_filter parseToken segs)"
  by (induction segs) (auto simp: List.map_filter_simps parseToken_valid split: option.splits)

lemma codes_parsed: "codes (List.map_filter parseToken segs) = (\<Union>s \<in> set segs. case parseToken s of
    Some r \<Rightarrow> {range_start r..range_end r} | None \<Rightarrow> {})"
  by (induction segs) (auto simp: List.map_filter_simps split: option.splits)

text \<open>Evaluation of samples.\<close>

lemmas units_eval = units_def unit_trim_def unit_space_def unit_digit_def isNumber_def unit_val_def isValidCode_def

lemma sample_segments:
  "unit_trim (units ''500-503, 504,429'') = units ''500-503, 504,429''"
  "rule_segments (units ''500-503, 504,429'') = [units ''500-503'', units ''504'', units ''429'']"
  "unit_trim (units ''200-299-999'') = units ''200-299-999''"
  "rule_segments (units ''200-299-999'') = [units ''200-299-999'']"
  by (simp_all add: units_eval rule_segments_def)

lemma sample_tokens:
  "parseToken (units ''500-503'') = Some \<lparr>range_start = 500, range_end = 503\<rparr>"
  "parseToken (units ''504'') = Some \<lparr>range_start = 504, range_end = 504\<rparr>"
  "parseToken (units ''429'') = Some \<lparr>range_start = 429, range_end = 429\<rparr>"
  "parseToken (units ''200-299-999'') = Some \<lparr>range_start = 200, range_end = 299\<rparr>"
  by (simp_all add: units_eval parseToken_def)

lemma sample_result:
  "parseHttpStatusCodeRules (units ''500-503, 504,429'') =
     (let rs = mergeRanges [\<lparr>range_start = 500, range_end = 503\<rparr>, \<lparr>range_start = 504, range_end = 504\<rparr>,
        \<lparr>range_start = 429, range_end = 429\<rparr>] in
      \<lparr>rules_ok = True, ranges = rs, tokens = map range_token rs,
       normalized = join [44] (map range_token rs), invalidTokens = []\<rparr>)"
proof -
  have "units ''500-503, 504,429'' \<noteq> []" by (simp add: units_def)
  then show ?thesis
    by (simp add: parseHttpStatusCodeRules_def sample_segments sample_tokens List.map_filter_simps Let_def)
qed

section \<open>Properties\<close>

text \<open>C16: accepted rules come out as ascending ranges of valid codes with a gap between any two, and
  these ranges contain exactly the codes the segments of the input name.\<close>

theorem status_codes_normal_form:
  assumes "rules_ok (parseHttpStatusCodeRules input)"
  shows "separated (ranges (parseHttpStatusCodeRules input)) \<and>
    list_all valid_range (ranges (parseHttpStatusCodeRules input)) \<and>
    codes (ranges (parseHttpStatusCodeRules input)) =
      (\<Union>s \<in> set (rule_segments (unit_trim input)). case parseToken s of
         Some r \<Rightarrow> {range_start r..range_end r} | None \<Rightarrow> {})"
proof (cases "unit_trim input = []")
  case True
  then show ?thesis
    by (simp add: parseHttpStatusCodeRules_def separated_def rule_segments_def) (simp add: unit_trim_def)
next
  case False
  with assms have "ranges (parseHttpStatusCodeRules input) =
      mergeRanges (List.map_filter parseToken (rule_segments (unit_trim input)))"
    by (simp add: parseHttpStatusCodeRules_def Let_def split: if_splits)
  with mergeRanges_spec [OF all_tokens_valid] show ?thesis by (simp add: codes_parsed)
qed

theorem status_codes_normal_form_witness:
  "let p = parseHttpStatusCodeRules (units ''500-503, 504,429'') in
   separated (ranges p) \<and> codes (ranges p) = {429} \<union> {500..504}"
proof -
  define p where "p = parseHttpStatusCodeRules (units ''500-503, 504,429'')"
  have ok: "rules_ok p" and r: "ranges p =
      [\<lparr>range_start = 429, range_end = 429\<rparr>, \<lparr>range_start = 500, range_end = 504\<rparr>]"
    unfolding p_def by (simp_all add: sample_result Let_def mergeRanges_def merge_into_def)
  have "separated (ranges p)" using status_codes_normal_form [OF ok [unfolded p_def]] by (simp add: p_def)
  with r show ?thesis unfolding p_def [symmetric] by simp
qed

text \<open>The text shown after normalisation.\<close>

definition normalise_rules :: "nat list \<Rightarrow> nat list" where
  "normalise_rules s = normalized (parseHttpStatusCodeRules s)"

lemma parse_normalized:
  "parseHttpStatusCodeRules (normalise_rules input) = parseHttpStatusCodeRules input"
proof (cases "unit_trim input = []")
  case True
  have "unit_trim [] = []" by (simp add: unit_trim_def)
  with True show ?thesis by (simp add: normalise_rules_def parseHttpStatusCodeRules_def)
next
  case raw: False
  define segs where "segs = rule_segments (unit_trim input)"
  show ?thesis
  proof (cases "filter (\<lambda>s. parseToken s = None) segs = []")
    case False
    then show ?thesis
      using raw by (simp add: normalise_rules_def parseHttpStatusCodeRules_def Let_def segs_def)
  next
    case True
    define rs where "rs = mergeRanges (List.map_filter parseToken segs)"
    have p: "parseHttpStatusCodeRules input = \<lparr>rules_ok = True, ranges = rs, tokens = map range_token rs,
        normalized = join [44] (map range_token rs), invalidTokens = []\<rparr>"
      using raw True by (simp add: parseHttpStatusCodeRules_def Let_def segs_def rs_def)
    have nf: "separated rs" "list_all valid_range rs"
      using mergeRanges_spec [OF all_tokens_valid] by (simp_all add: rs_def)
    show ?thesis
    proof (cases "rs = []")
      case True
      then show ?thesis unfolding normalise_rules_def p
        by (simp add: parseHttpStatusCodeRules_def unit_trim_def)
    next
      case False
      note t = segments_of_tokens [OF False]
      have "List.map_filter parseToken (map range_token rs) = rs"
        using nf(2) by (induction rs) (simp_all add: List.map_filter_simps parse_range_token)
      moreover have "filter (\<lambda>s. parseToken s = None) (map range_token rs) = []"
        using nf(2) by (auto simp: filter_empty_conv list_all_iff parse_range_token)
      ultimately show ?thesis unfolding normalise_rules_def p
        by (simp add: parseHttpStatusCodeRules_def t Let_def mergeRanges_id [OF nf])
    qed
  qed
qed

interpretation rules: normaliser normalise_rules
proof
  show "normalise_rules (normalise_rules s) = normalise_rules s" for s
    using parse_normalized [of s] by (simp add: normalise_rules_def)
qed

text \<open>C17: the normalised text is read back to the same result, for accepted and for rejected input, so
  normalising it again any number of times changes nothing.\<close>

theorem status_rules_round_trip:
  "parseHttpStatusCodeRules (normalized (parseHttpStatusCodeRules input)) = parseHttpStatusCodeRules input \<and>
   (normalise_rules ^^ Suc n) input = normalise_rules input"
  using parse_normalized rules.iterate unfolding normalise_rules_def by blast

text \<open>Only the first two parts of a range are read, so further parts are dropped silently.\<close>

lemma extra_range_parts_ignored:
  "normalized (parseHttpStatusCodeRules (units ''200-299-999'')) = units ''200-299''"
proof -
  have "units ''200-299-999'' \<noteq> []" by (simp add: units_def)
  moreover have "range_token \<lparr>range_start = 200, range_end = 299\<rparr> = units ''200-299''"
    by (simp add: range_token_def units_def nat_digits.simps digit_def)
  ultimately show ?thesis
    by (simp add: parseHttpStatusCodeRules_def sample_segments sample_tokens List.map_filter_simps Let_def
        mergeRanges_def merge_into_def)
qed

end
