(* ===== verification/Flow.thy ===== *)
theory Flow
  imports Interfaces Js_Coercion
begin

text \<open>
  The usage flow of the dashboard, first part (\<^verbatim>\<open>web/src/features/dashboard/lib/flow.ts\<close>, lines 38 to
  625): the rows of usage, the path a row takes through the visible stages, the filters on rows and the
  limit on the number of nodes per stage.

  A label is a text or the mask of four bullets, whose code units are above 255.  The collation
  \<^verbatim>\<open>localeCompare\<close>, the number format of \<^verbatim>\<open>Intl\<close> and the colour scheme of the chart library are fields
  of an environment.  Quantities are exact: the rounding of sums of doubles is left out.
\<close>

section \<open>Data\<close>

datatype FlowNodeKind = UserKind | NodeKind | TokenKind | GroupKind | ModelKind | ChannelKind

datatype FlowMetric = QuotaMetric | TokensMetric | RequestsMetric

datatype FlowRole = RoleUser | RoleAdmin | RoleRoot

datatype FlowOverflowMode = Aggregate | Hide

datatype flow_label = Text string | MaskText

record FlowQuotaDataItem =
  row_user_id :: js_value
  row_username :: "string option"
  row_node_name :: "string option"
  row_use_group :: "string option"
  row_token_id :: js_value
  row_token_name :: "string option"
  row_channel_id :: js_value
  row_channel_name :: "string option"
  row_model_name :: "string option"
  row_token_used :: js_value
  row_count :: js_value
  row_quota :: js_value

record FlowMetrics =
  m_quota :: rat
  m_tokens :: rat
  m_requests :: rat

record FlowPathNode =
  p_id :: string
  p_label :: flow_label
  p_kind :: FlowNodeKind

record PreparedFlowPath =
  p_path :: "FlowPathNode list"
  p_metrics :: FlowMetrics

record FlowNodeFilter =
  f_kind :: FlowNodeKind
  f_id :: string

record FlowLinkSelection =
  s_source :: string
  s_target :: string

record flow_env =
  localeCompare :: "flow_label \<Rightarrow> flow_label \<Rightarrow> rat"
  formatNumber :: "rat \<Rightarrow> string"
  dataScheme :: "(nat option \<times> string option list) list"

text \<open>\<^verbatim>\<open>FlowPathContext\<close>: how to name a deleted token.\<close>

type_synonym FlowPathContext = "(rat \<Rightarrow> string) option"

section \<open>Constants\<close>

fun kind_name :: "FlowNodeKind \<Rightarrow> string" where
  "kind_name UserKind = ''user''"
| "kind_name NodeKind = ''node''"
| "kind_name TokenKind = ''token''"
| "kind_name GroupKind = ''group''"
| "kind_name ModelKind = ''model''"
| "kind_name ChannelKind = ''channel''"

definition FLOW_NODE_KINDS :: "FlowNodeKind list" where
  "FLOW_NODE_KINDS = [UserKind, NodeKind, TokenKind, GroupKind, ModelKind, ChannelKind]"

fun OTHER_FLOW_NODE_IDS :: "FlowNodeKind \<Rightarrow> string" where
  "OTHER_FLOW_NODE_IDS UserKind = ''user:__other__''"
| "OTHER_FLOW_NODE_IDS NodeKind = ''node:__other__''"
| "OTHER_FLOW_NODE_IDS TokenKind = ''token:__other__''"
| "OTHER_FLOW_NODE_IDS GroupKind = ''group:__other__''"
| "OTHER_FLOW_NODE_IDS ModelKind = ''model:__other__''"
| "OTHER_FLOW_NODE_IDS ChannelKind = ''channel:__other__''"

fun DEFAULT_OTHER_FLOW_NODE_LABELS :: "FlowNodeKind \<Rightarrow> string" where
  "DEFAULT_OTHER_FLOW_NODE_LABELS UserKind = ''Other users''"
| "DEFAULT_OTHER_FLOW_NODE_LABELS NodeKind = ''Other nodes''"
| "DEFAULT_OTHER_FLOW_NODE_LABELS TokenKind = ''Other tokens''"
| "DEFAULT_OTHER_FLOW_NODE_LABELS GroupKind = ''Other groups''"
| "DEFAULT_OTHER_FLOW_NODE_LABELS ModelKind = ''Other models''"
| "DEFAULT_OTHER_FLOW_NODE_LABELS ChannelKind = ''Other channels''"

definition SENSITIVE_FLOW_KINDS :: "FlowNodeKind list" where
  "SENSITIVE_FLOW_KINDS = [UserKind, NodeKind, TokenKind, GroupKind, ChannelKind]"

definition OTHER_FLOW_NODE_ID_SET :: "string list" where
  "OTHER_FLOW_NODE_ID_SET = map OTHER_FLOW_NODE_IDS FLOW_NODE_KINDS"

definition DEFAULT_FLOW_CHART_COLOR :: string where
  "DEFAULT_FLOW_CHART_COLOR = ''#1664FF''"

section \<open>Rows and their paths\<close>

definition numberValue :: "js_value \<Rightarrow> rat" where
  "numberValue v = finite_or_zero (to_number v)"

definition isFlowNodeKind :: "js_value \<Rightarrow> FlowNodeKind option" where
  "isFlowNodeKind v =
     (case v of JString s \<Rightarrow> find (\<lambda>k. kind_name k = s) FLOW_NODE_KINDS | _ \<Rightarrow> None)"

definition rowMetrics :: "FlowQuotaDataItem \<Rightarrow> FlowMetrics" where
  "rowMetrics row = \<lparr>m_quota = numberValue (row_quota row), m_tokens = numberValue (row_token_used row),
     m_requests = numberValue (row_count row)\<rparr>"

fun metricValue :: "FlowMetrics \<Rightarrow> FlowMetric \<Rightarrow> rat" where
  "metricValue ms RequestsMetric = m_requests ms"
| "metricValue ms TokensMetric = m_tokens ms"
| "metricValue ms QuotaMetric = m_quota ms"

definition num_text :: "rat \<Rightarrow> string" where
  "num_text r = number_text (Fin r)"

definition userNode :: "FlowQuotaDataItem \<Rightarrow> FlowPathNode" where
  "userNode row =
     (let userID = numberValue (row_user_id row) in
      \<lparr>p_id = ''user:'' @ (if userID > 0 then num_text userID else or_text (row_username row) ''unknown''),
       p_label = Text (or_text (row_username row)
         (if userID > 0 then ''user-'' @ num_text userID else ''Unknown User'')),
       p_kind = UserKind\<rparr>)"

definition nodeNameNode :: "FlowQuotaDataItem \<Rightarrow> FlowPathNode" where
  "nodeNameNode row =
     (let nodeName = or_text (row_node_name row) ''default-node'' in
      \<lparr>p_id = ''node:'' @ nodeName, p_label = Text nodeName, p_kind = NodeKind\<rparr>)"

definition deletedTokenLabel :: "rat \<Rightarrow> FlowPathContext \<Rightarrow> string" where
  "deletedTokenLabel tokenID ctx =
     (if tokenID \<le> 0 then ''Unknown Token''
      else (case ctx of Some f \<Rightarrow> f tokenID | None \<Rightarrow> ''token-'' @ num_text tokenID))"

definition tokenNode :: "FlowQuotaDataItem \<Rightarrow> FlowPathContext \<Rightarrow> FlowPathNode" where
  "tokenNode row ctx =
     (let tokenID = numberValue (row_token_id row) in
      \<lparr>p_id = ''token:'' @ (if tokenID > 0 then num_text tokenID else or_text (row_token_name row) ''unknown''),
       p_label = Text (or_text (row_token_name row) (deletedTokenLabel tokenID ctx)),
       p_kind = TokenKind\<rparr>)"

definition groupNode :: "FlowQuotaDataItem \<Rightarrow> FlowPathNode" where
  "groupNode row =
     (let useGroup = or_text (row_use_group row) ''unknown'' in
      \<lparr>p_id = ''group:'' @ useGroup, p_label = Text useGroup, p_kind = GroupKind\<rparr>)"

definition modelNode :: "FlowQuotaDataItem \<Rightarrow> FlowPathNode" where
  "modelNode row =
     \<lparr>p_id = ''model:'' @ or_text (row_model_name row) ''unknown'',
      p_label = Text (or_text (row_model_name row) ''Unknown Model''), p_kind = ModelKind\<rparr>"

definition channelNode :: "FlowQuotaDataItem \<Rightarrow> FlowPathNode" where
  "channelNode row =
     (let channelID = numberValue (row_channel_id row) in
      \<lparr>p_id = ''channel:'' @
         (if channelID > 0 then num_text channelID else or_text (row_channel_name row) ''unknown''),
       p_label = Text (or_text (row_channel_name row)
         (if channelID > 0 then ''channel-'' @ num_text channelID else ''Unknown'')),
       p_kind = ChannelKind\<rparr>)"

fun NODE_BUILDERS :: "FlowNodeKind \<Rightarrow> FlowQuotaDataItem \<Rightarrow> FlowPathContext \<Rightarrow> FlowPathNode" where
  "NODE_BUILDERS UserKind row ctx = userNode row"
| "NODE_BUILDERS NodeKind row ctx = nodeNameNode row"
| "NODE_BUILDERS TokenKind row ctx = tokenNode row ctx"
| "NODE_BUILDERS GroupKind row ctx = groupNode row"
| "NODE_BUILDERS ModelKind row ctx = modelNode row"
| "NODE_BUILDERS ChannelKind row ctx = channelNode row"

fun getFlowStages :: "FlowRole \<Rightarrow> FlowNodeKind list" where
  "getFlowStages RoleRoot = [UserKind, NodeKind, TokenKind, GroupKind, ModelKind, ChannelKind]"
| "getFlowStages RoleAdmin = [UserKind, GroupKind, ModelKind, ChannelKind]"
| "getFlowStages RoleUser = [TokenKind, GroupKind, ModelKind]"

definition MIN_FLOW_STAGES :: nat where "MIN_FLOW_STAGES = 2"

definition resolveVisibleStages :: "FlowRole \<Rightarrow> FlowNodeKind list option \<Rightarrow> FlowNodeKind list" where
  "resolveVisibleStages role visibleStages =
     (case visibleStages of
        None \<Rightarrow> getFlowStages role
      | Some visible \<Rightarrow>
          let filtered = filter (\<lambda>s. s \<in> set visible) (getFlowStages role) in
          if length filtered \<ge> MIN_FLOW_STAGES then filtered else getFlowStages role)"

definition flowPathForStages ::
  "FlowQuotaDataItem \<Rightarrow> FlowNodeKind list \<Rightarrow> FlowPathContext \<Rightarrow> FlowPathNode list" where
  "flowPathForStages row stages ctx = map (\<lambda>stage. NODE_BUILDERS stage row ctx) stages"

section \<open>Colours\<close>

definition getDashboardChartColors :: "flow_env \<Rightarrow> nat \<Rightarrow> string list" where
  "getDashboardChartColors env domainLength =
     (let scheme = (case find (\<lambda>(maxLen, _). case maxLen of
                       None \<Rightarrow> True | Some n \<Rightarrow> n = 0 \<or> domainLength \<le> n) (dataScheme env) of
                      Some item \<Rightarrow> item | None \<Rightarrow> last (dataScheme env))
      in concat (map (\<lambda>c. case c of Some s \<Rightarrow> [s] | None \<Rightarrow> []) (snd scheme)))"

definition colorAt :: "flow_env \<Rightarrow> nat \<Rightarrow> string list option \<Rightarrow> string" where
  "colorAt env index palette =
     (let colors = (case palette of
                      Some p \<Rightarrow> if p \<noteq> [] then p else getDashboardChartColors env (index + 1)
                    | None \<Rightarrow> getDashboardChartColors env (index + 1))
      in if colors = [] then DEFAULT_FLOW_CHART_COLOR else colors ! (index mod length colors))"

definition colorPalette :: "flow_env \<Rightarrow> nat \<Rightarrow> string list option \<Rightarrow> string list" where
  "colorPalette env colorCount palette =
     (let own = getDashboardChartColors env colorCount;
          colors = (if own \<noteq> [] then own else [DEFAULT_FLOW_CHART_COLOR])
      in case palette of Some p \<Rightarrow> if p \<noteq> [] then p else colors | None \<Rightarrow> colors)"

definition is_hex_digit :: "char \<Rightarrow> bool" where
  "is_hex_digit c = (radix_digit 16 c \<noteq> None)"

definition alphaColor :: "string \<Rightarrow> rat \<Rightarrow> string \<times> rat" where
  "alphaColor color alpha =
     (let normal = trim color;
          hex = (if starts_with ''#'' normal then drop 1 normal else normal)
      in if \<not> (length hex = 6 \<and> list_all is_hex_digit hex) then (normal, alpha)
         else let v = foldl (\<lambda>a c. 16 * a + the (radix_digit 16 c)) 0 hex;
                  red = (v div 65536) mod 256; green = (v div 256) mod 256; blue = v mod 256
              in (''rgba('' @ nat_digits red @ '', '' @ nat_digits green @ '', '' @ nat_digits blue @
                  '', '' @ to_fixed 2 alpha @ '')'', 1))"

definition stableColorMap :: "flow_env \<Rightarrow> string list \<Rightarrow> string list option \<Rightarrow> (string \<times> string) list" where
  "stableColorMap env keys palette =
     (let uniqueKeys = uniq keys; colors = colorPalette env (length uniqueKeys) palette
      in map (\<lambda>(i, k). (k, colorAt env i (Some colors))) (enumerate 0 uniqueKeys))"

section \<open>Filters\<close>

definition filterRows :: "FlowQuotaDataItem list \<Rightarrow> string list option \<Rightarrow> FlowQuotaDataItem list" where
  "filterRows rows selected =
     (let selectedUsers = (case selected of None \<Rightarrow> [] | Some us \<Rightarrow> us) in
      if selectedUsers = [] then rows else filter (\<lambda>row. p_id (userNode row) \<in> set selectedUsers) rows)"

definition nodeFilterKey :: "FlowNodeFilter \<Rightarrow> string" where
  "nodeFilterKey f = kind_name (f_kind f) @ [CHR 0x00] @ f_id f"

definition normalizeSelectedNodeFilters ::
  "FlowNodeFilter list option \<Rightarrow> FlowNodeKind list \<Rightarrow> (FlowNodeKind \<times> string list) list" where
  "normalizeSelectedNodeFilters selectedNodes stages =
     fold (\<lambda>f filters.
         if f_kind f \<notin> set stages then filters
         else let selected = (case map_of filters (f_kind f) of Some s \<Rightarrow> s | None \<Rightarrow> [])
              in AList.update (f_kind f) (set_add (f_id f) selected) filters)
       (case selectedNodes of None \<Rightarrow> [] | Some fs \<Rightarrow> fs) []"

definition path_ids_by_kind :: "FlowPathNode list \<Rightarrow> (FlowNodeKind \<times> string list) list" where
  "path_ids_by_kind path =
     fold (\<lambda>n m. let ids = (case map_of m (p_kind n) of Some s \<Rightarrow> s | None \<Rightarrow> [])
                 in AList.update (p_kind n) (set_add (p_id n) ids) m) path []"

definition pathMatchesNodeFilters ::
  "FlowPathNode list \<Rightarrow> (FlowNodeKind \<times> string list) list \<Rightarrow> bool" where
  "pathMatchesNodeFilters path filters =
     (if filters = [] then True
      else list_all (\<lambda>(kind, selectedIds).
             case map_of (path_ids_by_kind path) kind of
               None \<Rightarrow> False
             | Some pathIds \<Rightarrow> list_ex (\<lambda>i. i \<in> set pathIds) selectedIds) filters)"

definition filterRowsByNodes ::
  "FlowQuotaDataItem list \<Rightarrow> FlowNodeFilter list option \<Rightarrow> FlowNodeKind list \<Rightarrow> FlowPathContext \<Rightarrow>
     FlowQuotaDataItem list" where
  "filterRowsByNodes rows selectedNodes stages ctx =
     (let filters = normalizeSelectedNodeFilters selectedNodes stages in
      if filters = [] then rows
      else filter (\<lambda>row. pathMatchesNodeFilters (flowPathForStages row stages ctx) filters) rows)"

definition selectedNodeFiltersExceptKind ::
  "FlowNodeFilter list option \<Rightarrow> FlowNodeKind \<Rightarrow> FlowNodeFilter list option" where
  "selectedNodeFiltersExceptKind selectedNodes kind =
     (let filtered = filter (\<lambda>f. f_kind f \<noteq> kind) (case selectedNodes of None \<Rightarrow> [] | Some fs \<Rightarrow> fs)
      in if filtered \<noteq> [] then Some filtered else None)"

section \<open>Limit on the nodes of a stage\<close>

fun normalizeTopNodeLimit :: "js_number option \<Rightarrow> nat option" where
  "normalizeTopNodeLimit (Some (Fin r)) = (if \<lfloor>r\<rfloor> > 0 then Some (nat \<lfloor>r\<rfloor>) else None)"
| "normalizeTopNodeLimit _ = None"

definition otherFlowNode :: "FlowNodeKind \<Rightarrow> (FlowNodeKind \<Rightarrow> string) option \<Rightarrow> FlowPathNode" where
  "otherFlowNode kind labeler =
     \<lparr>p_id = OTHER_FLOW_NODE_IDS kind,
      p_label = Text (case labeler of Some f \<Rightarrow> f kind | None \<Rightarrow> DEFAULT_OTHER_FLOW_NODE_LABELS kind),
      p_kind = kind\<rparr>"

record FlowNodeRank =
  rank_node :: FlowPathNode
  rank_value :: rat

type_synonym stage_totals = "(FlowNodeKind \<times> (string \<times> FlowNodeRank) list) list"

definition add_rank :: "rat \<Rightarrow> FlowPathNode \<Rightarrow> stage_totals \<Rightarrow> stage_totals" where
  "add_rank v node totals =
     (case map_of totals (p_kind node) of
        None \<Rightarrow> totals
      | Some stageTotals \<Rightarrow>
          let current = (case map_of stageTotals (p_id node) of
                           Some r \<Rightarrow> r | None \<Rightarrow> \<lparr>rank_node = node, rank_value = 0\<rparr>)
          in AList.update (p_kind node)
               (AList.update (p_id node) (current\<lparr>rank_value := rank_value current + v\<rparr>) stageTotals) totals)"

definition stage_rank_totals ::
  "FlowQuotaDataItem list \<Rightarrow> FlowMetric \<Rightarrow> FlowNodeKind list \<Rightarrow> FlowPathContext \<Rightarrow> stage_totals" where
  "stage_rank_totals rows metric stages ctx =
     fold (\<lambda>row. fold (add_rank (metricValue (rowMetrics row) metric)) (flowPathForStages row stages ctx)) rows
       (fold (\<lambda>stage m. AList.update stage [] m) stages [])"

definition by_rank :: "flow_env \<Rightarrow> FlowNodeRank \<Rightarrow> FlowNodeRank \<Rightarrow> rat" where
  "by_rank env a b =
     or_else (rank_value b - rank_value a)
       (or_else (localeCompare env (p_label (rank_node a)) (p_label (rank_node b)))
          (localeCompare env (Text (p_id (rank_node a))) (Text (p_id (rank_node b)))))"

definition top_ids :: "flow_env \<Rightarrow> nat \<Rightarrow> (string \<times> FlowNodeRank) list \<Rightarrow> string list" where
  "top_ids env limit stageTotals =
     map (\<lambda>r. p_id (rank_node r)) (take limit (js_sort (by_rank env) (map snd stageTotals)))"

definition buildTopNodeSets ::
  "flow_env \<Rightarrow> FlowQuotaDataItem list \<Rightarrow> FlowMetric \<Rightarrow> FlowNodeKind list \<Rightarrow> nat option \<Rightarrow> FlowPathContext \<Rightarrow>
     (FlowNodeKind \<times> string list) list option" where
  "buildTopNodeSets env rows metric stages limit ctx =
     (case limit of
        None \<Rightarrow> None
      | Some n \<Rightarrow>
          if n = 0 then None
          else Some (map (\<lambda>(kind, totals). (kind, top_ids env n totals)) (stage_rank_totals rows metric stages ctx)))"

definition isTopFlowNode :: "FlowPathNode \<Rightarrow> (FlowNodeKind \<times> string list) list option \<Rightarrow> bool" where
  "isTopFlowNode node topNodeSets =
     (case topNodeSets of
        None \<Rightarrow> True
      | Some sets \<Rightarrow> (case map_of sets (p_kind node) of None \<Rightarrow> True | Some ids \<Rightarrow> p_id node \<in> set ids))"

definition applyTopNodeLimit ::
  "FlowPathNode list \<Rightarrow> (FlowNodeKind \<times> string list) list option \<Rightarrow> FlowOverflowMode \<Rightarrow>
     (FlowNodeKind \<Rightarrow> string) option \<Rightarrow> FlowPathNode list option" where
  "applyTopNodeLimit path topNodeSets mode labeler =
     (if topNodeSets = None then Some path
      else if \<not> list_ex (\<lambda>node. \<not> isTopFlowNode node topNodeSets) path then Some path
      else if mode = Hide then None
      else Some (map (\<lambda>node. if isTopFlowNode node topNodeSets then node
                              else otherFlowNode (p_kind node) labeler) path))"

section \<open>Kinds, identifiers and stages\<close>

lemma builder_kind [simp]: "p_kind (NODE_BUILDERS k row ctx) = k"
  by (cases k) (simp_all add: userNode_def nodeNameNode_def tokenNode_def groupNode_def modelNode_def
      channelNode_def Let_def)

lemma other_kind [simp]: "p_kind (otherFlowNode k labeler) = k"
  by (simp add: otherFlowNode_def)

lemma path_kinds: "map p_kind (flowPathForStages row stages ctx) = stages"
  by (simp add: flowPathForStages_def comp_def)

text \<open>The identifier of a node starts with its kind, so nodes of different kinds never share one.\<close>

definition well_named :: "FlowPathNode \<Rightarrow> bool" where
  "well_named n \<longleftrightarrow> starts_with (kind_name (p_kind n) @ '':'') (p_id n)"

lemma builder_named [simp]: "well_named (NODE_BUILDERS k row ctx)"
  by (cases k) (simp_all add: well_named_def userNode_def nodeNameNode_def tokenNode_def groupNode_def
      modelNode_def channelNode_def Let_def)

lemma other_named [simp]: "well_named (otherFlowNode k labeler)"
  by (cases k) (simp_all add: well_named_def otherFlowNode_def)

lemma kind_prefix_unique:
  "starts_with (kind_name k @ '':'') s \<Longrightarrow> starts_with (kind_name l @ '':'') s \<Longrightarrow> k = l"
  by (cases k; cases l) (auto simp: starts_with_iff)

lemma well_named_kind: "well_named a \<Longrightarrow> well_named b \<Longrightarrow> p_id a = p_id b \<Longrightarrow> p_kind a = p_kind b"
  unfolding well_named_def by (metis kind_prefix_unique)

lemma distinct_role_stages: "distinct (getFlowStages role)"
  by (cases role) simp_all

lemma role_stages_length: "3 \<le> length (getFlowStages role)"
  by (cases role) simp_all

lemma stages_ok: "distinct (resolveVisibleStages role vs)" "MIN_FLOW_STAGES \<le> length (resolveVisibleStages role vs)"
  using distinct_role_stages [of role] role_stages_length [of role]
  by (auto simp: resolveVisibleStages_def MIN_FLOW_STAGES_def Let_def split: option.splits)

lemma limited_path:
  assumes "applyTopNodeLimit path sets mode labeler = Some path'"
  shows "map p_kind path' = map p_kind path"
    and "list_all well_named path \<Longrightarrow> list_all well_named path'"
  using assms
  by (auto simp: applyTopNodeLimit_def list_all_iff split: if_splits)

lemma aggregate_keeps: "\<exists>path'. applyTopNodeLimit path sets Aggregate labeler = Some path'"
  by (simp add: applyTopNodeLimit_def)

section \<open>Filters select by kind\<close>

lemma ids_by_kind_fold:
  "(case map_of (fold (\<lambda>n m. let ids = (case map_of m (g n) of Some s \<Rightarrow> s | None \<Rightarrow> [])
      in AList.update (g n) (set_add (h n) ids) m) path m) k of Some s \<Rightarrow> set s | None \<Rightarrow> {}) =
   (case map_of m k of Some s \<Rightarrow> set s | None \<Rightarrow> {}) \<union> {h n | n. n \<in> set path \<and> g n = k}"
proof (induction path arbitrary: m)
  case Nil
  then show ?case by simp
next
  case (Cons n path)
  show ?case
    unfolding fold_simps comp_apply Cons.IH
    by (auto simp: Let_def update_conv split: option.splits)
qed

lemma keys_by_kind_fold:
  "fst ` set (fold (\<lambda>n m. let ids = (case map_of m (g n) of Some s \<Rightarrow> s | None \<Rightarrow> [])
      in AList.update (g n) (set_add (h n) ids) m) path m) = fst ` set m \<union> g ` set path"
  by (induction path arbitrary: m) (simp_all add: Let_def dom_update)

lemma distinct_by_kind_fold:
  "distinct (map fst m) \<Longrightarrow>
   distinct (map fst (fold (\<lambda>n m. let ids = (case map_of m (g n) of Some s \<Rightarrow> s | None \<Rightarrow> [])
      in AList.update (g n) (set_add (h n) ids) m) path m))"
  by (induction path arbitrary: m) (simp_all add: Let_def distinct_update)

definition selection :: "FlowNodeFilter list option \<Rightarrow> FlowNodeKind list \<Rightarrow> FlowNodeFilter list" where
  "selection selectedNodes stages =
     filter (\<lambda>f. f_kind f \<in> set stages) (case selectedNodes of None \<Rightarrow> [] | Some fs \<Rightarrow> fs)"

lemma normalized_filters:
  "normalizeSelectedNodeFilters selectedNodes stages =
     fold (\<lambda>f m. let ids = (case map_of m (f_kind f) of Some s \<Rightarrow> s | None \<Rightarrow> [])
       in AList.update (f_kind f) (set_add (f_id f) ids) m) (selection selectedNodes stages) []"
proof -
  have "fold (\<lambda>f m. if \<not> P f then m else G f m) fs m = fold G (filter P fs) m" for P G fs and m :: "'a"
    by (induction fs arbitrary: m) auto
  from this [of "\<lambda>f. f_kind f \<in> set stages"] show ?thesis
    unfolding normalizeSelectedNodeFilters_def selection_def .
qed

lemma filter_entry:
  assumes "(k, ids) \<in> set (normalizeSelectedNodeFilters selectedNodes stages)"
  shows "set ids = {f_id f | f. f \<in> set (selection selectedNodes stages) \<and> f_kind f = k}"
proof -
  have "distinct (map fst (normalizeSelectedNodeFilters selectedNodes stages))"
    unfolding normalized_filters by (rule distinct_by_kind_fold) simp
  with assms have "map_of (normalizeSelectedNodeFilters selectedNodes stages) k = Some ids" by simp
  with ids_by_kind_fold [of f_kind f_id "selection selectedNodes stages" "[]" k] show ?thesis
    unfolding normalized_filters by simp
qed

lemma filter_kinds:
  "fst ` set (normalizeSelectedNodeFilters selectedNodes stages) = f_kind ` set (selection selectedNodes stages)"
  unfolding normalized_filters keys_by_kind_fold by simp

lemma path_ids:
  assumes "k \<in> set stages"
  shows "\<exists>ids. map_of (path_ids_by_kind (flowPathForStages row stages ctx)) k = Some ids \<and>
    set ids = {p_id (NODE_BUILDERS k row ctx)}"
proof -
  let ?path = "flowPathForStages row stages ctx"
  have "k \<in> fst ` set (path_ids_by_kind ?path)"
    unfolding path_ids_by_kind_def keys_by_kind_fold using assms by (simp add: flowPathForStages_def image_image)
  then obtain ids where "map_of (path_ids_by_kind ?path) k = Some ids"
    by (metis map_of_eq_None_iff not_None_eq)
  with ids_by_kind_fold [of p_kind p_id ?path "[]" k] assms show ?thesis
    by (auto simp: path_ids_by_kind_def flowPathForStages_def)
qed

text \<open>Filtering keeps exactly the rows that, at every visible stage with a selection, go through one
  of the selected nodes; selections of hidden stages are ignored.\<close>

lemma node_filters_select:
  "filterRowsByNodes rows selectedNodes stages ctx =
     filter (\<lambda>row. list_all (\<lambda>k.
         if list_ex (\<lambda>f. f_kind f = k) (selection selectedNodes stages)
         then list_ex (\<lambda>f. f_kind f = k \<and> f_id f = p_id (NODE_BUILDERS k row ctx)) (selection selectedNodes stages)
         else True) stages) rows"
proof -
  let ?fs = "normalizeSelectedNodeFilters selectedNodes stages" and ?sel = "selection selectedNodes stages"
  have vis: "k \<in> set stages" if "k \<in> f_kind ` set ?sel" for k
    using that by (auto simp: selection_def)
  have entry: "(case map_of (path_ids_by_kind (flowPathForStages row stages ctx)) k of None \<Rightarrow> False
        | Some pathIds \<Rightarrow> list_ex (\<lambda>i. i \<in> set pathIds) ids) \<longleftrightarrow>
      (\<exists>f \<in> set ?sel. f_kind f = k \<and> f_id f = p_id (NODE_BUILDERS k row ctx))"
    if "(k, ids) \<in> set ?fs" for k ids row
  proof -
    from that have "k \<in> f_kind ` set ?sel" using filter_kinds by (metis fst_conv image_eqI)
    from path_ids [OF vis [OF this], of row ctx] obtain pids where
      p: "map_of (path_ids_by_kind (flowPathForStages row stages ctx)) k = Some pids"
      "set pids = {p_id (NODE_BUILDERS k row ctx)}" by blast
    have "list_ex (\<lambda>i. i \<in> set pids) ids \<longleftrightarrow> p_id (NODE_BUILDERS k row ctx) \<in> set ids"
      unfolding list_ex_iff p(2) by blast
    also have "\<dots> \<longleftrightarrow> (\<exists>f \<in> set ?sel. f_kind f = k \<and> f_id f = p_id (NODE_BUILDERS k row ctx))"
      unfolding filter_entry [OF that] by (simp add: eq_commute) blast
    finally show ?thesis using p(1) by simp
  qed
  have "pathMatchesNodeFilters (flowPathForStages row stages ctx) ?fs \<longleftrightarrow>
      (\<forall>k \<in> f_kind ` set ?sel. \<exists>f \<in> set ?sel. f_kind f = k \<and> f_id f = p_id (NODE_BUILDERS k row ctx))" for row
  proof -
    have "pathMatchesNodeFilters (flowPathForStages row stages ctx) ?fs \<longleftrightarrow>
        (\<forall>(k, ids) \<in> set ?fs. \<exists>f \<in> set ?sel. f_kind f = k \<and> f_id f = p_id (NODE_BUILDERS k row ctx))"
      unfolding pathMatchesNodeFilters_def list_all_iff using entry by auto
    also have "\<dots> \<longleftrightarrow> (\<forall>k \<in> fst ` set ?fs. \<exists>f \<in> set ?sel. f_kind f = k \<and> f_id f = p_id (NODE_BUILDERS k row ctx))"
      by force
    finally show ?thesis unfolding filter_kinds .
  qed
  moreover have "?fs = [] \<longleftrightarrow> ?sel = []" using filter_kinds [of selectedNodes stages] by auto
  ultimately show ?thesis
    using vis by (auto simp: filterRowsByNodes_def Let_def list_all_iff list_ex_iff filter_id_conv intro!: filter_cong)
qed

end
