(* ===== verification/Flow_Graph.thy ===== *)
theory Flow_Graph
  imports Flow
begin

text \<open>
  The usage flow of the dashboard, second part (\<^verbatim>\<open>web/src/features/dashboard/lib/flow.ts\<close>, lines 412 to
  1335): the graph of nodes and links with their totals, masking, highlighting, shares and colours, the
  filter options, and the data handed to the chart.  Objects stored in a \<^verbatim>\<open>Map\<close> and changed in place are
  updated in the association list.
\<close>

section \<open>Nodes and links\<close>

record DashboardFlowNode =
  n_id :: string
  n_label :: flow_label
  n_kind :: FlowNodeKind
  n_value :: rat
  n_requests :: rat
  n_quota :: rat
  n_tokens :: rat
  n_color :: string
  n_colorKey :: string
  n_highlighted :: "bool option"
  n_dimmed :: "bool option"

record DashboardFlowLink =
  l_source :: string
  l_target :: string
  l_value :: rat
  l_requests :: rat
  l_quota :: rat
  l_tokens :: rat
  l_sourceLabel :: flow_label
  l_targetLabel :: flow_label
  l_color :: string
  l_linkColor :: string
  l_linkAlpha :: rat
  l_hoverColor :: string
  l_colorKey :: string
  l_share :: rat
  l_highlighted :: "bool option"
  l_dimmed :: "bool option"

record DashboardFlowGraph =
  g_nodes :: "DashboardFlowNode list"
  g_links :: "DashboardFlowLink list"

type_synonym node_map = "(string \<times> DashboardFlowNode) list"
type_synonym link_map = "(string \<times> DashboardFlowLink) list"

definition addNode ::
  "FlowPathNode \<Rightarrow> FlowMetrics \<Rightarrow> FlowMetric \<Rightarrow> string \<Rightarrow> string \<Rightarrow> node_map \<Rightarrow> node_map" where
  "addNode pathNode metrics metric color colorKey m =
     (let previous = (case map_of m (p_id pathNode) of
            Some n \<Rightarrow> n
          | None \<Rightarrow> \<lparr>n_id = p_id pathNode, n_label = p_label pathNode, n_kind = p_kind pathNode, n_value = 0,
              n_requests = 0, n_quota = 0, n_tokens = 0, n_color = color, n_colorKey = colorKey,
              n_highlighted = None, n_dimmed = None\<rparr>)
      in AList.update (p_id pathNode)
           (previous\<lparr>n_value := n_value previous + metricValue metrics metric,
              n_requests := n_requests previous + m_requests metrics,
              n_quota := n_quota previous + m_quota metrics,
              n_tokens := n_tokens previous + m_tokens metrics\<rparr>) m)"

definition pathLinkKey :: "FlowPathNode \<Rightarrow> FlowPathNode \<Rightarrow> string" where
  "pathLinkKey source target = p_id source @ [CHR 0x00] @ p_id target"

definition linkStableKey :: "DashboardFlowLink \<Rightarrow> string" where
  "linkStableKey link = l_source link @ [CHR 0x00] @ l_target link"

definition addLink ::
  "FlowPathNode \<Rightarrow> FlowPathNode \<Rightarrow> FlowMetrics \<Rightarrow> FlowMetric \<Rightarrow> string \<Rightarrow> string \<Rightarrow> link_map \<Rightarrow> link_map" where
  "addLink source target metrics metric color colorKey m =
     (let k = p_id source @ [CHR 0x00] @ p_id target;
          previous = (case map_of m k of
            Some l \<Rightarrow> l
          | None \<Rightarrow> \<lparr>l_source = p_id source, l_target = p_id target, l_value = 0, l_requests = 0, l_quota = 0,
              l_tokens = 0, l_sourceLabel = p_label source, l_targetLabel = p_label target, l_color = color,
              l_linkColor = color, l_linkAlpha = 1, l_hoverColor = color, l_colorKey = colorKey, l_share = 0,
              l_highlighted = None, l_dimmed = None\<rparr>)
      in AList.update k
           (previous\<lparr>l_value := l_value previous + metricValue metrics metric,
              l_requests := l_requests previous + m_requests metrics,
              l_quota := l_quota previous + m_quota metrics,
              l_tokens := l_tokens previous + m_tokens metrics\<rparr>) m)"

definition by_link_value :: "flow_env \<Rightarrow> DashboardFlowLink \<Rightarrow> DashboardFlowLink \<Rightarrow> rat" where
  "by_link_value env a b =
     or_else (l_value b - l_value a) (localeCompare env (Text (linkStableKey a)) (Text (linkStableKey b)))"

text \<open>The links of a source, sorted, by their positions; each gets an opacity by its rank.\<close>

definition assignLinkDisplayColors :: "flow_env \<Rightarrow> DashboardFlowLink list \<Rightarrow> DashboardFlowLink list" where
  "assignLinkDisplayColors env links =
     map (\<lambda>i. let link = links ! i;
                 sortedLinks = js_sort (\<lambda>a b. by_link_value env (links ! a) (links ! b))
                   (filter (\<lambda>j. l_source (links ! j) = l_source link) [0..<length links]);
                 denominator = max (length sortedLinks - 1) 1;
                 index = length (takeWhile (\<lambda>j. j \<noteq> i) sortedLinks);
                 alpha = (if length sortedLinks = 1 then 34 / 100
                          else 24 / 100 + (of_nat index / of_nat denominator) * (2 / 10));
                 (color, a) = alphaColor (l_color link) alpha
             in link\<lparr>l_linkColor := color, l_linkAlpha := a, l_hoverColor := l_color link\<rparr>)
       [0..<length links]"

definition byValueThenLabel :: "flow_env \<Rightarrow> DashboardFlowNode \<Rightarrow> DashboardFlowNode \<Rightarrow> rat" where
  "byValueThenLabel env a b = or_else (n_value b - n_value a) (localeCompare env (n_label a) (n_label b))"

text \<open>\<^verbatim>\<open>Number(a) - Number(b)\<close> of two flags: \<^verbatim>\<open>NaN\<close>, and so passed over, when one is missing.\<close>

definition flag_difference :: "bool option \<Rightarrow> bool option \<Rightarrow> rat" where
  "flag_difference a b = (case (a, b) of (Some x, Some y) \<Rightarrow> of_bool x - of_bool y | _ \<Rightarrow> 0)"

definition byLinkDrawPriority :: "flow_env \<Rightarrow> DashboardFlowLink \<Rightarrow> DashboardFlowLink \<Rightarrow> rat" where
  "byLinkDrawPriority env a b =
     or_else (flag_difference (l_dimmed a) (l_dimmed b))
       (or_else (flag_difference (l_highlighted b) (l_highlighted a)) (by_link_value env a b))"

definition buildSummary :: "FlowQuotaDataItem list \<Rightarrow> FlowMetrics" where
  "buildSummary rows =
     fold (\<lambda>row s. let ms = rowMetrics row in
         s\<lparr>m_quota := m_quota s + m_quota ms, m_tokens := m_tokens s + m_tokens ms,
           m_requests := m_requests s + m_requests ms\<rparr>)
       rows \<lparr>m_quota = 0, m_tokens = 0, m_requests = 0\<rparr>"

section \<open>Highlighting\<close>

definition pathContainsFlowNode :: "FlowPathNode list \<Rightarrow> FlowNodeFilter \<Rightarrow> bool" where
  "pathContainsFlowNode path f = list_ex (\<lambda>n. p_kind n = f_kind f \<and> p_id n = f_id f) path"

text \<open>The pairs of neighbours on a path.\<close>

definition steps :: "'a list \<Rightarrow> ('a \<times> 'a) list" where
  "steps path = zip path (tl path)"

definition pathContainsFlowLink :: "FlowPathNode list \<Rightarrow> FlowLinkSelection \<Rightarrow> bool" where
  "pathContainsFlowLink path link =
     list_ex (\<lambda>(a, b). p_id a = s_source link \<and> p_id b = s_target link) (steps path)"

record FlowHighlightSets =
  h_nodes :: "string list"
  h_links :: "string list"

definition matchesPath :: "FlowNodeFilter option \<Rightarrow> FlowLinkSelection option \<Rightarrow> FlowPathNode list \<Rightarrow> bool" where
  "matchesPath activeNode activeLink path =
     (case activeLink of
        Some link \<Rightarrow> pathContainsFlowLink path link
      | None \<Rightarrow> (case activeNode of Some f \<Rightarrow> pathContainsFlowNode path f | None \<Rightarrow> False))"

definition buildFlowHighlightSets ::
  "PreparedFlowPath list \<Rightarrow> FlowNodeFilter option \<Rightarrow> FlowLinkSelection option \<Rightarrow> FlowNodeKind list \<Rightarrow>
     FlowHighlightSets option" where
  "buildFlowHighlightSets preparedPaths activeNode activeLink stages =
     (let nodeActive = (case activeNode of Some f \<Rightarrow> f_kind f \<in> set stages | None \<Rightarrow> False) in
      if \<not> nodeActive \<and> activeLink = None then None
      else let matching = filter (\<lambda>p. matchesPath activeNode activeLink (p_path p)) preparedPaths;
               ns = uniq (concat (map (\<lambda>p. map p_id (p_path p)) matching));
               ls = uniq (concat (map (\<lambda>p. map (\<lambda>(a, b). pathLinkKey a b) (steps (p_path p))) matching))
           in if ns = [] then None else Some \<lparr>h_nodes = ns, h_links = ls\<rparr>)"

definition highlight_node :: "FlowHighlightSets \<Rightarrow> DashboardFlowNode \<Rightarrow> DashboardFlowNode" where
  "highlight_node h n =
     (let b = (n_id n \<in> set (h_nodes h)) in n\<lparr>n_highlighted := Some b, n_dimmed := Some (\<not> b)\<rparr>)"

definition highlight_link :: "FlowHighlightSets \<Rightarrow> DashboardFlowLink \<Rightarrow> DashboardFlowLink" where
  "highlight_link h l =
     (let b = (linkStableKey l \<in> set (h_links h)) in l\<lparr>l_highlighted := Some b, l_dimmed := Some (\<not> b)\<rparr>)"

definition applyFlowHighlights ::
  "FlowHighlightSets option \<Rightarrow> node_map \<times> link_map \<Rightarrow> node_map \<times> link_map" where
  "applyFlowHighlights highlightSets = (\<lambda>(nodes, links).
     case highlightSets of
       None \<Rightarrow> (nodes, links)
     | Some h \<Rightarrow> (map (apsnd (highlight_node h)) nodes, map (apsnd (highlight_link h)) links))"

section \<open>Masking\<close>

fun maskFlowLabel :: "flow_label \<Rightarrow> flow_label" where
  "maskFlowLabel (Text []) = Text []"
| "maskFlowLabel _ = MaskText"

definition maskable :: "DashboardFlowNode \<Rightarrow> bool" where
  "maskable n \<longleftrightarrow> n_kind n \<in> set SENSITIVE_FLOW_KINDS \<and> n_id n \<notin> set OTHER_FLOW_NODE_ID_SET"

definition mask_link :: "(string \<times> flow_label) list \<Rightarrow> DashboardFlowLink \<Rightarrow> DashboardFlowLink" where
  "mask_link masked l =
     (let l1 = (case map_of masked (l_source l) of Some s \<Rightarrow> l\<lparr>l_sourceLabel := s\<rparr> | None \<Rightarrow> l)
      in case map_of masked (l_target l1) of Some s \<Rightarrow> l1\<lparr>l_targetLabel := s\<rparr> | None \<Rightarrow> l1)"

definition maskFlowGraphLabels :: "node_map \<times> link_map \<Rightarrow> node_map \<times> link_map" where
  "maskFlowGraphLabels = (\<lambda>(nodes, links).
     let nodes' = map (apsnd (\<lambda>n. if maskable n then n\<lparr>n_label := maskFlowLabel (n_label n)\<rparr> else n)) nodes;
         maskedById = fold (\<lambda>(_, n) m. if maskable n then AList.update (n_id n) (maskFlowLabel (n_label n)) m else m)
           nodes []
     in if maskedById = [] then (nodes', links) else (nodes', map (apsnd (mask_link maskedById)) links))"

section \<open>The graph\<close>

record FlowGraphOptions =
  o_topNodeLimit :: "js_number option"
  o_overflowMode :: "FlowOverflowMode option"
  o_otherNodeLabel :: "(FlowNodeKind \<Rightarrow> string) option"
  o_activeNode :: "FlowNodeFilter option"
  o_activeLink :: "FlowLinkSelection option"
  o_maskSensitive :: bool

definition prepare_paths ::
  "flow_env \<Rightarrow> FlowQuotaDataItem list \<Rightarrow> FlowMetric \<Rightarrow> FlowNodeKind list \<Rightarrow> FlowPathContext \<Rightarrow> FlowGraphOptions \<Rightarrow>
     PreparedFlowPath list" where
  "prepare_paths env rows metric stages ctx options =
     (let topNodeSets = buildTopNodeSets env rows metric stages (normalizeTopNodeLimit (o_topNodeLimit options)) ctx;
          overflowMode = (case o_overflowMode options of Some m \<Rightarrow> m | None \<Rightarrow> Aggregate)
      in List.map_filter (\<lambda>row.
           map_option (\<lambda>path. \<lparr>p_path = path, p_metrics = rowMetrics row\<rparr>)
             (applyTopNodeLimit (flowPathForStages row stages ctx) topNodeSets overflowMode
               (o_otherNodeLabel options))) rows)"

definition root_ids :: "PreparedFlowPath list \<Rightarrow> string list" where
  "root_ids paths =
     filter (\<lambda>i. i \<noteq> []) (concat (map (\<lambda>p. case p_path p of [] \<Rightarrow> [] | r # _ \<Rightarrow> [p_id r]) paths))"

definition add_path ::
  "(string \<Rightarrow> string) \<Rightarrow> FlowMetric \<Rightarrow> PreparedFlowPath \<Rightarrow> node_map \<times> link_map \<Rightarrow> node_map \<times> link_map" where
  "add_path colorOf metric prepared = (\<lambda>(nodes, links).
     case p_path prepared of
       [] \<Rightarrow> (nodes, links)
     | r0 # _ \<Rightarrow>
         let color = colorOf (p_id r0) in
         (fold (\<lambda>n. addNode n (p_metrics prepared) metric color (p_id r0)) (p_path prepared) nodes,
          fold (\<lambda>(a, b). addLink a b (p_metrics prepared) metric color (p_id r0)) (steps (p_path prepared)) links))"

definition by_source_target :: "flow_env \<Rightarrow> DashboardFlowLink \<Rightarrow> DashboardFlowLink \<Rightarrow> rat" where
  "by_source_target env a b =
     or_else (localeCompare env (Text (l_source a)) (Text (l_source b)))
       (localeCompare env (Text (l_target a)) (Text (l_target b)))"

definition first_step_total :: "PreparedFlowPath list \<Rightarrow> DashboardFlowLink list \<Rightarrow> rat" where
  "first_step_total paths links =
     sum_list (map l_value (filter (\<lambda>l. l_source l \<in> set (root_ids paths)) links))"

definition path_color :: "flow_env \<Rightarrow> PreparedFlowPath list \<Rightarrow> string list option \<Rightarrow> string \<Rightarrow> string" where
  "path_color env preparedPaths palette k =
     (case map_of (stableColorMap env
             (js_sort (\<lambda>a b. localeCompare env (Text a) (Text b)) (root_ids preparedPaths)) palette) k of
        Some c \<Rightarrow> c | None \<Rightarrow> colorAt env 0 palette)"

definition flow_maps ::
  "flow_env \<Rightarrow> PreparedFlowPath list \<Rightarrow> FlowMetric \<Rightarrow> FlowNodeKind list \<Rightarrow> string list option \<Rightarrow>
     FlowGraphOptions \<Rightarrow> node_map \<times> link_map" where
  "flow_maps env preparedPaths metric stages palette options =
     (let maps = fold (add_path (path_color env preparedPaths palette) metric) preparedPaths ([], []);
          maps1 = (if o_maskSensitive options then maskFlowGraphLabels maps else maps)
      in applyFlowHighlights
           (buildFlowHighlightSets preparedPaths (o_activeNode options) (o_activeLink options) stages) maps1)"

definition with_shares :: "rat \<Rightarrow> DashboardFlowLink list \<Rightarrow> DashboardFlowLink list" where
  "with_shares total_value links =
     map (\<lambda>l. l\<lparr>l_share := (if total_value > 0 then l_value l / total_value else 0)\<rparr>) links"

definition buildFlowGraph ::
  "flow_env \<Rightarrow> FlowQuotaDataItem list \<Rightarrow> FlowMetric \<Rightarrow> FlowRole \<Rightarrow> string list option \<Rightarrow>
     FlowNodeKind list option \<Rightarrow> FlowPathContext \<Rightarrow> FlowGraphOptions \<Rightarrow> DashboardFlowGraph" where
  "buildFlowGraph env rows metric role palette visibleStages ctx options =
     (let stages = resolveVisibleStages role visibleStages;
          preparedPaths = prepare_paths env rows metric stages ctx options;
          (nodes, links) = flow_maps env preparedPaths metric stages palette options;
          flowLinks = js_sort (by_source_target env) (map snd links)
      in \<lparr>g_nodes = js_sort (byValueThenLabel env) (map snd nodes),
          g_links = assignLinkDisplayColors env
            (with_shares (first_step_total preparedPaths flowLinks) flowLinks)\<rparr>)"

section \<open>Filter options\<close>

record FlowFilterOption =
  fo_kind :: FlowNodeKind
  fo_value :: string
  fo_label :: flow_label
  fo_valueLabel :: string
  fo_valueRaw :: rat
  fo_color :: string

record user_total =
  u_label :: flow_label
  u_value :: rat
  u_color :: string

definition add_user ::
  "flow_env \<Rightarrow> FlowMetric \<Rightarrow> (string \<Rightarrow> string) \<Rightarrow> FlowQuotaDataItem \<Rightarrow> (string \<times> user_total) list \<Rightarrow>
     (string \<times> user_total) list" where
  "add_user env metric colorOf row users =
     (let user = userNode row in
      if \<not> truthy (row_user_id row) \<and> or_text (row_username row) [] = [] then users
      else let current = (case map_of users (p_id user) of
                 Some u \<Rightarrow> u
               | None \<Rightarrow> \<lparr>u_label = p_label user, u_value = 0, u_color = colorOf (p_id user)\<rparr>)
           in AList.update (p_id user)
                (current\<lparr>u_value := u_value current + metricValue (rowMetrics row) metric\<rparr>) users)"

definition buildUserFilterOptions ::
  "flow_env \<Rightarrow> FlowQuotaDataItem list \<Rightarrow> FlowMetric \<Rightarrow> string list option \<Rightarrow> FlowFilterOption list" where
  "buildUserFilterOptions env rows metric palette =
     (let colors = stableColorMap env
            (js_sort (\<lambda>a b. localeCompare env (Text a) (Text b)) (map (\<lambda>row. p_id (userNode row)) rows)) palette;
          colorOf = (\<lambda>k. case map_of colors k of Some c \<Rightarrow> c | None \<Rightarrow> colorAt env 0 palette);
          users = fold (add_user env metric colorOf) rows []
      in js_sort (\<lambda>a b. or_else (fo_valueRaw b - fo_valueRaw a) (localeCompare env (fo_label a) (fo_label b)))
           (map (\<lambda>(v, u). \<lparr>fo_kind = UserKind, fo_value = v, fo_label = u_label u,
                  fo_valueLabel = formatNumber env (u_value u), fo_valueRaw = u_value u, fo_color = u_color u\<rparr>) users))"

definition add_candidate ::
  "FlowMetric \<Rightarrow> FlowNodeKind \<Rightarrow> FlowPathContext \<Rightarrow> FlowQuotaDataItem \<Rightarrow> (string \<times> FlowNodeRank) list \<Rightarrow>
     (string \<times> FlowNodeRank) list" where
  "add_candidate metric stage ctx row totals =
     (let node = NODE_BUILDERS stage row ctx;
          k = nodeFilterKey \<lparr>f_kind = p_kind node, f_id = p_id node\<rparr>;
          current = (case map_of totals k of Some r \<Rightarrow> r | None \<Rightarrow> \<lparr>rank_node = node, rank_value = 0\<rparr>)
      in AList.update k (current\<lparr>rank_value := rank_value current + metricValue (rowMetrics row) metric\<rparr>) totals)"

definition stage_index :: "FlowNodeKind list \<Rightarrow> FlowNodeKind \<Rightarrow> rat" where
  "stage_index stages k =
     (if k \<in> set stages then of_nat (length (takeWhile (\<lambda>s. s \<noteq> k) stages)) else 0)"

definition buildNodeFilterOptions ::
  "flow_env \<Rightarrow> FlowQuotaDataItem list \<Rightarrow> FlowMetric \<Rightarrow> FlowRole \<Rightarrow> FlowNodeKind list option \<Rightarrow>
     string list option \<Rightarrow> FlowPathContext \<Rightarrow> FlowNodeFilter list option \<Rightarrow> FlowFilterOption list" where
  "buildNodeFilterOptions env rows metric role visibleStages palette ctx selectedNodes =
     (let stages = resolveVisibleStages role visibleStages;
          colorIds = uniq (concat (map (\<lambda>row. map p_id (flowPathForStages row stages ctx)) rows));
          colors = stableColorMap env (js_sort (\<lambda>a b. localeCompare env (Text a) (Text b)) colorIds) palette;
          colorOf = (\<lambda>k. case map_of colors k of Some c \<Rightarrow> c | None \<Rightarrow> colorAt env 0 palette);
          options = concat (map (\<lambda>stage.
            map (\<lambda>(_, rank). \<lparr>fo_kind = p_kind (rank_node rank), fo_value = p_id (rank_node rank),
                 fo_label = p_label (rank_node rank), fo_valueLabel = formatNumber env (rank_value rank),
                 fo_valueRaw = rank_value rank, fo_color = colorOf (p_id (rank_node rank))\<rparr>)
              (fold (add_candidate metric stage ctx)
                (filterRowsByNodes rows (selectedNodeFiltersExceptKind selectedNodes stage) stages ctx) [])) stages)
      in js_sort (\<lambda>a b. or_else (stage_index stages (fo_kind a) - stage_index stages (fo_kind b))
           (or_else (fo_valueRaw b - fo_valueRaw a)
             (or_else (localeCompare env (fo_label a) (fo_label b))
               (localeCompare env (Text (fo_value a)) (Text (fo_value b)))))) options)"

record FlowFilterOptions =
  fo_users :: "FlowFilterOption list"
  fo_nodes :: "FlowFilterOption list"

definition buildFlowFilterOptions ::
  "flow_env \<Rightarrow> FlowQuotaDataItem list \<Rightarrow> FlowMetric \<Rightarrow> string list option \<Rightarrow> FlowRole \<Rightarrow>
     FlowNodeKind list option \<Rightarrow> FlowNodeFilter list option \<Rightarrow> FlowFilterOptions" where
  "buildFlowFilterOptions env rows metric palette role visibleStages selectedNodes =
     \<lparr>fo_users = buildUserFilterOptions env rows metric palette,
      fo_nodes = buildNodeFilterOptions env rows metric role visibleStages palette None selectedNodes\<rparr>"

record FlowBuildOptions = FlowGraphOptions +
  b_role :: "FlowRole option"
  b_selectedUsers :: "string list option"
  b_selectedNodes :: "FlowNodeFilter list option"
  b_colorPalette :: "string list option"
  b_visibleStages :: "FlowNodeKind list option"
  b_deletedTokenLabel :: FlowPathContext

record ProcessedFlowData =
  d_summary :: FlowMetrics
  d_flow :: DashboardFlowGraph
  d_filterOptions :: FlowFilterOptions

definition selected_rows :: "FlowQuotaDataItem list \<Rightarrow> FlowBuildOptions \<Rightarrow> FlowQuotaDataItem list" where
  "selected_rows rows options =
     filterRowsByNodes (filterRows rows (b_selectedUsers options)) (b_selectedNodes options)
       (resolveVisibleStages (case b_role options of Some r \<Rightarrow> r | None \<Rightarrow> RoleUser) (b_visibleStages options))
       (b_deletedTokenLabel options)"

definition buildDashboardFlowData ::
  "flow_env \<Rightarrow> FlowQuotaDataItem list \<Rightarrow> FlowMetric \<Rightarrow> FlowBuildOptions \<Rightarrow> ProcessedFlowData" where
  "buildDashboardFlowData env rows metric options =
     (let role = (case b_role options of Some r \<Rightarrow> r | None \<Rightarrow> RoleUser);
          palette = b_colorPalette options; ctx = b_deletedTokenLabel options;
          filteredRows = selected_rows rows options
      in \<lparr>d_summary = buildSummary filteredRows,
          d_flow = buildFlowGraph env filteredRows metric role palette (b_visibleStages options) ctx
            (FlowGraphOptions.truncate options),
          d_filterOptions = \<lparr>fo_users = buildUserFilterOptions env rows metric palette,
            fo_nodes = buildNodeFilterOptions env (filterRows rows (b_selectedUsers options)) metric role
              (b_visibleStages options) palette ctx (b_selectedNodes options)\<rparr>\<rparr>)"

section \<open>Chart data\<close>

definition recordValue :: "js_value \<Rightarrow> js_value option" where
  "recordValue v = (if truthy v \<and> is_object v then Some v else None)"

definition sankeyDatumSource :: "js_value \<Rightarrow> js_value" where
  "sankeyDatumSource datum =
     (case js_get datum ''datum'' of
        JArray nested \<Rightarrow>
          (case recordValue (js_nth nested (numberValue (js_get datum ''depth''))) of
             Some v \<Rightarrow> v
           | None \<Rightarrow> (case recordValue (js_nth nested 0) of Some v \<Rightarrow> v | None \<Rightarrow> datum))
      | nested \<Rightarrow> (case recordValue nested of Some v \<Rightarrow> v | None \<Rightarrow> datum))"

definition sankeyDatumValue :: "js_value \<Rightarrow> string \<Rightarrow> js_value" where
  "sankeyDatumValue datum k =
     (if js_get datum k \<noteq> JUndefined then js_get datum k else js_get (sankeyDatumSource datum) k)"

definition sankeyDatumFlag :: "js_value \<Rightarrow> string \<Rightarrow> bool" where
  "sankeyDatumFlag datum k = (sankeyDatumValue datum k = JBool True)"

definition flowSankeyDatumValue :: "js_value \<Rightarrow> string \<Rightarrow> js_value" where
  "flowSankeyDatumValue datum k =
     (case recordValue datum of Some r \<Rightarrow> sankeyDatumValue r k | None \<Rightarrow> JUndefined)"

definition isSankeyLinkDatum :: "js_value \<Rightarrow> bool" where
  "isSankeyLinkDatum datum \<longleftrightarrow>
     sankeyDatumValue datum ''source'' \<noteq> JUndefined \<and> sankeyDatumValue datum ''target'' \<noteq> JUndefined"

definition flowNodeFilterFromSankeyDatum :: "js_value \<Rightarrow> FlowNodeFilter option" where
  "flowNodeFilterFromSankeyDatum datum =
     (case recordValue datum of
        None \<Rightarrow> None
      | Some r \<Rightarrow>
          if isSankeyLinkDatum r then None
          else (case (flowSankeyDatumValue r ''key'', isFlowNodeKind (flowSankeyDatumValue r ''kind'')) of
                  (JString s, Some k) \<Rightarrow> Some \<lparr>f_kind = k, f_id = s\<rparr>
                | (JNumber n, Some k) \<Rightarrow> Some \<lparr>f_kind = k, f_id = number_text n\<rparr>
                | _ \<Rightarrow> None))"

text \<open>The nodes and links handed to the chart; a link carries its drawing order.\<close>

definition link_z_index :: "DashboardFlowLink \<Rightarrow> nat \<Rightarrow> nat" where
  "link_z_index l index =
     (if l_highlighted l = Some True then 1000000 + index
      else if l_dimmed l = Some True then index else 100000 + index)"

definition sankey_links :: "flow_env \<Rightarrow> DashboardFlowGraph \<Rightarrow> (DashboardFlowLink \<times> nat) list" where
  "sankey_links env flow =
     map (\<lambda>(i, l). (l, link_z_index l i))
       (enumerate 0 (js_sort (byLinkDrawPriority env) (filter (\<lambda>l. l_value l > 0) (g_links flow))))"

definition node_fill_opacity :: "js_value \<Rightarrow> rat" where
  "node_fill_opacity datum =
     (if sankeyDatumFlag datum ''dimmed'' then 18 / 100
      else if sankeyDatumFlag datum ''highlighted'' then 1 else 92 / 100)"

definition link_fill_opacity :: "js_value \<Rightarrow> rat" where
  "link_fill_opacity datum =
     (if sankeyDatumFlag datum ''dimmed'' then 8 / 100
      else if sankeyDatumFlag datum ''highlighted'' then 86 / 100
      else let a = numberValue (sankeyDatumValue datum ''linkAlpha'') in if a = 0 then 1 else a)"

definition link_fill :: "flow_env \<Rightarrow> js_value \<Rightarrow> string" where
  "link_fill env datum =
     (let lc = sankeyDatumValue datum ''linkColor''; c = sankeyDatumValue datum ''color'' in
      if lc \<noteq> JUndefined \<and> lc \<noteq> JNull then to_text lc
      else if c \<noteq> JUndefined \<and> c \<noteq> JNull then to_text c else colorAt env 0 None)"

definition link_z_order :: "js_value \<Rightarrow> rat" where
  "link_z_order datum =
     (let z = sankeyDatumValue datum ''zIndex'' in
      if z \<noteq> JUndefined then numberValue z
      else 1000000000 - numberValue (sankeyDatumValue datum ''value''))"

definition tooltip_title :: "js_value \<Rightarrow> string" where
  "tooltip_title datum =
     (let source = sankeyDatumValue datum ''source''; target = sankeyDatumValue datum ''target'';
          pick = (\<lambda>a b. if a = JUndefined \<or> a = JNull then b else a)
      in if truthy source \<and> truthy target
         then to_text (pick (sankeyDatumValue datum ''sourceLabel'') source) @ '' -> '' @
              to_text (pick (sankeyDatumValue datum ''targetLabel'') target)
         else to_text (pick (sankeyDatumValue datum ''name'')
                (pick (sankeyDatumValue datum ''rawLabel'') (JString []))))"

section \<open>Totals\<close>

text \<open>What the loop over the paths adds, one item per node and one per link.\<close>

type_synonym node_item = "FlowPathNode \<times> FlowMetrics \<times> string"
type_synonym link_item = "(FlowPathNode \<times> FlowPathNode) \<times> FlowMetrics \<times> string"

definition node_items :: "PreparedFlowPath list \<Rightarrow> node_item list" where
  "node_items paths =
     concat (map (\<lambda>p. map (\<lambda>n. (n, p_metrics p, p_id (hd (p_path p)))) (p_path p)) paths)"

definition link_items :: "PreparedFlowPath list \<Rightarrow> link_item list" where
  "link_items paths =
     concat (map (\<lambda>p. map (\<lambda>ab. (ab, p_metrics p, p_id (hd (p_path p)))) (steps (p_path p))) paths)"

definition add_node_item :: "FlowMetric \<Rightarrow> (string \<Rightarrow> string) \<Rightarrow> node_item \<Rightarrow> node_map \<Rightarrow> node_map" where
  "add_node_item metric colorOf = (\<lambda>(n, ms, r). addNode n ms metric (colorOf r) r)"

definition add_link_item :: "FlowMetric \<Rightarrow> (string \<Rightarrow> string) \<Rightarrow> link_item \<Rightarrow> link_map \<Rightarrow> link_map" where
  "add_link_item metric colorOf = (\<lambda>((a, b), ms, r). addLink a b ms metric (colorOf r) r)"

lemma steps_Nil [simp]: "steps [] = []"
  by (simp add: steps_def)

lemma fold_add_path:
  "fold (add_path colorOf metric) paths (ns, ls) =
     (fold (add_node_item metric colorOf) (node_items paths) ns,
      fold (add_link_item metric colorOf) (link_items paths) ls)"
proof (induction paths arbitrary: ns ls)
  case Nil
  then show ?case by (simp add: node_items_def link_items_def)
next
  case (Cons p paths)
  have "add_path colorOf metric p (ns, ls) =
      (fold (add_node_item metric colorOf) (map (\<lambda>n. (n, p_metrics p, p_id (hd (p_path p)))) (p_path p)) ns,
       fold (add_link_item metric colorOf) (map (\<lambda>ab. (ab, p_metrics p, p_id (hd (p_path p)))) (steps (p_path p))) ls)"
    by (cases "p_path p")
      (simp_all add: add_path_def add_node_item_def add_link_item_def fold_map comp_def Let_def case_prod_beta')
  with Cons show ?case by (simp add: node_items_def link_items_def)
qed

definition node_reading :: "node_map \<Rightarrow> string \<Rightarrow> rat" where
  "node_reading m k = (case map_of m k of Some n \<Rightarrow> n_value n | None \<Rightarrow> 0)"

definition link_reading :: "link_map \<Rightarrow> string \<Rightarrow> rat" where
  "link_reading m k = (case map_of m k of Some l \<Rightarrow> l_value l | None \<Rightarrow> 0)"

definition link_item_key :: "link_item \<Rightarrow> string" where
  "link_item_key x = pathLinkKey (fst (fst x)) (snd (fst x))"

interpretation node_totals: accumulator node_reading "add_node_item metric colorOf"
  "\<lambda>x. p_id (fst x)" "\<lambda>x. metricValue (fst (snd x)) metric"
  for metric colorOf
  by unfold_locales
    (auto simp: node_reading_def add_node_item_def addNode_def update_conv Let_def split: option.splits)

interpretation link_totals: accumulator link_reading "add_link_item metric colorOf"
  link_item_key "\<lambda>x. metricValue (fst (snd x)) metric"
  for metric colorOf
  by unfold_locales
    (auto simp: link_reading_def add_link_item_def addLink_def link_item_key_def pathLinkKey_def update_conv
      Let_def split: option.splits)

section \<open>The maps stay well formed\<close>

definition node_map_ok :: "node_map \<Rightarrow> bool" where
  "node_map_ok m \<longleftrightarrow> distinct (map fst m) \<and>
     list_all (\<lambda>(k, n). n_id n = k \<and> starts_with (kind_name (n_kind n) @ '':'') k) m"

definition link_of :: "link_item list \<Rightarrow> DashboardFlowLink \<Rightarrow> bool" where
  "link_of items l \<longleftrightarrow> list_ex (\<lambda>x. l_source l = p_id (fst (fst x)) \<and> l_target l = p_id (snd (fst x))) items"

definition link_map_ok :: "link_item list \<Rightarrow> link_map \<Rightarrow> bool" where
  "link_map_ok items m \<longleftrightarrow> distinct (map fst m) \<and> list_all (\<lambda>(k, l). linkStableKey l = k \<and> link_of items l) m"

lemma update_all:
  "list_all P m \<Longrightarrow> P (k, v) \<Longrightarrow> list_all P (AList.update k v m)"
  by (induction m) auto

lemma map_of_all: "list_all P m \<Longrightarrow> map_of m k = Some v \<Longrightarrow> P (k, v)"
  by (auto simp: list_all_iff dest: map_of_SomeD)

lemma addNode_ok:
  assumes "node_map_ok m" and "well_named n"
  shows "node_map_ok (addNode n ms metric c r m)"
proof -
  have "n_id v = p_id n \<and> starts_with (kind_name (n_kind v) @ '':'') (p_id n)"
    if "map_of m (p_id n) = Some v" for v
    using assms(1) map_of_all [OF _ that] by (auto simp: node_map_ok_def)
  with assms show ?thesis
    by (auto simp: node_map_ok_def addNode_def Let_def well_named_def intro!: distinct_update update_all
        split: option.splits)
qed

lemma add_link_item_ok:
  assumes "link_map_ok items m" and "x \<in> set items"
  shows "link_map_ok items (add_link_item metric colorOf x m)"
proof -
  obtain a b ms r where x: "x = ((a, b), ms, r)" by (metis prod.collapse)
  have "linkStableKey v = p_id a @ [CHR 0x00] @ p_id b \<and> link_of items v"
    if "map_of m (p_id a @ [CHR 0x00] @ p_id b) = Some v" for v
    using assms map_of_all [OF _ that] by (auto simp: link_map_ok_def)
  moreover have "list_ex (\<lambda>x. p_id a = p_id (fst (fst x)) \<and> p_id b = p_id (snd (fst x))) items"
    using assms(2) x by (force simp: list_ex_iff)
  ultimately show ?thesis using assms(1)
    by (auto simp: x add_link_item_def link_map_ok_def addLink_def Let_def linkStableKey_def link_of_def
        intro!: distinct_update update_all split: option.splits)
qed

lemma node_fold_ok:
  "list_all (\<lambda>x. well_named (fst x)) xs \<Longrightarrow> node_map_ok m \<Longrightarrow> node_map_ok (fold (add_node_item metric colorOf) xs m)"
  by (induction xs arbitrary: m) (auto simp: add_node_item_def addNode_ok)

lemma link_fold_ok:
  "set xs \<subseteq> set items \<Longrightarrow> link_map_ok items m \<Longrightarrow> link_map_ok items (fold (add_link_item metric colorOf) xs m)"
  by (induction xs arbitrary: m) (simp_all add: add_link_item_ok)

lemma add_item_keys:
  "fst ` set (add_node_item metric colorOf x m) = insert (p_id (fst x)) (fst ` set m)"
  "fst ` set (add_link_item metric colorOf y n) = insert (link_item_key y) (fst ` set n)"
  by (simp_all add: add_node_item_def add_link_item_def addNode_def addLink_def Let_def dom_update
      link_item_key_def pathLinkKey_def case_prod_beta)

lemma node_fold_keys:
  "fst ` set (fold (add_node_item metric colorOf) xs m) = fst ` set m \<union> (\<lambda>x. p_id (fst x)) ` set xs"
  by (induction xs arbitrary: m) (simp_all add: add_item_keys)

lemma link_fold_keys:
  "fst ` set (fold (add_link_item metric colorOf) xs m) = fst ` set m \<union> link_item_key ` set xs"
  by (induction xs arbitrary: m) (simp_all add: add_item_keys)

text \<open>A sum over the entries selected by their keys.\<close>

lemma sum_entries:
  assumes "distinct (map fst m)" and "\<And>k v. (k, v) \<in> set m \<Longrightarrow> P v \<longleftrightarrow> Q k"
  shows "(\<Sum>(k, v)\<leftarrow>m. if P v then f v else 0) =
    (\<Sum>k\<in>{k \<in> fst ` set m. Q k}. case map_of m k of Some v \<Rightarrow> f v | None \<Rightarrow> (0::rat))"
  using assms
proof (induction m)
  case Nil
  then show ?case by simp
next
  case (Cons kv m)
  obtain k v where kv: "kv = (k, v)" by (cases kv)
  have "distinct (map fst m)" and k: "k \<notin> fst ` set m" using Cons.prems(1) kv by auto
  with Cons have IH: "(\<Sum>(k, v)\<leftarrow>m. if P v then f v else 0) =
      (\<Sum>k\<in>{k \<in> fst ` set m. Q k}. case map_of m k of Some v \<Rightarrow> f v | None \<Rightarrow> 0)"
    by (metis (no_types, lifting) list.set_intros(2))
  have eq: "(\<Sum>k\<in>{k \<in> fst ` set m. Q k}. case map_of (kv # m) k of Some v \<Rightarrow> f v | None \<Rightarrow> 0) =
      (\<Sum>k\<in>{k \<in> fst ` set m. Q k}. case map_of m k of Some v \<Rightarrow> f v | None \<Rightarrow> 0)"
    using k kv by (intro sum.cong) auto
  have Pv: "P v \<longleftrightarrow> Q k" using Cons.prems(2) kv by simp
  have set: "{k' \<in> fst ` set (kv # m). Q k'} = (if Q k then insert k {k \<in> fst ` set m. Q k} else {k \<in> fst ` set m. Q k})"
    using kv by auto
  show ?case unfolding set using IH eq Pv kv k by simp
qed

section \<open>Paths\<close>

lemma prepared_ok:
  assumes "p \<in> set (prepare_paths env rows metric stages ctx options)"
  shows "map p_kind (p_path p) = stages \<and> list_all well_named (p_path p)"
proof -
  from assms obtain row path where
    "applyTopNodeLimit (flowPathForStages row stages ctx)
      (buildTopNodeSets env rows metric stages (normalizeTopNodeLimit (o_topNodeLimit options)) ctx)
      (case o_overflowMode options of Some m \<Rightarrow> m | None \<Rightarrow> Aggregate) (o_otherNodeLabel options) = Some path"
    and p: "p = \<lparr>p_path = path, p_metrics = rowMetrics row\<rparr>"
    by (auto simp: prepare_paths_def Let_def List.map_filter_def)
  moreover have "list_all well_named (flowPathForStages row stages ctx)"
    by (simp add: flowPathForStages_def list_all_iff)
  ultimately show ?thesis
    using limited_path path_kinds by (metis FlowPathNode.select_convs PreparedFlowPath.select_convs(1))
qed

definition keeps_all_rows :: "FlowGraphOptions \<Rightarrow> bool" where
  "keeps_all_rows options \<longleftrightarrow>
     normalizeTopNodeLimit (o_topNodeLimit options) = None \<or> o_overflowMode options \<noteq> Some Hide"

lemma prepared_metrics:
  assumes "keeps_all_rows options"
  shows "map p_metrics (prepare_paths env rows metric stages ctx options) = map rowMetrics rows"
proof -
  have all: "map p_metrics (List.map_filter (\<lambda>row. map_option (\<lambda>path. \<lparr>p_path = path, p_metrics = rowMetrics row\<rparr>)
      (f row)) rs) = map rowMetrics rs" if "\<forall>row. f row \<noteq> None" for f rs
  proof (induction rs)
    case (Cons r rs)
    from that obtain y where "f r = Some y" by blast
    with Cons show ?case by (simp add: List.map_filter_simps)
  qed (simp add: List.map_filter_simps)
  have "applyTopNodeLimit pth
      (buildTopNodeSets env rows metric stages (normalizeTopNodeLimit (o_topNodeLimit options)) ctx)
      (case o_overflowMode options of Some m \<Rightarrow> m | None \<Rightarrow> Aggregate) labeler \<noteq> None" for pth labeler
    using assms
    by (auto simp: keeps_all_rows_def buildTopNodeSets_def applyTopNodeLimit_def split: option.splits)
  then show ?thesis unfolding prepare_paths_def Let_def by (intro all) blast
qed

lemma summary_value:
  "metricValue (buildSummary rows) metric = (\<Sum>row\<leftarrow>rows. metricValue (rowMetrics row) metric)"
proof -
  have "metricValue (fold (\<lambda>row s. let ms = rowMetrics row in
      s\<lparr>m_quota := m_quota s + m_quota ms, m_tokens := m_tokens s + m_tokens ms,
        m_requests := m_requests s + m_requests ms\<rparr>) rows s) metric =
    metricValue s metric + (\<Sum>row\<leftarrow>rows. metricValue (rowMetrics row) metric)" for s :: FlowMetrics
    by (induction rows arbitrary: s) (cases metric; simp add: Let_def)+
  then show ?thesis by (cases metric) (simp_all add: buildSummary_def)
qed

text \<open>A path visits every stage once.\<close>

lemma one_node_per_stage:
  assumes "distinct (map p_kind path)" and "k \<in> p_kind ` set path"
  shows "(\<Sum>n\<leftarrow>path. if p_kind n = k then v else 0) = (v :: rat)"
  using assms
proof (induction path)
  case Nil
  then show ?case by simp
next
  case (Cons n path)
  show ?case
  proof (cases "p_kind n = k")
    case True
    with Cons.prems(1) have "\<forall>x \<in> set path. p_kind x \<noteq> k"
      by (metis distinct.simps(2) image_eqI list.simps(9) set_map)
    then have "map (\<lambda>n. if p_kind n = k then v else 0) path = map (\<lambda>_. 0) path" by (intro map_cong) auto
    then have "(\<Sum>n\<leftarrow>path. if p_kind n = k then v else 0) = 0" by (simp only: sum_list_0)
    with True show ?thesis by simp
  next
    case False
    with Cons.prems have "(\<Sum>n\<leftarrow>path. if p_kind n = k then v else 0) = v" by (intro Cons.IH) auto
    with False show ?thesis by simp
  qed
qed

lemma node_items_sum:
  assumes "\<And>p. p \<in> set paths \<Longrightarrow> map p_kind (p_path p) = stages" and "distinct stages" and "k \<in> set stages"
  shows "(\<Sum>x\<leftarrow>node_items paths. if p_kind (fst x) = k then metricValue (fst (snd x)) metric else 0) =
    (\<Sum>p\<leftarrow>paths. metricValue (p_metrics p) metric)"
  using assms(1)
proof (induction paths)
  case Nil
  then show ?case by (simp add: node_items_def)
next
  case (Cons p paths)
  have "map p_kind (p_path p) = stages" using Cons.prems by simp
  then have "(\<Sum>n\<leftarrow>p_path p. if p_kind n = k then metricValue (p_metrics p) metric else 0) =
      metricValue (p_metrics p) metric"
    using assms(2,3) by (intro one_node_per_stage) (auto simp flip: set_map)
  moreover have "node_items (p # paths) =
      map (\<lambda>n. (n, p_metrics p, p_id (hd (p_path p)))) (p_path p) @ node_items paths" by (simp add: node_items_def)
  ultimately show ?case using Cons by (simp add: comp_def cong: if_cong)
qed

text \<open>What masking and highlighting keep of a node and of a link.\<close>

definition keeps_node :: "(DashboardFlowNode \<Rightarrow> DashboardFlowNode) \<Rightarrow> bool" where
  "keeps_node F \<longleftrightarrow> (\<forall>n. n_id (F n) = n_id n \<and> n_kind (F n) = n_kind n \<and> n_value (F n) = n_value n)"

definition keeps_link :: "(DashboardFlowLink \<Rightarrow> DashboardFlowLink) \<Rightarrow> bool" where
  "keeps_link F \<longleftrightarrow> (\<forall>l. l_source (F l) = l_source l \<and> l_target (F l) = l_target l \<and> l_value (F l) = l_value l)"

lemma keeps_id: "keeps_node (\<lambda>n. n)" "keeps_link (\<lambda>l. l)"
  by (simp_all add: keeps_node_def keeps_link_def)

lemma mask_link_keeps: "keeps_link (mask_link masked)"
  by (auto simp: keeps_link_def mask_link_def Let_def split: option.splits)

lemma highlight_keeps: "keeps_node (highlight_node h)" "keeps_link (highlight_link h)"
  by (simp_all add: keeps_node_def keeps_link_def highlight_node_def highlight_link_def Let_def)

lemma masked_maps:
  "\<exists>F G. keeps_node F \<and> keeps_link G \<and>
     maskFlowGraphLabels (ns, ls) = (map (apsnd F) ns, map (apsnd G) ls)"
proof -
  let ?F = "\<lambda>n. if maskable n then n\<lparr>n_label := maskFlowLabel (n_label n)\<rparr> else n"
  have F: "keeps_node ?F" by (simp add: keeps_node_def)
  have "map (apsnd (\<lambda>l. l)) ls = ls" by (simp add: apsnd_def map_prod_def)
  then show ?thesis
    unfolding maskFlowGraphLabels_def Let_def prod.case
    using F keeps_id(2) mask_link_keeps by (smt (verit))
qed

lemma highlighted_maps:
  "\<exists>F G. keeps_node F \<and> keeps_link G \<and>
     applyFlowHighlights h (ns, ls) = (map (apsnd F) ns, map (apsnd G) ls)"
proof (cases h)
  case None
  then have "applyFlowHighlights h (ns, ls) = (map (apsnd (\<lambda>n. n)) ns, map (apsnd (\<lambda>l. l)) ls)"
    by (simp add: applyFlowHighlights_def apsnd_def map_prod_def)
  with keeps_id show ?thesis by blast
next
  case (Some hs)
  with highlight_keeps [of hs] show ?thesis by (auto simp: applyFlowHighlights_def)
qed

lemma flow_maps_form:
  "\<exists>F G. keeps_node F \<and> keeps_link G \<and>
     flow_maps env paths metric stages palette options =
       (map (apsnd F) (fold (add_node_item metric (path_color env paths palette)) (node_items paths) []),
        map (apsnd G) (fold (add_link_item metric (path_color env paths palette)) (link_items paths) []))"
proof -
  define ns ls where "ns = fold (add_node_item metric (path_color env paths palette)) (node_items paths) []"
    and "ls = fold (add_link_item metric (path_color env paths palette)) (link_items paths) []"
  have comp: "keeps_node (F' \<circ> F)" "keeps_link (G' \<circ> G)"
    if "keeps_node F" "keeps_node F'" "keeps_link G" "keeps_link G'" for F F' G G'
    using that by (simp_all add: keeps_node_def keeps_link_def)
  have app: "map (apsnd f) (map (apsnd g) xs) = map (apsnd (f \<circ> g)) xs" for f :: "'b \<Rightarrow> 'c" and g :: "'a \<Rightarrow> 'b" and xs :: "(string \<times> 'a) list"
    by (simp add: apsnd_compose comp_def)
  obtain F G where FG: "keeps_node F" "keeps_link G"
    and m: "(if o_maskSensitive options then maskFlowGraphLabels (ns, ls) else (ns, ls)) =
      (map (apsnd F) ns, map (apsnd G) ls)"
  proof (cases "o_maskSensitive options")
    case True
    with masked_maps [of ns ls] that show ?thesis by auto
  next
    case False
    with that [OF keeps_id] show ?thesis by (simp add: apsnd_def map_prod_def)
  qed
  obtain F' G' where FG': "keeps_node F'" "keeps_link G'"
    and h: "applyFlowHighlights (buildFlowHighlightSets paths (o_activeNode options) (o_activeLink options) stages)
      (map (apsnd F) ns, map (apsnd G) ls) = (map (apsnd F') (map (apsnd F) ns), map (apsnd G') (map (apsnd G) ls))"
    using highlighted_maps by blast
  have "flow_maps env paths metric stages palette options = (map (apsnd (F' \<circ> F)) ns, map (apsnd (G' \<circ> G)) ls)"
    unfolding flow_maps_def fold_add_path Let_def ns_def [symmetric] ls_def [symmetric] m h app ..
  with comp [OF FG(1) FG'(1) FG(2) FG'(2)] show ?thesis unfolding ns_def ls_def by blast
qed

section \<open>Conservation\<close>

text \<open>The nodes of a kind carry what the items of that kind carry.\<close>

lemma nodes_of_kind_sum:
  assumes "list_all (\<lambda>x. well_named (fst x)) items"
  shows "(\<Sum>(i, n)\<leftarrow>fold (add_node_item metric colorOf) items []. if n_kind n = k then n_value n else 0) =
    (\<Sum>x\<leftarrow>items. if p_kind (fst x) = k then metricValue (fst (snd x)) metric else 0)"
proof -
  let ?m = "fold (add_node_item metric colorOf) items []"
  let ?Q = "\<lambda>i. starts_with (kind_name k @ '':'') i"
  have ok: "node_map_ok ?m" using node_fold_ok [OF assms, of "[]"] by (simp add: node_map_ok_def)
  have pq: "n_kind n = k \<longleftrightarrow> ?Q i" if "(i, n) \<in> set ?m" for i n
    using ok that kind_prefix_unique by (auto simp: node_map_ok_def list_all_iff)
  have keys: "fst ` set ?m = (\<lambda>x. p_id (fst x)) ` set items" using node_fold_keys [of metric colorOf items "[]"] by simp
  have "(\<Sum>(i, n)\<leftarrow>?m. if n_kind n = k then n_value n else 0) = (\<Sum>i\<in>{i \<in> fst ` set ?m. ?Q i}. node_reading ?m i)"
    unfolding node_reading_def using ok pq by (intro sum_entries) (auto simp: node_map_ok_def)
  also have "\<dots> = (\<Sum>x\<leftarrow>items. if p_id (fst x) \<in> {i \<in> fst ` set ?m. ?Q i} then metricValue (fst (snd x)) metric else 0)"
    by (subst node_totals.total_fold) (simp_all add: node_reading_def)
  also have "\<dots> = (\<Sum>x\<leftarrow>items. if p_kind (fst x) = k then metricValue (fst (snd x)) metric else 0)"
  proof (intro arg_cong [where f = sum_list] map_cong refl)
    fix x assume x: "x \<in> set items"
    then have "well_named (fst x)" using assms by (simp add: list_all_iff)
    then have "p_kind (fst x) = k \<longleftrightarrow> ?Q (p_id (fst x))"
      unfolding well_named_def using kind_prefix_unique by blast
    moreover have "p_id (fst x) \<in> fst ` set ?m" using x keys by simp
    ultimately show "(if p_id (fst x) \<in> {i \<in> fst ` set ?m. ?Q i} then metricValue (fst (snd x)) metric else 0) =
        (if p_kind (fst x) = k then metricValue (fst (snd x)) metric else 0)" by simp
  qed
  finally show ?thesis .
qed

lemma graph_nodes:
  obtains F where "keeps_node F"
    and "g_nodes (buildFlowGraph env rows metric role palette vs ctx options) = js_sort (byValueThenLabel env)
      (map F (map snd (fold (add_node_item metric (path_color env
        (prepare_paths env rows metric (resolveVisibleStages role vs) ctx options) palette))
        (node_items (prepare_paths env rows metric (resolveVisibleStages role vs) ctx options)) [])))"
  using flow_maps_form [of env "prepare_paths env rows metric (resolveVisibleStages role vs) ctx options" metric
      "resolveVisibleStages role vs" palette options]
  by (auto simp: buildFlowGraph_def Let_def comp_def)

lemma prepared_named:
  "list_all (\<lambda>x. well_named (fst x)) (node_items (prepare_paths env rows metric stages ctx options))"
  using prepared_ok by (fastforce simp: node_items_def list_all_iff)

text \<open>C18: unless rows are hidden by the limit on nodes, the nodes of every visible stage together carry
  exactly the total of the selected metric: no usage is lost or counted twice.\<close>

theorem flow_conserved:
  assumes "keeps_all_rows options" and "k \<in> set (resolveVisibleStages role vs)"
  shows "(\<Sum>n\<leftarrow>g_nodes (buildFlowGraph env rows metric role palette vs ctx options).
      if n_kind n = k then n_value n else 0) = metricValue (buildSummary rows) metric"
proof -
  define paths where "paths = prepare_paths env rows metric (resolveVisibleStages role vs) ctx options"
  obtain F where F: "keeps_node F" and g: "g_nodes (buildFlowGraph env rows metric role palette vs ctx options) =
      js_sort (byValueThenLabel env) (map F (map snd (fold (add_node_item metric (path_color env paths palette))
        (node_items paths) [])))"
    unfolding paths_def by (rule graph_nodes)
  have "(\<Sum>n\<leftarrow>g_nodes (buildFlowGraph env rows metric role palette vs ctx options). if n_kind n = k then n_value n else 0) =
      (\<Sum>(i, n)\<leftarrow>fold (add_node_item metric (path_color env paths palette)) (node_items paths) [].
        if n_kind n = k then n_value n else 0)"
    unfolding g sum_js_sort using F by (simp add: keeps_node_def comp_def case_prod_beta' cong: if_cong)
  also have "\<dots> = (\<Sum>x\<leftarrow>node_items paths. if p_kind (fst x) = k then metricValue (fst (snd x)) metric else 0)"
    by (rule nodes_of_kind_sum) (simp add: paths_def prepared_named)
  also have "\<dots> = (\<Sum>p\<leftarrow>paths. metricValue (p_metrics p) metric)"
    using prepared_ok stages_ok(1) assms(2) by (intro node_items_sum) (auto simp: paths_def)
  also have "\<dots> = (\<Sum>ms\<leftarrow>map p_metrics paths. metricValue ms metric)" by (simp add: comp_def)
  also have "\<dots> = metricValue (buildSummary rows) metric"
    unfolding paths_def prepared_metrics [OF assms(1)] summary_value by (simp add: comp_def)
  finally show ?thesis .
qed

definition sample_env :: flow_env where
  "sample_env = \<lparr>localeCompare = (\<lambda>_ _. 0), formatNumber = num_text, dataScheme = [(None, [Some ''#1664FF''])]\<rparr>"

definition sample_row :: FlowQuotaDataItem where
  "sample_row = \<lparr>row_user_id = JNumber (Fin 7), row_username = Some ''ann'', row_node_name = None,
     row_use_group = Some ''vip'', row_token_id = JNumber (Fin 1), row_token_name = Some ''key'',
     row_channel_id = JNumber (Fin 2), row_channel_name = None, row_model_name = Some ''gpt'',
     row_token_used = JNumber (Fin 9), row_count = JNumber (Fin 1), row_quota = JNumber (Fin 5)\<rparr>"

definition sample_options :: FlowGraphOptions where
  "sample_options = \<lparr>o_topNodeLimit = Some (Fin 3), o_overflowMode = Some Aggregate, o_otherNodeLabel = None,
     o_activeNode = None, o_activeLink = None, o_maskSensitive = True\<rparr>"

lemma sample_summary: "metricValue (buildSummary [sample_row, sample_row]) QuotaMetric = 10"
  by (simp add: summary_value sample_row_def rowMetrics_def numberValue_def del: metricValue.simps) simp

theorem flow_conserved_witness:
  "(\<Sum>n\<leftarrow>g_nodes (buildFlowGraph sample_env [sample_row, sample_row] QuotaMetric RoleUser None None None sample_options).
      if n_kind n = GroupKind then n_value n else 0) = 10"
  using flow_conserved [of sample_options GroupKind RoleUser None sample_env "[sample_row, sample_row]" QuotaMetric None None]
  by (simp add: sample_summary keeps_all_rows_def sample_options_def resolveVisibleStages_def del: metricValue.simps)

text \<open>The links that leave a stage.\<close>

definition from_kind :: "FlowNodeKind \<Rightarrow> DashboardFlowLink \<Rightarrow> bool" where
  "from_kind k l \<longleftrightarrow> starts_with (kind_name k @ '':'') (l_source l)"

lemma starts_with_more: "starts_with p s \<Longrightarrow> starts_with p (s @ t)"
  by (auto simp: starts_with_iff)

lemma links_of_kind_sum:
  assumes "list_all (\<lambda>x. well_named (fst (fst x))) items"
  shows "(\<Sum>(i, l)\<leftarrow>fold (add_link_item metric colorOf) items []. if from_kind k l then l_value l else 0) =
    (\<Sum>x\<leftarrow>items. if p_kind (fst (fst x)) = k then metricValue (fst (snd x)) metric else 0)"
proof -
  let ?m = "fold (add_link_item metric colorOf) items []"
  let ?Q = "\<lambda>i. starts_with (kind_name k @ '':'') i"
  have ok: "link_map_ok items ?m" using link_fold_ok [of items items "[]"] by (simp add: link_map_ok_def)
  have named: "starts_with (kind_name (p_kind (fst (fst x))) @ '':'') (p_id (fst (fst x)))" if "x \<in> set items" for x
    using assms that by (simp add: list_all_iff well_named_def)
  have pq: "from_kind k l \<longleftrightarrow> ?Q i" if "(i, l) \<in> set ?m" for i l
  proof -
    from ok that have i: "i = l_source l @ [CHR 0x00] @ l_target l" and "link_of items l"
      by (auto simp: link_map_ok_def list_all_iff linkStableKey_def)
    then obtain x where x: "x \<in> set items" "l_source l = p_id (fst (fst x))" by (auto simp: link_of_def list_ex_iff)
    with named [OF x(1)] i show ?thesis
      unfolding from_kind_def by (metis kind_prefix_unique starts_with_more)
  qed
  have keys: "fst ` set ?m = link_item_key ` set items" using link_fold_keys [of metric colorOf items "[]"] by simp
  have "(\<Sum>(i, l)\<leftarrow>?m. if from_kind k l then l_value l else 0) = (\<Sum>i\<in>{i \<in> fst ` set ?m. ?Q i}. link_reading ?m i)"
    unfolding link_reading_def using ok pq by (intro sum_entries) (auto simp: link_map_ok_def)
  also have "\<dots> = (\<Sum>x\<leftarrow>items. if link_item_key x \<in> {i \<in> fst ` set ?m. ?Q i} then metricValue (fst (snd x)) metric else 0)"
    by (subst link_totals.total_fold) (simp_all add: link_reading_def)
  also have "\<dots> = (\<Sum>x\<leftarrow>items. if p_kind (fst (fst x)) = k then metricValue (fst (snd x)) metric else 0)"
  proof (intro arg_cong [where f = sum_list] map_cong refl)
    fix x assume x: "x \<in> set items"
    have "p_kind (fst (fst x)) = k \<longleftrightarrow> ?Q (link_item_key x)"
      unfolding link_item_key_def pathLinkKey_def
      using named [OF x] by (metis kind_prefix_unique starts_with_more)
    moreover have "link_item_key x \<in> fst ` set ?m" using x keys by simp
    ultimately show "(if link_item_key x \<in> {i \<in> fst ` set ?m. ?Q i} then metricValue (fst (snd x)) metric else 0) =
        (if p_kind (fst (fst x)) = k then metricValue (fst (snd x)) metric else 0)" by simp
  qed
  finally show ?thesis .
qed

lemma steps_fst: "map fst (steps path) = butlast path"
  unfolding steps_def by (induction path rule: induct_list012) auto

lemma link_items_sum:
  assumes "\<And>p. p \<in> set paths \<Longrightarrow> map p_kind (p_path p) = stages" and "distinct stages" and "Suc i < length stages"
  shows "(\<Sum>x\<leftarrow>link_items paths. if p_kind (fst (fst x)) = stages ! i then metricValue (fst (snd x)) metric else 0) =
    (\<Sum>p\<leftarrow>paths. metricValue (p_metrics p) metric)"
  using assms(1)
proof (induction paths)
  case Nil
  then show ?case by (simp add: link_items_def)
next
  case (Cons p paths)
  have kinds: "map p_kind (butlast (p_path p)) = butlast stages" using Cons.prems [of p] by (simp add: map_butlast)
  have "stages ! i \<in> set (butlast stages)"
    using assms(3) by (metis Suc_lessE Suc_less_eq diff_Suc_1 length_butlast nth_butlast nth_mem)
  with kinds assms(2) have "(\<Sum>n\<leftarrow>butlast (p_path p). if p_kind n = stages ! i then metricValue (p_metrics p) metric else 0) =
      metricValue (p_metrics p) metric"
    by (intro one_node_per_stage) (simp_all add: distinct_butlast flip: set_map)
  then have "(\<Sum>ab\<leftarrow>steps (p_path p). if p_kind (fst ab) = stages ! i then metricValue (p_metrics p) metric else 0) =
      metricValue (p_metrics p) metric"
    unfolding steps_fst [symmetric] by (simp add: comp_def)
  moreover have "link_items (p # paths) =
      map (\<lambda>ab. (ab, p_metrics p, p_id (hd (p_path p)))) (steps (p_path p)) @ link_items paths" by (simp add: link_items_def)
  ultimately show ?case using Cons by (simp add: comp_def cong: if_cong)
qed

text \<open>Colouring changes none of these fields.\<close>

definition link_core :: "DashboardFlowLink \<Rightarrow> string \<times> string \<times> rat \<times> rat \<times> flow_label \<times> flow_label" where
  "link_core l = (l_source l, l_target l, l_value l, l_share l, l_sourceLabel l, l_targetLabel l)"

lemma colors_keep: "map link_core (assignLinkDisplayColors env ls) = map link_core ls"
proof -
  have "map link_core (assignLinkDisplayColors env ls) = map (\<lambda>i. link_core (ls ! i)) [0..<length ls]"
    unfolding assignLinkDisplayColors_def by (simp add: link_core_def Let_def case_prod_beta)
  also have "\<dots> = map link_core (map ((!) ls) [0..<length ls])" by simp
  finally show ?thesis by (simp only: map_nth)
qed

lemma colors_sum:
  assumes "\<And>l. f l = g (link_core l)"
  shows "sum_list (map f (assignLinkDisplayColors env ls)) = (sum_list (map f ls) :: rat)"
proof -
  have "map f xs = map g (map link_core xs)" for xs using assms by simp
  then show ?thesis by (simp only: colors_keep)
qed

lemma graph_links:
  obtains F where "keeps_link F"
    and "g_links (buildFlowGraph env rows metric role palette vs ctx options) =
      (let paths = prepare_paths env rows metric (resolveVisibleStages role vs) ctx options;
           ls = js_sort (by_source_target env) (map F (map snd (fold (add_link_item metric
             (path_color env paths palette)) (link_items paths) [])))
       in assignLinkDisplayColors env (with_shares (first_step_total paths ls) ls))"
  using flow_maps_form [of env "prepare_paths env rows metric (resolveVisibleStages role vs) ctx options" metric
      "resolveVisibleStages role vs" palette options]
  by (auto simp: buildFlowGraph_def Let_def comp_def)

lemma path_head:
  assumes "map p_kind (p_path p) = stages" and "n \<in> set (p_path p)" and "distinct stages"
    and "p_kind n = hd stages"
  shows "n = hd (p_path p)"
proof (cases "p_path p")
  case (Cons a rest)
  with assms(1,3) have "p_kind a \<notin> p_kind ` set rest" "hd stages = p_kind a" by auto
  with assms(2,4) Cons show ?thesis by (metis image_eqI list.sel(1) set_ConsD)
qed (use assms(2) in simp)

lemma root_ids_iff:
  "i \<in> set (root_ids paths) \<longleftrightarrow> i \<noteq> [] \<and> (\<exists>p \<in> set paths. p_path p \<noteq> [] \<and> i = p_id (hd (p_path p)))"
proof -
  have "set (case path of [] \<Rightarrow> [] | r # _ \<Rightarrow> [p_id r]) = (if path = [] then {} else {p_id (hd path)})"
    for path :: "FlowPathNode list" by (cases path) auto
  then show ?thesis by (auto simp: root_ids_def split: if_splits)
qed

lemma root_iff:
  assumes "\<And>p. p \<in> set paths \<Longrightarrow> map p_kind (p_path p) = stages \<and> list_all well_named (p_path p)"
    and "distinct stages" and "stages \<noteq> []" and "link_of (link_items paths) l"
  shows "l_source l \<in> set (root_ids paths) \<longleftrightarrow> from_kind (hd stages) l"
proof -
  from assms(4) obtain p ab where p: "p \<in> set paths" and ab: "ab \<in> set (steps (p_path p))"
    and l: "l_source l = p_id (fst ab)"
    by (auto simp: link_of_def list_ex_iff link_items_def)
  have a: "fst ab \<in> set (p_path p)" using ab unfolding steps_def by (metis prod.collapse set_zip_leftD)
  have "well_named (fst ab)" using assms(1) [OF p] a by (simp add: list_all_iff)
  then have wn: "starts_with (kind_name (p_kind (fst ab)) @ '':'') (l_source l)" by (simp add: well_named_def l)
  show ?thesis
  proof
    assume "l_source l \<in> set (root_ids paths)"
    then obtain q where q: "q \<in> set paths" "p_path q \<noteq> []" "l_source l = p_id (hd (p_path q))"
      by (auto simp: root_ids_iff)
    from assms(1) [OF q(1)] q(2) have "well_named (hd (p_path q))" "p_kind (hd (p_path q)) = hd stages"
      by (cases "p_path q"; auto)+
    then show "from_kind (hd stages) l" by (simp add: from_kind_def well_named_def q(3))
  next
    assume "from_kind (hd stages) l"
    with wn have "p_kind (fst ab) = hd stages" unfolding from_kind_def by (rule kind_prefix_unique)
    then have hd: "fst ab = hd (p_path p)"
      using path_head [OF _ a assms(2)] assms(1) [OF p] by blast
    have "l_source l \<noteq> []" using wn by (auto simp: starts_with_iff)
    moreover have "p_path p \<noteq> []" using a by auto
    ultimately show "l_source l \<in> set (root_ids paths)"
      unfolding root_ids_iff using p l hd by auto
  qed
qed

lemma shares_sum:
  "(\<Sum>l\<leftarrow>with_shares T ls. if from_kind k l then l_value l else 0) = (\<Sum>l\<leftarrow>ls. if from_kind k l then l_value l else 0)"
  "(\<Sum>l\<leftarrow>with_shares T ls. if from_kind k l then l_share l else 0) =
     (if 0 < T then (\<Sum>l\<leftarrow>ls. if from_kind k l then l_value l else 0) / T else 0)"
  by (induction ls) (simp_all add: with_shares_def from_kind_def add_divide_distrib)

lemma colored_sums:
  "(\<Sum>l\<leftarrow>assignLinkDisplayColors env ls. if from_kind k l then l_value l else 0) =
     (\<Sum>l\<leftarrow>ls. if from_kind k l then l_value l else 0)"
  "(\<Sum>l\<leftarrow>assignLinkDisplayColors env ls. if from_kind k l then l_share l else 0) =
     (\<Sum>l\<leftarrow>ls. if from_kind k l then l_share l else 0)"
  by (rule colors_sum [where g = "\<lambda>c. if starts_with (kind_name k @ '':'') (fst c) then fst (snd (snd c)) else 0"],
      simp add: link_core_def from_kind_def)
    (rule colors_sum [where g = "\<lambda>c. if starts_with (kind_name k @ '':'') (fst c) then fst (snd (snd (snd c))) else 0"],
      simp add: link_core_def from_kind_def)

text \<open>Paths that visit the given stages.\<close>

definition paths_through :: "FlowNodeKind list \<Rightarrow> PreparedFlowPath list \<Rightarrow> bool" where
  "paths_through stages paths \<longleftrightarrow> distinct stages \<and> stages \<noteq> [] \<and>
     list_all (\<lambda>p. map p_kind (p_path p) = stages \<and> list_all well_named (p_path p)) paths"

lemma prepared_through:
  "paths_through (resolveVisibleStages role vs) (prepare_paths env rows metric (resolveVisibleStages role vs) ctx options)"
  using prepared_ok stages_ok [of role vs] by (auto simp: paths_through_def list_all_iff MIN_FLOW_STAGES_def)

lemma prepared_total:
  assumes "keeps_all_rows options"
  shows "(\<Sum>p\<leftarrow>prepare_paths env rows metric stages ctx options. metricValue (p_metrics p) metric) =
    metricValue (buildSummary rows) metric"
proof -
  let ?paths = "prepare_paths env rows metric stages ctx options"
  have "(\<Sum>p\<leftarrow>?paths. metricValue (p_metrics p) metric) = (\<Sum>ms\<leftarrow>map p_metrics ?paths. metricValue ms metric)"
    by (simp add: comp_def)
  then show ?thesis unfolding prepared_metrics [OF assms] summary_value by (simp add: comp_def)
qed

lemma stage_links_sum:
  assumes "paths_through stages paths" and "Suc j < length stages" and "keeps_link F"
  shows "(\<Sum>l\<leftarrow>js_sort cmp (map F (map snd (fold (add_link_item metric colorOf) (link_items paths) []))).
      if from_kind (stages ! j) l then l_value l else 0) = (\<Sum>p\<leftarrow>paths. metricValue (p_metrics p) metric)"
proof -
  let ?m = "fold (add_link_item metric colorOf) (link_items paths) []"
  have named: "list_all (\<lambda>x. well_named (fst (fst x))) (link_items paths)"
    using assms(1) by (fastforce simp: paths_through_def link_items_def list_all_iff steps_def dest: set_zip_leftD)
  have "(\<Sum>l\<leftarrow>js_sort cmp (map F (map snd ?m)). if from_kind (stages ! j) l then l_value l else 0) =
      (\<Sum>(k, l)\<leftarrow>?m. if from_kind (stages ! j) l then l_value l else 0)"
    unfolding sum_js_sort using assms(3)
    by (simp add: keeps_link_def from_kind_def comp_def case_prod_beta' cong: if_cong)
  also have "\<dots> = (\<Sum>p\<leftarrow>paths. metricValue (p_metrics p) metric)"
    unfolding links_of_kind_sum [OF named]
    using link_items_sum [of paths stages j metric] assms(1,2) by (simp add: paths_through_def list_all_iff)
  finally show ?thesis .
qed

lemma first_step_links:
  assumes "paths_through stages paths" and "keeps_link F"
    and "ls = js_sort cmp (map F (map snd (fold (add_link_item metric colorOf) (link_items paths) [])))"
  shows "first_step_total paths ls = (\<Sum>l\<leftarrow>ls. if from_kind (stages ! 0) l then l_value l else 0)"
proof -
  let ?m = "fold (add_link_item metric colorOf) (link_items paths) []"
  have ok: "link_map_ok (link_items paths) ?m" by (rule link_fold_ok) (simp_all add: link_map_ok_def)
  have "l_source l \<in> set (root_ids paths) \<longleftrightarrow> from_kind (stages ! 0) l" if "l \<in> set ls" for l
  proof -
    from that obtain k v where kv: "(k, v) \<in> set ?m" "l = F v" by (auto simp: assms(3))
    with ok assms(2) have l: "link_of (link_items paths) l"
      by (auto simp: link_map_ok_def list_all_iff link_of_def keeps_link_def)
    have "l_source l \<in> set (root_ids paths) \<longleftrightarrow> from_kind (hd stages) l"
      by (rule root_iff) (use assms(1) l in \<open>auto simp: paths_through_def list_all_iff\<close>)
    then show ?thesis using assms(1) by (simp add: hd_conv_nth paths_through_def)
  qed
  then have "filter (\<lambda>l. l_source l \<in> set (root_ids paths)) ls = filter (from_kind (stages ! 0)) ls"
    by (rule filter_cong [OF refl])
  then show ?thesis by (simp add: first_step_total_def sum_list_map_filter')
qed

text \<open>C19: Unless a limit hides rows, for every visible stage but the last: the links leaving it carry together
  exactly the total of the metric over the given rows, and their shares add up to one, or to zero if the total is
  zero.  Arithmetic is exact.\<close>

theorem link_shares_complete:
  assumes "keeps_all_rows options" and "Suc i < length (resolveVisibleStages role vs)"
  shows "(\<Sum>l\<leftarrow>g_links (buildFlowGraph env rows metric role palette vs ctx options).
      if from_kind (resolveVisibleStages role vs ! i) l then l_value l else 0) = metricValue (buildSummary rows) metric \<and>
    (\<Sum>l\<leftarrow>g_links (buildFlowGraph env rows metric role palette vs ctx options).
      if from_kind (resolveVisibleStages role vs ! i) l then l_share l else 0) =
      (if 0 < metricValue (buildSummary rows) metric then 1 else 0)"
proof -
  define stages where "stages = resolveVisibleStages role vs"
  define paths where "paths = prepare_paths env rows metric stages ctx options"
  obtain F where F: "keeps_link F" and g: "g_links (buildFlowGraph env rows metric role palette vs ctx options) =
      (let ls = js_sort (by_source_target env) (map F (map snd (fold (add_link_item metric
             (path_color env paths palette)) (link_items paths) [])))
       in assignLinkDisplayColors env (with_shares (first_step_total paths ls) ls))"
    unfolding paths_def stages_def by (rule graph_links [unfolded Let_def]) (simp add: Let_def)
  define ls where "ls = js_sort (by_source_target env) (map F (map snd (fold (add_link_item metric
      (path_color env paths palette)) (link_items paths) [])))"
  have through: "paths_through stages paths" unfolding stages_def paths_def by (rule prepared_through)
  have stage: "(\<Sum>l\<leftarrow>ls. if from_kind (stages ! j) l then l_value l else 0) = metricValue (buildSummary rows) metric"
    if "Suc j < length stages" for j
    unfolding ls_def stage_links_sum [OF through that F] by (simp add: paths_def prepared_total [OF assms(1)])
  have "first_step_total paths ls = metricValue (buildSummary rows) metric"
    using first_step_links [OF through F ls_def] stage [of 0] assms(2) by (simp add: stages_def)
  then show ?thesis
    unfolding g Let_def ls_def [symmetric] colored_sums shares_sum stages_def [symmetric]
    using stage [of i] assms(2) by (simp add: stages_def)
qed

theorem link_shares_complete_witness:
  "(\<Sum>l\<leftarrow>g_links (buildFlowGraph sample_env [sample_row, sample_row] QuotaMetric RoleUser None None None sample_options).
      if from_kind GroupKind l then l_share l else 0) = 1"
  using link_shares_complete [of sample_options 1 RoleUser None sample_env "[sample_row, sample_row]" QuotaMetric None None]
  by (simp add: sample_summary keeps_all_rows_def sample_options_def resolveVisibleStages_def del: metricValue.simps)

section \<open>The limit bounds the graph\<close>

lemma stage_totals_keys: "fst ` set (stage_rank_totals rows metric stages ctx) = set stages"
proof -
  have add: "fst ` set (add_rank v n t) = fst ` set t" for v n and t :: stage_totals
  proof (cases "map_of t (p_kind n)")
    case None
    then show ?thesis by (simp add: add_rank_def)
  next
    case (Some st)
    then have "p_kind n \<in> fst ` set t" by (metis map_of_eq_None_iff option.distinct(1))
    with Some show ?thesis by (simp add: add_rank_def Let_def dom_update insert_absorb)
  qed
  have path: "fst ` set (fold (add_rank v) ns t) = fst ` set t" for v ns and t :: stage_totals
    by (induction ns arbitrary: t) (simp_all add: add)
  have rows: "fst ` set (fold (\<lambda>row. fold (add_rank (metricValue (rowMetrics row) metric))
      (flowPathForStages row stages ctx)) rs t) = fst ` set t" for rs and t :: stage_totals
    by (induction rs arbitrary: t) (simp_all add: path)
  have "fst ` set (fold (\<lambda>stage m. AList.update stage [] m) ss t) = set ss \<union> fst ` set t" for ss and t :: stage_totals
    by (induction ss arbitrary: t) (auto simp: dom_update)
  then show ?thesis by (simp add: stage_rank_totals_def rows)
qed

lemma top_set_small:
  assumes "buildTopNodeSets env rows metric stages (Some n) ctx = Some sets" and "k \<in> set stages"
  shows "\<exists>ids. map_of sets k = Some ids \<and> length ids \<le> n"
proof -
  have sets: "sets = map (\<lambda>(kind, t). (kind, top_ids env n t)) (stage_rank_totals rows metric stages ctx)"
    using assms(1) by (auto simp: buildTopNodeSets_def split: if_splits)
  then have "fst ` set sets = set stages" using stage_totals_keys [of rows metric stages ctx] by force
  with assms(2) obtain ids where ids: "map_of sets k = Some ids" by (metis map_of_eq_None_iff not_None_eq)
  then have "(k, ids) \<in> set sets" by (rule map_of_SomeD)
  then have "length ids \<le> n" unfolding sets by (auto simp: top_ids_def)
  with ids show ?thesis by blast
qed

lemma limited_nodes:
  assumes "applyTopNodeLimit path sets mode labeler = Some path'" and "m \<in> set path'"
  shows "isTopFlowNode m sets \<or> m = otherFlowNode (p_kind m) labeler"
  using assms by (auto simp: applyTopNodeLimit_def isTopFlowNode_def list_ex_iff split: if_splits option.splits)

lemma prepared_node_ids:
  assumes "normalizeTopNodeLimit (o_topNodeLimit options) = Some n" and "k \<in> set stages"
  shows "\<exists>ids. length ids \<le> n \<and> (\<forall>x \<in> set (node_items (prepare_paths env rows metric stages ctx options)).
    p_kind (fst x) = k \<longrightarrow> p_id (fst x) \<in> insert (OTHER_FLOW_NODE_IDS k) (set ids))"
proof -
  have "n \<noteq> 0" using assms(1) by (cases "o_topNodeLimit options" rule: normalizeTopNodeLimit.cases) (auto split: if_splits)
  then obtain sets where sets: "buildTopNodeSets env rows metric stages (Some n) ctx = Some sets"
    by (simp add: buildTopNodeSets_def)
  from top_set_small [OF sets assms(2)] obtain ids where ids: "map_of sets k = Some ids" "length ids \<le> n" by blast
  have "p_id (fst x) \<in> insert (OTHER_FLOW_NODE_IDS k) (set ids)"
    if x: "x \<in> set (node_items (prepare_paths env rows metric stages ctx options))" and k: "p_kind (fst x) = k" for x
  proof -
    from x obtain p where "p \<in> set (prepare_paths env rows metric stages ctx options)" "fst x \<in> set (p_path p)"
      by (auto simp: node_items_def)
    then obtain row path' where "applyTopNodeLimit (flowPathForStages row stages ctx) (Some sets)
        (case o_overflowMode options of Some m \<Rightarrow> m | None \<Rightarrow> Aggregate) (o_otherNodeLabel options) = Some path'"
      and "fst x \<in> set path'"
      using sets assms(1) by (auto simp: prepare_paths_def Let_def List.map_filter_def)
    from limited_nodes [OF this] show ?thesis
    proof
      assume "isTopFlowNode (fst x) (Some sets)"
      with ids k show ?thesis by (simp add: isTopFlowNode_def)
    next
      assume "fst x = otherFlowNode (p_kind (fst x)) (o_otherNodeLabel options)"
      then have "p_id (fst x) = OTHER_FLOW_NODE_IDS k" using k by (metis FlowPathNode.select_convs(1) otherFlowNode_def)
      then show ?thesis by simp
    qed
  qed
  with ids(2) show ?thesis by blast
qed

lemma kind_count:
  assumes "list_all (\<lambda>x. well_named (fst x)) items"
    and "\<forall>x \<in> set items. p_kind (fst x) = k \<longrightarrow> p_id (fst x) \<in> K" and "finite K"
  shows "length (filter (\<lambda>(i, n). n_kind n = k) (fold (add_node_item metric colorOf) items [])) \<le> card K"
proof -
  let ?m = "fold (add_node_item metric colorOf) items []"
  have ok: "node_map_ok ?m" using node_fold_ok [OF assms(1), of "[]"] by (simp add: node_map_ok_def)
  have "i \<in> K" if "(i, n) \<in> set ?m" "n_kind n = k" for i n
  proof -
    from that(1) have "i \<in> fst ` set ?m" by force
    then obtain x where x: "x \<in> set items" "i = p_id (fst x)"
      using node_fold_keys [of metric colorOf items "[]"] by auto
    have "well_named (fst x)" using assms(1) x(1) by (simp add: list_all_iff)
    moreover have "starts_with (kind_name k @ '':'') i" using ok that by (auto simp: node_map_ok_def list_all_iff)
    ultimately have "p_kind (fst x) = k" unfolding well_named_def x(2) by (metis kind_prefix_unique)
    with assms(2) x show ?thesis by blast
  qed
  then have "fst ` set (filter (\<lambda>(i, n). n_kind n = k) ?m) \<subseteq> K" by auto
  then have "card (fst ` set (filter (\<lambda>(i, n). n_kind n = k) ?m)) \<le> card K"
    by (rule card_mono [OF assms(3)])
  moreover have "distinct (map fst (filter (\<lambda>(i, n). n_kind n = k) ?m))"
    using ok by (simp add: node_map_ok_def distinct_map_filter)
  then have "card (fst ` set (filter (\<lambda>(i, n). n_kind n = k) ?m)) = length (filter (\<lambda>(i, n). n_kind n = k) ?m)"
    using distinct_card [of "map fst (filter (\<lambda>(i, n). n_kind n = k) ?m)"] by simp
  ultimately show ?thesis by simp
qed

text \<open>With a limit of \<open>n\<close> nodes per stage the graph shows at most \<open>n\<close> nodes of a visible stage and one
  node for all others, whichever way overflow is treated.\<close>

lemma top_nodes_bounded:
  assumes "normalizeTopNodeLimit (o_topNodeLimit options) = Some n" and "k \<in> set (resolveVisibleStages role vs)"
  shows "length (filter (\<lambda>m. n_kind m = k)
    (g_nodes (buildFlowGraph env rows metric role palette vs ctx options))) \<le> n + 1"
proof -
  define paths where "paths = prepare_paths env rows metric (resolveVisibleStages role vs) ctx options"
  obtain F where F: "keeps_node F" and g: "g_nodes (buildFlowGraph env rows metric role palette vs ctx options) =
      js_sort (byValueThenLabel env) (map F (map snd (fold (add_node_item metric (path_color env paths palette))
        (node_items paths) [])))"
    unfolding paths_def by (rule graph_nodes)
  obtain ids where ids: "length ids \<le> n" "\<forall>x \<in> set (node_items paths).
      p_kind (fst x) = k \<longrightarrow> p_id (fst x) \<in> insert (OTHER_FLOW_NODE_IDS k) (set ids)"
    unfolding paths_def using prepared_node_ids [OF assms] by blast
  let ?m = "fold (add_node_item metric (path_color env paths palette)) (node_items paths) []"
  have len: "length (filter P (js_sort cmp xs)) = length (filter P xs)" for P cmp and xs :: "DashboardFlowNode list"
    by (metis mset_filter mset_js_sort size_mset)
  have "length (filter (\<lambda>m. n_kind m = k) (map F (map snd ?m))) = length (filter (\<lambda>(i, n). n_kind n = k) ?m)"
    using F by (simp add: filter_map comp_def keeps_node_def case_prod_beta')
  also have "\<dots> \<le> card (insert (OTHER_FLOW_NODE_IDS k) (set ids))"
    using ids(2) by (intro kind_count) (simp_all add: paths_def prepared_named)
  also have "\<dots> \<le> n + 1"
    using ids(1) card_length [of ids] by (simp add: card_insert_if)
  finally show ?thesis unfolding g len .
qed

lemma top_nodes_bounded_witness:
  "length (filter (\<lambda>m. n_kind m = GroupKind)
    (g_nodes (buildFlowGraph sample_env [sample_row] QuotaMetric RoleUser None None None sample_options))) \<le> 4"
  using top_nodes_bounded [of sample_options 3 GroupKind RoleUser None sample_env "[sample_row]" QuotaMetric None None]
  by (simp add: sample_options_def resolveVisibleStages_def)

section \<open>Masking hides every sensitive label\<close>

definition hidden_label :: "flow_label \<Rightarrow> bool" where
  "hidden_label l \<longleftrightarrow> l = MaskText \<or> l = Text []"

text \<open>Identifiers of nodes whose labels must be hidden.\<close>

definition sensitive_id :: "string \<Rightarrow> bool" where
  "sensitive_id i \<longleftrightarrow> list_ex (\<lambda>k. starts_with (kind_name k @ '':'') i) SENSITIVE_FLOW_KINDS \<and>
     i \<notin> set OTHER_FLOW_NODE_ID_SET"

lemma hidden_mask [simp]: "hidden_label (maskFlowLabel l)"
  by (cases l rule: maskFlowLabel.cases) (auto simp: hidden_label_def)

lemma masked_by_id:
  fixes ns :: node_map
  defines "masked \<equiv> fold (\<lambda>(_, n) m. if maskable n then AList.update (n_id n) (maskFlowLabel (n_label n)) m else m) ns []"
  shows "map_of masked i = Some v \<Longrightarrow> hidden_label v"
    and "(k, n) \<in> set ns \<Longrightarrow> maskable n \<Longrightarrow> map_of masked (n_id n) \<noteq> None"
proof -
  let ?f = "\<lambda>(_ :: string, n) m. if maskable n then AList.update (n_id n) (maskFlowLabel (n_label n)) m else m"
  have all: "list_all (\<lambda>(_, v). hidden_label v) (fold ?f xs m)" if "list_all (\<lambda>(_, v). hidden_label v) m" for xs m
    using that by (induction xs arbitrary: m) (auto simp: update_all)
  show "map_of masked i = Some v \<Longrightarrow> hidden_label v"
    using map_of_all [OF all [of "[]" ns]] by (simp add: masked_def)
  have keep: "map_of m i \<noteq> None \<Longrightarrow> map_of (fold ?f xs m) i \<noteq> None" for i xs m
    by (induction xs arbitrary: m) (auto simp: update_conv)
  have "(k, n) \<in> set xs \<Longrightarrow> maskable n \<Longrightarrow> map_of (fold ?f xs m) (n_id n) \<noteq> None" for xs m
  proof (induction xs arbitrary: m)
    case (Cons x xs)
    show ?case
    proof (cases "x = (k, n)")
      case True
      with Cons.prems(2) keep [of "AList.update (n_id n) (maskFlowLabel (n_label n)) m" "n_id n" xs]
      show ?thesis by (simp add: update_conv)
    next
      case False
      with Cons show ?thesis by auto
    qed
  qed simp
  then show "(k, n) \<in> set ns \<Longrightarrow> maskable n \<Longrightarrow> map_of masked (n_id n) \<noteq> None" unfolding masked_def by blast
qed

lemma mask_link_hidden:
  assumes "\<And>i v. map_of masked i = Some v \<Longrightarrow> hidden_label v"
    and "sensitive_id (l_source l) \<Longrightarrow> map_of masked (l_source l) \<noteq> None"
    and "sensitive_id (l_target l) \<Longrightarrow> map_of masked (l_target l) \<noteq> None"
  shows "(sensitive_id (l_source l) \<longrightarrow> hidden_label (l_sourceLabel (mask_link masked l))) \<and>
    (sensitive_id (l_target l) \<longrightarrow> hidden_label (l_targetLabel (mask_link masked l)))"
  using assms by (auto simp: mask_link_def Let_def split: option.splits)

definition link_hidden :: "DashboardFlowLink \<Rightarrow> bool" where
  "link_hidden l \<longleftrightarrow> (if sensitive_id (l_source l) then hidden_label (l_sourceLabel l) else True) \<and>
     (if sensitive_id (l_target l) then hidden_label (l_targetLabel l) else True)"

definition node_hidden :: "DashboardFlowNode \<Rightarrow> bool" where
  "node_hidden n \<longleftrightarrow> (if maskable n then hidden_label (n_label n) else True)"

lemma masked_hidden:
  assumes "node_map_ok ns" and "link_map_ok items ls"
    and ends: "\<And>x. x \<in> set items \<Longrightarrow> p_id (fst (fst x)) \<in> fst ` set ns \<and> p_id (snd (fst x)) \<in> fst ` set ns"
  shows "list_all (\<lambda>(_, n). node_hidden n) (fst (maskFlowGraphLabels (ns, ls)))"
    and "list_all (\<lambda>(_, l). link_hidden l) (snd (maskFlowGraphLabels (ns, ls)))"
proof -
  define masked where "masked = fold (\<lambda>(_, n) m. if maskable n then AList.update (n_id n) (maskFlowLabel (n_label n)) m else m) ns []"
  have known: "map_of masked i \<noteq> None" if i: "i \<in> fst ` set ns" "sensitive_id i" for i
  proof -
    from i(1) obtain n where n: "(i, n) \<in> set ns" by auto
    with assms(1) have "n_id n = i" "starts_with (kind_name (n_kind n) @ '':'') i"
      by (auto simp: node_map_ok_def list_all_iff)
    with i(2) have "maskable n" using kind_prefix_unique
      by (auto simp: sensitive_id_def maskable_def list_ex_iff)
    with masked_by_id(2) [OF n] \<open>n_id n = i\<close> show ?thesis by (simp add: masked_def)
  qed
  have src: "l_source l \<in> fst ` set ns \<and> l_target l \<in> fst ` set ns" if "(k, l) \<in> set ls" for k l
    using that assms(2) ends by (fastforce simp: link_map_ok_def list_all_iff link_of_def list_ex_iff)
  have "link_hidden (mask_link masked l)" if kl: "(k, l) \<in> set ls" for k l
  proof -
    have "(sensitive_id (l_source l) \<longrightarrow> hidden_label (l_sourceLabel (mask_link masked l))) \<and>
        (sensitive_id (l_target l) \<longrightarrow> hidden_label (l_targetLabel (mask_link masked l)))"
      by (rule mask_link_hidden) (use src [OF kl] known masked_by_id(1) in \<open>auto simp: masked_def\<close>)
    then show ?thesis using mask_link_keeps [of masked] by (simp add: link_hidden_def keeps_link_def)
  qed
  moreover have "mask_link [] l = l" for l by (simp add: mask_link_def)
  ultimately show "list_all (\<lambda>(_, l). link_hidden l) (snd (maskFlowGraphLabels (ns, ls)))"
    by (fastforce simp: maskFlowGraphLabels_def Let_def list_all_iff masked_def [symmetric])
  show "list_all (\<lambda>(_, n). node_hidden n) (fst (maskFlowGraphLabels (ns, ls)))"
    by (auto simp: maskFlowGraphLabels_def Let_def list_all_iff node_hidden_def maskable_def)
qed

lemma link_ends:
  assumes "x \<in> set (link_items paths)"
  shows "p_id (fst (fst x)) \<in> (\<lambda>y. p_id (fst y)) ` set (node_items paths) \<and>
    p_id (snd (fst x)) \<in> (\<lambda>y. p_id (fst y)) ` set (node_items paths)"
proof -
  from assms obtain p ab where p: "p \<in> set paths" "ab \<in> set (steps (p_path p))" "fst x = ab"
    by (auto simp: link_items_def)
  then have "fst ab \<in> set (p_path p)" "snd ab \<in> set (p_path p)"
    unfolding steps_def by (metis prod.collapse set_zip_leftD, metis list.set_sel(2) prod.collapse set_zip_rightD tl_Nil)
  then have "(n, p_metrics p, p_id (hd (p_path p))) \<in> set (node_items paths)" if "n = fst ab \<or> n = snd ab" for n
    using p(1) that by (auto simp: node_items_def)
  with p(3) show ?thesis by (metis fst_conv image_eqI)
qed

lemma highlight_hidden:
  "node_hidden (highlight_node h n) = node_hidden n" "link_hidden (highlight_link h l) = link_hidden l"
  by (simp_all add: node_hidden_def link_hidden_def maskable_def highlight_node_def highlight_link_def Let_def)

lemma flow_maps_hidden:
  assumes "o_maskSensitive options" and "paths_through stages paths"
  shows "list_all (\<lambda>(_, n). node_hidden n) (fst (flow_maps env paths metric stages palette options))"
    and "list_all (\<lambda>(_, l). link_hidden l) (snd (flow_maps env paths metric stages palette options))"
proof -
  let ?c = "path_color env paths palette"
  define ns ls where "ns = fold (add_node_item metric ?c) (node_items paths) []"
    and "ls = fold (add_link_item metric ?c) (link_items paths) []"
  have named: "list_all (\<lambda>x. well_named (fst x)) (node_items paths)"
    using assms(2) by (auto simp: paths_through_def node_items_def list_all_iff)
  have "node_map_ok ns" unfolding ns_def using node_fold_ok [OF named, of "[]"] by (simp add: node_map_ok_def)
  moreover have "link_map_ok (link_items paths) ls"
    unfolding ls_def by (rule link_fold_ok) (simp_all add: link_map_ok_def)
  moreover have "p_id (fst (fst x)) \<in> fst ` set ns \<and> p_id (snd (fst x)) \<in> fst ` set ns"
    if "x \<in> set (link_items paths)" for x
    unfolding ns_def node_fold_keys using link_ends [OF that] by simp
  ultimately have m: "list_all (\<lambda>(_, n). node_hidden n) (fst (maskFlowGraphLabels (ns, ls)))"
    "list_all (\<lambda>(_, l). link_hidden l) (snd (maskFlowGraphLabels (ns, ls)))"
    using masked_hidden by blast+
  have eq: "flow_maps env paths metric stages palette options = applyFlowHighlights
      (buildFlowHighlightSets paths (o_activeNode options) (o_activeLink options) stages) (maskFlowGraphLabels (ns, ls))"
    using assms(1) by (simp add: flow_maps_def fold_add_path ns_def ls_def Let_def)
  show "list_all (\<lambda>(_, n). node_hidden n) (fst (flow_maps env paths metric stages palette options))"
    "list_all (\<lambda>(_, l). link_hidden l) (snd (flow_maps env paths metric stages palette options))"
    unfolding eq using m
    by (auto simp: applyFlowHighlights_def list_all_iff highlight_hidden case_prod_beta split: option.splits)
qed

lemma colors_hidden: "list_all link_hidden (assignLinkDisplayColors env ls) = list_all link_hidden ls"
proof -
  let ?g = "\<lambda>(s, t, v :: rat, h :: rat, a, b). (if sensitive_id s then hidden_label a else True) \<and>
      (if sensitive_id t then hidden_label b else True)"
  have "list_all link_hidden xs = list_all ?g (map link_core xs)" for xs
    by (induction xs) (simp_all add: link_hidden_def link_core_def)
  then show ?thesis by (simp only: colors_keep)
qed

text \<open>C20: with masking on, no node of a user, server node, token, group or channel shows its name, and no
  link shows the name of such a node at either end; only the nodes that stand for all others keep their
  labels.\<close>

theorem masking_hides_names:
  assumes "o_maskSensitive options"
  shows "list_all node_hidden (g_nodes (buildFlowGraph env rows metric role palette vs ctx options)) \<and>
    list_all link_hidden (g_links (buildFlowGraph env rows metric role palette vs ctx options))"
proof -
  let ?paths = "prepare_paths env rows metric (resolveVisibleStages role vs) ctx options"
  obtain ns ls where maps: "flow_maps env ?paths metric (resolveVisibleStages role vs) palette options = (ns, ls)"
    by (metis prod.collapse)
  have h: "list_all node_hidden (map snd ns)" "list_all link_hidden (map snd ls)"
    using flow_maps_hidden [OF assms prepared_through [of role vs env rows metric ctx options], of env metric palette]
    by (auto simp: maps list_all_iff)
  have "link_hidden (l\<lparr>l_share := x\<rparr>) = link_hidden l" for l x by (simp add: link_hidden_def)
  then have "list_all link_hidden (with_shares T xs) = list_all link_hidden xs" for T xs
    by (simp add: with_shares_def list_all_iff)
  with h show ?thesis by (simp add: buildFlowGraph_def Let_def maps colors_hidden)
qed

theorem masking_hides_names_witness:
  "list_all node_hidden (g_nodes (buildFlowGraph sample_env [sample_row] QuotaMetric RoleUser None None None sample_options))"
  using masking_hides_names [of sample_options] by (simp add: sample_options_def)

end
