(* ===== verification/Charts.thy ===== *)
theory Charts
  imports Interfaces Currency
begin

text \<open>
  The aggregation behind the dashboard's usage charts (\<^verbatim>\<open>web/src/features/dashboard/lib/charts.ts\<close>) and
  the axis labels of \<^verbatim>\<open>web/src/lib/time.ts\<close>: usage per time label and model, the padding of the time
  axis, the series of every chart, and the texts of their tooltips.  The label of a timestamp is an
  argument \<open>label\<close> (\<^verbatim>\<open>formatChartTime\<close> over the date library), as is the collation of labels.  Amounts are
  exact, and an amount that is not a finite number counts as zero.
\<close>

section \<open>Data\<close>

datatype TimeGranularity = Hour | Day | Week

record QuotaDataItem =
  q_created_at :: js_value
  q_model_name :: "string option"
  q_username :: "string option"
  q_quota :: js_value
  q_count :: js_value
  q_token_used :: js_value

text \<open>\<^verbatim>\<open>Number(v) || 0\<close> for the finite amounts a server sends; an infinite one, which the source keeps, counts as zero.\<close>

definition amount_of :: "js_value \<Rightarrow> rat" where
  "amount_of v = finite_or_zero (to_number v)"

text \<open>A date library with its formatting and its addition of days, on moments in milliseconds.\<close>

record date_library =
  date_format :: "js_number \<Rightarrow> string \<Rightarrow> string"
  add_days :: "js_number \<Rightarrow> int \<Rightarrow> js_number"

fun num_times :: "js_number \<Rightarrow> rat \<Rightarrow> js_number" where
  "num_times (Fin r) k = Fin (r * k)"
| "num_times n k = n"

definition formatChartTime :: "date_library \<Rightarrow> TimeGranularity \<Rightarrow> js_number \<Rightarrow> string" where
  "formatChartTime lib granularity timestamp =
     (let d = num_times timestamp 1000; result = date_format lib d ''MM-DD'' in
      case granularity of
        Hour \<Rightarrow> result @ '' '' @ date_format lib d ''HH'' @ '':00''
      | Week \<Rightarrow> result @ '' - '' @ date_format lib (add_days lib d 6) ''MM-DD''
      | Day \<Rightarrow> result)"

record chart_stats =
  st_quota :: rat
  st_count :: rat
  st_tokens :: rat

definition no_stats :: chart_stats where
  "no_stats = \<lparr>st_quota = 0, st_count = 0, st_tokens = 0\<rparr>"

type_synonym model_stats = "(string \<times> chart_stats) list"
type_synonym time_stats = "(string \<times> model_stats) list"

definition model_of :: "QuotaDataItem \<Rightarrow> string" where
  "model_of item = or_text (q_model_name item) ''Unknown''"

definition label_of :: "(js_number \<Rightarrow> string) \<Rightarrow> QuotaDataItem \<Rightarrow> string" where
  "label_of label item = label (to_number (q_created_at item))"

definition stats_get :: "model_stats \<Rightarrow> string \<Rightarrow> chart_stats" where
  "stats_get m k = (case map_of m k of Some s \<Rightarrow> s | None \<Rightarrow> no_stats)"

definition add_stats :: "QuotaDataItem \<Rightarrow> model_stats \<Rightarrow> model_stats" where
  "add_stats item m =
     (let existing = stats_get m (model_of item) in
      AList.update (model_of item)
        \<lparr>st_quota = st_quota existing + amount_of (q_quota item),
         st_count = st_count existing + amount_of (q_count item),
         st_tokens = st_tokens existing + amount_of (q_token_used item)\<rparr> m)"

definition times_get :: "time_stats \<Rightarrow> string \<Rightarrow> model_stats" where
  "times_get t k = (case map_of t k of Some m \<Rightarrow> m | None \<Rightarrow> [])"

definition add_item ::
  "(js_number \<Rightarrow> string) \<Rightarrow> QuotaDataItem \<Rightarrow> time_stats \<times> model_stats \<Rightarrow> time_stats \<times> model_stats" where
  "add_item label item = (\<lambda>(timeModelMap, modelTotalsMap).
     (AList.update (label_of label item) (add_stats item (times_get timeModelMap (label_of label item))) timeModelMap,
      add_stats item modelTotalsMap))"

definition aggregate_items :: "(js_number \<Rightarrow> string) \<Rightarrow> QuotaDataItem list \<Rightarrow> time_stats \<times> model_stats" where
  "aggregate_items label data = fold (add_item label) data ([], [])"

text \<open>\<^verbatim>\<open>xs.sort()\<close> without a comparator orders by code units.\<close>

fun by_code_units :: "string \<Rightarrow> string \<Rightarrow> rat" where
  "by_code_units [] [] = 0"
| "by_code_units [] (d # ds) = - 1"
| "by_code_units (c # cs) [] = 1"
| "by_code_units (c # cs) (d # ds) =
     (if (of_char c :: nat) < of_char d then - 1
      else if (of_char d :: nat) < of_char c then 1 else by_code_units cs ds)"

section \<open>The time axis\<close>

definition MAX_CHART_TREND_POINTS :: nat where "MAX_CHART_TREND_POINTS = 7"

fun interval_seconds :: "TimeGranularity \<Rightarrow> rat" where
  "interval_seconds Week = 604800"
| "interval_seconds Day = 86400"
| "interval_seconds Hour = 3600"

definition last_time :: "QuotaDataItem list \<Rightarrow> rat" where
  "last_time data = Max (set (map (\<lambda>item. amount_of (q_created_at item)) data))"

definition padded_times ::
  "(js_number \<Rightarrow> string) \<Rightarrow> TimeGranularity \<Rightarrow> QuotaDataItem list \<Rightarrow> string list" where
  "padded_times label granularity data =
     map (\<lambda>i. label (Fin (last_time data -
            of_nat (MAX_CHART_TREND_POINTS - 1 - i) * interval_seconds granularity)))
       [0..<MAX_CHART_TREND_POINTS]"

definition fillTimePoints ::
  "(js_number \<Rightarrow> string) \<Rightarrow> TimeGranularity \<Rightarrow> QuotaDataItem list \<Rightarrow> string list \<Rightarrow> string list" where
  "fillTimePoints label granularity data points =
     (if length points \<ge> MAX_CHART_TREND_POINTS then points else padded_times label granularity data)"

definition sorted_times :: "time_stats \<Rightarrow> string list" where
  "sorted_times tm = js_sort by_code_units (map fst tm)"

definition sorted_models :: "model_stats \<Rightarrow> string list" where
  "sorted_models mt = js_sort by_code_units (map fst mt)"

section \<open>Series\<close>

text \<open>\<^verbatim>\<open>Number(x.toFixed(4))\<close>.\<close>

definition round4 :: "rat \<Rightarrow> rat" where
  "round4 x = (let n = of_int \<lfloor>\<bar>x\<bar> * 10000 + 1 / 2\<rfloor> / 10000 in if x < 0 then - n else n)"

definition quota_usage :: "rat \<Rightarrow> rat \<Rightarrow> rat" where
  "quota_usage perUnit rawQuota =
     (let usd = (if rawQuota \<noteq> 0 then rawQuota / perUnit else 0) in if usd \<noteq> 0 then round4 usd else 0)"

record chart_point =
  c_time :: string
  c_model :: string
  c_rawQuota :: rat
  c_usage :: rat
  c_timeSum :: rat

definition time_line :: "rat \<Rightarrow> time_stats \<Rightarrow> string list \<Rightarrow> string \<Rightarrow> chart_point list" where
  "time_line perUnit tm models time =
     (let timeData = map (\<lambda>m. let raw = st_quota (stats_get (times_get tm time) m) in
            \<lparr>c_time = time, c_model = m, c_rawQuota = raw, c_usage = quota_usage perUnit raw, c_timeSum = 0\<rparr>) models;
          timeSum = sum_list (map c_rawQuota timeData)
      in map (\<lambda>p. p\<lparr>c_timeSum := timeSum\<rparr>) (js_sort (\<lambda>a b. c_rawQuota b - c_rawQuota a) timeData))"

definition by_time :: "(string \<Rightarrow> string \<Rightarrow> rat) \<Rightarrow> chart_point \<Rightarrow> chart_point \<Rightarrow> rat" where
  "by_time collate a b = collate (c_time a) (c_time b)"

definition line_values ::
  "(string \<Rightarrow> string \<Rightarrow> rat) \<Rightarrow> rat \<Rightarrow> time_stats \<Rightarrow> string list \<Rightarrow> string list \<Rightarrow> chart_point list" where
  "line_values collate perUnit tm models points =
     js_sort (by_time collate) (concat (map (time_line perUnit tm models) points))"

definition MAX_AREA_MODELS :: nat where "MAX_AREA_MODELS = 15"

definition top_models :: "(chart_stats \<Rightarrow> rat) \<Rightarrow> nat \<Rightarrow> model_stats \<Rightarrow> string list" where
  "top_models f n mt =
     map fst (take n (js_sort (\<lambda>a b. snd b - snd a) (map (\<lambda>(m, s). (m, f s)) mt)))"

definition add_bucket ::
  "rat \<Rightarrow> model_stats \<Rightarrow> string list \<Rightarrow> string \<Rightarrow> string \<Rightarrow> (string \<times> rat \<times> rat) list \<Rightarrow> (string \<times> rat \<times> rat) list" where
  "add_bucket perUnit mm tops otherLabel m buckets =
     (let raw = st_quota (stats_get mm m);
          k = (if m \<in> set tops then m else otherLabel);
          prev = (case map_of buckets k of Some p \<Rightarrow> p | None \<Rightarrow> (0, 0))
      in AList.update k (fst prev + raw, round4 (snd prev + quota_usage perUnit raw)) buckets)"

definition time_area ::
  "rat \<Rightarrow> time_stats \<Rightarrow> string list \<Rightarrow> string list \<Rightarrow> string \<Rightarrow> string \<Rightarrow> chart_point list" where
  "time_area perUnit tm models tops otherLabel time =
     (let mm = times_get tm time;
          timeSum = sum_list (map (\<lambda>m. st_quota (stats_get mm m)) models)
      in map (\<lambda>(k, raw, usage). \<lparr>c_time = time, c_model = k, c_rawQuota = raw, c_usage = usage, c_timeSum = timeSum\<rparr>)
           (fold (add_bucket perUnit mm tops otherLabel) models []))"

definition area_values ::
  "(string \<Rightarrow> string \<Rightarrow> rat) \<Rightarrow> rat \<Rightarrow> time_stats \<Rightarrow> model_stats \<Rightarrow> string list \<Rightarrow> string list \<Rightarrow> string \<Rightarrow>
     chart_point list" where
  "area_values collate perUnit tm mt models points otherLabel =
     js_sort (by_time collate)
       (concat (map (time_area perUnit tm models (top_models st_quota MAX_AREA_MODELS mt) otherLabel) points))"

definition MAX_TREND_MODELS :: nat where "MAX_TREND_MODELS = 20"
definition MAX_RANK_MODELS :: nat where "MAX_RANK_MODELS = 20"

record count_point =
  k_time :: string
  k_model :: string
  k_count :: rat

definition ranked_counts :: "model_stats \<Rightarrow> (string \<times> rat) list" where
  "ranked_counts mt = js_sort (\<lambda>a b. snd b - snd a) (map (\<lambda>(m, s). (m, st_count s)) mt)"

definition time_trend :: "time_stats \<Rightarrow> model_stats \<Rightarrow> string \<Rightarrow> string \<Rightarrow> count_point list" where
  "time_trend tm mt otherLabel time =
     (let tops = map fst (take MAX_TREND_MODELS (ranked_counts mt));
          others = map fst (drop MAX_TREND_MODELS (ranked_counts mt));
          count_at = (\<lambda>m. st_count (stats_get (times_get tm time) m))
      in map (\<lambda>m. \<lparr>k_time = time, k_model = m, k_count = count_at m\<rparr>) tops @
         (if others \<noteq> [] then [\<lparr>k_time = time, k_model = otherLabel, k_count = sum_list (map count_at others)\<rparr>] else []))"

definition model_line_values ::
  "(string \<Rightarrow> string \<Rightarrow> rat) \<Rightarrow> time_stats \<Rightarrow> model_stats \<Rightarrow> string list \<Rightarrow> string \<Rightarrow> count_point list" where
  "model_line_values collate tm mt points otherLabel =
     js_sort (\<lambda>a b. collate (k_time a) (k_time b)) (concat (map (time_trend tm mt otherLabel) points))"

definition rank_values :: "model_stats \<Rightarrow> string \<Rightarrow> (string \<times> rat) list" where
  "rank_values mt otherLabel =
     (let allRank = ranked_counts mt in
      if length allRank > MAX_RANK_MODELS
      then take MAX_RANK_MODELS allRank @ [(otherLabel, sum_list (map snd (drop MAX_RANK_MODELS allRank)))]
      else allRank)"

definition pie_values :: "model_stats \<Rightarrow> (string \<times> rat) list" where
  "pie_values mt = js_sort (\<lambda>a b. snd b - snd a) (map (\<lambda>(m, s). (m, st_count s)) mt)"

record chart_series =
  pieValues :: "(string \<times> rat) list"
  lineValues :: "chart_point list"
  areaValues :: "chart_point list"
  modelLineValues :: "count_point list"
  rankValues :: "(string \<times> rat) list"
  totalTimes :: rat
  totalQuotaRaw :: rat

definition processChartData ::
  "(js_number \<Rightarrow> string) \<Rightarrow> (string \<Rightarrow> string \<Rightarrow> rat) \<Rightarrow> rat \<Rightarrow> TimeGranularity \<Rightarrow> string \<Rightarrow> QuotaDataItem list \<Rightarrow>
     chart_series" where
  "processChartData label collate perUnit granularity otherLabel data =
     (if data = [] then
        \<lparr>pieValues = [], lineValues = [], areaValues = [], modelLineValues = [], rankValues = [], totalTimes = 0,
         totalQuotaRaw = 0\<rparr>
      else
        let (tm, mt) = aggregate_items label data;
            models = sorted_models mt;
            points = fillTimePoints label granularity data (sorted_times tm)
        in \<lparr>pieValues = pie_values mt, lineValues = line_values collate perUnit tm models points,
            areaValues = area_values collate perUnit tm mt models points otherLabel,
            modelLineValues = model_line_values collate tm mt points otherLabel,
            rankValues = rank_values mt otherLabel,
            totalTimes = sum_list (map (\<lambda>(m, s). st_count s) mt),
            totalQuotaRaw = sum_list (map (\<lambda>(m, s). st_quota s) mt)\<rparr>)"

section \<open>Users\<close>

definition user_of :: "QuotaDataItem \<Rightarrow> string" where
  "user_of item = or_text (q_username item) ''unknown''"

definition add_amount :: "string \<Rightarrow> rat \<Rightarrow> (string \<times> rat) list \<Rightarrow> (string \<times> rat) list" where
  "add_amount k v m = AList.update k ((case map_of m k of Some x \<Rightarrow> x | None \<Rightarrow> 0) + v) m"

definition user_totals :: "QuotaDataItem list \<Rightarrow> (string \<times> rat) list" where
  "user_totals data = fold (\<lambda>item. add_amount (user_of item) (amount_of (q_quota item))) data []"

definition ranked_users :: "QuotaDataItem list \<Rightarrow> (string \<times> rat) list" where
  "ranked_users data = js_sort (\<lambda>a b. snd b - snd a) (user_totals data)"

definition add_user_time ::
  "(js_number \<Rightarrow> string) \<Rightarrow> string list \<Rightarrow> QuotaDataItem \<Rightarrow> (string \<times> (string \<times> rat) list) list \<Rightarrow>
     (string \<times> (string \<times> rat) list) list" where
  "add_user_time label topUsers item m =
     (if user_of item \<notin> set topUsers then m
      else AList.update (label_of label item)
             (add_amount (user_of item) (amount_of (q_quota item))
               (case map_of m (label_of label item) of Some u \<Rightarrow> u | None \<Rightarrow> [])) m)"

record user_point =
  u_time :: string
  u_user :: string
  u_rawQuota :: rat
  u_usage :: rat

record user_series =
  userRank :: "(string \<times> rat \<times> rat) list"
  userTrend :: "user_point list"
  userTotal :: rat
  userColorMap :: "(string \<times> string) list"

definition USER_COLORS :: "string list" where
  "USER_COLORS = [''#5B8FF9'', ''#5AD8A6'', ''#F6BD16'', ''#E8684A'', ''#6DC8EC'', ''#9270CA'', ''#FF9D4D'', ''#269A99'',
     ''#FF99C3'', ''#5D7092'']"

definition user_colors :: "string list \<Rightarrow> (string \<times> string) list" where
  "user_colors topUsers =
     map (\<lambda>(i, user). (user, USER_COLORS ! (i mod length USER_COLORS))) (List.enumerate 0 topUsers)"

definition processUserChartData ::
  "(js_number \<Rightarrow> string) \<Rightarrow> rat \<Rightarrow> nat \<Rightarrow> QuotaDataItem list \<Rightarrow> user_series" where
  "processUserChartData label perUnit limit data =
     (if data = [] then \<lparr>userRank = [], userTrend = [], userTotal = 0, userColorMap = []\<rparr> else
      let tops = take limit (ranked_users data);
          topUsers = map fst tops;
          timeUserMap = fold (add_user_time label topUsers) data [];
          points = js_sort by_code_units (uniq (map (label_of label) data))
      in \<lparr>userRank = map (\<lambda>(u, q). (u, q, round4 (q / perUnit))) tops,
          userTrend = concat (map (\<lambda>time. map (\<lambda>u.
              let q = (case map_of timeUserMap time of
                         Some m \<Rightarrow> (case map_of m u of Some x \<Rightarrow> x | None \<Rightarrow> 0) | None \<Rightarrow> 0)
              in \<lparr>u_time = time, u_user = u, u_rawQuota = q, u_usage = round4 (q / perUnit)\<rparr>) topUsers) points),
          userTotal = sum_list (map snd tops),
          userColorMap = user_colors topUsers\<rparr>)"

section \<open>Texts\<close>

definition renderQuotaCompat :: "(rat \<Rightarrow> string) \<Rightarrow> CurrencyConfig \<Rightarrow> rat \<Rightarrow> nat \<Rightarrow> string" where
  "renderQuotaCompat toLocaleString currency rawQuota digits =
     (let (config, meta) = getCurrencyDisplay currency in
      if is_tokens meta then toLocaleString rawQuota
      else let v = rawQuota / quotaPerUnit config * exchange_rate meta;
               symbol = (case meta of MetaCurrency s _ _ \<Rightarrow> s | MetaCustom s _ \<Rightarrow> s | MetaTokens _ \<Rightarrow> ''$'');
               fixed = to_fixed digits v
           in if decimal_number fixed = Fin 0 \<and> rawQuota > 0 \<and> v > 0
              then symbol @ to_fixed digits (1 / 10 ^ digits) else symbol @ fixed)"

record tooltip_line =
  t_key :: string
  t_value :: js_value
  t_datum :: js_value

definition MAX_TOOLTIP_MODELS :: nat where "MAX_TOOLTIP_MODELS = 15"

text \<open>The lines of a tooltip: models by value, the rest behind them, and the total in front.\<close>

definition tooltip_order :: "(string \<Rightarrow> bool) \<Rightarrow> tooltip_line list \<Rightarrow> tooltip_line list \<times> tooltip_line list" where
  "tooltip_order isOther lines =
     (js_sort (\<lambda>a b. amount_of (t_value b) - amount_of (t_value a)) (filter (\<lambda>l. \<not> isOther (t_key l)) lines),
      filter (\<lambda>l. isOther (t_key l)) lines)"

definition tooltip_sum :: "tooltip_line list \<Rightarrow> rat" where
  "tooltip_sum lines =
     foldl (\<lambda>s l. let v = js_get (t_datum l) ''TimeSum'' in
        if truthy (t_datum l) \<and> truthy v then (if amount_of v = 0 then s else amount_of v) else s) 0 lines"

definition tooltip_update_content ::
  "(rat \<Rightarrow> string) \<Rightarrow> (string \<Rightarrow> bool) \<Rightarrow> string \<Rightarrow> string \<Rightarrow> bool \<Rightarrow> tooltip_line list \<Rightarrow> (string \<times> string) list" where
  "tooltip_update_content formatQuotaValue isOther otherLabel totalLabel collapse lines =
     (let (models, others) = tooltip_order isOther lines;
          shown = (\<lambda>l. (t_key l, formatQuotaValue (amount_of (t_value l))));
          rest = drop MAX_TOOLTIP_MODELS models @ others;
          otherSum = sum_list (map (\<lambda>l. if truthy (t_datum l) then amount_of (js_get (t_datum l) ''rawQuota'') else 0) rest)
      in (totalLabel, formatQuotaValue (tooltip_sum (models @ others))) #
         (if collapse \<and> length (models @ others) > MAX_TOOLTIP_MODELS
          then map shown (take MAX_TOOLTIP_MODELS models) @ [(otherLabel, formatQuotaValue otherSum)]
          else map shown (models @ others)))"

definition trend_tooltip ::
  "(rat \<Rightarrow> string) \<Rightarrow> (string \<Rightarrow> bool) \<Rightarrow> string \<Rightarrow> tooltip_line list \<Rightarrow> (string \<times> string) list" where
  "trend_tooltip formatInt isOther totalLabel lines =
     (let (models, others) = tooltip_order isOther lines; ls = models @ others in
      (totalLabel, formatInt (sum_list (map (\<lambda>l. amount_of (t_value l)) ls))) #
      map (\<lambda>l. (t_key l, formatInt (amount_of (t_value l)))) ls)"

section \<open>Every item is counted once\<close>

definition cell_reading :: "(chart_stats \<Rightarrow> rat) \<Rightarrow> time_stats \<times> model_stats \<Rightarrow> string \<times> string \<Rightarrow> rat" where
  "cell_reading f x k = f (stats_get (times_get (fst x) (fst k)) (snd k))"

definition model_reading :: "(chart_stats \<Rightarrow> rat) \<Rightarrow> time_stats \<times> model_stats \<Rightarrow> string \<Rightarrow> rat" where
  "model_reading f x m = f (stats_get (snd x) m)"

lemma stats_get_add:
  "stats_get (add_stats item m) k =
     (if k = model_of item
      then \<lparr>st_quota = st_quota (stats_get m k) + amount_of (q_quota item),
            st_count = st_count (stats_get m k) + amount_of (q_count item),
            st_tokens = st_tokens (stats_get m k) + amount_of (q_token_used item)\<rparr>
      else stats_get m k)"
  by (simp add: stats_get_def add_stats_def Let_def update_conv)

lemma times_get_update: "times_get (AList.update k v m) j = (if j = k then v else times_get m j)"
  by (simp add: times_get_def update_conv)

interpretation cell_spend: accumulator "cell_reading st_quota" "add_item label"
  "\<lambda>item. (label_of label item, model_of item)" "\<lambda>item. amount_of (q_quota item)"
  for label
  by unfold_locales
    (auto simp: cell_reading_def add_item_def times_get_update stats_get_add case_prod_beta')

interpretation cell_calls: accumulator "cell_reading st_count" "add_item label"
  "\<lambda>item. (label_of label item, model_of item)" "\<lambda>item. amount_of (q_count item)"
  for label
  by unfold_locales
    (auto simp: cell_reading_def add_item_def times_get_update stats_get_add case_prod_beta')

interpretation calls: accumulator "model_reading st_count" "add_item label"
  model_of "\<lambda>item. amount_of (q_count item)"
  for label
  by unfold_locales (auto simp: model_reading_def add_item_def stats_get_add case_prod_beta')

interpretation spend: accumulator "model_reading st_quota" "add_item label"
  model_of "\<lambda>item. amount_of (q_quota item)"
  for label
  by unfold_locales (auto simp: model_reading_def add_item_def stats_get_add case_prod_beta')

lemma add_stats_keys: "fst ` set (add_stats item m) = insert (model_of item) (fst ` set m)"
  by (simp add: add_stats_def Let_def dom_update)

lemma distinct_add_stats: "distinct (map fst m) \<Longrightarrow> distinct (map fst (add_stats item m))"
  by (simp add: add_stats_def Let_def distinct_update)

lemma aggregate_keys:
  "fst ` set (fst (fold (add_item label) data x)) = fst ` set (fst x) \<union> label_of label ` set data"
  "fst ` set (snd (fold (add_item label) data x)) = fst ` set (snd x) \<union> model_of ` set data"
  by (induction data arbitrary: x) (auto simp: add_item_def add_stats_keys dom_update case_prod_beta')

lemma aggregate_distinct:
  "distinct (map fst (fst x)) \<Longrightarrow> distinct (map fst (fst (fold (add_item label) data x)))"
  "distinct (map fst (snd x)) \<Longrightarrow> distinct (map fst (snd (fold (add_item label) data x)))"
  by (induction data arbitrary: x) (auto simp: add_item_def distinct_add_stats distinct_update case_prod_beta')

lemmas aggregate_facts =
  aggregate_keys [where x = "([], [])", folded aggregate_items_def, simplified]
  aggregate_distinct [where x = "([], [])", folded aggregate_items_def, simplified]

lemma set_sorted_times: "set (sorted_times (fst (aggregate_items label data))) = label_of label ` set data"
  by (simp add: sorted_times_def aggregate_facts)

lemma distinct_sorted_times: "distinct (sorted_times (fst (aggregate_items label data)))"
  by (simp add: sorted_times_def aggregate_facts)

lemma set_sorted_models: "set (sorted_models (snd (aggregate_items label data))) = model_of ` set data"
  by (simp add: sorted_models_def aggregate_facts)

lemma distinct_sorted_models: "distinct (sorted_models (snd (aggregate_items label data)))"
  by (simp add: sorted_models_def aggregate_facts)

lemma sum_list_if_true: "\<forall>x\<in>set xs. P x \<Longrightarrow> (\<Sum>x\<leftarrow>xs. if P x then f x else 0) = (\<Sum>x\<leftarrow>xs. f x)"
  by (induction xs) auto

lemma keyed_values:
  assumes "distinct (map fst mt)"
  shows "(\<Sum>(m, s)\<leftarrow>mt. f s) = (\<Sum>k\<in>fst ` set mt. f (stats_get mt k))"
proof -
  have "(\<Sum>(m, s)\<leftarrow>mt. f s) = (\<Sum>k\<leftarrow>map fst mt. f (stats_get mt k))"
    using assms by (auto simp: stats_get_def comp_def case_prod_beta' intro!: arg_cong [where f = sum_list])
  also have "\<dots> = (\<Sum>k\<in>fst ` set mt. f (stats_get mt k))"
    using sum_list_distinct_conv_sum_set [OF assms] by simp
  finally show ?thesis .
qed

lemma total_calls:
  "(\<Sum>(m, s)\<leftarrow>snd (aggregate_items label data). st_count s) = (\<Sum>item\<leftarrow>data. amount_of (q_count item))"
  using calls.total_fold [of "model_of ` set data" label data "([], [])"]
  by (simp add: keyed_values aggregate_facts model_reading_def aggregate_items_def [symmetric] sum_list_if_true)
    (simp add: stats_get_def no_stats_def)

lemma total_spend:
  "(\<Sum>(m, s)\<leftarrow>snd (aggregate_items label data). st_quota s) = (\<Sum>item\<leftarrow>data. amount_of (q_quota item))"
  using spend.total_fold [of "model_of ` set data" label data "([], [])"]
  by (simp add: keyed_values aggregate_facts model_reading_def aggregate_items_def [symmetric] sum_list_if_true)
    (simp add: stats_get_def no_stats_def)

section \<open>Sums of the series\<close>

lemma time_line_sum: "(\<Sum>p\<leftarrow>time_line perUnit tm models time. c_rawQuota p) =
    (\<Sum>m\<leftarrow>models. st_quota (stats_get (times_get tm time) m))"
  by (simp add: time_line_def Let_def comp_def sum_js_sort)

lemma sum_list_concat_map: "(\<Sum>x\<leftarrow>concat (map f xs). g x) = (\<Sum>x\<leftarrow>xs. \<Sum>y\<leftarrow>f x. g y)"
  by (induction xs) simp_all

lemma line_values_sum: "(\<Sum>p\<leftarrow>line_values collate perUnit tm models points. c_rawQuota p) =
    (\<Sum>t\<leftarrow>points. \<Sum>m\<leftarrow>models. st_quota (stats_get (times_get tm t) m))"
  by (simp add: line_values_def sum_js_sort sum_list_concat_map time_line_sum)

lemma update_bucket_sum:
  "(\<Sum>(k, raw, u)\<leftarrow>AList.update k (fst (case map_of b k of Some p \<Rightarrow> p | None \<Rightarrow> (0, 0)) + x, w) b. raw) =
     (\<Sum>(k, raw, u)\<leftarrow>b. raw) + (x::rat)"
  by (induction b) auto

lemma fold_bucket_sum:
  "(\<Sum>(k, raw, u)\<leftarrow>fold (add_bucket perUnit mm tops otherLabel) models b. raw) =
     (\<Sum>(k, raw, u)\<leftarrow>b. raw) + (\<Sum>m\<leftarrow>models. st_quota (stats_get mm m))"
  by (induction models arbitrary: b) (simp_all add: add_bucket_def Let_def update_bucket_sum)

lemma time_area_sum: "(\<Sum>p\<leftarrow>time_area perUnit tm models tops otherLabel time. c_rawQuota p) =
    (\<Sum>m\<leftarrow>models. st_quota (stats_get (times_get tm time) m))"
  using fold_bucket_sum [where b = "[]"]
  by (simp add: time_area_def Let_def comp_def case_prod_beta')

lemma area_values_sum: "(\<Sum>p\<leftarrow>area_values collate perUnit tm mt models points otherLabel. c_rawQuota p) =
    (\<Sum>t\<leftarrow>points. \<Sum>m\<leftarrow>models. st_quota (stats_get (times_get tm t) m))"
  by (simp add: area_values_def sum_js_sort sum_list_concat_map time_area_sum)

lemma sum_take_drop: "(\<Sum>x\<leftarrow>take n xs. f x) + (\<Sum>x\<leftarrow>drop n xs. f x) = (\<Sum>x\<leftarrow>xs. f x)"
  by (metis append_take_drop_id map_append sum_list_append)

lemma ranked_counts_sum: "(\<Sum>(m, c)\<leftarrow>ranked_counts mt. c) = (\<Sum>(m, s)\<leftarrow>mt. st_count s)"
  by (simp add: ranked_counts_def comp_def case_prod_beta')

lemma rank_values_sum: "(\<Sum>(m, c)\<leftarrow>rank_values mt otherLabel. c) = (\<Sum>(m, s)\<leftarrow>mt. st_count s)"
  using ranked_counts_sum [of mt] sum_take_drop [of snd MAX_RANK_MODELS "ranked_counts mt"]
  by (simp add: rank_values_def Let_def case_prod_beta')

lemma pie_values_sum: "(\<Sum>(m, c)\<leftarrow>pie_values mt. c) = (\<Sum>(m, s)\<leftarrow>mt. st_count s)"
  by (simp add: pie_values_def comp_def case_prod_beta')

lemma sum_ranked_names: "(\<Sum>m\<leftarrow>map fst (ranked_counts mt). f m) = (\<Sum>m\<leftarrow>map fst mt. f m :: rat)"
  by (simp add: ranked_counts_def comp_def case_prod_beta')

lemma time_trend_sum: "(\<Sum>p\<leftarrow>time_trend tm mt otherLabel time. k_count p) =
    (\<Sum>m\<leftarrow>map fst mt. st_count (stats_get (times_get tm time) m))"
  using sum_take_drop [of "\<lambda>p. st_count (stats_get (times_get tm time) (fst p))" MAX_TREND_MODELS "ranked_counts mt"]
    sum_ranked_names [of "\<lambda>m. st_count (stats_get (times_get tm time) m)" mt]
  by (auto simp: time_trend_def Let_def comp_def)

lemma model_line_values_sum: "(\<Sum>p\<leftarrow>model_line_values collate tm mt points otherLabel. k_count p) =
    (\<Sum>t\<leftarrow>points. \<Sum>m\<leftarrow>map fst mt. st_count (stats_get (times_get tm t) m))"
  by (simp add: model_line_values_def sum_js_sort sum_list_concat_map time_trend_sum)

lemma cells_sum:
  assumes "distinct ts" "distinct ms"
  shows "(\<Sum>t\<leftarrow>ts. \<Sum>m\<leftarrow>ms. g (t, m)) = (\<Sum>k\<in>set ts \<times> set ms. g k :: rat)"
  using assms by (simp add: sum_list_distinct_conv_sum_set sum.cartesian_product)

lemma all_cells:
  assumes "(\<Sum>k\<in>K. cell_reading f (aggregate_items label data) k) = (\<Sum>item\<leftarrow>data. amount item)"
    and "K = label_of label ` set data \<times> model_of ` set data"
    and "distinct ms" "set ms = model_of ` set data"
  shows "(\<Sum>t\<leftarrow>sorted_times (fst (aggregate_items label data)). \<Sum>m\<leftarrow>ms.
      f (stats_get (times_get (fst (aggregate_items label data)) t) m)) = (\<Sum>item\<leftarrow>data. amount item)"
  using assms cells_sum [OF distinct_sorted_times assms(3), of "cell_reading f (aggregate_items label data)"]
  by (simp add: set_sorted_times cell_reading_def)

lemma cell_totals:
  "(\<Sum>k\<in>label_of label ` set data \<times> model_of ` set data. cell_reading st_quota (aggregate_items label data) k) =
     (\<Sum>item\<leftarrow>data. amount_of (q_quota item))"
  "(\<Sum>k\<in>label_of label ` set data \<times> model_of ` set data. cell_reading st_count (aggregate_items label data) k) =
     (\<Sum>item\<leftarrow>data. amount_of (q_count item))"
  using cell_spend.total_fold [of "label_of label ` set data \<times> model_of ` set data" label data "([], [])"]
    cell_calls.total_fold [of "label_of label ` set data \<times> model_of ` set data" label data "([], [])"]
  by (simp_all add: aggregate_items_def [symmetric] sum_list_if_true)
    (simp_all add: cell_reading_def times_get_def stats_get_def no_stats_def)

section \<open>Properties of the model charts\<close>

lemma processChartData_nonempty:
  "data \<noteq> [] \<Longrightarrow> processChartData label collate perUnit granularity otherLabel data =
     (let tm = fst (aggregate_items label data); mt = snd (aggregate_items label data);
          models = sorted_models mt;
          points = fillTimePoints label granularity data (sorted_times tm)
      in \<lparr>pieValues = pie_values mt, lineValues = line_values collate perUnit tm models points,
            areaValues = area_values collate perUnit tm mt models points otherLabel,
            modelLineValues = model_line_values collate tm mt points otherLabel,
            rankValues = rank_values mt otherLabel,
            totalTimes = sum_list (map (\<lambda>(m, s). st_count s) mt),
            totalQuotaRaw = sum_list (map (\<lambda>(m, s). st_quota s) mt)\<rparr>)"
  by (simp add: processChartData_def Let_def case_prod_beta')

text \<open>C21: whatever the usage data, the pie and the ranking of the call counts each add up to the total of the
  counts (the models beyond the twentieth are in the "Other" bar), the spend shown is the total of the
  quotas, and the area chart's spend (fifteen models and the rest) equals the bar chart's.\<close>

theorem chart_totals:
  "let series = processChartData label collate perUnit granularity otherLabel data in
    (\<Sum>(m, c)\<leftarrow>pieValues series. c) = (\<Sum>item\<leftarrow>data. amount_of (q_count item)) \<and>
    (\<Sum>(m, c)\<leftarrow>rankValues series. c) = (\<Sum>item\<leftarrow>data. amount_of (q_count item)) \<and>
    totalTimes series = (\<Sum>item\<leftarrow>data. amount_of (q_count item)) \<and>
    totalQuotaRaw series = (\<Sum>item\<leftarrow>data. amount_of (q_quota item)) \<and>
    (\<Sum>p\<leftarrow>areaValues series. c_rawQuota p) = (\<Sum>p\<leftarrow>lineValues series. c_rawQuota p)"
proof (cases "data = []")
  case True
  then show ?thesis by (simp add: processChartData_def)
next
  case False
  then show ?thesis
    by (simp add: processChartData_nonempty Let_def pie_values_sum rank_values_sum total_calls
        total_spend area_values_sum line_values_sum)
qed

text \<open>When the usage covers at least seven time labels, the bar chart shows all of the spend and the
  call trend all of the calls.\<close>

lemma chart_complete:
  assumes "MAX_CHART_TREND_POINTS \<le> length (uniq (map (label_of label) data))"
  shows "let series = processChartData label collate perUnit granularity otherLabel data in
    (\<Sum>p\<leftarrow>lineValues series. c_rawQuota p) = (\<Sum>item\<leftarrow>data. amount_of (q_quota item)) \<and>
    (\<Sum>p\<leftarrow>modelLineValues series. k_count p) = (\<Sum>item\<leftarrow>data. amount_of (q_count item))"
proof -
  have ne: "data \<noteq> []" using assms(1) by (auto simp: MAX_CHART_TREND_POINTS_def)
  have "length (sorted_times (fst (aggregate_items label data))) = card (label_of label ` set data)"
    using distinct_card [OF distinct_sorted_times] set_sorted_times by metis
  moreover have "length (uniq (map (label_of label) data)) = card (label_of label ` set data)"
    using distinct_card [of "uniq (map (label_of label) data)"] by simp
  ultimately have "fillTimePoints label granularity data (sorted_times (fst (aggregate_items label data))) =
      sorted_times (fst (aggregate_items label data))"
    using assms(1) by (simp add: fillTimePoints_def)
  then show ?thesis
    using all_cells [OF cell_totals(1) refl distinct_sorted_models set_sorted_models]
      all_cells [OF cell_totals(2) refl, of "map fst (snd (aggregate_items label data))"] ne
    by (simp add: processChartData_nonempty Let_def line_values_sum model_line_values_sum
        aggregate_facts)
qed

text \<open>Seven days of one call each.\<close>

definition day_label :: "js_number \<Rightarrow> string" where
  "day_label n = (case n of Fin r \<Rightarrow> replicate (nat \<lfloor>r / 86400\<rfloor>) CHR ''d'' | _ \<Rightarrow> ''Invalid Date'')"

definition usage_on :: "rat \<Rightarrow> rat \<Rightarrow> QuotaDataItem" where
  "usage_on day quota = \<lparr>q_created_at = JNumber (Fin (day * 86400)), q_model_name = None, q_username = Some ''ann'',
     q_quota = JNumber (Fin quota), q_count = JNumber (Fin 1), q_token_used = JUndefined\<rparr>"

lemma usage_on_fields [simp]:
  "label_of day_label (usage_on day quota) = replicate (nat \<lfloor>day\<rfloor>) CHR ''d''"
  "amount_of (q_quota (usage_on day quota)) = quota"
  "amount_of (q_count (usage_on day quota)) = 1"
  "amount_of (q_created_at (usage_on day quota)) = day * 86400"
  by (simp_all add: label_of_def day_label_def usage_on_def amount_of_def)

lemma singleton_replicate [simp]:
  "[c] = replicate n c \<longleftrightarrow> n = 1" "replicate n c = [c] \<longleftrightarrow> n = 1"
  using replicate_eq_replicate [of n c 1 c] by auto

lemma seven_days_complete:
  "let data = map (\<lambda>d. usage_on d 2) [1, 2, 3, 4, 5, 6, 7];
       series = processChartData day_label by_code_units 500000 Day ''Other'' data
   in MAX_CHART_TREND_POINTS \<le> length (uniq (map (label_of day_label) data)) \<and>
      (\<Sum>p\<leftarrow>lineValues series. c_rawQuota p) = 14 \<and> (\<Sum>p\<leftarrow>modelLineValues series. k_count p) = 7"
  using chart_complete [of day_label "map (\<lambda>d. usage_on d 2) [1, 2, 3, 4, 5, 6, 7]" by_code_units 500000 Day "''Other''"]
  by (simp add: Let_def MAX_CHART_TREND_POINTS_def)

lemma shown_cells:
  assumes "distinct points"
  shows "(\<Sum>t\<leftarrow>points. \<Sum>m\<leftarrow>sorted_models (snd (aggregate_items label data)).
      st_quota (stats_get (times_get (fst (aggregate_items label data)) t) m)) =
    (\<Sum>item\<leftarrow>data. if label_of label item \<in> set points then amount_of (q_quota item) else 0)"
proof -
  let ?K = "set points \<times> model_of ` set data"
  have "(\<Sum>t\<leftarrow>points. \<Sum>m\<leftarrow>sorted_models (snd (aggregate_items label data)).
      st_quota (stats_get (times_get (fst (aggregate_items label data)) t) m)) =
    (\<Sum>k\<in>?K. cell_reading st_quota (aggregate_items label data) k)"
    using cells_sum [OF assms distinct_sorted_models, of "cell_reading st_quota (aggregate_items label data)"]
    by (simp add: set_sorted_models cell_reading_def)
  also have "\<dots> = (\<Sum>item\<leftarrow>data. if (label_of label item, model_of item) \<in> ?K then amount_of (q_quota item) else 0)"
    using cell_spend.total_fold [of ?K label data "([], [])"]
    by (simp add: aggregate_items_def [symmetric])
      (simp add: cell_reading_def times_get_def stats_get_def no_stats_def)
  also have "\<dots> = (\<Sum>item\<leftarrow>data. if label_of label item \<in> set points then amount_of (q_quota item) else 0)"
    by (rule arg_cong [where f = sum_list]) auto
  finally show ?thesis .
qed

text \<open>When the usage covers fewer than seven time labels, the axis becomes the seven intervals up to the
  last item, and the bar chart shows exactly the spend whose label is among those seven; spend on an
  earlier label is in the total but in no bar.\<close>

lemma padded_chart_spend:
  assumes "data \<noteq> []"
    and "length (uniq (map (label_of label) data)) < MAX_CHART_TREND_POINTS"
    and "distinct (padded_times label granularity data)"
  shows "(\<Sum>p\<leftarrow>lineValues (processChartData label collate perUnit granularity otherLabel data). c_rawQuota p) =
    (\<Sum>item\<leftarrow>data. if label_of label item \<in> set (padded_times label granularity data)
       then amount_of (q_quota item) else 0)"
proof -
  have "length (sorted_times (fst (aggregate_items label data))) = card (label_of label ` set data)"
    using distinct_card [OF distinct_sorted_times] set_sorted_times by metis
  moreover have "length (uniq (map (label_of label) data)) = card (label_of label ` set data)"
    using distinct_card [of "uniq (map (label_of label) data)"] by simp
  ultimately have "fillTimePoints label granularity data (sorted_times (fst (aggregate_items label data))) =
      padded_times label granularity data"
    using assms(2) by (simp add: fillTimePoints_def)
  then show ?thesis
    using assms(1) shown_cells [OF assms(3)]
    by (simp add: processChartData_nonempty Let_def line_values_sum)
qed

lemma two_days_padded:
  "padded_times day_label Day [usage_on 1 5, usage_on 31 3] =
     map (\<lambda>n. replicate n CHR ''d'') [25, 26, 27, 28, 29, 30, 31]"
  by (simp add: padded_times_def last_time_def MAX_CHART_TREND_POINTS_def upt_rec day_label_def)

lemma padded_chart_spend_witness:
  "let data = [usage_on 1 5, usage_on 31 3];
       series = processChartData day_label by_code_units 500000 Day ''Other'' data
   in distinct (padded_times day_label Day data) \<and> length (uniq (map (label_of day_label) data)) < MAX_CHART_TREND_POINTS \<and>
      (\<Sum>p\<leftarrow>lineValues series. c_rawQuota p) = 3 \<and> totalQuotaRaw series = 8"
proof -
  have total_8: "totalQuotaRaw (processChartData day_label by_code_units 500000 Day ''Other'' [usage_on 1 5, usage_on 31 3]) = 8"
    by (simp add: processChartData_nonempty Let_def total_spend)
  show ?thesis
    using total_8 padded_chart_spend [of "[usage_on 1 5, usage_on 31 3]" day_label Day by_code_units 500000 "''Other''"]
    by (simp add: Let_def MAX_CHART_TREND_POINTS_def two_days_padded)
qed

section \<open>Properties of the user charts\<close>

definition amount_reading :: "(string \<times> rat) list \<Rightarrow> string \<Rightarrow> rat" where
  "amount_reading m k = (case map_of m k of Some x \<Rightarrow> x | None \<Rightarrow> 0)"

lemma amount_reading_add: "amount_reading (add_amount k v m) j = amount_reading m j + (if k = j then v else 0)"
  by (simp add: amount_reading_def add_amount_def update_conv)

interpretation user_spend: accumulator amount_reading
  "\<lambda>item. add_amount (user_of item) (amount_of (q_quota item))" user_of "\<lambda>item. amount_of (q_quota item)"
  by unfold_locales (simp add: amount_reading_add)

definition user_cell :: "(string \<times> (string \<times> rat) list) list \<Rightarrow> string \<times> string \<Rightarrow> rat" where
  "user_cell m k = (case map_of m (fst k) of Some u \<Rightarrow> amount_reading u (snd k) | None \<Rightarrow> 0)"

interpretation user_times: accumulator user_cell "add_user_time label topUsers"
  "\<lambda>item. (label_of label item, user_of item)"
  "\<lambda>item. if user_of item \<in> set topUsers then amount_of (q_quota item) else 0"
  for label topUsers
  by unfold_locales
    (auto simp: user_cell_def add_user_time_def update_conv amount_reading_add
      amount_reading_def [of "[]"] split: option.splits)

lemma add_amount_keys: "fst ` set (add_amount k v m) = insert k (fst ` set m)"
  by (simp add: add_amount_def dom_update)

lemma user_totals_distinct: "distinct (map fst (user_totals data))"
proof -
  have "distinct (map fst (fold (\<lambda>item. add_amount (user_of item) (amount_of (q_quota item))) data m))"
    if "distinct (map fst m)" for m
    using that by (induction data arbitrary: m) (simp_all add: add_amount_def distinct_update)
  then show ?thesis by (simp add: user_totals_def)
qed

lemma ranked_users_distinct: "distinct (map fst (ranked_users data))"
  using user_totals_distinct [of data]
  by (simp add: ranked_users_def distinct_map)

lemma ranked_amount:
  assumes "(u, q) \<in> set (ranked_users data)"
  shows "q = amount_reading (user_totals data) u"
  using assms user_totals_distinct [of data] by (simp add: ranked_users_def amount_reading_def)

lemma top_users_total:
  "(\<Sum>(u, q)\<leftarrow>take n (ranked_users data). q) =
     (\<Sum>item\<leftarrow>data. if user_of item \<in> set (map fst (take n (ranked_users data))) then amount_of (q_quota item) else 0)"
    (is "_ = ?rhs")
proof -
  let ?top = "take n (ranked_users data)"
  have d: "distinct (map fst ?top)"
    using ranked_users_distinct [of data] by (simp add: take_map [symmetric])
  have "(\<Sum>(u, q)\<leftarrow>?top. q) = (\<Sum>u\<leftarrow>map fst ?top. amount_reading (user_totals data) u)"
    using ranked_amount [of _ _ data]
    by (auto simp: comp_def dest!: in_set_takeD intro!: arg_cong [where f = sum_list])
  also have "\<dots> = (\<Sum>u\<in>set (map fst ?top). amount_reading (user_totals data) u)"
    using d by (simp only: sum_list_distinct_conv_sum_set)
  also have "\<dots> = ?rhs"
    using user_spend.total_fold [of "set (map fst ?top)" data "[]"]
    by (simp add: user_totals_def [symmetric] amount_reading_def [of "[]"])
  finally show ?thesis .
qed

lemma trend_cells:
  assumes "distinct topUsers"
  shows "(\<Sum>t\<leftarrow>js_sort by_code_units (uniq (map (label_of label) data)). \<Sum>u\<leftarrow>topUsers.
      user_cell (fold (add_user_time label topUsers) data []) (t, u)) =
    (\<Sum>item\<leftarrow>data. if user_of item \<in> set topUsers then amount_of (q_quota item) else 0)"
proof -
  let ?K = "label_of label ` set data \<times> set topUsers"
  have "(\<Sum>t\<leftarrow>js_sort by_code_units (uniq (map (label_of label) data)). \<Sum>u\<leftarrow>topUsers.
      user_cell (fold (add_user_time label topUsers) data []) (t, u)) =
    (\<Sum>k\<in>?K. user_cell (fold (add_user_time label topUsers) data []) k)"
    using cells_sum [OF _ assms, of "js_sort by_code_units (uniq (map (label_of label) data))"] by simp
  also have "\<dots> = (\<Sum>item\<leftarrow>data. if (label_of label item, user_of item) \<in> ?K
      then if user_of item \<in> set topUsers then amount_of (q_quota item) else 0 else 0)"
    using user_times.total_fold [of ?K label topUsers data "[]"] by (simp add: user_cell_def [of "[]"])
  also have "\<dots> = (\<Sum>item\<leftarrow>data. if user_of item \<in> set topUsers then amount_of (q_quota item) else 0)"
    by (rule arg_cong [where f = sum_list]) auto
  finally show ?thesis .
qed

lemma processUserChartData_nonempty:
  assumes "data \<noteq> []"
  shows "userTotal (processUserChartData label perUnit limit data) = (\<Sum>(u, q)\<leftarrow>take limit (ranked_users data). q)"
    and "userRank (processUserChartData label perUnit limit data) =
      map (\<lambda>(u, q). (u, q, round4 (q / perUnit))) (take limit (ranked_users data))"
    and "(\<Sum>p\<leftarrow>userTrend (processUserChartData label perUnit limit data). u_rawQuota p) =
      (\<Sum>t\<leftarrow>js_sort by_code_units (uniq (map (label_of label) data)).
        \<Sum>u\<leftarrow>map fst (take limit (ranked_users data)).
        user_cell (fold (add_user_time label (map fst (take limit (ranked_users data)))) data []) (t, u))"
  using assms
  by (simp_all add: processUserChartData_def Let_def case_prod_beta' sum_list_concat_map comp_def user_cell_def
      amount_reading_def cong: option.case_cong)

lemma ranked_users_sorted: "sorted_wrt (\<lambda>a b. snd b \<le> snd a) (ranked_users data)"
proof -
  have "comparator (\<lambda>a b. snd b - snd a :: rat)" by (auto simp: comparator_def)
  from sorted_js_sort [OF this] show ?thesis by (simp add: ranked_users_def)
qed

text \<open>The user charts rank at most \<open>limit\<close> users by decreasing spend, and the trend of these users over
  all time labels adds up to the total of the ranking: nothing of a ranked user is lost.\<close>

lemma user_trend_matches_rank:
  "let series = processUserChartData label perUnit limit data in
     length (userRank series) \<le> limit \<and>
     sorted_wrt (\<lambda>a b. fst (snd b) \<le> fst (snd a)) (userRank series) \<and>
     (\<Sum>(u, q, usage)\<leftarrow>userRank series. q) = userTotal series \<and>
     (\<Sum>p\<leftarrow>userTrend series. u_rawQuota p) = userTotal series"
proof (cases "data = []")
  case True
  then show ?thesis by (simp add: processUserChartData_def)
next
  case False
  have "distinct (map fst (take limit (ranked_users data)))"
    using ranked_users_distinct [of data] by (simp add: take_map [symmetric])
  note trend = trend_cells [OF this] top_users_total
  have "sorted_wrt (\<lambda>a b. snd b \<le> snd a) (take limit (ranked_users data))"
    by (rule sorted_wrt_take [OF ranked_users_sorted])
  then show ?thesis
    using trend
    by (simp add: Let_def processUserChartData_nonempty [OF False] sorted_wrt_map case_prod_beta' comp_def)
qed

end
