(* ===== verification/Billing_Expr.thy ===== *)
theory Billing_Expr
  imports Json Js_Coercion "HOL-Library.Monad_Syntax"
begin

text \<open>
  The billing expressions of the pricing pages (\<^verbatim>\<open>web/src/features/pricing/lib/billing-expr.ts\<close>): the
  registry of variables, the reader of tiers, the reader and the writer of request rules, and the joining
  of a base expression with its rules.  Each regular expression of the source is a matcher over the text:
  every repetition in them is followed by a character it cannot consume, so a maximal run is what the
  expression matches.
\<close>

section \<open>Matchers\<close>

definition lit :: "string \<Rightarrow> string \<Rightarrow> string option" where
  "lit p s = (if starts_with p s then Some (drop (length p) s) else None)"

definition run1 :: "(char \<Rightarrow> bool) \<Rightarrow> string \<Rightarrow> (string \<times> string) option" where
  "run1 P s = (if takeWhile P s = [] then None else Some (takeWhile P s, dropWhile P s))"

fun alt :: "string list \<Rightarrow> string \<Rightarrow> (string \<times> string) option" where
  "alt [] s = None"
| "alt (p # ps) s = (case lit p s of Some r \<Rightarrow> Some (p, r) | None \<Rightarrow> alt ps s)"

abbreviation quote_char :: char where "quote_char \<equiv> CHR 0x22"
abbreviation backslash :: char where "backslash \<equiv> CHR 0x5C"

text \<open>The class \<^verbatim>\<open>[\d.eE+-]\<close>, and \<^verbatim>\<open>[\d.eE+]\<close> of the tier conditions.\<close>

definition num_char :: "char \<Rightarrow> bool" where
  "num_char c \<longleftrightarrow> is_digit c \<or> c = CHR ''.'' \<or> c = CHR ''e'' \<or> c = CHR ''E'' \<or> c = CHR ''+'' \<or> c = CHR ''-''"

definition tier_num_char :: "char \<Rightarrow> bool" where
  "tier_num_char c \<longleftrightarrow> num_char c \<and> c \<noteq> CHR ''-''"

definition skip_ws :: "string \<Rightarrow> string" where
  "skip_ws s = dropWhile js_space s"

definition line_end :: "char \<Rightarrow> bool" where
  "line_end c \<longleftrightarrow> c = CHR 0x0A \<or> c = CHR 0x0D"

text \<open>\<^verbatim>\<open>("([^"]+)")\<close>.\<close>

definition call_arg :: "string \<Rightarrow> (string \<times> string) option" where
  "call_arg s = do {
     s1 \<leftarrow> lit [CHR ''('', quote_char] s;
     (a, s2) \<leftarrow> run1 (\<lambda>c. c \<noteq> quote_char) s1;
     s3 \<leftarrow> lit [quote_char, CHR '')''] s2;
     Some (a, s3) }"

text \<open>\<^verbatim>\<open>"(?:[^"\\]|\\.)*"\<close>, after its opening quote.\<close>

fun literal_rest :: "string \<Rightarrow> (string \<times> string) option" where
  "literal_rest [] = None"
| "literal_rest (c # s) =
     (if c = quote_char then Some ([c], s)
      else if c = backslash then
        (case s of
           [] \<Rightarrow> None
         | d # s' \<Rightarrow> if line_end d then None else map_rest (\<lambda>b. c # d # b) (literal_rest s'))
      else map_rest ((#) c) (literal_rest s))"

definition string_literal :: "string \<Rightarrow> (string \<times> string) option" where
  "string_literal s = do { s1 \<leftarrow> lit [quote_char] s; (b, r) \<leftarrow> literal_rest s1; Some (quote_char # b, r) }"

text \<open>\<^verbatim>\<open>/^-?(?:\d+\.?\d*|\.\d+)(?:[eE][+-]?\d+)?$/\<close>.\<close>

definition numeric_exponent :: "string \<Rightarrow> bool" where
  "numeric_exponent s \<longleftrightarrow>
     (case s of
        [] \<Rightarrow> True
      | c # t \<Rightarrow>
          (c = CHR ''e'' \<or> c = CHR ''E'') \<and>
          (let ds = (case t of d # u \<Rightarrow> if d = CHR ''+'' \<or> d = CHR ''-'' then u else t | [] \<Rightarrow> t)
           in ds \<noteq> [] \<and> list_all is_digit ds))"

definition NUMERIC_LITERAL_REGEX :: "string \<Rightarrow> bool" where
  "NUMERIC_LITERAL_REGEX s \<longleftrightarrow>
     (let u = (case s of c # t \<Rightarrow> if c = CHR ''-'' then t else s | [] \<Rightarrow> s);
          ip = takeWhile is_digit u; r = dropWhile is_digit u
      in if ip \<noteq> [] then
           numeric_exponent (case r of c # t \<Rightarrow> if c = CHR ''.'' then dropWhile is_digit t else r | [] \<Rightarrow> r)
         else (case r of
                 c # t \<Rightarrow> c = CHR ''.'' \<and> takeWhile is_digit t \<noteq> [] \<and> numeric_exponent (dropWhile is_digit t)
               | [] \<Rightarrow> False))"

section \<open>The matchers on texts that fit\<close>

lemma lit_append [simp]: "lit p (p @ r) = Some r"
  by (simp add: lit_def)

lemma lit_Nil [simp]: "lit [] s = Some s"
  by (simp add: lit_def)

lemma lit_Cons [simp]: "lit (x # p) (y # s) = (if x = y then lit p s else None)"
  by (simp add: lit_def)

lemma lit_append_same [simp]: "lit (a @ p) (a @ s) = lit p s"
  by (induction a) simp_all

lemma lit_Cons_Nil [simp]: "lit (x # p) [] = None"
  by (simp add: lit_def)

lemma run1_append:
  assumes "v \<noteq> []" "list_all P v" "r = [] \<or> \<not> P (hd r)"
  shows "run1 P (v @ r) = Some (v, r)"
proof -
  have "takeWhile P (v @ r) = v" "dropWhile P (v @ r) = r"
    using assms(2,3) by (cases r; auto simp: list_all_iff takeWhile_append dropWhile_append dropWhile_eq_Nil_conv)+
  with assms(1) show ?thesis by (simp add: run1_def)
qed

lemma not_num_char [simp]:
  "\<not> num_char (CHR '' '')" "\<not> num_char (CHR '')'')" "\<not> num_char (CHR ''('')" "\<not> num_char (CHR ''|'')" "\<not> num_char quote_char"
  by (simp_all add: num_char_def is_digit_def)

section \<open>Variables\<close>

datatype BillingSide = InputSide | OutputSide | ConditionSide

record BillingVar =
  v_key :: string
  v_field :: "string option"
  v_tierField :: "string option"
  v_label :: string
  v_shortLabel :: string
  v_side :: BillingSide
  v_isBase :: bool
  v_isConditionOnly :: bool
  v_group :: "string option"

definition price_var ::
  "string \<Rightarrow> string \<Rightarrow> string \<Rightarrow> string \<Rightarrow> string \<Rightarrow> BillingSide \<Rightarrow> bool \<Rightarrow> string option \<Rightarrow> BillingVar" where
  "price_var key field tierField label shortLabel side isBase grp =
     \<lparr>v_key = key, v_field = Some field, v_tierField = Some tierField, v_label = label, v_shortLabel = shortLabel,
      v_side = side, v_isBase = isBase, v_isConditionOnly = False, v_group = grp\<rparr>"

definition BILLING_VARS :: "BillingVar list" where
  "BILLING_VARS =
     [price_var ''p'' ''inputPrice'' ''input_unit_cost'' ''Input price'' ''Input'' InputSide True None,
      price_var ''c'' ''outputPrice'' ''output_unit_cost'' ''Completion price'' ''Output'' OutputSide True None,
      \<lparr>v_key = ''len'', v_field = None, v_tierField = None, v_label = ''Input length'', v_shortLabel = ''Length'',
       v_side = ConditionSide, v_isBase = False, v_isConditionOnly = True, v_group = None\<rparr>,
      price_var ''cr'' ''cacheReadPrice'' ''cache_read_unit_cost'' ''Cache read price'' ''Cache Read'' InputSide False
        (Some ''cache''),
      price_var ''cc'' ''cacheCreatePrice'' ''cache_create_unit_cost'' ''Cache create price'' ''Cache Write'' InputSide
        False (Some ''cache''),
      price_var ''cc1h'' ''cacheCreate1hPrice'' ''cache_create_1h_unit_cost'' ''Cache create (1h) price''
        ''Cache Write (1h)'' InputSide False (Some ''cache''),
      price_var ''img'' ''imagePrice'' ''image_unit_cost'' ''Image input price'' ''Image In'' InputSide False
        (Some ''media''),
      price_var ''img_o'' ''imageOutputPrice'' ''image_output_unit_cost'' ''Image output price'' ''Image Out''
        OutputSide False (Some ''media''),
      price_var ''ai'' ''audioInputPrice'' ''audio_input_unit_cost'' ''Audio input price'' ''Audio In'' InputSide False
        (Some ''media''),
      price_var ''ao'' ''audioOutputPrice'' ''audio_output_unit_cost'' ''Audio output price'' ''Audio Out'' OutputSide
        False (Some ''media'')]"

definition BILLING_PRICING_VARS :: "BillingVar list" where
  "BILLING_PRICING_VARS = filter (\<lambda>v. \<not> v_isConditionOnly v) BILLING_VARS"

definition BILLING_CONDITION_VARS :: "string list" where
  "BILLING_CONDITION_VARS = map v_key (filter (\<lambda>v. v_isBase v \<or> v_isConditionOnly v) BILLING_VARS)"

definition BILLING_VAR_KEY_TO_FIELD :: "(string \<times> string) list" where
  "BILLING_VAR_KEY_TO_FIELD = map (\<lambda>v. (v_key v, the (v_field v))) BILLING_PRICING_VARS"

definition BILLING_EXTRA_VARS :: "BillingVar list" where
  "BILLING_EXTRA_VARS = filter (\<lambda>v. \<not> v_isBase v \<and> \<not> v_isConditionOnly v) BILLING_VARS"

definition BILLING_CACHE_VAR_MAP :: "(string \<times> string) list" where
  "BILLING_CACHE_VAR_MAP = map (\<lambda>v. (the (v_tierField v), v_key v)) BILLING_EXTRA_VARS"

section \<open>Conditions and rules\<close>

definition MATCH_EQ :: string where "MATCH_EQ = ''eq''"
definition MATCH_CONTAINS :: string where "MATCH_CONTAINS = ''contains''"
definition MATCH_GT :: string where "MATCH_GT = ''gt''"
definition MATCH_GTE :: string where "MATCH_GTE = ''gte''"
definition MATCH_LT :: string where "MATCH_LT = ''lt''"
definition MATCH_LTE :: string where "MATCH_LTE = ''lte''"
definition MATCH_EXISTS :: string where "MATCH_EXISTS = ''exists''"
definition MATCH_RANGE :: string where "MATCH_RANGE = ''range''"

lemmas match_defs = MATCH_EQ_def MATCH_CONTAINS_def MATCH_GT_def MATCH_GTE_def MATCH_LT_def MATCH_LTE_def
  MATCH_EXISTS_def MATCH_RANGE_def

definition TIME_FUNCS :: "string list" where
  "TIME_FUNCS = [''hour'', ''minute'', ''weekday'', ''month'', ''day'']"

datatype rule_source = ParamSource | HeaderSource

record ParamHeaderCondition =
  ph_source :: rule_source
  ph_path :: string
  ph_mode :: string
  ph_value :: string

record TimeCondition =
  tc_timeFunc :: string
  tc_timezone :: string
  tc_mode :: string
  tc_value :: string
  tc_rangeStart :: string
  tc_rangeEnd :: string

datatype RequestCondition = TimeCond TimeCondition | ParamHeaderCond ParamHeaderCondition

record RequestRuleGroup =
  g_conditions :: "RequestCondition list"
  g_multiplier :: string

record TierCondition =
  tier_var :: string
  tier_op :: string
  tier_value :: js_number

record ParsedTier =
  pt_label :: string
  pt_conditions :: "TierCondition list"
  pt_prices :: "(string \<times> rat) list"

text \<open>A reader gives a result, \<^verbatim>\<open>null\<close>, or lets the \<^verbatim>\<open>SyntaxError\<close> of \<^verbatim>\<open>JSON.parse\<close> escape.\<close>

datatype 'a reading = Read 'a | NoMatch | Throws

section \<open>Reading tiers\<close>

definition stripExprVersion :: "string \<Rightarrow> nat \<times> string" where
  "stripExprVersion exprStr =
     (case exprStr of
        [] \<Rightarrow> (1, [])
      | c # s \<Rightarrow>
          (let ds = takeWhile is_digit s; r = dropWhile is_digit s in
           if c = CHR ''v'' \<and> ds \<noteq> [] \<and> starts_with '':'' r then (digits_val ds, tl r) else (1, exprStr)))"

definition word_char :: "char \<Rightarrow> bool" where
  "word_char c \<longleftrightarrow> is_digit c \<or> c = CHR ''_'' \<or>
     (let n = of_char c :: nat in 65 \<le> n \<and> n \<le> 90 \<or> 97 \<le> n \<and> n \<le> 122)"

fun first_some :: "('a \<Rightarrow> 'b option) \<Rightarrow> 'a list \<Rightarrow> 'b option" where
  "first_some f [] = None"
| "first_some f (x # xs) = (case f x of Some y \<Rightarrow> Some y | None \<Rightarrow> first_some f xs)"

text \<open>One match of \<^verbatim>\<open>BILLING_VAR_REGEX\<close> at the head of \<open>s\<close>, after the character \<open>prev\<close>.\<close>

definition var_factor :: "string \<Rightarrow> string \<Rightarrow> ((string \<times> string) \<times> string) option" where
  "var_factor key s = do {
     s1 \<leftarrow> lit key s;
     s2 \<leftarrow> lit ''*'' (skip_ws s1);
     (n, r) \<leftarrow> run1 num_char (skip_ws s2);
     Some ((key, n), r) }"

definition BILLING_VAR_REGEX :: "char option \<Rightarrow> string \<Rightarrow> ((string \<times> string) \<times> string) option" where
  "BILLING_VAR_REGEX prev s =
     (if (case prev of Some c \<Rightarrow> word_char c | None \<Rightarrow> False) then None
      else first_some (\<lambda>v. var_factor (v_key v) s) BILLING_PRICING_VARS)"

lemma lit_length: "lit p s = Some r \<Longrightarrow> length s = length p + length r"
  by (auto simp: lit_def starts_with_iff split: if_splits)

lemma run1_length: "run1 P s = Some (a, r) \<Longrightarrow> length r < length s"
proof -
  assume "run1 P s = Some (a, r)"
  then have "r = dropWhile P s" "takeWhile P s \<noteq> []" by (auto simp: run1_def split: if_splits)
  moreover have "length s = length (takeWhile P s) + length (dropWhile P s)"
    by (metis length_append takeWhile_dropWhile_id)
  ultimately show ?thesis by (simp add: length_greater_0_conv [symmetric] del: length_greater_0_conv)
qed

lemma skip_ws_length: "length (skip_ws s) \<le> length s"
  by (simp add: skip_ws_def length_dropWhile_le)

lemma ws_length:
  "lit p (skip_ws s) = Some r \<Longrightarrow> length r \<le> length s"
  "run1 P (skip_ws s) = Some (a, r) \<Longrightarrow> length r < length s"
  using skip_ws_length [of s] by (auto dest!: lit_length run1_length)

lemma var_factor_shorter: "var_factor key s = Some (x, r) \<Longrightarrow> length r < length s"
  by (auto simp: var_factor_def split: bind_splits dest!: ws_length lit_length [of key])

lemma first_some_Some: "first_some f xs = Some y \<Longrightarrow> \<exists>x\<in>set xs. f x = Some y"
  by (induction xs) (auto split: option.splits)

lemma BILLING_VAR_REGEX_shorter: "BILLING_VAR_REGEX prev s = Some (x, r) \<Longrightarrow> length r < length s"
  by (auto simp: BILLING_VAR_REGEX_def dest!: first_some_Some var_factor_shorter split: if_splits)

function body_factors :: "char option \<Rightarrow> string \<Rightarrow> (string \<times> string) list" where
  "body_factors prev s =
     (case BILLING_VAR_REGEX prev s of
        Some (kn, r) \<Rightarrow> kn # body_factors (Some (last (snd kn))) r
      | None \<Rightarrow> (case s of [] \<Rightarrow> [] | c # s' \<Rightarrow> body_factors (Some c) s'))"
  by pat_completeness auto
termination
  by (relation "measure (\<lambda>(prev, s). length s)") (auto dest: BILLING_VAR_REGEX_shorter)

declare body_factors.simps [simp del]

text \<open>Prices are finite: a coefficient too large for a double, whose infinite value \<^verbatim>\<open>coeffs[v] || 0\<close> keeps, counts as zero.\<close>

definition parseTierBody :: "string \<Rightarrow> (string \<times> rat) list" where
  "parseTierBody bodyStr =
     (let coeffs = map_of (body_factors None bodyStr) in
      map (\<lambda>(varName, field).
        (field, case coeffs varName of Some n \<Rightarrow> finite_or_zero (string_number n) | None \<Rightarrow> 0))
        BILLING_VAR_KEY_TO_FIELD)"

text \<open>One comparison of a tier condition; the alternatives of the operator that the number cannot follow
  fail, so \<^verbatim>\<open><=\<close> and \<^verbatim>\<open>>=\<close> are tried first.\<close>

definition tier_atom :: "string \<Rightarrow> (TierCondition \<times> string) option" where
  "tier_atom s = do {
     (v, s1) \<leftarrow> alt [''p'', ''c'', ''len''] s;
     (op, s2) \<leftarrow> alt [''<='', ''<'', ''>='', ''>''] (skip_ws s1);
     (n, r) \<leftarrow> run1 tier_num_char (skip_ws s2);
     Some (\<lparr>tier_var = v, tier_op = op, tier_value = string_number n\<rparr>, r) }"

lemma alt_length: "alt ps s = Some (p, r) \<Longrightarrow> length s = length p + length r"
  by (induction ps) (auto split: option.splits dest: lit_length)

lemma alt_ws_length: "alt ps (skip_ws s) = Some (p, r) \<Longrightarrow> length r \<le> length s"
  using skip_ws_length [of s] by (auto dest!: alt_length)

lemma tier_atom_shorter: "tier_atom s = Some (c, r) \<Longrightarrow> length r < length s"
  unfolding tier_atom_def
  by (auto simp del: alt.simps split: bind_splits dest!: ws_length alt_ws_length alt_length [of "[''p'', ''c'', ''len'']"])

function tier_atoms :: "string \<Rightarrow> (TierCondition list \<times> string) option" where
  "tier_atoms s =
     (case tier_atom s of
        None \<Rightarrow> None
      | Some (c, r) \<Rightarrow>
          (case lit ''&&'' (skip_ws r) of
             None \<Rightarrow> Some ([c], r)
           | Some r1 \<Rightarrow> (case tier_atoms (skip_ws r1) of None \<Rightarrow> Some ([c], r) | Some (cs, r2) \<Rightarrow> Some (c # cs, r2))))"
  by pat_completeness auto

termination
proof (relation "measure length")
  fix s x c r r1
  assume "tier_atom s = Some x" "(c, r) = x" "lit ''&&'' (skip_ws r) = Some r1"
  then have "length r < length s" "length r1 \<le> length r" by (auto dest: tier_atom_shorter ws_length(1))
  with skip_ws_length [of r1] show "(skip_ws r1, s) \<in> measure length" by simp
qed simp

declare tier_atoms.simps [simp del]

lemma tier_atoms_shorter: "tier_atoms s = Some (cs, r) \<Longrightarrow> length r < length s"
proof (induction s arbitrary: cs r rule: tier_atoms.induct)
  case (1 s)
  from "1.prems" obtain c r0 where a: "tier_atom s = Some (c, r0)"
    by (auto simp: tier_atoms.simps [of s] split: option.splits)
  note l0 = tier_atom_shorter [OF a]
  show ?case
  proof (cases "lit ''&&'' (skip_ws r0)")
    case None
    with "1.prems" a l0 show ?thesis by (simp add: tier_atoms.simps [of s])
  next
    case (Some r1)
    note l1 = ws_length(1) [OF Some]
    show ?thesis
    proof (cases "tier_atoms (skip_ws r1)")
      case None
      with "1.prems" a l0 Some show ?thesis by (simp add: tier_atoms.simps [of s])
    next
      case (Some y)
      with "1.prems" a \<open>lit ''&&'' (skip_ws r0) = Some r1\<close> obtain cs' where "tier_atoms (skip_ws r1) = Some (cs', r)"
        by (cases y) (auto simp: tier_atoms.simps [of s])
      from "1.IH" [OF a refl \<open>lit ''&&'' (skip_ws r0) = Some r1\<close> this] l0 l1 skip_ws_length [of r1]
      show ?thesis by simp
    qed
  qed
qed

text \<open>\<^verbatim>\<open>tier\("([^"]*)",\s*([^)]+)\)\<close>; when only blanks stand before the parenthesis, the last of them is
  the body.\<close>

definition tier_call :: "string \<Rightarrow> ((string \<times> string) \<times> string) option" where
  "tier_call s = do {
     s1 \<leftarrow> lit (''tier('' @ [quote_char]) s;
     s2 \<leftarrow> lit [quote_char, CHR '',''] (dropWhile (\<lambda>c. c \<noteq> quote_char) s1);
     let s3 = skip_ws s2;
     let b = takeWhile (\<lambda>c. c \<noteq> CHR '')'') s3;
     r \<leftarrow> lit '')'' (dropWhile (\<lambda>c. c \<noteq> CHR '')'') s3);
     if b \<noteq> [] then Some ((takeWhile (\<lambda>c. c \<noteq> quote_char) s1, b), r)
     else if takeWhile js_space s2 \<noteq> [] then
       Some ((takeWhile (\<lambda>c. c \<noteq> quote_char) s1, [last (takeWhile js_space s2)]), r)
     else None }"

definition tier_match :: "string \<Rightarrow> (ParsedTier \<times> string) option" where
  "tier_match s =
     (let tier = (\<lambda>cs ((label, body), r).
            (\<lparr>pt_label = label, pt_conditions = cs, pt_prices = parseTierBody body\<rparr>, r))
      in case do { (cs, s1) \<leftarrow> tier_atoms s; s2 \<leftarrow> lit ''?'' (skip_ws s1); t \<leftarrow> tier_call (skip_ws s2); Some (tier cs t) } of
           Some m \<Rightarrow> Some m
         | None \<Rightarrow> map_option (tier []) (tier_call s))"

lemma tier_call_shorter: "tier_call s = Some (x, r) \<Longrightarrow> length r < length s"
proof -
  assume a: "tier_call s = Some (x, r)"
  then obtain s1 s2 where "lit (''tier('' @ [quote_char]) s = Some s1"
    "lit [quote_char, CHR '',''] (dropWhile (\<lambda>c. c \<noteq> quote_char) s1) = Some s2"
    "lit '')'' (dropWhile (\<lambda>c. c \<noteq> CHR '')'') (skip_ws s2)) = Some r"
    by (auto simp: tier_call_def Let_def split: bind_splits if_splits)
  then show ?thesis
    using length_dropWhile_le [of "\<lambda>c. c \<noteq> quote_char" s1]
      length_dropWhile_le [of "\<lambda>c. c \<noteq> CHR '')''" "skip_ws s2"] skip_ws_length [of s2]
    by (auto dest!: lit_length)
qed

lemma tier_match_shorter: "tier_match s = Some (t, r) \<Longrightarrow> length r < length s"
proof -
  assume a: "tier_match s = Some (t, r)"
  then consider (cond) cs s1 s2 x where "tier_atoms s = Some (cs, s1)" "lit ''?'' (skip_ws s1) = Some s2"
      "tier_call (skip_ws s2) = Some (x, r)"
    | (plain) x where "tier_call s = Some (x, r)"
    by (auto simp: tier_match_def Let_def split: option.splits bind_splits)
  then show ?thesis
  proof cases
    case cond
    with skip_ws_length [of s2] show ?thesis
      by (auto dest!: tier_atoms_shorter ws_length(1) tier_call_shorter)
  qed (rule tier_call_shorter)
qed

function tier_scan :: "string \<Rightarrow> ParsedTier list" where
  "tier_scan s =
     (case tier_match s of
        Some (t, r) \<Rightarrow> t # tier_scan r
      | None \<Rightarrow> (case s of [] \<Rightarrow> [] | c # s' \<Rightarrow> tier_scan s'))"
  by pat_completeness auto
termination
  by (relation "measure length") (auto dest: tier_match_shorter)

declare tier_scan.simps [simp del]

definition parseTiersFromExpr :: "string \<Rightarrow> ParsedTier list" where
  "parseTiersFromExpr exprStr = (if exprStr = [] then [] else tier_scan (snd (stripExprVersion exprStr)))"

section \<open>Reading request rules\<close>

definition paren_depth :: "char \<Rightarrow> int \<Rightarrow> int" where
  "paren_depth c depth = (if c = CHR ''('' then depth + 1 else if c = CHR '')'' then depth - 1 else depth)"

function split_top :: "string \<Rightarrow> int \<Rightarrow> string \<Rightarrow> string \<Rightarrow> string list" where
  "split_top sep depth cur [] = [trim cur]"
| "split_top sep depth cur (c # s) =
     (let d = paren_depth c depth in
      if d = 0 \<and> starts_with sep (c # s) then trim cur # split_top sep d [] (drop (length sep - 1) s)
      else split_top sep d (cur @ [c]) s)"
  by pat_completeness auto
termination
  by (relation "measure (\<lambda>(sep, depth, cur, s). length s)") auto

definition splitTopLevelMultiply :: "string \<Rightarrow> string list" where
  "splitTopLevelMultiply expr = filter (\<lambda>p. p \<noteq> []) (split_top '' * '' 0 [] expr)"

definition splitTopLevelAnd :: "string \<Rightarrow> string list" where
  "splitTopLevelAnd expr = filter (\<lambda>p. p \<noteq> []) (split_top '' && '' 0 [] expr)"

definition parseExprLiteral :: "string \<Rightarrow> js_value option" where
  "parseExprLiteral raw =
     (let t = trim raw in
      if t = ''true'' \<or> t = ''false'' \<or> NUMERIC_LITERAL_REGEX t then Some (JString t)
      else case json_parse t of Some JNull \<Rightarrow> None | r \<Rightarrow> r)"

text \<open>\<^verbatim>\<open>f("tz") >= a || f("tz") < b\<close>.\<close>

definition time_range :: "string \<Rightarrow> (RequestCondition \<times> string) option" where
  "time_range expr = do {
     (f, s1) \<leftarrow> alt TIME_FUNCS expr;
     (tz, s2) \<leftarrow> call_arg s1;
     s3 \<leftarrow> lit '' >= '' s2;
     (a, s4) \<leftarrow> run1 num_char s3;
     s5 \<leftarrow> lit ('' || '' @ f @ [CHR ''('', quote_char] @ tz @ [quote_char, CHR '')''] @ '' < '') s4;
     (b, s6) \<leftarrow> run1 num_char s5;
     Some (TimeCond \<lparr>tc_timeFunc = f, tc_timezone = tz, tc_mode = MATCH_RANGE, tc_value = [], tc_rangeStart = a,
       tc_rangeEnd = b\<rparr>, s6) }"

definition time_compare :: "string \<Rightarrow> (RequestCondition \<times> string) option" where
  "time_compare expr = do {
     (f, s1) \<leftarrow> alt TIME_FUNCS expr;
     (tz, s2) \<leftarrow> call_arg s1;
     (op, s3) \<leftarrow> alt ['' == '', '' >= '', '' < ''] s2;
     (v, s4) \<leftarrow> run1 num_char s3;
     Some (TimeCond \<lparr>tc_timeFunc = f, tc_timezone = tz,
       tc_mode = (if op = '' >= '' then MATCH_GTE else if op = '' < '' then MATCH_LT else MATCH_EQ),
       tc_value = v, tc_rangeStart = [], tc_rangeEnd = []\<rparr>, s4) }"

text \<open>A match that reaches the end of the text.\<close>

definition whole :: "('a \<times> string) option \<Rightarrow> string \<Rightarrow> 'a option" where
  "whole m rest = (case m of Some (a, r) \<Rightarrow> if r = rest then Some a else None | None \<Rightarrow> None)"

definition tryParseTimeCondition :: "string \<Rightarrow> RequestCondition option" where
  "tryParseTimeCondition expr =
     (case whole (time_range expr) [] of
        Some c \<Rightarrow> Some c
      | None \<Rightarrow>
          (case whole (lit ''('' expr \<bind> time_range) '')'' of
             Some c \<Rightarrow> Some c
           | None \<Rightarrow> whole (time_compare expr) []))"

definition ph :: "rule_source \<Rightarrow> string \<Rightarrow> string \<Rightarrow> string \<Rightarrow> RequestCondition" where
  "ph source path mode v = ParamHeaderCond \<lparr>ph_source = source, ph_path = path, ph_mode = mode, ph_value = v\<rparr>"

definition match_header_exists :: "string \<Rightarrow> string option" where
  "match_header_exists expr = whole (do {
     s1 \<leftarrow> lit ''header'' expr; (path, s2) \<leftarrow> call_arg s1; r \<leftarrow> lit ('' != '' @ [quote_char, quote_char]) s2;
     Some (path, r) }) []"

definition match_param_exists :: "string \<Rightarrow> string option" where
  "match_param_exists expr = whole (do {
     s1 \<leftarrow> lit ''param'' expr; (path, s2) \<leftarrow> call_arg s1; r \<leftarrow> lit '' != nil'' s2; Some (path, r) }) []"

definition match_header_has :: "string \<Rightarrow> (string \<times> string) option" where
  "match_header_has expr = whole (do {
     s1 \<leftarrow> lit ''has(header'' expr; (path, s2) \<leftarrow> call_arg s1; s3 \<leftarrow> lit '', '' s2;
     (l, s4) \<leftarrow> string_literal s3; r \<leftarrow> lit '')'' s4; Some ((path, l), r) }) []"

definition match_param_has :: "string \<Rightarrow> (string \<times> string \<times> string) option" where
  "match_param_has expr = whole (do {
     s1 \<leftarrow> lit ''param'' expr; (p1, s2) \<leftarrow> call_arg s1; s3 \<leftarrow> lit '' != nil && has(param'' s2;
     (p2, s4) \<leftarrow> call_arg s3; s5 \<leftarrow> lit '', '' s4; (l, s6) \<leftarrow> string_literal s5; r \<leftarrow> lit '')'' s6;
     Some ((p1, p2, l), r) }) []"

definition match_param_compare :: "string \<Rightarrow> (string \<times> string \<times> string \<times> string) option" where
  "match_param_compare expr = whole (do {
     s1 \<leftarrow> lit ''param'' expr; (p1, s2) \<leftarrow> call_arg s1; s3 \<leftarrow> lit '' != nil && param'' s2;
     (p2, s4) \<leftarrow> call_arg s3; (op, s5) \<leftarrow> alt ['' > '', '' >= '', '' < '', '' <= ''] s4;
     (v, r) \<leftarrow> run1 num_char s5; Some ((p1, p2, op, v), r) }) []"

definition match_equals :: "string \<Rightarrow> (rule_source \<times> string \<times> string) option" where
  "match_equals expr = do {
     (src, s1) \<leftarrow> alt [''param'', ''header''] expr; (path, s2) \<leftarrow> call_arg s1; v \<leftarrow> lit '' == '' s2;
     if v \<noteq> [] \<and> list_all (\<lambda>c. \<not> line_end c) v
     then Some (if src = ''param'' then ParamSource else HeaderSource, path, v) else None }"

definition compare_mode :: "string \<Rightarrow> string" where
  "compare_mode op =
     (if op = '' > '' then MATCH_GT else if op = '' >= '' then MATCH_GTE else if op = '' < '' then MATCH_LT else MATCH_LTE)"

definition contains_reading :: "rule_source \<Rightarrow> string \<Rightarrow> string \<Rightarrow> RequestCondition reading" where
  "contains_reading source path l =
     (case json_parse l of Some v \<Rightarrow> Read (ph source path MATCH_CONTAINS (string_of v)) | None \<Rightarrow> Throws)"

definition read_equals :: "string \<Rightarrow> RequestCondition reading" where
  "read_equals expr =
     (case match_equals expr of
        Some (source, path, raw) \<Rightarrow>
          (case parseExprLiteral raw of Some v \<Rightarrow> Read (ph source path MATCH_EQ (to_text v)) | None \<Rightarrow> NoMatch)
      | None \<Rightarrow> NoMatch)"

definition tryParseRequestCondition :: "string \<Rightarrow> RequestCondition reading" where
  "tryParseRequestCondition expr =
     (case tryParseTimeCondition expr of Some c \<Rightarrow> Read c | None \<Rightarrow>
      case match_header_exists expr of Some path \<Rightarrow> Read (ph HeaderSource path MATCH_EXISTS []) | None \<Rightarrow>
      case match_param_exists expr of Some path \<Rightarrow> Read (ph ParamSource path MATCH_EXISTS []) | None \<Rightarrow>
      case match_header_has expr of Some (path, l) \<Rightarrow> contains_reading HeaderSource path l | None \<Rightarrow>
      (let rest = (case match_param_compare expr of
             Some (p1, p2, op, v) \<Rightarrow> if p1 = p2 then Read (ph ParamSource p1 (compare_mode op) v) else read_equals expr
           | None \<Rightarrow> read_equals expr)
       in case match_param_has expr of
            Some (p1, p2, l) \<Rightarrow> if p1 = p2 then contains_reading ParamSource p1 l else rest
          | None \<Rightarrow> rest))"

fun read_all :: "('a \<Rightarrow> 'b reading) \<Rightarrow> 'a list \<Rightarrow> 'b list reading" where
  "read_all f [] = Read []"
| "read_all f (x # xs) =
     (case f x of
        Read y \<Rightarrow> (case read_all f xs of Read ys \<Rightarrow> Read (y # ys) | NoMatch \<Rightarrow> NoMatch | Throws \<Rightarrow> Throws)
      | NoMatch \<Rightarrow> NoMatch
      | Throws \<Rightarrow> Throws)"

text \<open>\<^verbatim>\<open>/^\((.+) \? ([\d.eE+-]+) : 1\)$/s\<close>, read from the end of the text.\<close>

definition match_factor :: "string \<Rightarrow> (string \<times> string) option" where
  "match_factor part = do {
     s1 \<leftarrow> lit (rev '' : 1)'') (rev part);
     (m, s2) \<leftarrow> run1 num_char s1;
     s3 \<leftarrow> lit (rev '' ? '') s2;
     (case rev s3 of
        p # c \<Rightarrow> if p = CHR ''('' \<and> c \<noteq> [] then Some (c, rev m) else None
      | [] \<Rightarrow> None) }"

definition tryParseRuleGroupFactor :: "string \<Rightarrow> RequestRuleGroup reading" where
  "tryParseRuleGroupFactor part =
     (case match_factor part of
        None \<Rightarrow> NoMatch
      | Some (conditionStr, multiplier) \<Rightarrow>
          (case read_all (\<lambda>ap. tryParseRequestCondition (trim ap)) (splitTopLevelAnd conditionStr) of
             Read conditions \<Rightarrow>
               if conditions = [] then NoMatch else Read \<lparr>g_conditions = conditions, g_multiplier = multiplier\<rparr>
           | NoMatch \<Rightarrow> NoMatch
           | Throws \<Rightarrow> Throws))"

definition tryParseRequestRuleExpr :: "string \<Rightarrow> RequestRuleGroup list reading" where
  "tryParseRequestRuleExpr expr =
     (let trimmed = trim expr in
      if trimmed = [] then Read [] else read_all tryParseRuleGroupFactor (splitTopLevelMultiply trimmed))"

section \<open>Base expression and rules\<close>

fun outer_parens :: "int \<Rightarrow> string \<Rightarrow> bool" where
  "outer_parens depth [] = (depth = 0)"
| "outer_parens depth (c # s) =
     (let d = paren_depth c depth in if d = 0 \<and> s \<noteq> [] then False else outer_parens d s)"

definition hasFullOuterParens :: "string \<Rightarrow> bool" where
  "hasFullOuterParens expr \<longleftrightarrow> starts_with ''('' expr \<and> ends_with '')'' expr \<and> outer_parens 0 expr"

lemma length_trim_le: "length (trim s) \<le> length s"
  using length_dropWhile_le [of js_space "rev (dropWhile js_space s)"] length_dropWhile_le [of js_space s]
  by (simp add: trim_def trim_start_def trim_end_def)

function unwrap_loop :: "string \<Rightarrow> string" where
  "unwrap_loop current = (if hasFullOuterParens current then unwrap_loop (trim (butlast (tl current))) else current)"
  by pat_completeness auto
termination
proof (relation "measure length")
  fix current
  assume "hasFullOuterParens current"
  then have "current \<noteq> []" by (auto simp: hasFullOuterParens_def)
  with length_trim_le [of "butlast (tl current)"]
  show "(trim (butlast (tl current)), current) \<in> measure length" by (cases current) auto
qed simp

declare unwrap_loop.simps [simp del]

definition unwrapOuterParens :: "string \<Rightarrow> string" where
  "unwrapOuterParens expr = unwrap_loop (trim expr)"

definition is_rule_part :: "RequestRuleGroup list reading \<Rightarrow> bool" where
  "is_rule_part r = (case r of Read gs \<Rightarrow> gs \<noteq> [] | _ \<Rightarrow> False)"

text \<open>\<open>None\<close> when the \<^verbatim>\<open>SyntaxError\<close> of a part escapes.\<close>

definition splitBillingExprAndRequestRules :: "string \<Rightarrow> (string \<times> string) option" where
  "splitBillingExprAndRequestRules expr =
     (let trimmed = trim expr; parts = splitTopLevelMultiply trimmed in
      if trimmed = [] then Some ([], [])
      else if length parts \<le> 1 then Some (trimmed, [])
      else if list_ex (\<lambda>p. tryParseRequestRuleExpr p = Throws) parts then None
      else let ruleParts = filter (\<lambda>p. is_rule_part (tryParseRequestRuleExpr p)) parts;
               baseParts = filter (\<lambda>p. \<not> is_rule_part (tryParseRequestRuleExpr p)) parts
           in if ruleParts = [] \<or> length baseParts \<noteq> 1 then Some (trimmed, [])
              else Some (unwrapOuterParens (hd baseParts), join '' * '' ruleParts))"

definition combineBillingExpr :: "string \<Rightarrow> string \<Rightarrow> string" where
  "combineBillingExpr baseExpr requestRuleExpr =
     (let base = trim baseExpr; rules = trim requestRuleExpr in
      if base = [] then [] else if rules = [] then base else ''('' @ base @ '') * '' @ rules)"

section \<open>Editing conditions\<close>

definition createEmptyCondition :: ParamHeaderCondition where
  "createEmptyCondition = \<lparr>ph_source = ParamSource, ph_path = [], ph_mode = MATCH_EQ, ph_value = []\<rparr>"

definition createEmptyTimeCondition :: TimeCondition where
  "createEmptyTimeCondition = \<lparr>tc_timeFunc = ''hour'', tc_timezone = ''Asia/Shanghai'', tc_mode = MATCH_GTE, tc_value = [],
     tc_rangeStart = [], tc_rangeEnd = []\<rparr>"

definition createEmptyRuleGroup :: RequestRuleGroup where
  "createEmptyRuleGroup = \<lparr>g_conditions = [ParamHeaderCond createEmptyCondition], g_multiplier = []\<rparr>"

definition createEmptyTimeRuleGroup :: RequestRuleGroup where
  "createEmptyTimeRuleGroup = \<lparr>g_conditions = [TimeCond createEmptyTimeCondition], g_multiplier = []\<rparr>"

definition getRequestRuleMatchOptions :: "string \<Rightarrow> (string \<times> string) list" where
  "getRequestRuleMatchOptions source =
     (if source = ''time'' then
        [(MATCH_EQ, ''Equals''), (MATCH_GTE, ''Greater than or equal''), (MATCH_LT, ''Less than''),
         (MATCH_RANGE, ''Overnight range'')]
      else
        (let base = [(MATCH_EQ, ''Equals''), (MATCH_CONTAINS, ''Contains''), (MATCH_EXISTS, ''Exists'')] in
         if source = ''header'' then base
         else base @ [(MATCH_GT, ''Greater than''), (MATCH_GTE, ''Greater than or equal''), (MATCH_LT, ''Less than''),
                      (MATCH_LTE, ''Less than or equal'')]))"

definition isTimeFunc :: "js_value \<Rightarrow> bool" where
  "isTimeFunc v = (case v of JString s \<Rightarrow> s \<in> set TIME_FUNCS | _ \<Rightarrow> False)"

text \<open>\<^verbatim>\<open>v == null ? '' : String(v)\<close>, \<^verbatim>\<open>v || d\<close> for a text, and the mode if it is an option.  Time zones and paths have the type
  of texts in the source; \<open>or_default\<close> follows it on texts and missing members only.\<close>

definition text_or_empty :: "js_value \<Rightarrow> string" where
  "text_or_empty v = (if v = JUndefined \<or> v = JNull then [] else to_text v)"

definition or_default :: "js_value \<Rightarrow> string \<Rightarrow> string" where
  "or_default v d = (if truthy v then string_of v else d)"

definition mode_or :: "js_value \<Rightarrow> string \<Rightarrow> string \<Rightarrow> string" where
  "mode_or mode source d =
     (case mode of JString m \<Rightarrow> if m \<in> fst ` set (getRequestRuleMatchOptions source) then m else d | _ \<Rightarrow> d)"

definition normalizeCondition :: "js_value \<Rightarrow> RequestCondition" where
  "normalizeCondition cond =
     (if js_get cond ''source'' = JString ''time'' then
        TimeCond
          \<lparr>tc_timeFunc = (if isTimeFunc (js_get cond ''timeFunc'') then string_of (js_get cond ''timeFunc'') else ''hour''),
           tc_timezone = or_default (js_get cond ''timezone'') ''Asia/Shanghai'',
           tc_mode = mode_or (js_get cond ''mode'') ''time'' MATCH_GTE,
           tc_value = text_or_empty (js_get cond ''value''),
           tc_rangeStart = text_or_empty (js_get cond ''rangeStart''),
           tc_rangeEnd = text_or_empty (js_get cond ''rangeEnd'')\<rparr>
      else
        (let header = (js_get cond ''source'' = JString ''header'') in
         ParamHeaderCond
           \<lparr>ph_source = (if header then HeaderSource else ParamSource),
            ph_path = or_default (js_get cond ''path'') [],
            ph_mode = mode_or (js_get cond ''mode'') (if header then ''header'' else ''param'') MATCH_EQ,
            ph_value = text_or_empty (js_get cond ''value'')\<rparr>))"

text \<open>The object a condition is in the source.\<close>

fun condition_object :: "RequestCondition \<Rightarrow> js_value" where
  "condition_object (TimeCond c) =
     JObject [(''source'', JString ''time''), (''timeFunc'', JString (tc_timeFunc c)), (''timezone'', JString (tc_timezone c)),
       (''mode'', JString (tc_mode c)), (''value'', JString (tc_value c)), (''rangeStart'', JString (tc_rangeStart c)),
       (''rangeEnd'', JString (tc_rangeEnd c))]"
| "condition_object (ParamHeaderCond c) =
     JObject [(''source'', JString (case ph_source c of HeaderSource \<Rightarrow> ''header'' | ParamSource \<Rightarrow> ''param'')),
       (''path'', JString (ph_path c)), (''mode'', JString (ph_mode c)), (''value'', JString (ph_value c))]"

section \<open>Writing request rules\<close>

definition buildExprLiteral :: "string \<Rightarrow> string \<Rightarrow> string" where
  "buildExprLiteral mode v =
     (let t = trim v in
      if mode = MATCH_CONTAINS then json_string t
      else if t = ''true'' \<or> t = ''false'' then t
      else if NUMERIC_LITERAL_REGEX t then t
      else json_string t)"

definition buildTimeConditionExpr :: "TimeCondition \<Rightarrow> string" where
  "buildTimeConditionExpr n =
     (let fn = tc_timeFunc n @ ''('' @ json_string (tc_timezone n) @ '')'' in
      if tc_mode n = MATCH_RANGE then
        (let s = trim (tc_rangeStart n); e = trim (tc_rangeEnd n) in
         if \<not> NUMERIC_LITERAL_REGEX s \<or> \<not> NUMERIC_LITERAL_REGEX e then []
         else fn @ '' >= '' @ s @ '' || '' @ fn @ '' < '' @ e)
      else
        (let v = trim (tc_value n) in
         if \<not> NUMERIC_LITERAL_REGEX v then []
         else fn @ (if tc_mode n = MATCH_GTE then '' >= '' else if tc_mode n = MATCH_LT then '' < '' else '' == '') @ v))"

definition buildParamHeaderExpr :: "ParamHeaderCondition \<Rightarrow> string" where
  "buildParamHeaderExpr n =
     (let path = trim (ph_path n);
          src = (case ph_source n of HeaderSource \<Rightarrow> ''header('' | ParamSource \<Rightarrow> ''param('') @ json_string path @ '')'';
          header = (ph_source n = HeaderSource)
      in if path = [] then []
         else if ph_mode n = MATCH_EXISTS then (if header then src @ '' != '' @ [quote_char, quote_char] else src @ '' != nil'')
         else if ph_mode n = MATCH_CONTAINS then
           (let has = ''has('' @ src @ '', '' @ buildExprLiteral (ph_mode n) (ph_value n) @ '')'' in
            if header then has else src @ '' != nil && '' @ has)
         else if ph_mode n \<in> {MATCH_GT, MATCH_GTE, MATCH_LT, MATCH_LTE} then
           (let op = (if ph_mode n = MATCH_GT then '' > '' else if ph_mode n = MATCH_GTE then '' >= ''
                      else if ph_mode n = MATCH_LT then '' < '' else '' <= '');
                numText = trim (ph_value n)
            in if \<not> NUMERIC_LITERAL_REGEX numText then [] else src @ '' != nil && '' @ src @ op @ numText)
         else src @ '' == '' @ buildExprLiteral (ph_mode n) (ph_value n))"

definition buildRequestConditionExpr :: "RequestCondition \<Rightarrow> string" where
  "buildRequestConditionExpr cond =
     (case normalizeCondition (condition_object cond) of
        TimeCond n \<Rightarrow> buildTimeConditionExpr n
      | ParamHeaderCond n \<Rightarrow> buildParamHeaderExpr n)"

definition buildRuleGroupFactor :: "RequestRuleGroup \<Rightarrow> string" where
  "buildRuleGroupFactor g =
     (let multiplier = trim (g_multiplier g);
          condExprs = filter (\<lambda>e. e \<noteq> []) (map buildRequestConditionExpr (g_conditions g));
          combined = (if length condExprs = 1 then hd condExprs
             else join '' && '' (map (\<lambda>e. if str_includes '' || '' e then ''('' @ e @ '')'' else e) condExprs))
      in if \<not> NUMERIC_LITERAL_REGEX multiplier then []
         else if condExprs = [] then []
         else ''('' @ combined @ '' ? '' @ multiplier @ '' : 1)'')"

definition buildRequestRuleExpr :: "RequestRuleGroup list \<Rightarrow> string" where
  "buildRequestRuleExpr groups = join '' * '' (filter (\<lambda>e. e \<noteq> []) (map buildRuleGroupFactor groups))"

end
