(* ===== verification/Request_Rules.thy ===== *)
theory Request_Rules
  imports Interfaces Billing_Expr
begin

text \<open>
  Request rules are read back as they were written (\<^verbatim>\<open>buildRequestRuleExpr\<close> and
  \<^verbatim>\<open>tryParseRequestRuleExpr\<close>), except for the conditions on request parameters that the writer guards with
  \<^verbatim>\<open>!= nil &&\<close>: the reader splits them at the guard.
\<close>

section \<open>Plain texts\<close>

definition plain_char :: "char \<Rightarrow> bool" where
  "plain_char c \<longleftrightarrow> \<not> js_space c \<and> c \<notin> {quote_char, backslash, CHR ''('', CHR '')'', CHR ''|''} \<and> 32 \<le> (of_char c :: nat)"

abbreviation plain :: "string \<Rightarrow> bool" where
  "plain s \<equiv> list_all plain_char s"

lemma plain_charD:
  assumes "plain_char c"
  shows "\<not> js_space c" "c \<noteq> quote_char" "c \<noteq> backslash" "c \<noteq> CHR ''(''" "c \<noteq> CHR '')''" "c \<noteq> CHR ''|''"
    and "32 \<le> (of_char c :: nat)"
  using assms by (simp_all add: plain_char_def)

lemma plain_char_controls:
  assumes "plain_char c"
  shows "c \<noteq> CHR 0x08" "c \<noteq> CHR 0x0C" "c \<noteq> CHR 0x0A" "c \<noteq> CHR 0x0D" "c \<noteq> CHR 0x09" "c \<noteq> CHR 0x20"
proof -
  have "x \<noteq> c" if "(of_char x :: nat) < 32" for x using that plain_charD(7) [OF assms] by auto
  then show "c \<noteq> CHR 0x08" "c \<noteq> CHR 0x0C" "c \<noteq> CHR 0x0A" "c \<noteq> CHR 0x0D" "c \<noteq> CHR 0x09"
    by (simp_all add: eq_commute [of c])
  show "c \<noteq> CHR 0x20" using plain_charD(1) [OF assms] by (auto simp: js_space_def)
qed

lemma plain_char_text:
  assumes "plain_char c"
  shows "\<not> line_end c" "json_char c = [c]"
  using plain_char_controls [OF assms] plain_charD [OF assms]
  by (simp_all add: line_end_def json_char_def Let_def)

lemma json_string_plain: "plain s \<Longrightarrow> json_string s = quote_char # s @ [quote_char]"
  by (simp add: json_string_def) (induction s; simp add: plain_char_text)

lemma is_digit_plain: "is_digit c \<Longrightarrow> plain_char c"
  by (auto simp: is_digit_def plain_char_def js_space_def)

lemma num_char_plain: "num_char c \<Longrightarrow> plain_char c"
  by (auto simp: num_char_def is_digit_plain) (auto simp: plain_char_def js_space_def)

lemma trim_plain: "plain s \<Longrightarrow> trim s = s"
  using plain_charD(1) hd_in_set last_in_set by (intro trim_id) (auto simp: list_all_iff)

lemma digit_num: "is_digit c \<Longrightarrow> num_char c"
  by (simp add: num_char_def)

lemma takeWhile_num: "list_all num_char (takeWhile is_digit s)"
  by (induction s) (auto simp: digit_num)

lemma exponent_num: "numeric_exponent s \<Longrightarrow> list_all num_char s"
  by (auto simp: numeric_exponent_def Let_def num_char_def list_all_iff split: list.splits if_splits)

lemma split_digits: "list_all num_char (dropWhile is_digit s) \<Longrightarrow> list_all num_char s"
  using takeWhile_num [of s] by (metis list_all_append takeWhile_dropWhile_id)

definition unsigned_literal :: "string \<Rightarrow> bool" where
  "unsigned_literal u \<longleftrightarrow>
     (let ip = takeWhile is_digit u; r = dropWhile is_digit u
      in if ip \<noteq> [] then
           numeric_exponent (case r of c # t \<Rightarrow> if c = CHR ''.'' then dropWhile is_digit t else r | [] \<Rightarrow> r)
         else (case r of
                 c # t \<Rightarrow> c = CHR ''.'' \<and> takeWhile is_digit t \<noteq> [] \<and> numeric_exponent (dropWhile is_digit t)
               | [] \<Rightarrow> False))"

lemma NUMERIC_unsigned:
  "NUMERIC_LITERAL_REGEX s \<longleftrightarrow> unsigned_literal (case s of c # t \<Rightarrow> if c = CHR ''-'' then t else s | [] \<Rightarrow> s)"
  by (simp add: NUMERIC_LITERAL_REGEX_def unsigned_literal_def Let_def)

lemma num_char_signs [simp]: "num_char (CHR ''.'')" "num_char (CHR ''-'')"
  by (simp_all add: num_char_def)

lemma unsigned_literal_chars:
  assumes "unsigned_literal u"
  shows "u \<noteq> [] \<and> list_all num_char u"
proof -
  have "list_all num_char (dropWhile is_digit u)"
  proof (cases "dropWhile is_digit u")
    case (Cons c t)
    then show ?thesis
      using assms
      by (cases "c = CHR ''.''")
        (auto simp: unsigned_literal_def Let_def split: if_splits dest!: exponent_num intro: split_digits)
  next
    case Nil
    then show ?thesis by (simp only: list.pred_inject)
  qed
  moreover have "u \<noteq> []" using assms by (auto simp: unsigned_literal_def)
  ultimately show ?thesis using split_digits by blast
qed

lemma NUMERIC_chars: "NUMERIC_LITERAL_REGEX s \<Longrightarrow> s \<noteq> [] \<and> list_all num_char s"
  by (cases s) (auto simp: NUMERIC_unsigned dest: unsigned_literal_chars split: if_splits)

lemma NUMERIC_plain: "NUMERIC_LITERAL_REGEX s \<Longrightarrow> plain s"
  using NUMERIC_chars num_char_plain by (auto simp: list_all_iff)

section \<open>The matchers on what was written\<close>

lemma run1_number: "NUMERIC_LITERAL_REGEX v \<Longrightarrow> r = [] \<or> \<not> num_char (hd r) \<Longrightarrow> run1 num_char (v @ r) = Some (v, r)"
  using NUMERIC_chars by (simp add: run1_append)

lemma run1_number_end: "NUMERIC_LITERAL_REGEX v \<Longrightarrow> run1 num_char v = Some (v, [])"
  using run1_number [of v "[]"] by simp

lemma plain_no_quote: "plain s \<Longrightarrow> list_all (\<lambda>c. c \<noteq> quote_char) s"
  by (auto simp: list_all_iff plain_char_def)

lemma call_arg_plain:
  "plain p \<Longrightarrow> p \<noteq> [] \<Longrightarrow> call_arg (CHR ''('' # quote_char # p @ quote_char # CHR '')'' # r) = Some (p, r)"
  using run1_append [of p "\<lambda>c. c \<noteq> quote_char" "quote_char # CHR '')'' # r"] plain_no_quote [of p]
  by (simp add: call_arg_def)

lemma literal_rest_plain: "plain s \<Longrightarrow> literal_rest (s @ quote_char # r) = Some (s @ [quote_char], r)"
  by (induction s) (simp_all add: plain_charD)

lemma string_literal_plain:
  "plain s \<Longrightarrow> string_literal (quote_char # s @ quote_char # r) = Some (quote_char # s @ [quote_char], r)"
  by (simp add: string_literal_def literal_rest_plain)

lemma json_parse_plain: "plain s \<Longrightarrow> json_parse (quote_char # s @ [quote_char]) = Some (JString s)"
  using json_round_trip [of "JString s"] by (simp add: json_string_plain)

section \<open>Conditions that are read back\<close>

text \<open>A condition as the editor holds it, with plain texts; the guarded conditions on request parameters are
  left out.\<close>

fun condition_ok :: "RequestCondition \<Rightarrow> bool" where
  "condition_ok (TimeCond c) \<longleftrightarrow>
     tc_timeFunc c \<in> set TIME_FUNCS \<and> tc_timezone c \<noteq> [] \<and> plain (tc_timezone c) \<and>
     (if tc_mode c = MATCH_RANGE
      then tc_value c = [] \<and> NUMERIC_LITERAL_REGEX (tc_rangeStart c) \<and> NUMERIC_LITERAL_REGEX (tc_rangeEnd c)
      else tc_mode c \<in> {MATCH_EQ, MATCH_GTE, MATCH_LT} \<and> NUMERIC_LITERAL_REGEX (tc_value c) \<and>
           tc_rangeStart c = [] \<and> tc_rangeEnd c = [])"
| "condition_ok (ParamHeaderCond c) \<longleftrightarrow>
     ph_path c \<noteq> [] \<and> plain (ph_path c) \<and> plain (ph_value c) \<and>
     (ph_mode c = MATCH_EXISTS \<and> ph_value c = [] \<or> ph_mode c = MATCH_CONTAINS \<and> ph_source c = HeaderSource \<or>
      ph_mode c = MATCH_EQ)"

lemma normalize_ok: "condition_ok c \<Longrightarrow> normalizeCondition (condition_object c) = c"
proof (cases c)
  case (TimeCond t)
  assume "condition_ok c"
  with TimeCond show ?thesis
    by (cases t)
      (auto simp: normalizeCondition_def isTimeFunc_def or_default_def mode_or_def text_or_empty_def
        getRequestRuleMatchOptions_def match_defs split: if_splits)
next
  case (ParamHeaderCond h)
  assume "condition_ok c"
  with ParamHeaderCond show ?thesis
    by (cases h; cases "ph_source h")
      (auto simp: normalizeCondition_def or_default_def mode_or_def text_or_empty_def getRequestRuleMatchOptions_def
        match_defs split: if_splits)
qed

definition call_text :: "string \<Rightarrow> string \<Rightarrow> string" where
  "call_text f a = f @ CHR ''('' # quote_char # a @ [quote_char, CHR '')'']"

definition time_text :: "TimeCondition \<Rightarrow> string" where
  "time_text c =
     (let fn = call_text (tc_timeFunc c) (tc_timezone c) in
      if tc_mode c = MATCH_RANGE then fn @ '' >= '' @ tc_rangeStart c @ '' || '' @ fn @ '' < '' @ tc_rangeEnd c
      else fn @ (if tc_mode c = MATCH_GTE then '' >= '' else if tc_mode c = MATCH_LT then '' < '' else '' == '') @ tc_value c)"

definition value_text :: "string \<Rightarrow> string" where
  "value_text v = (if v = ''true'' \<or> v = ''false'' \<or> NUMERIC_LITERAL_REGEX v then v else quote_char # v @ [quote_char])"

definition ph_text :: "ParamHeaderCondition \<Rightarrow> string" where
  "ph_text c =
     (let src = call_text (case ph_source c of HeaderSource \<Rightarrow> ''header'' | ParamSource \<Rightarrow> ''param'') (ph_path c) in
      if ph_mode c = MATCH_EXISTS
      then src @ (if ph_source c = HeaderSource then '' != '' @ [quote_char, quote_char] else '' != nil'')
      else if ph_mode c = MATCH_CONTAINS
      then ''has('' @ src @ '', '' @ quote_char # ph_value c @ [quote_char, CHR '')'']
      else src @ '' == '' @ value_text (ph_value c))"

fun condition_text :: "RequestCondition \<Rightarrow> string" where
  "condition_text (TimeCond c) = time_text c"
| "condition_text (ParamHeaderCond c) = ph_text c"

lemma build_condition: "condition_ok c \<Longrightarrow> buildRequestConditionExpr c = condition_text c"
proof (cases c)
  case (TimeCond t)
  assume "condition_ok c"
  with TimeCond normalize_ok [of c] show ?thesis
    by (auto simp: buildRequestConditionExpr_def buildTimeConditionExpr_def time_text_def call_text_def Let_def
        trim_plain NUMERIC_plain json_string_plain split: if_splits)
next
  case (ParamHeaderCond h)
  assume "condition_ok c"
  with ParamHeaderCond normalize_ok [of c] show ?thesis
    by (cases "ph_source h")
      (auto simp: buildRequestConditionExpr_def buildParamHeaderExpr_def buildExprLiteral_def ph_text_def call_text_def
        value_text_def Let_def trim_plain NUMERIC_plain json_string_plain match_defs split: if_splits)
qed

lemma alt_time: "f \<in> set TIME_FUNCS \<Longrightarrow> alt TIME_FUNCS (f @ r) = Some (f, r)"
  by (auto simp: TIME_FUNCS_def)

lemma time_not_paren: "f \<in> set TIME_FUNCS \<Longrightarrow> lit ''('' (f @ r) = None"
  by (auto simp: TIME_FUNCS_def)

lemma read_time_range:
  assumes "condition_ok (TimeCond c)" "tc_mode c = MATCH_RANGE" "r = [] \<or> \<not> num_char (hd r)"
  shows "time_range (time_text c @ r) = Some (TimeCond c, r)"
  using assms
  by (cases c) (simp add: time_range_def time_text_def call_text_def Let_def alt_time call_arg_plain run1_number)

lemma read_time:
  assumes "condition_ok (TimeCond c)"
  shows "tryParseTimeCondition (time_text c) = Some (TimeCond c)"
proof (cases "tc_mode c = MATCH_RANGE")
  case True
  then show ?thesis
    using read_time_range [OF assms True, of "[]"] by (simp add: tryParseTimeCondition_def whole_def)
next
  case False
  let ?s = "time_text c"
  have "time_range ?s = None"
    using assms False
    by (auto simp: time_range_def time_text_def call_text_def Let_def alt_time call_arg_plain run1_number_end match_defs)
  moreover have "lit ''('' ?s = None"
    using assms False by (simp add: time_text_def call_text_def Let_def time_not_paren)
  moreover have "time_compare ?s = Some (TimeCond c, [])"
    using assms False
    by (cases c)
      (auto simp: time_compare_def time_text_def call_text_def Let_def alt_time call_arg_plain run1_number_end match_defs)
  ultimately show ?thesis by (simp add: tryParseTimeCondition_def whole_def)
qed

lemma read_time_paren:
  assumes "condition_ok (TimeCond c)" "tc_mode c = MATCH_RANGE"
  shows "tryParseTimeCondition (''('' @ time_text c @ '')'') = Some (TimeCond c)"
  using read_time_range [OF assms, of "'')''"]
  by (simp add: tryParseTimeCondition_def whole_def time_range_def [of "CHR ''('' # _"] TIME_FUNCS_def)

lemma value_text_line: "plain v \<Longrightarrow> value_text v \<noteq> [] \<and> list_all (\<lambda>c. \<not> line_end c) (value_text v)"
proof -
  assume "plain v"
  then have "list_all (\<lambda>c. \<not> line_end c) v" by (auto simp: list_all_iff plain_char_text)
  moreover have "\<not> line_end quote_char" by (simp add: line_end_def)
  ultimately show ?thesis using NUMERIC_chars [of v] by (auto simp: value_text_def)
qed

lemma quote_not_numeric: "\<not> NUMERIC_LITERAL_REGEX (quote_char # s)"
  using NUMERIC_chars [of "quote_char # s"] by auto

lemma trim_value_text: "plain v \<Longrightarrow> trim (value_text v) = value_text v"
  by (auto simp: value_text_def trim_plain intro!: trim_id) (simp_all add: js_space_def)

lemma read_value:
  assumes "plain v"
  shows "parseExprLiteral (value_text v) = Some (JString v)"
  using trim_value_text [OF assms] json_parse_plain [OF assms]
  by (auto simp: parseExprLiteral_def Let_def value_text_def quote_not_numeric)

lemma not_time:
  "tryParseTimeCondition (CHR ''h'' # CHR ''e'' # r) = None" "tryParseTimeCondition (CHR ''h'' # CHR ''a'' # r) = None"
  "tryParseTimeCondition (CHR ''p'' # r) = None"
  by (simp_all add: tryParseTimeCondition_def whole_def time_range_def time_compare_def TIME_FUNCS_def)

lemmas reading_defs = tryParseRequestCondition_def match_header_exists_def match_param_exists_def match_header_has_def
  match_param_has_def match_param_compare_def contains_reading_def read_equals_def match_equals_def whole_def
  Let_def call_arg_plain ph_def

lemma read_exists:
  assumes "plain path" "path \<noteq> []"
  shows "tryParseRequestCondition (call_text ''header'' path @ '' != '' @ [quote_char, quote_char]) =
      Read (ph HeaderSource path MATCH_EXISTS [])"
    and "tryParseRequestCondition (call_text ''param'' path @ '' != nil'') = Read (ph ParamSource path MATCH_EXISTS [])"
  using assms by (simp_all add: reading_defs call_text_def not_time)

lemma read_contains:
  assumes "plain path" "path \<noteq> []" "plain v"
  shows "tryParseRequestCondition (''has('' @ call_text ''header'' path @ '', '' @ quote_char # v @ [quote_char, CHR '')'']) =
      Read (ph HeaderSource path MATCH_CONTAINS v)"
  using assms string_literal_plain [of v "'')''"] by (simp add: reading_defs call_text_def not_time json_parse_plain)

lemma read_equal:
  assumes "plain path" "path \<noteq> []" "plain v"
  shows "tryParseRequestCondition (call_text ''header'' path @ '' == '' @ value_text v) = Read (ph HeaderSource path MATCH_EQ v)"
    and "tryParseRequestCondition (call_text ''param'' path @ '' == '' @ value_text v) = Read (ph ParamSource path MATCH_EQ v)"
  using assms value_text_line [of v] by (simp_all add: reading_defs call_text_def not_time read_value)

lemma read_param_header:
  assumes "condition_ok (ParamHeaderCond c)"
  shows "tryParseRequestCondition (ph_text c) = Read (ParamHeaderCond c)"
  using assms read_exists [of "ph_path c"] read_contains [of "ph_path c" "ph_value c"]
    read_equal [of "ph_path c" "ph_value c"]
  by (cases c; cases "ph_source c") (auto simp: ph_text_def Let_def ph_def match_defs)

lemma read_condition: "condition_ok c \<Longrightarrow> tryParseRequestCondition (condition_text c) = Read c"
  by (cases c)
    (simp_all add: read_param_header tryParseRequestCondition_def [of "time_text _"] read_time del: condition_ok.simps)

section \<open>Splitting at the top level\<close>

text \<open>No separator (a blank followed by \<open>k\<close>) starts at depth zero inside the text.\<close>

fun solid :: "char \<Rightarrow> int \<Rightarrow> string \<Rightarrow> bool" where
  "solid k d [] = True"
| "solid k d (c # s) =
     (let d' = paren_depth c d in (d' = 0 \<and> c = CHR '' '' \<longrightarrow> s \<noteq> [] \<and> hd s \<noteq> k) \<and> solid k d' s)"

fun depth_after :: "int \<Rightarrow> string \<Rightarrow> int" where
  "depth_after d [] = d"
| "depth_after d (c # s) = depth_after (paren_depth c d) s"

lemma depth_after_append [simp]: "depth_after d (a @ b) = depth_after (depth_after d a) b"
  by (induction a arbitrary: d) simp_all

lemma split_top_solid:
  "solid k d s \<Longrightarrow> split_top (CHR '' '' # k # sep) d cur (s @ t) =
     split_top (CHR '' '' # k # sep) (depth_after d s) (cur @ s) t"
proof (induction s arbitrary: d cur)
  case (Cons c s)
  have "\<not> (paren_depth c d = 0 \<and> starts_with (CHR '' '' # k # sep) (c # s @ t))"
    using Cons.prems by (cases s) (auto simp: Let_def)
  then have "split_top (CHR '' '' # k # sep) d cur ((c # s) @ t) =
      split_top (CHR '' '' # k # sep) (paren_depth c d) (cur @ [c]) (s @ t)"
    by (simp only: append_Cons split_top.simps Let_def if_False)
  with Cons show ?case by (simp add: Let_def)
qed simp

lemma split_top_join:
  assumes "list_all (\<lambda>e. solid k 0 e \<and> depth_after 0 e = 0 \<and> trim e = e) es" "es \<noteq> []"
  shows "split_top (CHR '' '' # k # sep) 0 [] (join (CHR '' '' # k # sep) es) = es"
  using assms
proof (induction es)
  case (Cons e es)
  let ?sep = "CHR '' '' # k # sep"
  have e: "split_top ?sep 0 [] (e @ t) = split_top ?sep 0 e t" for t
    using split_top_solid [of k 0 e sep "[]" t] Cons.prems by simp
  show ?case
  proof (cases es)
    case Nil
    with e [of "[]"] Cons.prems show ?thesis by simp
  next
    case (Cons e' es')
    with Cons.IH Cons.prems e show ?thesis
      by (simp add: paren_depth_def Let_def)
  qed
qed simp

lemma paren_depth_plain [simp]: "plain_char c \<Longrightarrow> paren_depth c d = d"
  by (simp add: paren_depth_def plain_charD)

lemma solid_plain [simp]: "plain p \<Longrightarrow> solid k d (p @ r) = solid k d r"
  by (induction p) (simp_all add: plain_char_controls)

lemma solid_plain_end [simp]: "plain p \<Longrightarrow> solid k d p"
  using solid_plain [of p k d "[]"] by simp

lemma depth_plain [simp]: "plain p \<Longrightarrow> depth_after d p = d"
  by (induction p arbitrary: d) simp_all

lemma time_func_plain: "f \<in> set TIME_FUNCS \<Longrightarrow> plain f"
  by (auto simp: TIME_FUNCS_def plain_char_def js_space_def)

lemma value_text_solid: "plain v \<Longrightarrow> solid k d (value_text v @ r) = solid k d r \<and> depth_after d (value_text v) = d"
  by (auto simp: value_text_def paren_depth_def Let_def plain_char_def [of "CHR ''a''"])

definition separator :: "char \<Rightarrow> bool" where
  "separator k \<longleftrightarrow> k = CHR ''&'' \<or> k = CHR ''*''"

lemma NUMERIC_hd: "NUMERIC_LITERAL_REGEX v \<Longrightarrow> separator k \<Longrightarrow> v \<noteq> [] \<and> hd v \<noteq> k"
  using NUMERIC_chars [of v] by (cases v) (auto simp: separator_def num_char_def is_digit_def)

lemma value_text_hd: "separator k \<Longrightarrow> value_text v \<noteq> [] \<and> hd (value_text v) \<noteq> k"
  using NUMERIC_hd [of v k] by (auto simp: value_text_def separator_def)

lemma time_func_hd: "f \<in> set TIME_FUNCS \<Longrightarrow> separator k \<Longrightarrow> f \<noteq> [] \<and> hd f \<noteq> k"
  by (auto simp: TIME_FUNCS_def separator_def)

lemma paren_depth_chars [simp]:
  "paren_depth (CHR ''('') d = d + 1" "paren_depth (CHR '')'') d = d - 1" "paren_depth quote_char d = d"
  "paren_depth (CHR '' '') d = d" "paren_depth (CHR ''='') d = d" "paren_depth (CHR ''>'') d = d"
  "paren_depth (CHR ''<'') d = d" "paren_depth (CHR ''!'') d = d" "paren_depth (CHR ''|'') d = d"
  "paren_depth (CHR ''?'') d = d" "paren_depth (CHR '':'') d = d" "paren_depth (CHR ''1'') d = d"
  "paren_depth (CHR '','') d = d" "paren_depth (CHR ''n'') d = d" "paren_depth (CHR ''i'') d = d"
  "paren_depth (CHR ''l'') d = d" "paren_depth (CHR ''h'') d = d" "paren_depth (CHR ''a'') d = d"
  "paren_depth (CHR ''s'') d = d" "paren_depth (CHR ''&'') d = d"
  by (simp_all add: paren_depth_def)

lemma plain_names [simp]: "plain ''header''" "plain ''param''" "plain ''has''" "plain ''nil''"
  by (simp_all add: plain_char_def js_space_def)

lemma call_text_solid:
  assumes "plain f" "plain a"
  shows "solid k d (call_text f a @ r) = solid k d r" "depth_after d (call_text f a) = d"
  using assms by (simp_all add: call_text_def Let_def)

lemma time_solid:
  assumes "condition_ok (TimeCond c)" "separator k"
  shows "solid k d (time_text c @ r) = solid k d r" "depth_after d (time_text c) = d"
proof -
  have f: "plain (tc_timeFunc c)" "plain (tc_timezone c)" "tc_timeFunc c \<noteq> []" "hd (tc_timeFunc c) \<noteq> k"
    using assms time_func_plain time_func_hd by auto
  have call: "call_text (tc_timeFunc c) (tc_timezone c) \<noteq> []" "hd (call_text (tc_timeFunc c) (tc_timezone c)) \<noteq> k"
    using f by (simp_all add: call_text_def)
  show "solid k d (time_text c @ r) = solid k d r"
    using assms f call NUMERIC_hd
    by (auto simp: time_text_def Let_def call_text_solid NUMERIC_plain separator_def)
  show "depth_after d (time_text c) = d"
    using assms f by (auto simp: time_text_def Let_def call_text_solid NUMERIC_plain)
qed

lemma ph_solid:
  assumes "condition_ok (ParamHeaderCond c)" "separator k" "0 \<le> d"
  shows "solid k d (ph_text c @ r) = solid k d r" "depth_after d (ph_text c) = d"
proof -
  have v: "value_text (ph_value c) \<noteq> []" "hd (value_text (ph_value c)) \<noteq> k"
    using value_text_hd [OF assms(2)] by auto
  obtain "plain (ph_path c)" "plain (ph_value c)" using assms(1) by auto
  note facts = this v assms(2,3) call_text_solid [OF plain_names(1)] call_text_solid [OF plain_names(2)] value_text_solid
  show "solid k d (ph_text c @ r) = solid k d r"
    using facts by (cases "ph_source c") (auto simp: ph_text_def Let_def separator_def)
  show "depth_after d (ph_text c) = d"
    using facts by (cases "ph_source c") (auto simp: ph_text_def Let_def)
qed

section \<open>Rules that are read back\<close>

text \<open>A piece of a rule that a reader takes whole, wherever it stands.\<close>

definition piece :: "string \<Rightarrow> bool" where
  "piece e \<longleftrightarrow> e \<noteq> [] \<and> \<not> js_space (hd e) \<and> \<not> js_space (last e) \<and>
     (\<forall>k d r. separator k \<longrightarrow> 0 \<le> d \<longrightarrow> solid k d (e @ r) = solid k d r \<and> depth_after d e = d)"

lemma piece_facts:
  assumes "piece e"
  shows "e \<noteq> []" "trim e = e" "separator k \<Longrightarrow> 0 \<le> d \<Longrightarrow> solid k d (e @ r) = solid k d r"
    "separator k \<Longrightarrow> 0 \<le> d \<Longrightarrow> solid k d e" "0 \<le> d \<Longrightarrow> depth_after d e = d"
proof -
  show "e \<noteq> []" "trim e = e" "separator k \<Longrightarrow> 0 \<le> d \<Longrightarrow> solid k d (e @ r) = solid k d r"
    using assms by (auto simp: piece_def intro: trim_id)
  show "separator k \<Longrightarrow> 0 \<le> d \<Longrightarrow> solid k d e"
    using assms unfolding piece_def by (metis append_Nil2 solid.simps(1))
  have "separator (CHR ''*'')" by (simp add: separator_def)
  then show "0 \<le> d \<Longrightarrow> depth_after d e = d" using assms unfolding piece_def by blast
qed

lemma plain_ends: "plain s \<Longrightarrow> s \<noteq> [] \<Longrightarrow> \<not> js_space (hd s) \<and> \<not> js_space (last s)"
  by (simp add: list_all_iff plain_charD)

lemma value_text_ends: "plain v \<Longrightarrow> \<not> js_space (last (value_text v))"
  using plain_ends [of v] NUMERIC_chars [of v] by (auto simp: value_text_def) (simp_all add: js_space_def)

lemma js_space_chars [simp]:
  "\<not> js_space quote_char" "\<not> js_space (CHR '')'')" "\<not> js_space (CHR ''('')" "\<not> js_space (CHR ''l'')"
  "\<not> js_space (CHR ''h'')" "\<not> js_space (CHR ''p'')"
  by (simp_all add: js_space_def)

lemma time_ends:
  assumes "condition_ok (TimeCond c)"
  shows "time_text c \<noteq> []" "\<not> js_space (hd (time_text c))" "\<not> js_space (last (time_text c))"
proof -
  have f: "tc_timeFunc c \<noteq> []" "\<not> js_space (hd (tc_timeFunc c))"
    using assms time_func_plain [of "tc_timeFunc c"] plain_ends [of "tc_timeFunc c"] by (auto simp: TIME_FUNCS_def)
  then show "time_text c \<noteq> []" "\<not> js_space (hd (time_text c))"
    by (simp_all add: time_text_def call_text_def Let_def)
  have num: "v \<noteq> [] \<and> \<not> js_space (last v)" if "NUMERIC_LITERAL_REGEX v" for v
    using that NUMERIC_chars [of v] NUMERIC_plain [of v] plain_ends [of v] by simp
  show "\<not> js_space (last (time_text c))"
    using assms num by (auto simp: time_text_def Let_def)
qed

lemma ph_ends:
  assumes "condition_ok (ParamHeaderCond c)"
  shows "ph_text c \<noteq> []" "\<not> js_space (hd (ph_text c))" "\<not> js_space (last (ph_text c))"
proof -
  show "ph_text c \<noteq> []" "\<not> js_space (hd (ph_text c))"
    by (cases "ph_source c"; simp add: ph_text_def call_text_def Let_def)+
  have "value_text (ph_value c) \<noteq> []" using value_text_line assms by auto
  then show "\<not> js_space (last (ph_text c))"
    using assms value_text_ends by (auto simp: ph_text_def Let_def)
qed

lemma condition_piece: "condition_ok c \<Longrightarrow> piece (condition_text c)"
  by (cases c) (auto simp: piece_def time_solid time_ends ph_solid ph_ends simp del: condition_ok.simps)

lemma paren_piece: "piece e \<Longrightarrow> piece (''('' @ e @ '')'')"
proof -
  assume e: "piece e"
  have "solid k d (''('' @ e @ '')'' @ r) = solid k d r \<and> depth_after d (''('' @ e @ '')'') = d"
    if "separator k" "0 \<le> d" for k d r
    using that piece_facts(3) [OF e, of k "d + 1" "CHR '')'' # r"] piece_facts(5) [OF e, of "d + 1"]
    by (simp add: Let_def)
  then show ?thesis by (simp add: piece_def)
qed

definition is_range :: "RequestCondition \<Rightarrow> bool" where
  "is_range c = (case c of TimeCond t \<Rightarrow> tc_mode t = MATCH_RANGE | ParamHeaderCond h \<Rightarrow> False)"


lemma plain_no_bar: "plain s \<Longrightarrow> CHR ''|'' \<notin> set s"
  by (auto simp: list_all_iff plain_char_def)

lemma bar_only_in_range:
  assumes "condition_ok c"
  shows "str_includes '' || '' (condition_text c) \<longleftrightarrow> is_range c"
proof
  assume "is_range c"
  then obtain t where t: "c = TimeCond t" "tc_mode t = MATCH_RANGE"
    by (auto simp: is_range_def split: RequestCondition.splits)
  then have "condition_text c = (call_text (tc_timeFunc t) (tc_timezone t) @ '' >= '' @ tc_rangeStart t) @ '' || '' @
      call_text (tc_timeFunc t) (tc_timezone t) @ '' < '' @ tc_rangeEnd t"
    by (simp add: time_text_def Let_def)
  then show "str_includes '' || '' (condition_text c)" unfolding str_includes_iff by blast
next
  assume inc: "str_includes '' || '' (condition_text c)"
  show "is_range c"
  proof (rule ccontr)
    assume no: "\<not> is_range c"
    have "CHR ''|'' \<notin> set (condition_text c)"
    proof (cases c)
      case (TimeCond t)
      then show ?thesis
        using assms no time_func_plain
        by (auto simp: is_range_def time_text_def call_text_def Let_def plain_no_bar NUMERIC_plain split: if_splits)
    next
      case (ParamHeaderCond h)
      then show ?thesis
        using assms plain_no_bar
        by (cases "ph_source h") (auto simp: ph_text_def call_text_def value_text_def Let_def split: if_splits)
    qed
    then show False using inc by (auto simp: str_includes_iff)
  qed
qed

lemma read_paren_range:
  "condition_ok c \<Longrightarrow> is_range c \<Longrightarrow> tryParseRequestCondition (''('' @ condition_text c @ '')'') = Read c"
  using read_time_paren
  by (cases c) (simp_all add: is_range_def tryParseRequestCondition_def del: condition_ok.simps)

lemma read_all_map: "list_all (\<lambda>x. f (g x) = Read x) xs \<Longrightarrow> read_all f (map g xs) = Read xs"
  by (induction xs) simp_all

lemma join_piece:
  assumes "list_all piece es" "es \<noteq> []" "k = CHR ''*''" "0 < d"
  shows "solid k d (join '' && '' es @ r) = solid k d r \<and> depth_after d (join '' && '' es) = d"
  using assms(1,2)
proof (induction es)
  case (Cons e es)
  have "separator k" using assms by (simp add: separator_def)
  with Cons.prems assms(4) have e: "solid k d (e @ t) = solid k d t" "depth_after d e = d" for t
    using piece_facts by auto
  show ?case
  proof (cases es)
    case Nil
    with e show ?thesis by simp
  next
    case (Cons e' es')
    with Cons.IH Cons.prems e assms(4) show ?thesis by (simp add: Let_def)
  qed
qed simp

lemma split_and: "list_all piece es \<Longrightarrow> es \<noteq> [] \<Longrightarrow> splitTopLevelAnd (join '' && '' es) = es"
proof -
  assume es: "list_all piece es" "es \<noteq> []"
  have "separator (CHR ''&'')" by (simp add: separator_def)
  with es(1) have "list_all (\<lambda>e. solid (CHR ''&'') 0 e \<and> depth_after 0 e = 0 \<and> trim e = e) es" "list_all (\<lambda>e. e \<noteq> []) es"
    using piece_facts by (auto simp: list_all_iff)
  with split_top_join [of "CHR ''&''" es "''& ''"] es(2) show ?thesis
    by (simp add: splitTopLevelAnd_def list_all_iff)
qed

definition factor_text :: "string list \<Rightarrow> string \<Rightarrow> string" where
  "factor_text es m = ''('' @ join '' && '' es @ '' ? '' @ m @ '' : 1)''"

lemma join_nonempty: "list_all piece es \<Longrightarrow> es \<noteq> [] \<Longrightarrow> join '' && '' es \<noteq> []"
  by (cases es rule: list.exhaust; cases "tl es") (auto simp: piece_def)

lemma match_factor_text:
  assumes "join '' && '' es \<noteq> []" "NUMERIC_LITERAL_REGEX m"
  shows "match_factor (factor_text es m) = Some (join '' && '' es, m)"
proof -
  have m: "rev m \<noteq> []" "list_all num_char (rev m)" using NUMERIC_chars [OF assms(2)] by (simp_all add: list_all_iff)
  have "run1 num_char (rev m @ CHR '' '' # t) = Some (rev m, CHR '' '' # t)" for t
    by (rule run1_append [OF m]) simp
  with assms(1) show ?thesis by (simp add: match_factor_def factor_text_def)
qed

lemma factor_piece:
  assumes "list_all piece es" "es \<noteq> []" "NUMERIC_LITERAL_REGEX m"
  shows "solid (CHR ''*'') 0 (factor_text es m) \<and> depth_after 0 (factor_text es m) = 0 \<and>
    trim (factor_text es m) = factor_text es m \<and> factor_text es m \<noteq> []"
proof -
  have "trim (factor_text es m) = factor_text es m"
    by (rule trim_id) (simp add: factor_text_def)
  moreover have "solid (CHR ''*'') 0 (factor_text es m)"
    using join_piece [OF assms(1,2) refl, of 1] NUMERIC_plain [OF assms(3)]
    by (simp add: factor_text_def Let_def)
  moreover have "depth_after 0 (factor_text es m) = 0"
    using join_piece [OF assms(1,2) refl, of 1] NUMERIC_plain [OF assms(3)] by (simp add: factor_text_def)
  ultimately show ?thesis by (simp add: factor_text_def)
qed

text \<open>A rule as the editor holds it.\<close>

definition rule_ok :: "RequestRuleGroup \<Rightarrow> bool" where
  "rule_ok g \<longleftrightarrow> g_conditions g \<noteq> [] \<and> list_all condition_ok (g_conditions g) \<and> NUMERIC_LITERAL_REGEX (g_multiplier g)"

definition joined_text :: "RequestCondition \<Rightarrow> string" where
  "joined_text c = (if is_range c then ''('' @ condition_text c @ '')'' else condition_text c)"

definition condition_pieces :: "RequestCondition list \<Rightarrow> string list" where
  "condition_pieces cs = (if length cs = 1 then map condition_text cs else map joined_text cs)"

lemma pieces_ok: "list_all condition_ok cs \<Longrightarrow> list_all piece (condition_pieces cs)"
  by (auto simp: condition_pieces_def joined_text_def list_all_iff intro: condition_piece paren_piece [simplified])

lemma read_trimmed:
  assumes "condition_ok c"
  shows "tryParseRequestCondition (trim (condition_text c)) = Read c" "tryParseRequestCondition (trim (joined_text c)) = Read c"
  using assms piece_facts(2) [OF condition_piece] piece_facts(2) [OF paren_piece, OF condition_piece] read_condition
    read_paren_range
  by (simp_all add: joined_text_def)

lemma pieces_read:
  "list_all condition_ok cs \<Longrightarrow>
     read_all (\<lambda>ap. tryParseRequestCondition (trim ap)) (condition_pieces cs) = Read cs"
  using read_trimmed by (auto simp: condition_pieces_def list_all_iff intro!: read_all_map)

lemma build_rule:
  assumes "rule_ok g"
  shows "buildRuleGroupFactor g = factor_text (condition_pieces (g_conditions g)) (g_multiplier g)"
proof -
  let ?cs = "g_conditions g"
  have built: "map buildRequestConditionExpr ?cs = map condition_text ?cs"
    using assms build_condition by (auto simp: rule_ok_def list_all_iff)
  have ne: "filter (\<lambda>e. e \<noteq> []) (map condition_text ?cs) = map condition_text ?cs"
    using assms condition_piece piece_facts(1) by (auto simp: rule_ok_def list_all_iff intro!: filter_True)
  have joined: "map (\<lambda>e. if str_includes '' || '' e then ''('' @ e @ '')'' else e) (map condition_text ?cs) =
      map joined_text ?cs"
    using assms bar_only_in_range by (auto simp: rule_ok_def list_all_iff joined_text_def)
  have m: "trim (g_multiplier g) = g_multiplier g" "NUMERIC_LITERAL_REGEX (g_multiplier g)" "?cs \<noteq> []"
    using assms by (simp_all add: rule_ok_def trim_plain NUMERIC_plain)
  have es: "filter (\<lambda>e. e \<noteq> []) (map buildRequestConditionExpr ?cs) = map condition_text ?cs"
    by (simp only: built ne)
  show ?thesis
  proof (cases "length ?cs = 1")
    case True
    then obtain c where "?cs = [c]" by (auto simp: length_Suc_conv)
    with m es show ?thesis
      by (simp only: buildRuleGroupFactor_def Let_def es condition_pieces_def factor_text_def) simp
  next
    case False
    with m show ?thesis
      unfolding buildRuleGroupFactor_def Let_def es joined condition_pieces_def factor_text_def by simp
  qed
qed

lemma read_rule: "rule_ok g \<Longrightarrow> tryParseRuleGroupFactor (buildRuleGroupFactor g) = Read g"
proof -
  assume g: "rule_ok g"
  then have p: "list_all piece (condition_pieces (g_conditions g))" "condition_pieces (g_conditions g) \<noteq> []"
    using pieces_ok by (auto simp: rule_ok_def condition_pieces_def)
  with g match_factor_text [OF join_nonempty [OF p]] split_and [OF p] pieces_read show ?thesis
    by (simp add: build_rule tryParseRuleGroupFactor_def rule_ok_def)
qed

lemma split_rules:
  assumes "list_all rule_ok groups" "groups \<noteq> []"
  shows "splitTopLevelMultiply (join '' * '' (map buildRuleGroupFactor groups)) = map buildRuleGroupFactor groups"
proof -
  have f: "solid (CHR ''*'') 0 (buildRuleGroupFactor g) \<and> depth_after 0 (buildRuleGroupFactor g) = 0 \<and>
      trim (buildRuleGroupFactor g) = buildRuleGroupFactor g \<and> buildRuleGroupFactor g \<noteq> []" if "rule_ok g" for g
    using that factor_piece [of "condition_pieces (g_conditions g)" "g_multiplier g"] pieces_ok
    by (simp add: build_rule) (auto simp: rule_ok_def condition_pieces_def)
  with assms have "list_all (\<lambda>e. solid (CHR ''*'') 0 e \<and> depth_after 0 e = 0 \<and> trim e = e) (map buildRuleGroupFactor groups)"
    "filter (\<lambda>e. e \<noteq> []) (map buildRuleGroupFactor groups) = map buildRuleGroupFactor groups"
    by (auto simp: list_all_iff intro!: filter_True)
  with split_top_join [of "CHR ''*''" "map buildRuleGroupFactor groups" "'' ''"] assms(2) show ?thesis
    by (simp add: splitTopLevelMultiply_def)
qed

lemma written_rules:
  assumes "list_all rule_ok groups"
  shows "buildRequestRuleExpr groups = join '' * '' (map buildRuleGroupFactor groups)"
proof -
  have "buildRuleGroupFactor g \<noteq> []" if "rule_ok g" for g using that by (simp add: build_rule factor_text_def)
  with assms have "filter (\<lambda>e. e \<noteq> []) (map buildRuleGroupFactor groups) = map buildRuleGroupFactor groups"
    by (auto simp: list_all_iff intro!: filter_True)
  then show ?thesis by (simp only: buildRequestRuleExpr_def)
qed

lemma join_ends:
  "list_all (\<lambda>e. e \<noteq> [] \<and> \<not> js_space (hd e) \<and> \<not> js_space (last e)) es \<Longrightarrow> es \<noteq> [] \<Longrightarrow>
     join sep es \<noteq> [] \<and> \<not> js_space (hd (join sep es)) \<and> \<not> js_space (last (join sep es))"
proof (induction es)
  case (Cons e es)
  then show ?case by (cases es) auto
qed simp

lemma rules_trimmed: "list_all rule_ok groups \<Longrightarrow> trim (buildRequestRuleExpr groups) = buildRequestRuleExpr groups"
proof (cases "groups = []")
  case False
  assume ok: "list_all rule_ok groups"
  then have "list_all (\<lambda>e. e \<noteq> [] \<and> \<not> js_space (hd e) \<and> \<not> js_space (last e)) (map buildRuleGroupFactor groups)"
    by (auto simp: list_all_iff build_rule factor_text_def)
  from join_ends [OF this, of "'' * ''"] False ok show ?thesis
    by (intro trim_id) (simp add: written_rules)
qed (simp add: buildRequestRuleExpr_def)

lemma rules_nonempty: "list_all rule_ok groups \<Longrightarrow> groups \<noteq> [] \<Longrightarrow> buildRequestRuleExpr groups \<noteq> []"
  by (cases groups rule: list.exhaust; cases "tl groups") (auto simp: written_rules build_rule factor_text_def)

lemma rules_read:
  assumes "list_all rule_ok groups"
  shows "tryParseRequestRuleExpr (buildRequestRuleExpr groups) = Read groups"
proof (cases "groups = []")
  case True
  then show ?thesis by (simp add: buildRequestRuleExpr_def tryParseRequestRuleExpr_def)
next
  case False
  have "read_all tryParseRuleGroupFactor (map buildRuleGroupFactor groups) = Read groups"
    using assms read_rule by (intro read_all_map) (auto simp: list_all_iff)
  with False assms rules_trimmed rules_nonempty split_rules written_rules show ?thesis
    by (simp add: tryParseRequestRuleExpr_def)
qed

text \<open>C22: Rules are read back exactly as they were written if each has at least one condition and a numeric
  multiplier, and each condition is (a) a time condition with a known time function, a non-empty time zone and either
  a comparison =, >= or < with a numeric value or an overnight range with numeric ends, unused texts being empty, or
  (b) a header or parameter condition with a non-empty path that tests presence with an empty value, equality, or, for
  headers only, containment.  Time zones, paths and values have no white space, control characters, quotes,
  backslashes, parentheses or bars.\<close>

theorem request_rules_round_trip:
  assumes "list_all rule_ok groups"
  shows "tryParseRequestRuleExpr (buildRequestRuleExpr groups) = Read groups"
  using assms by (rule rules_read)

definition night_discount :: RequestRuleGroup where
  "night_discount = \<lparr>g_conditions = [TimeCond \<lparr>tc_timeFunc = ''hour'', tc_timezone = ''UTC'', tc_mode = MATCH_RANGE,
     tc_value = [], tc_rangeStart = ''22'', tc_rangeEnd = ''6''\<rparr>,
     ph HeaderSource ''x-tier'' MATCH_CONTAINS ''beta'', ph ParamSource ''stream'' MATCH_EQ ''true''], g_multiplier = ''0.5''\<rparr>"

lemma night_discount_ok: "rule_ok night_discount"
  by (simp add: rule_ok_def night_discount_def ph_def match_defs TIME_FUNCS_def plain_char_def js_space_def
      NUMERIC_LITERAL_REGEX_def numeric_exponent_def is_digit_def)

theorem request_rules_round_trip_witness:
  "rule_ok night_discount \<and> tryParseRequestRuleExpr (buildRequestRuleExpr [night_discount]) = Read [night_discount]"
  using request_rules_round_trip [of "[night_discount]"] night_discount_ok by simp

section \<open>Guarded conditions are not read back\<close>















lemma single_factor:
  assumes "list_all piece es" "es \<noteq> []" "NUMERIC_LITERAL_REGEX m"
  shows "tryParseRequestRuleExpr (factor_text es m) =
    (case tryParseRuleGroupFactor (factor_text es m) of Read g \<Rightarrow> Read [g] | NoMatch \<Rightarrow> NoMatch | Throws \<Rightarrow> Throws)"
  using factor_piece [OF assms] split_top_join [of "CHR ''*''" "[factor_text es m]" "'' ''"]
  by (simp add: tryParseRequestRuleExpr_def splitTopLevelMultiply_def split: reading.splits)



section \<open>Base expression and rules\<close>

fun nested :: "int \<Rightarrow> string \<Rightarrow> bool" where
  "nested d [] = (d = 0)"
| "nested d (c # s) = (0 \<le> paren_depth c d \<and> nested (paren_depth c d) s)"

lemma paren_depth_Suc: "paren_depth c (d + 1) = paren_depth c d + 1"
  by (simp add: paren_depth_def)

lemma nested_inside:
  "nested d b \<Longrightarrow> solid k (d + 1) (b @ r) = solid k 1 r \<and> depth_after (d + 1) b = 1 \<and>
     outer_parens (d + 1) (b @ [CHR '')''])"
proof (induction b arbitrary: d)
  case (Cons c b)
  then have "paren_depth c d + 1 \<noteq> 0" by simp
  with Cons show ?case by (simp add: Let_def paren_depth_Suc)
qed (simp add: Let_def)

text \<open>An expression that can stand as the base: balanced, trimmed, not wrapped in parentheses as a whole and
  not ending like a rule.\<close>

definition base_ok :: "string \<Rightarrow> bool" where
  "base_ok b \<longleftrightarrow> b \<noteq> [] \<and> trim b = b \<and> nested 0 b \<and> \<not> hasFullOuterParens b \<and> \<not> ends_with '' : 1'' b"

lemma base_factor:
  assumes "base_ok b"
  shows "tryParseRequestRuleExpr (''('' @ b @ '')'') = NoMatch"
    and "solid (CHR ''*'') 0 (''('' @ b @ '')'')" "depth_after 0 (''('' @ b @ '')'') = 0"
    and "trim (''('' @ b @ '')'') = ''('' @ b @ '')''" "unwrapOuterParens (''('' @ b @ '')'') = b"
proof -
  have n: "nested 0 b" using assms by (simp add: base_ok_def)
  show s: "solid (CHR ''*'') 0 (''('' @ b @ '')'')" "depth_after 0 (''('' @ b @ '')'') = 0"
    using nested_inside [OF n, of "CHR ''*''" "'')''"] by (simp_all add: Let_def)
  show t: "trim (''('' @ b @ '')'') = ''('' @ b @ '')''" by (rule trim_id) simp
  have "\<not> starts_with (rev '' : 1)'') (rev (''('' @ b @ '')''))"
  proof
    assume "starts_with (rev '' : 1)'') (rev (''('' @ b @ '')''))"
    then obtain u where "rev b @ ''('' = rev '' : 1'' @ u" by (auto simp: starts_with_iff)
    then have "''('' @ b = rev u @ '' : 1''" by (metis rev_append rev_rev_ident rev_singleton_conv)
    then obtain w where "b = w @ '' : 1''" by (cases "rev u") auto
    then show False using assms by (simp add: base_ok_def ends_with_def)
  qed
  then have "match_factor (''('' @ b @ '')'') = None" by (simp add: match_factor_def lit_def)
  then show "tryParseRequestRuleExpr (''('' @ b @ '')'') = NoMatch"
    using s t split_top_join [of "CHR ''*''" "[''('' @ b @ '')'']" "'' ''"]
    by (simp add: tryParseRequestRuleExpr_def splitTopLevelMultiply_def tryParseRuleGroupFactor_def)
  have "hasFullOuterParens (''('' @ b @ '')'')"
    using nested_inside [OF n] by (simp add: hasFullOuterParens_def ends_with_def Let_def)
  with t assms show "unwrapOuterParens (''('' @ b @ '')'') = b"
    by (simp add: unwrapOuterParens_def base_ok_def unwrap_loop.simps [of "CHR ''('' # _"] unwrap_loop.simps [of b])
qed

lemma rule_part:
  "rule_ok g \<Longrightarrow> tryParseRequestRuleExpr (buildRuleGroupFactor g) = Read [g]"
proof -
  assume g: "rule_ok g"
  then have "list_all piece (condition_pieces (g_conditions g))" "condition_pieces (g_conditions g) \<noteq> []"
    using pieces_ok by (auto simp: rule_ok_def condition_pieces_def)
  from single_factor [OF this, of "g_multiplier g"] g read_rule [OF g] show ?thesis
    by (simp add: build_rule rule_ok_def)
qed

lemma split_combined:
  assumes "base_ok b" "list_all rule_ok groups" "groups \<noteq> []"
  shows "splitBillingExprAndRequestRules (combineBillingExpr b (buildRequestRuleExpr groups)) =
    Some (b, buildRequestRuleExpr groups)"
proof -
  let ?fs = "map buildRuleGroupFactor groups" and ?b = "''('' @ b @ '')''"
  have combined: "combineBillingExpr b (buildRequestRuleExpr groups) = join '' * '' (?b # ?fs)"
    using assms rules_trimmed [OF assms(2)] rules_nonempty [OF assms(2,3)] written_rules [OF assms(2)]
    by (cases groups) (simp_all add: combineBillingExpr_def base_ok_def)
  have f: "solid (CHR ''*'') 0 f \<and> depth_after 0 f = 0 \<and> trim f = f \<and> f \<noteq> []" if "f \<in> set ?fs" for f
    using that assms(2) factor_piece pieces_ok
    by (auto simp: list_all_iff build_rule) (auto simp: rule_ok_def condition_pieces_def list_all_iff)
  have ends: "trim (join '' * '' (?b # ?fs)) = join '' * '' (?b # ?fs)"
  proof -
    have "list_all (\<lambda>e. e \<noteq> [] \<and> \<not> js_space (hd e) \<and> \<not> js_space (last e)) (?b # ?fs)"
      using assms(2) by (auto simp: list_all_iff build_rule factor_text_def)
    from join_ends [OF this] show ?thesis by (intro trim_id) simp
  qed
  have parts: "splitTopLevelMultiply (join '' * '' (?b # ?fs)) = ?b # ?fs"
  proof -
    have "list_all (\<lambda>e. solid (CHR ''*'') 0 e \<and> depth_after 0 e = 0 \<and> trim e = e) (?b # ?fs)"
      using f base_factor [OF assms(1)] by (simp add: list_all_iff)
    from split_top_join [OF this, of "'' ''"]
    have "split_top '' * '' 0 [] (join '' * '' (?b # ?fs)) = ?b # ?fs" by simp
    then show ?thesis using f by (simp add: splitTopLevelMultiply_def filter_id_conv)
  qed
  have rules: "tryParseRequestRuleExpr f \<noteq> Throws \<and> is_rule_part (tryParseRequestRuleExpr f)" if "f \<in> set ?fs" for f
    using that assms(2) rule_part by (auto simp: list_all_iff is_rule_part_def)
  have base: "tryParseRequestRuleExpr ?b = NoMatch" by (rule base_factor [OF assms(1)])
  have "filter (\<lambda>p. is_rule_part (tryParseRequestRuleExpr p)) (?b # ?fs) = ?fs"
    "filter (\<lambda>p. \<not> is_rule_part (tryParseRequestRuleExpr p)) (?b # ?fs) = [?b]"
    "\<not> list_ex (\<lambda>p. tryParseRequestRuleExpr p = Throws) (?b # ?fs)"
    using rules base by (auto simp: is_rule_part_def list_ex_iff filter_empty_conv intro!: filter_True)
  moreover have "join '' * '' (?b # ?fs) \<noteq> []" using assms(3) by (cases groups) simp_all
  ultimately show ?thesis
    using assms(3) base_factor(5) [OF assms(1)] written_rules [OF assms(2)]
    unfolding splitBillingExprAndRequestRules_def combined ends parts Let_def by simp
qed

text \<open>A base expression combined with rules is split again into exactly the base and the rules.\<close>

lemma combined_expression_splits:
  assumes "base_ok b" "list_all rule_ok groups" "groups \<noteq> []"
  shows "splitBillingExprAndRequestRules (combineBillingExpr b (buildRequestRuleExpr groups)) =
    Some (b, buildRequestRuleExpr groups)"
  using assms by (rule split_combined)

lemma combined_expression_splits_witness:
  "let b = ''tier(0, p * 2 + c * 8)''; rules = buildRequestRuleExpr [night_discount] in
   base_ok b \<and> splitBillingExprAndRequestRules (combineBillingExpr b rules) = Some (b, rules)"
proof -
  have "base_ok ''tier(0, p * 2 + c * 8)''"
    by (simp add: base_ok_def hasFullOuterParens_def ends_with_def paren_depth_def trim_def trim_start_def trim_end_def
        js_space_def)
  then show ?thesis
    using combined_expression_splits [of "''tier(0, p * 2 + c * 8)''" "[night_discount]"] night_discount_ok
    by (simp add: Let_def)
qed

section \<open>Normalised conditions\<close>

lemma mode_or_option:
  "d \<in> fst ` set (getRequestRuleMatchOptions src) \<Longrightarrow> mode_or v src d \<in> fst ` set (getRequestRuleMatchOptions src)"
  by (simp add: mode_or_def split: js_value.split)

lemma mode_or_kept: "m \<in> fst ` set (getRequestRuleMatchOptions src) \<Longrightarrow> mode_or (JString m) src d = m"
  by (simp add: mode_or_def)

text \<open>What the types of the source ask of a condition.\<close>

fun condition_typed :: "RequestCondition \<Rightarrow> bool" where
  "condition_typed (TimeCond c) \<longleftrightarrow>
     tc_timeFunc c \<in> set TIME_FUNCS \<and> tc_mode c \<in> fst ` set (getRequestRuleMatchOptions ''time'')"
| "condition_typed (ParamHeaderCond c) \<longleftrightarrow>
     ph_mode c \<in> fst ` set (getRequestRuleMatchOptions (case ph_source c of HeaderSource \<Rightarrow> ''header'' | ParamSource \<Rightarrow> ''param''))"

lemma default_modes:
  "MATCH_GTE \<in> fst ` set (getRequestRuleMatchOptions ''time'')"
  "MATCH_EQ \<in> fst ` set (getRequestRuleMatchOptions ''header'')"
  "MATCH_EQ \<in> fst ` set (getRequestRuleMatchOptions ''param'')"
  by (simp_all add: getRequestRuleMatchOptions_def)

lemma normalize_typed: "condition_typed (normalizeCondition v)"
  using default_modes by (auto simp: normalizeCondition_def Let_def mode_or_option isTimeFunc_def TIME_FUNCS_def
      split: js_value.splits)

lemma typed_fixed:
  "condition_typed c \<Longrightarrow> (case c of TimeCond t \<Rightarrow> tc_timezone t \<noteq> [] | ParamHeaderCond h \<Rightarrow> True) \<Longrightarrow>
     normalizeCondition (condition_object c) = c"
  by (cases c) (auto simp: normalizeCondition_def Let_def mode_or_kept isTimeFunc_def or_default_def text_or_empty_def
      split: rule_source.splits)

text \<open>The editor's normalisation of a condition that is already one.\<close>

definition renormalise :: "RequestCondition \<Rightarrow> RequestCondition" where
  "renormalise c = normalizeCondition (condition_object c)"

lemma renormalise_fixed: "renormalise (renormalise c) = renormalise c"
proof -
  have "case renormalise c of TimeCond t \<Rightarrow> tc_timezone t \<noteq> [] | ParamHeaderCond h \<Rightarrow> True"
    by (cases c) (simp_all add: renormalise_def normalizeCondition_def or_default_def Let_def split: rule_source.splits)
  then show ?thesis
    using typed_fixed [of "renormalise c"] normalize_typed [of "condition_object c"] by (simp add: renormalise_def)
qed

interpretation conditions: normaliser renormalise
  by unfold_locales (rule renormalise_fixed)

text \<open>Normalising gives a known time function and a mode that the editor offers for the source, and normalising a
  condition any number of times is normalising it once.\<close>

lemma normalized_condition_typed:
  "condition_typed (normalizeCondition v) \<and> (renormalise ^^ Suc n) c = renormalise c"
  by (rule conjI [OF normalize_typed conditions.iterate])

end
