(* ===== verification/Tier_Expr.thy ===== *)
theory Tier_Expr
  imports Billing_Expr
begin

text \<open>
  The visual editor of tiered prices (\<^verbatim>\<open>web/src/features/pricing/lib/tier-expr.ts\<close>): its configuration, the
  expression it writes, and the reader that accepts an expression back.  A tier is the object of the source, a
  list of fields.  The estimator \<^verbatim>\<open>evalExprLocally\<close> runs the text as a program of the language and is left out.
  The main result ties the editor to \<^verbatim>\<open>parseTiersFromExpr\<close>, which the pricing pages use: they show exactly
  the tiers that were entered.
\<close>

section \<open>Configuration\<close>

definition CACHE_MODE_TIMED :: string where "CACHE_MODE_TIMED = ''timed''"
definition CACHE_MODE_GENERIC :: string where "CACHE_MODE_GENERIC = ''generic''"

type_synonym VisualTier = "(string \<times> js_value) list"
type_synonym VisualConfig = "VisualTier list"

abbreviation field_of :: "VisualTier \<Rightarrow> string \<Rightarrow> js_value" where
  "field_of tier k \<equiv> js_get (JObject tier) k"

definition getTierCacheMode :: "VisualTier \<Rightarrow> string" where
  "getTierCacheMode tier =
     (if field_of tier ''cache_mode'' = JString CACHE_MODE_TIMED then CACHE_MODE_TIMED
      else if field_of tier ''cache_mode'' = JString CACHE_MODE_GENERIC then CACHE_MODE_GENERIC
      else if num_pos (to_number (field_of tier ''cache_create_1h_unit_cost'')) then CACHE_MODE_TIMED
      else CACHE_MODE_GENERIC)"

text \<open>\<^verbatim>\<open>Number(v) || 0\<close>, and \<^verbatim>\<open>{...a, ...b}\<close>.\<close>

definition number_or_zero :: "js_value \<Rightarrow> js_number" where
  "number_or_zero v = (case to_number v of NaN \<Rightarrow> Fin 0 | n \<Rightarrow> n)"

definition spread :: "VisualTier \<Rightarrow> VisualTier \<Rightarrow> VisualTier" where
  "spread a b = fold (\<lambda>(k, v). AList.update k v) b a"

definition EXTRA_COST_FIELDS :: "string list" where
  "EXTRA_COST_FIELDS = [''cache_read_unit_cost'', ''cache_create_unit_cost'', ''cache_create_1h_unit_cost'',
     ''image_unit_cost'', ''image_output_unit_cost'', ''audio_input_unit_cost'', ''audio_output_unit_cost'']"

definition normalizeVisualTier :: "VisualTier \<Rightarrow> VisualTier" where
  "normalizeVisualTier tier =
     spread (spread
       [(''label'', if field_of tier ''label'' = JUndefined \<or> field_of tier ''label'' = JNull then JString []
                    else field_of tier ''label''),
        (''input_unit_cost'', JNumber (number_or_zero (field_of tier ''input_unit_cost''))),
        (''output_unit_cost'', JNumber (number_or_zero (field_of tier ''output_unit_cost''))),
        (''cache_mode'', JString (getTierCacheMode tier)),
        (''conditions'', case field_of tier ''conditions'' of JArray cs \<Rightarrow> JArray cs | _ \<Rightarrow> JArray [])]
       tier)
       (map (\<lambda>f. (f, JNumber (number_or_zero (field_of tier f)))) EXTRA_COST_FIELDS)"

definition createDefaultVisualConfig :: VisualConfig where
  "createDefaultVisualConfig =
     [normalizeVisualTier
        [(''conditions'', JArray []), (''input_unit_cost'', JNumber (Fin 0)), (''output_unit_cost'', JNumber (Fin 0)),
         (''label'', JString ''base''), (''cache_mode'', JString CACHE_MODE_GENERIC)]]"

definition normalizeVisualConfig :: "VisualConfig option \<Rightarrow> VisualConfig" where
  "normalizeVisualConfig config =
     (case config of
        None \<Rightarrow> createDefaultVisualConfig
      | Some tiers \<Rightarrow> if tiers = [] then createDefaultVisualConfig else map normalizeVisualTier tiers)"

section \<open>Writing\<close>

definition conditions_of :: "VisualTier \<Rightarrow> js_value list" where
  "conditions_of tier = (case field_of tier ''conditions'' of JArray cs \<Rightarrow> cs | _ \<Rightarrow> [])"

definition buildConditionStr :: "js_value list \<Rightarrow> string" where
  "buildConditionStr conditions =
     join '' && '' (map (\<lambda>c. to_text (js_get c ''var'') @ '' '' @ to_text (js_get c ''op'') @ '' '' @ to_text (js_get c ''value''))
       (filter (\<lambda>c. truthy (js_get c ''var'') \<and> truthy (js_get c ''op'') \<and>
          js_get c ''value'' \<notin> {JUndefined, JNull, JString []}) conditions))"

definition price_part :: "string \<Rightarrow> js_number \<Rightarrow> string" where
  "price_part key v = key @ '' * '' @ number_text v"

definition buildTierBodyExpr :: "VisualTier \<Rightarrow> string" where
  "buildTierBodyExpr tier =
     join '' + ''
       (price_part ''p'' (number_or_zero (field_of tier ''input_unit_cost'')) #
        price_part ''c'' (number_or_zero (field_of tier ''output_unit_cost'')) #
        List.map_filter (\<lambda>(f, exprVar). let v = number_or_zero (field_of tier f) in
          if v \<noteq> Fin 0 then Some (price_part exprVar v) else None) BILLING_CACHE_VAR_MAP)"

definition tier_expr :: "string \<Rightarrow> VisualTier \<Rightarrow> string" where
  "tier_expr default_label tier =
     (let label = (if truthy (field_of tier ''label'') then to_text (field_of tier ''label'') else default_label) in
      ''tier('' @ [quote_char] @ label @ [quote_char] @ '', '' @ buildTierBodyExpr tier @ '')'')"

fun tier_exprs :: "nat \<Rightarrow> VisualTier list \<Rightarrow> string list" where
  "tier_exprs i [] = []"
| "tier_exprs i (tier # tiers) =
     (let body = tier_expr (''tier_'' @ nat_digits (i + 1)) tier; cond = buildConditionStr (conditions_of tier) in
      (if tiers \<noteq> [] \<and> cond \<noteq> [] then cond @ '' ? '' @ body else body) # tier_exprs (i + 1) tiers)"

definition generateExprFromVisualConfig :: "VisualConfig option \<Rightarrow> string" where
  "generateExprFromVisualConfig config =
     (case config of
        None \<Rightarrow> ''p * 0 + c * 0''
      | Some [] \<Rightarrow> ''p * 0 + c * 0''
      | Some [tier] \<Rightarrow>
          (let body = tier_expr ''default'' tier; cond = buildConditionStr (conditions_of tier) in
           if cond \<noteq> [] then cond @ '' ? '' @ body @ '' : p * 0 + c * 0'' else body)
      | Some tiers \<Rightarrow> join '' : '' (tier_exprs 0 tiers))"

section \<open>Reading back\<close>

text \<open>Here a number can be followed by a plus sign, which its character class contains: a run of number
  characters can end early.  The matchers give all ways to match, in the order the expression tries them.\<close>

definition number_runs :: "string \<Rightarrow> (string \<times> string) list" where
  "number_runs s = map (\<lambda>n. (take n s, drop n s)) (rev [1..<Suc (length (takeWhile num_char s))])"

definition lits :: "string \<Rightarrow> string \<Rightarrow> string list" where
  "lits p s = (case lit p s of Some r \<Rightarrow> [r] | None \<Rightarrow> [])"

definition product_match :: "string \<Rightarrow> string \<Rightarrow> (string \<times> string) list" where
  "product_match key s = do {
     s1 \<leftarrow> lits key s;
     s2 \<leftarrow> lits ''*'' (skip_ws s1);
     number_runs (skip_ws s2) }"

definition summand_match :: "string \<Rightarrow> string \<Rightarrow> (string \<times> string) list" where
  "summand_match key s = do { s1 \<leftarrow> lits ''+'' (skip_ws s); product_match key (skip_ws s1) }"

fun optional_summands :: "string list \<Rightarrow> string \<Rightarrow> (string option list \<times> string) list" where
  "optional_summands [] s = [([], s)]"
| "optional_summands (key # keys) s =
     (do { (n, r) \<leftarrow> summand_match key s; (ns, r') \<leftarrow> optional_summands keys r; [(Some n # ns, r')] }) @
     (do { (ns, r') \<leftarrow> optional_summands keys s; [(None # ns, r')] })"

text \<open>\<^verbatim>\<open>tier\("([^"]*)",\s*bodyPat\)\<close>: the label, the two prices and the optional ones.\<close>

definition visual_match :: "string \<Rightarrow> ((string \<times> string \<times> string \<times> string option list) \<times> string) list" where
  "visual_match s = do {
     s1 \<leftarrow> lits (''tier('' @ [quote_char]) s;
     s2 \<leftarrow> lits [quote_char, CHR '',''] (dropWhile (\<lambda>c. c \<noteq> quote_char) s1);
     (ic, s3) \<leftarrow> product_match ''p'' (skip_ws s2);
     (oc, s4) \<leftarrow> summand_match ''c'' s3;
     (ns, s5) \<leftarrow> optional_summands (map snd BILLING_CACHE_VAR_MAP) s4;
     r \<leftarrow> lits '')'' s5;
     [((takeWhile (\<lambda>c. c \<noteq> quote_char) s1, ic, oc, ns), r)] }"

definition condition_value :: "TierCondition \<Rightarrow> js_value" where
  "condition_value c = JObject [(''var'', JString (tier_var c)), (''op'', JString (tier_op c)), (''value'', JNumber (tier_value c))]"

definition matched_tier ::
  "TierCondition list \<Rightarrow> string \<times> string \<times> string \<times> string option list \<Rightarrow> VisualTier" where
  "matched_tier cs = (\<lambda>(label, ic, oc, ns). normalizeVisualTier
     ([(''conditions'', JArray (map condition_value cs)), (''input_unit_cost'', JNumber (string_number ic)),
       (''output_unit_cost'', JNumber (string_number oc)), (''label'', JString label)] @
      List.map_filter (\<lambda>((f, _), n). map_option (\<lambda>t. (f, JNumber (string_number t))) n) (zip BILLING_CACHE_VAR_MAP ns)))"

definition visual_tier_match :: "string \<Rightarrow> (VisualTier \<times> string) option" where
  "visual_tier_match s =
     (case do { (cs, s1) \<leftarrow> tier_atoms s; s2 \<leftarrow> lit ''?'' (skip_ws s1);
                (case visual_match (skip_ws s2) of [] \<Rightarrow> None | (m, r) # _ \<Rightarrow> Some (matched_tier cs m, r)) } of
        Some x \<Rightarrow> Some x
      | None \<Rightarrow> (case visual_match s of [] \<Rightarrow> None | (m, r) # _ \<Rightarrow> Some (matched_tier [] m, r)))"

text \<open>The matches of the expression one after the other; each is shorter than the text before it, so the
  length of the text bounds their number.\<close>

fun visual_scan :: "nat \<Rightarrow> string \<Rightarrow> VisualTier list" where
  "visual_scan 0 s = []"
| "visual_scan (Suc n) s =
     (case visual_tier_match s of
        Some (t, r) \<Rightarrow> t # visual_scan n r
      | None \<Rightarrow> (case s of [] \<Rightarrow> [] | c # s' \<Rightarrow> visual_scan n s'))"

definition without_spaces :: "string \<Rightarrow> string" where
  "without_spaces s = filter (\<lambda>c. \<not> js_space c) s"

definition tryParseVisualConfig :: "string \<Rightarrow> VisualConfig option" where
  "tryParseVisualConfig exprStr =
     (if exprStr = [] then None
      else let body = snd (stripExprVersion exprStr) in
        case find (\<lambda>(m, r). r = []) (visual_match body) of
          Some (m, _) \<Rightarrow> Some (normalizeVisualConfig (Some [matched_tier [] m]))
        | None \<Rightarrow>
            (let tiers = visual_scan (Suc (length body)) body; cfg = normalizeVisualConfig (Some tiers) in
             if tiers = [] then None
             else if without_spaces (generateExprFromVisualConfig (Some cfg)) \<noteq> without_spaces body then None
             else Some cfg))"

definition ESTIMATOR_VARS :: "(string \<times> string) list" where
  "ESTIMATOR_VARS = [(''cr'', ''cacheReadTokens''), (''cc'', ''cacheCreateTokens''), (''cc1h'', ''cacheCreate1hTokens''),
     (''img'', ''imageTokens''), (''img_o'', ''imageOutputTokens''), (''ai'', ''audioInputTokens''),
     (''ao'', ''audioOutputTokens'')]"

text \<open>\<^verbatim>\<open>/\b(cr|cc|...)\b/.test(exprStr)\<close>.\<close>

fun uses_vars :: "char option \<Rightarrow> string \<Rightarrow> bool" where
  "uses_vars prev [] = False"
| "uses_vars prev (c # s) \<longleftrightarrow>
     \<not> (case prev of Some p \<Rightarrow> word_char p | None \<Rightarrow> False) \<and>
     list_ex (\<lambda>(v, _). case lit v (c # s) of None \<Rightarrow> False | Some [] \<Rightarrow> True | Some (d # _) \<Rightarrow> \<not> word_char d) ESTIMATOR_VARS \<or>
     uses_vars (Some c) s"

definition exprUsesExtraVars :: "string \<Rightarrow> bool" where
  "exprUsesExtraVars exprStr = uses_vars None exprStr"

section \<open>Numbers are read back\<close>

lemma parse_unsigned_decimal:
  assumes "parse_unsigned s = Some (v, [])"
  shows "decimal_number s = Fin v"
proof -
  have "s \<noteq> ''Infinity''" using unsigned_start [OF assms] by (auto simp: is_digit_def)
  with assms show ?thesis
    by (cases "dropWhile is_digit s")
      (auto simp: decimal_number_def parse_unsigned_def parse_frac_def Let_def simp del: dropWhile_eq_Nil_conv
        split: if_splits option.splits list.splits)
qed

lemma parse_exp_chars: "parse_exp s = Some (e, []) \<Longrightarrow> list_all num_char s"
  by (auto simp: parse_exp_def Let_def num_char_def list_all_iff dropWhile_eq_Nil_conv split: list.splits if_splits)

lemma takeWhile_digit_chars: "list_all num_char (takeWhile is_digit s)"
  by (induction s) (auto simp: num_char_def)

lemma digits_then: "list_all num_char (dropWhile is_digit s) \<Longrightarrow> list_all num_char s"
  using takeWhile_digit_chars [of s] by (metis list_all_append takeWhile_dropWhile_id)

lemma parse_unsigned_chars: "parse_unsigned s = Some (v, []) \<Longrightarrow> list_all num_char s"
proof (rule digits_then)
  assume p: "parse_unsigned s = Some (v, [])"
  then obtain fp r e where f: "parse_frac (dropWhile is_digit s) = Some (fp, r)" "parse_exp r = Some (e, [])"
    by (auto simp: parse_unsigned_def Let_def split: if_splits option.splits)
  obtain u where u: "u = dropWhile is_digit s" by simp
  from parse_exp_chars [OF f(2)] f(1) have "list_all num_char u"
    unfolding u [symmetric] by (cases u) (auto simp: parse_frac_def num_char_def [of "CHR ''.''"] intro: digits_then
        split: if_splits)
  then show "list_all num_char (dropWhile is_digit s)" by (simp only: u)
qed

lemma rat_text_number:
  assumes "decimal r"
  shows "string_number (rat_text r) = Fin r" "list_all num_char (rat_text r)" "rat_text r \<noteq> []"
proof -
  have p: "parse_number (rat_text r) = Some (r, [])" using parse_rat_text [OF assms, of "[]"] by simp
  obtain c s where cs: "rat_text r = c # s" using rat_text_start [OF assms] by (cases "rat_text r") auto
  show "rat_text r \<noteq> []" using cs by simp
  show chars: "list_all num_char (rat_text r)"
    using p cs by (auto simp: parse_number_def num_char_def [of "CHR ''-''"] dest: parse_unsigned_chars
        split: if_splits elim!: map_rest.elims)
  then have "list_all (\<lambda>c. \<not> js_space c) (rat_text r)"
    by (auto simp: list_all_iff num_char_def is_digit_def js_space_def)
  then have t: "trim (rat_text r) = rat_text r"
    using cs by (intro trim_id) (auto simp: list_all_iff)
  have prefix: "\<not> starts_with [CHR ''0'', x] (rat_text r)" if "\<not> num_char x" for x
    using chars that cs by (cases s) (auto simp: starts_with_def)
  have "\<not> num_char (CHR ''x'')" "\<not> num_char (CHR ''X'')" "\<not> num_char (CHR ''o'')" "\<not> num_char (CHR ''O'')"
    "\<not> num_char (CHR ''b'')" "\<not> num_char (CHR ''B'')"
    by (simp_all add: num_char_def is_digit_def)
  note no_radix = this [THEN prefix]
  show "string_number (rat_text r) = Fin r"
  proof (cases "c = CHR ''-''")
    case True
    with p cs have "parse_unsigned s = Some (- r, [])" by (auto simp: parse_number_def elim!: map_rest.elims)
    from parse_unsigned_decimal [OF this] True t no_radix cs show ?thesis by (simp add: string_number_def Let_def)
  next
    case False
    with p cs have u: "parse_unsigned (c # s) = Some (r, [])" by (simp add: parse_number_def)
    have "c \<noteq> CHR ''+''" using unsigned_start [OF u] by (auto simp: is_digit_def)
    with parse_unsigned_decimal [OF u] False t no_radix cs show ?thesis by (auto simp: string_number_def Let_def)
  qed
qed

section \<open>Tiers as they are entered\<close>

text \<open>A tier of the editor: its label, comparisons with a number, and one price per variable.\<close>

record entered_tier =
  e_label :: string
  e_conditions :: "(string \<times> string \<times> rat) list"
  e_price :: "string \<Rightarrow> rat"

definition entered_condition :: "string \<times> string \<times> rat \<Rightarrow> js_value" where
  "entered_condition = (\<lambda>(v, op, n). JObject [(''var'', JString v), (''op'', JString op), (''value'', JNumber (Fin n))])"

definition entered_object :: "entered_tier \<Rightarrow> VisualTier" where
  "entered_object t =
     (''label'', JString (e_label t)) # (''conditions'', JArray (map entered_condition (e_conditions t))) #
     map (\<lambda>v. (the (v_tierField v), JNumber (Fin (e_price t (v_key v))))) BILLING_PRICING_VARS"

definition condition_entered :: "string \<times> string \<times> rat \<Rightarrow> bool" where
  "condition_entered = (\<lambda>(v, op, n). v \<in> {''p'', ''c'', ''len''} \<and> op \<in> {''<'', ''<='', ''>'', ''>=''} \<and> decimal n \<and>
     list_all tier_num_char (rat_text n))"

definition tier_entered :: "entered_tier \<Rightarrow> bool" where
  "tier_entered t \<longleftrightarrow> e_label t \<noteq> [] \<and> quote_char \<notin> set (e_label t) \<and> list_all condition_entered (e_conditions t) \<and>
     list_all (\<lambda>v. decimal (e_price t (v_key v))) BILLING_PRICING_VARS"

text \<open>What the pricing pages show of a tier.\<close>

definition shown_condition :: "string \<times> string \<times> rat \<Rightarrow> TierCondition" where
  "shown_condition = (\<lambda>(v, op, n). \<lparr>tier_var = v, tier_op = op, tier_value = Fin n\<rparr>)"

definition shown_tier :: "(string \<times> string \<times> rat) list \<Rightarrow> entered_tier \<Rightarrow> ParsedTier" where
  "shown_tier cs t = \<lparr>pt_label = e_label t, pt_conditions = map shown_condition cs,
     pt_prices = map (\<lambda>v. (the (v_field v), e_price t (v_key v))) BILLING_PRICING_VARS\<rparr>"

lemmas registry_defs = BILLING_PRICING_VARS_def BILLING_CACHE_VAR_MAP_def BILLING_EXTRA_VARS_def BILLING_VARS_def
  BILLING_VAR_KEY_TO_FIELD_def price_var_def

subsection \<open>The body of a tier\<close>

definition extra_keys :: "string list" where
  "extra_keys = [''cr'', ''cc'', ''cc1h'', ''img'', ''img_o'', ''ai'', ''ao'']"

definition price_parts :: "entered_tier \<Rightarrow> (string \<times> rat) list" where
  "price_parts t =
     (''p'', e_price t ''p'') # (''c'', e_price t ''c'') #
     filter (\<lambda>(k, r). r \<noteq> 0) (map (\<lambda>k. (k, e_price t k)) extra_keys)"

definition part_text :: "string \<times> rat \<Rightarrow> string" where
  "part_text = (\<lambda>(k, r). k @ '' * '' @ rat_text r)"

lemma cache_map: "BILLING_CACHE_VAR_MAP = zip EXTRA_COST_FIELDS [''cr'', ''cc'', ''cc1h'', ''img'', ''img_o'', ''ai'', ''ao'']"
  by (simp add: registry_defs EXTRA_COST_FIELDS_def)

lemma entered_fields:
  "field_of (entered_object t) ''label'' = JString (e_label t)"
  "field_of (entered_object t) ''input_unit_cost'' = JNumber (Fin (e_price t ''p''))"
  "field_of (entered_object t) ''output_unit_cost'' = JNumber (Fin (e_price t ''c''))"
  "list_all (\<lambda>(f, k). field_of (entered_object t) f = JNumber (Fin (e_price t k))) BILLING_CACHE_VAR_MAP"
  by (simp_all add: entered_object_def registry_defs)

lemma extra_parts:
  "list_all (\<lambda>(f, k). field_of obj f = JNumber (Fin (e_price t k))) zs \<Longrightarrow>
   List.map_filter (\<lambda>(f, k). let v = number_or_zero (field_of obj f) in if v \<noteq> Fin 0 then Some (price_part k v) else None) zs =
   map part_text (filter (\<lambda>(k, r). r \<noteq> 0) (map (\<lambda>(f, k). (k, e_price t k)) zs))"
  by (induction zs) (auto simp: List.map_filter_simps Let_def number_or_zero_def part_text_def price_part_def)

lemma entered_body: "buildTierBodyExpr (entered_object t) = join '' + '' (map part_text (price_parts t))"
proof -
  have "map (\<lambda>(f, k). (k, e_price t k)) BILLING_CACHE_VAR_MAP =
      map (\<lambda>k. (k, e_price t k)) extra_keys"
    by (simp add: cache_map EXTRA_COST_FIELDS_def extra_keys_def)
  with extra_parts [OF entered_fields(4)] show ?thesis
    by (simp only: buildTierBodyExpr_def entered_fields price_parts_def list.map part_text_def price_part_def
        number_or_zero_def to_number.simps js_number.case number_text.simps prod.case)
qed

definition pricing_keys :: "string list" where
  "pricing_keys = map v_key BILLING_PRICING_VARS"

lemma pricing_keys: "pricing_keys = [''p'', ''c'', ''cr'', ''cc'', ''cc1h'', ''img'', ''img_o'', ''ai'', ''ao'']"
  by (simp add: pricing_keys_def registry_defs)

lemma first_some_map: "first_some (\<lambda>x. f (g x)) xs = first_some f (map g xs)"
  by (induction xs) (simp_all split: option.splits)

lemma first_some_keys: "first_some (\<lambda>v. f (v_key v)) BILLING_PRICING_VARS = first_some f pricing_keys"
  by (simp only: pricing_keys_def first_some_map)

lemma skip_ws_simps [simp]:
  "skip_ws (CHR '' '' # s) = skip_ws s" "skip_ws (CHR ''*'' # s) = CHR ''*'' # s" "skip_ws (CHR ''?'' # s) = CHR ''?'' # s"
  "skip_ws (CHR ''<'' # s) = CHR ''<'' # s" "skip_ws (CHR ''>'' # s) = CHR ''>'' # s" "skip_ws (CHR ''&'' # s) = CHR ''&'' # s"
  "skip_ws (CHR ''t'' # s) = CHR ''t'' # s" "skip_ws (CHR ''p'' # s) = CHR ''p'' # s" "skip_ws (CHR ''c'' # s) = CHR ''c'' # s"
  "skip_ws (CHR ''l'' # s) = CHR ''l'' # s" "skip_ws (CHR ''r'' # s) = CHR ''r'' # s" "skip_ws (CHR ''1'' # s) = CHR ''1'' # s"
  "skip_ws (CHR ''_'' # s) = CHR ''_'' # s" "skip_ws [] = []"
  by (simp_all add: skip_ws_def js_space_def)

lemma skip_ws_number: "list_all num_char n \<Longrightarrow> n \<noteq> [] \<Longrightarrow> skip_ws (n @ r) = n @ r"
  by (cases n) (auto simp: skip_ws_def num_char_def is_digit_def js_space_def)

lemma factor_at_part:
  assumes "k \<in> set pricing_keys" "list_all num_char n" "n \<noteq> []" "r = [] \<or> hd r = CHR '' ''"
    and "\<not> (case prev of Some c \<Rightarrow> word_char c | None \<Rightarrow> False)"
  shows "BILLING_VAR_REGEX prev (k @ '' * '' @ n @ r) = Some ((k, n), r)"
proof -
  define t where "t = k @ '' * '' @ n @ r"
  have n: "run1 num_char (n @ r) = Some (n, r)" using assms(2-4) by (intro run1_append) auto
  have v: "var_factor k' t = (if k' = k then Some ((k, n), r) else None)" if "k' \<in> set pricing_keys" for k'
    using that assms(1) n skip_ws_number [OF assms(2,3)]
    unfolding pricing_keys t_def by (auto simp: var_factor_def)
  have "first_some (\<lambda>k'. var_factor k' t) ks = Some ((k, n), r)"
    if "k \<in> set ks" "set ks \<subseteq> set pricing_keys" for ks
    using that by (induction ks) (auto simp: v)
  then show ?thesis
    using assms(1,5) unfolding BILLING_VAR_REGEX_def t_def [symmetric]
    by (simp add: first_some_keys [where f = "\<lambda>k'. var_factor k' t"])
qed

lemma body_factors_skip:
  "body_factors prev (CHR '' '' # CHR ''+'' # CHR '' '' # s) = body_factors (Some (CHR '' '')) s"
proof -
  have "BILLING_VAR_REGEX prev (c # s) = None" if "c = CHR '' '' \<or> c = CHR ''+''" for prev c s
    using that unfolding BILLING_VAR_REGEX_def first_some_keys [where f = "\<lambda>k'. var_factor k' _"] pricing_keys
    by (auto simp: var_factor_def)
  then show ?thesis by (simp add: body_factors.simps [of _ "_ # _"])
qed

lemma body_factors_Nil: "body_factors prev [] = []"
  unfolding body_factors.simps [of prev "[]"] BILLING_VAR_REGEX_def first_some_keys [where f = "\<lambda>k'. var_factor k' _"]
    pricing_keys by (simp add: var_factor_def)

lemma body_factors_parts:
  assumes "list_all (\<lambda>(k, r). k \<in> set pricing_keys \<and> decimal r) parts"
    and "\<not> (case prev of Some c \<Rightarrow> word_char c | None \<Rightarrow> False)"
  shows "body_factors prev (join '' + '' (map part_text parts)) = map (\<lambda>(k, r). (k, rat_text r)) parts"
  using assms
proof (induction parts arbitrary: prev)
  case Nil
  then show ?case by (simp add: body_factors_Nil)
next
  case (Cons x parts)
  obtain k r where x: "x = (k, r)" by (cases x)
  with Cons.prems have k: "k \<in> set pricing_keys" and n: "list_all num_char (rat_text r)" "rat_text r \<noteq> []"
    using rat_text_number by auto
  have step: "body_factors prev (part_text x @ t) = (k, rat_text r) # body_factors (Some (last (rat_text r))) t"
    if "t = [] \<or> hd t = CHR '' ''" for t
    using factor_at_part [OF k n that Cons.prems(2)] by (simp add: body_factors.simps [of prev "_ @ _"] x part_text_def)
  show ?case
  proof (cases parts)
    case Nil
    with step [of "[]"] x show ?thesis by (simp add: body_factors_Nil)
  next
    case (Cons y ys)
    have "\<not> word_char (CHR '' '')" by (simp add: word_char_def is_digit_def)
    with Cons.IH [of "Some (CHR '' '')"] Cons.prems
    have IH: "body_factors (Some (CHR '' '')) (join '' + '' (map part_text parts)) = map (\<lambda>(k, r). (k, rat_text r)) parts"
      by simp
    show ?thesis
      using step [of "CHR '' '' # CHR ''+'' # CHR '' '' # join '' + '' (map part_text parts)"] IH x Cons
      by (simp add: body_factors_skip)
  qed
qed

lemma map_of_parts: "map_of (map (\<lambda>(k, r). (k, f r)) ps) k = map_option f (map_of ps k)"
  by (induction ps) auto

lemma map_of_nonzero:
  "map_of (filter (\<lambda>(k, r). r \<noteq> (0::rat)) (map (\<lambda>k. (k, f k)) ks)) k = (if k \<in> set ks \<and> f k \<noteq> 0 then Some (f k) else None)"
  by (induction ks) auto

lemma price_parts_value:
  assumes "k \<in> set pricing_keys"
  shows "(case map_of (price_parts t) k of Some r \<Rightarrow> r | None \<Rightarrow> 0) = e_price t k"
proof -
  have "k = ''p'' \<or> k = ''c'' \<or> k \<in> set extra_keys"
    using assms by (simp only: pricing_keys extra_keys_def list.set insert_iff)
  then show ?thesis
    by (auto simp: price_parts_def map_of_nonzero)
qed

lemma price_parts_keys: "set (price_parts t) \<subseteq> (\<lambda>k. (k, e_price t k)) ` set pricing_keys"
proof -
  have "set pricing_keys = insert ''p'' (insert ''c'' (set extra_keys))" by (simp add: pricing_keys extra_keys_def)
  then show ?thesis unfolding price_parts_def by auto
qed

lemma pricing_keys_decimal: "tier_entered t \<Longrightarrow> k \<in> set pricing_keys \<Longrightarrow> decimal (e_price t k)"
  by (auto simp: tier_entered_def pricing_keys_def list_all_iff)

lemma entered_prices:
  assumes "tier_entered t"
  shows "parseTierBody (buildTierBodyExpr (entered_object t)) =
    map (\<lambda>v. (the (v_field v), e_price t (v_key v))) BILLING_PRICING_VARS"
proof -
  have parts: "list_all (\<lambda>(k, r). k \<in> set pricing_keys \<and> decimal r) (price_parts t)"
    using price_parts_keys [of t] pricing_keys_decimal [OF assms] by (auto simp: list_all_iff)
  have "(case map_of (map (\<lambda>(k, r). (k, rat_text r)) (price_parts t)) k of
      Some n \<Rightarrow> finite_or_zero (string_number n) | None \<Rightarrow> 0) = e_price t k" if "k \<in> set pricing_keys" for k
  proof (cases "map_of (price_parts t) k")
    case (Some r)
    with parts have "decimal r" by (auto simp: list_all_iff dest: map_of_SomeD)
    with Some price_parts_value [OF that, of t] show ?thesis by (simp add: map_of_parts rat_text_number)
  next
    case None
    with price_parts_value [OF that, of t] show ?thesis by (simp add: map_of_parts)
  qed
  then show ?thesis
    by (simp add: parseTierBody_def entered_body body_factors_parts [OF parts] BILLING_VAR_KEY_TO_FIELD_def pricing_keys_def
        Let_def)
qed

subsection \<open>One tier in the text\<close>

lemma set_join: "set (join sep xs) \<subseteq> set sep \<union> (\<Union>x\<in>set xs. set x)"
proof (induction xs)
  case (Cons x xs)
  then show ?case by (cases xs) auto
qed simp

lemma entered_body_text:
  assumes "tier_entered t"
  shows "CHR '')'' \<notin> set (buildTierBodyExpr (entered_object t))" "CHR ''('' \<notin> set (buildTierBodyExpr (entered_object t))"
    and "\<exists>b. buildTierBodyExpr (entered_object t) = CHR ''p'' # b"
proof -
  have no: "x \<notin> set (buildTierBodyExpr (entered_object t))" if x: "x = CHR ''('' \<or> x = CHR '')''" for x
  proof -
    have "x \<notin> set (part_text (k, e_price t k))" if "k \<in> set pricing_keys" for k
    proof -
      have "x \<notin> set (rat_text (e_price t k))"
        using rat_text_number(2) [OF pricing_keys_decimal [OF assms that]] x by (auto simp: list_all_iff)
      moreover have "x \<notin> set k" using that x unfolding pricing_keys by auto
      ultimately show ?thesis using x by (auto simp: part_text_def)
    qed
    then have "x \<notin> (\<Union>x\<in>set (map part_text (price_parts t)). set x)"
      using price_parts_keys [of t] by auto
    with set_join [of "'' + ''" "map part_text (price_parts t)"] x show ?thesis by (auto simp: entered_body)
  qed
  show "CHR '')'' \<notin> set (buildTierBodyExpr (entered_object t))" "CHR ''('' \<notin> set (buildTierBodyExpr (entered_object t))"
    using no by simp_all
  show "\<exists>b. buildTierBodyExpr (entered_object t) = CHR ''p'' # b"
    by (simp add: entered_body price_parts_def part_text_def)
qed

lemma takeWhile_stop: "\<not> P c \<Longrightarrow> list_all P a \<Longrightarrow> takeWhile P (a @ c # b) = a \<and> dropWhile P (a @ c # b) = c # b"
  by (induction a) auto

lemma entered_tier_expr:
  "e_label t \<noteq> [] \<Longrightarrow> tier_expr d (entered_object t) =
     ''tier('' @ [quote_char] @ e_label t @ [quote_char] @ '', '' @ buildTierBodyExpr (entered_object t) @ '')''"
  unfolding tier_expr_def entered_fields Let_def by simp

lemma read_tier_call:
  assumes "tier_entered t"
  shows "tier_call (tier_expr d (entered_object t) @ r) = Some ((e_label t, buildTierBodyExpr (entered_object t)), r)"
proof -
  let ?b = "buildTierBodyExpr (entered_object t)"
  have l: "list_all (\<lambda>c. c \<noteq> quote_char) (e_label t)" "e_label t \<noteq> []"
    using assms by (auto simp: tier_entered_def list_all_iff)
  have b: "list_all (\<lambda>c. c \<noteq> CHR '')'') ?b" "?b \<noteq> []" "skip_ws (?b @ s) = ?b @ s" for s
    using entered_body_text [OF assms] by (auto simp: list_all_iff)
  have q: "takeWhile (\<lambda>c. c \<noteq> quote_char) (e_label t @ quote_char # s) = e_label t"
    "dropWhile (\<lambda>c. c \<noteq> quote_char) (e_label t @ quote_char # s) = quote_char # s" for s
    using takeWhile_stop [of "\<lambda>c. c \<noteq> quote_char" quote_char, OF _ l(1)] by simp_all
  have p: "takeWhile (\<lambda>c. c \<noteq> CHR '')'') (?b @ CHR '')'' # r) = ?b"
    "dropWhile (\<lambda>c. c \<noteq> CHR '')'') (?b @ CHR '')'' # r) = CHR '')'' # r"
    using takeWhile_stop [of "\<lambda>c. c \<noteq> CHR '')''" "CHR '')''", OF _ b(1)] by simp_all
  show ?thesis
    using b(2,3) by (simp add: tier_call_def entered_tier_expr [OF l(2)] Let_def q p)
qed

definition cond_text :: "string \<times> string \<times> rat \<Rightarrow> string" where
  "cond_text = (\<lambda>(v, op, n). v @ '' '' @ op @ '' '' @ rat_text n)"

lemma entered_conditions:
  assumes "tier_entered t"
  shows "buildConditionStr (conditions_of (entered_object t)) = join '' && '' (map cond_text (e_conditions t))"
proof -
  have "conditions_of (entered_object t) = map entered_condition (e_conditions t)"
    by (simp add: conditions_of_def entered_object_def)
  moreover have "filter (\<lambda>c. truthy (js_get c ''var'') \<and> truthy (js_get c ''op'') \<and>
      js_get c ''value'' \<notin> {JUndefined, JNull, JString []}) (map entered_condition (e_conditions t)) =
      map entered_condition (e_conditions t)"
    using assms by (intro filter_True) (auto simp: tier_entered_def list_all_iff condition_entered_def entered_condition_def)
  ultimately show ?thesis
    by (simp add: buildConditionStr_def entered_condition_def cond_text_def comp_def case_prod_beta')
qed

lemma tier_num_num: "list_all tier_num_char n \<Longrightarrow> list_all num_char n"
  by (auto simp: list_all_iff tier_num_char_def)

lemma read_atom:
  assumes "condition_entered c" "r = [] \<or> hd r = CHR '' ''"
  shows "tier_atom (cond_text c @ r) = Some (shown_condition c, r)"
proof -
  obtain v op n where c: "c = (v, op, n)" by (cases c) auto
  with assms have n: "list_all tier_num_char (rat_text n)" "rat_text n \<noteq> []" "string_number (rat_text n) = Fin n"
    and v: "v = ''p'' \<or> v = ''c'' \<or> v = ''len''" and op: "op = ''<'' \<or> op = ''<='' \<or> op = ''>'' \<or> op = ''>=''"
    using rat_text_number by (auto simp: condition_entered_def)
  have "\<not> tier_num_char (CHR '' '')" by (simp add: tier_num_char_def)
  then have run: "run1 tier_num_char (rat_text n @ r) = Some (rat_text n, r)"
    using assms(2) by (intro run1_append [OF n(2,1)]) auto
  note ws = skip_ws_number [OF tier_num_num [OF n(1)] n(2)]
  from v op show ?thesis
    by (elim disjE) (simp_all add: c cond_text_def shown_condition_def tier_atom_def run ws n(3))
qed

lemma skip_ws_cond: "condition_entered c \<Longrightarrow> skip_ws (cond_text c @ s) = cond_text c @ s"
  by (cases c) (auto simp: condition_entered_def cond_text_def)

lemma read_atoms:
  assumes "list_all condition_entered cs" "cs \<noteq> []"
  shows "tier_atoms (join '' && '' (map cond_text cs) @ '' ? '' @ r) = Some (map shown_condition cs, '' ? '' @ r)"
  using assms
proof (induction cs)
  case (Cons c cs)
  show ?case
  proof (cases cs)
    case Nil
    with read_atom [of c "'' ? '' @ r"] Cons.prems show ?thesis by (simp add: tier_atoms.simps [of "_ @ _"])
  next
    case (Cons c' cs')
    let ?rest = "join '' && '' (map cond_text cs) @ '' ? '' @ r"
    have a: "tier_atom (cond_text c @ '' && '' @ ?rest) = Some (shown_condition c, '' && '' @ ?rest)"
      using read_atom [of c "'' && '' @ ?rest"] Cons.prems by simp
    obtain X where "?rest = cond_text c' @ X" using Cons by (cases cs') auto
    then have "skip_ws ?rest = ?rest" using skip_ws_cond [of c' X] Cons Cons.prems by simp
    with a Cons.IH Cons.prems \<open>cs = c' # cs'\<close> show ?thesis
      by (simp add: tier_atoms.simps [of "cond_text c @ _"])
  qed
qed simp

subsection \<open>The whole text\<close>

definition written_tier :: "string \<Rightarrow> (string \<times> string \<times> rat) list \<Rightarrow> entered_tier \<Rightarrow> string" where
  "written_tier d cs t =
     (if cs = [] then [] else join '' && '' (map cond_text cs) @ '' ? '') @ tier_expr d (entered_object t)"

lemma read_written_tier:
  assumes "tier_entered t" "list_all condition_entered cs"
  shows "tier_match (written_tier d cs t @ r) = Some (shown_tier cs t, r)"
proof -
  have l: "e_label t \<noteq> []" using assms by (simp add: tier_entered_def)
  have call: "tier_call (tier_expr d (entered_object t) @ s) = Some ((e_label t, buildTierBodyExpr (entered_object t)), s)" for s
    by (rule read_tier_call [OF assms(1)])
  have ws: "skip_ws (tier_expr d (entered_object t) @ s) = tier_expr d (entered_object t) @ s" for s
    by (simp add: entered_tier_expr [OF l])
  show ?thesis
  proof (cases "cs = []")
    case True
    have "tier_atoms (tier_expr d (entered_object t) @ r) = None"
      by (simp add: tier_atoms.simps [of "CHR ''t'' # _"] tier_atom_def entered_tier_expr [OF l])
    with True call entered_prices [OF assms(1)] show ?thesis
      by (simp add: tier_match_def written_tier_def shown_tier_def)
  next
    case False
    with call ws read_atoms [OF assms(2) False, of "tier_expr d (entered_object t) @ r"] entered_prices [OF assms(1)]
    show ?thesis by (simp add: tier_match_def written_tier_def shown_tier_def)
  qed
qed

lemma tier_scan_written:
  "tier_entered t \<Longrightarrow> list_all condition_entered cs \<Longrightarrow>
     tier_scan (written_tier d cs t @ r) = shown_tier cs t # tier_scan r"
  by (simp add: tier_scan.simps [of "_ @ _"] read_written_tier)

lemma no_tier_here:
  "c \<in> {CHR '' '', CHR '':'', CHR ''*'', CHR ''+'', CHR ''0''} \<Longrightarrow> tier_scan (c # s) = tier_scan s"
  by (auto simp: tier_scan.simps [of "_ # _"] tier_match_def tier_atoms.simps [of "_ # _"] tier_atom_def tier_call_def)

lemma tier_scan_Nil: "tier_scan [] = []"
  by (simp add: tier_scan.simps [of "[]"] tier_match_def tier_atoms.simps [of "[]"] tier_atom_def tier_call_def)

lemma no_tier_fallback: "tier_scan '' : p * 0 + c * 0'' = []"
proof -
  have "tier_scan (c # CHR '' '' # CHR ''*'' # s) = tier_scan (CHR '' '' # CHR ''*'' # s)" if "c = CHR ''p'' \<or> c = CHR ''c''" for c s
    using that
    by (auto simp: tier_scan.simps [of "c # _"] tier_match_def tier_atoms.simps [of "_ # _"] tier_atom_def tier_call_def)
  then show ?thesis by (simp add: no_tier_here tier_scan_Nil)
qed

definition shown_config :: "entered_tier list \<Rightarrow> ParsedTier list" where
  "shown_config ts =
     (case ts of
        [t] \<Rightarrow> [shown_tier (e_conditions t) t]
      | _ \<Rightarrow> map (\<lambda>t. shown_tier (e_conditions t) t) (butlast ts) @ [shown_tier [] (last ts)])"

lemma cond_str_empty:
  assumes "tier_entered t"
  shows "buildConditionStr (conditions_of (entered_object t)) = [] \<longleftrightarrow> e_conditions t = []"
proof (cases "e_conditions t")
  case Nil
  with entered_conditions [OF assms] show ?thesis by simp
next
  case (Cons c cs)
  then show ?thesis using entered_conditions [OF assms] by (cases cs) (auto simp: cond_text_def split: prod.splits)
qed

lemma join_exprs:
  assumes "tier_entered t" "ts \<noteq> []"
  shows "join '' : '' (tier_exprs i (map entered_object (t # ts))) =
    written_tier (''tier_'' @ nat_digits (i + 1)) (e_conditions t) t @ '' : '' @
    join '' : '' (tier_exprs (i + 1) (map entered_object ts))"
proof -
  have e: "tier_exprs i (map entered_object (t # ts)) =
      written_tier (''tier_'' @ nat_digits (i + 1)) (e_conditions t) t # tier_exprs (i + 1) (map entered_object ts)"
    using assms(2) cond_str_empty [OF assms(1)] entered_conditions [OF assms(1)] by (simp add: written_tier_def Let_def)
  have "tier_exprs (i + 1) (map entered_object ts) \<noteq> []" using assms(2) by (cases ts) (simp_all add: Let_def)
  then show ?thesis unfolding e by (cases "tier_exprs (i + 1) (map entered_object ts)") simp_all
qed

lemma written_exprs:
  assumes "list_all tier_entered ts" "ts \<noteq> []"
  shows "tier_scan (join '' : '' (tier_exprs i (map entered_object ts))) =
    map (\<lambda>t. shown_tier (e_conditions t) t) (butlast ts) @ [shown_tier [] (last ts)]"
  using assms
proof (induction ts arbitrary: i)
  case (Cons t ts)
  have t: "tier_entered t" "list_all condition_entered (e_conditions t)"
    using Cons.prems by (simp_all add: tier_entered_def)
  let ?d = "''tier_'' @ nat_digits (i + 1)"
  show ?case
  proof (cases ts)
    case Nil
    with tier_scan_written [OF t(1), of "[]" ?d "[]"] show ?thesis
      by (simp add: written_tier_def tier_scan_Nil)
  next
    case (Cons t' ts')
    have "ts \<noteq> []" using Cons by simp
    from join_exprs [OF t(1) this, of i]
    have "tier_scan (join '' : '' (tier_exprs i (map entered_object (t # ts)))) =
        shown_tier (e_conditions t) t # tier_scan (join '' : '' (tier_exprs (i + 1) (map entered_object ts)))"
      using tier_scan_written [OF t] by (simp add: no_tier_here)
    with Cons.IH [of "i + 1"] Cons Cons.prems show ?thesis by simp
  qed
qed simp

lemma first_char_not_version:
  assumes "tier_entered t" "list_all condition_entered cs"
  shows "\<exists>c s. written_tier d cs t @ r = c # s \<and> c \<noteq> CHR ''v''"
proof (cases cs)
  case Nil
  with assms show ?thesis by (auto simp: written_tier_def tier_entered_def entered_tier_expr)
next
  case (Cons c cs')
  then obtain X where "written_tier d cs t @ r = cond_text c @ X" by (cases cs') (auto simp: written_tier_def)
  moreover have "condition_entered c" using Cons assms by simp
  ultimately show ?thesis by (cases c) (auto simp: condition_entered_def cond_text_def)
qed

lemma read_unversioned: "(\<exists>c s. e = c # s \<and> c \<noteq> CHR ''v'') \<Longrightarrow> parseTiersFromExpr e = tier_scan e"
  by (auto simp: parseTiersFromExpr_def stripExprVersion_def Let_def)

lemma written_tiers_read:
  assumes "list_all tier_entered ts" "ts \<noteq> []"
  shows "parseTiersFromExpr (generateExprFromVisualConfig (Some (map entered_object ts))) = shown_config ts"
proof (cases "\<exists>t. ts = [t]")
  case True
  then obtain t where ts: "ts = [t]" by blast
  then have t: "tier_entered t" "list_all condition_entered (e_conditions t)"
    using assms by (simp_all add: tier_entered_def)
  let ?tail = "if e_conditions t = [] then [] else '' : p * 0 + c * 0''"
  have "generateExprFromVisualConfig (Some (map entered_object ts)) = written_tier ''default'' (e_conditions t) t @ ?tail"
    using cond_str_empty [OF t(1)] entered_conditions [OF t(1)]
    by (simp add: ts generateExprFromVisualConfig_def written_tier_def Let_def)
  moreover have "tier_scan ?tail = []" using no_tier_fallback by (simp add: tier_scan_Nil)
  ultimately show ?thesis
    using tier_scan_written [OF t] read_unversioned [OF first_char_not_version [OF t]] by (simp add: ts shown_config_def)
next
  case False
  then obtain t t' ts' where ts: "ts = t # t' # ts'" using assms(2) by (cases ts; cases "tl ts") auto
  then have t: "tier_entered t" "list_all condition_entered (e_conditions t)"
    using assms by (simp_all add: tier_entered_def)
  have g: "generateExprFromVisualConfig (Some (map entered_object ts)) = join '' : '' (tier_exprs 0 (map entered_object ts))"
    by (simp add: ts generateExprFromVisualConfig_def)
  have "\<exists>X. join '' : '' (tier_exprs 0 (map entered_object ts)) =
      written_tier (''tier_'' @ nat_digits (0 + 1)) (e_conditions t) t @ X"
    unfolding ts using join_exprs [OF t(1), of "t' # ts'" 0] by blast
  then obtain X where "join '' : '' (tier_exprs 0 (map entered_object ts)) =
      written_tier (''tier_'' @ nat_digits (0 + 1)) (e_conditions t) t @ X" by blast
  then show ?thesis
    using read_unversioned [OF first_char_not_version [OF t]] written_exprs [OF assms, of 0] g
    by (simp add: ts shown_config_def)
qed

text \<open>C24: For at least one entered tier: the pricing page reads the expression written by the visual editor as
  these tiers with their labels and all their prices.  A single tier keeps its conditions; of several tiers all but
  the last keep theirs and the last, which the editor writes as the fallback, is shown without conditions.  Labels are
  non-empty and without quotes, prices are decimal numbers, and conditions compare p, c or len by <, <=, > or >= with
  decimal numbers whose text has no minus sign.\<close>

theorem entered_tiers_shown:
  assumes "list_all tier_entered ts" "ts \<noteq> []"
  shows "parseTiersFromExpr (generateExprFromVisualConfig (Some (map entered_object ts))) = shown_config ts"
  using assms by (rule written_tiers_read)

definition sample_prices :: "string \<Rightarrow> rat" where
  "sample_prices k = (if k = ''p'' then 3 else if k = ''c'' then 15 else 0)"

definition sample_tiers :: "entered_tier list" where
  "sample_tiers = [\<lparr>e_label = ''short'', e_conditions = [(''len'', ''<='', 5)], e_price = sample_prices\<rparr>,
     \<lparr>e_label = ''long'', e_conditions = [], e_price = sample_prices\<rparr>]"

lemma sample_number: "rat_text 5 = ''5''"
proof -
  have "scaled 400 5 = (5, 0)" using scaled.simps(2) [of 399 5] by simp
  moreover have "nat_digits 5 = ''5''" by (simp add: nat_digits.simps digit_def char_of_eq_iff)
  ultimately show ?thesis by (simp add: rat_text_def positive_text_def strip_zeros_def)
qed

lemma sample_decimals: "decimal (3::rat)" "decimal (15::rat)" "decimal (5::rat)" "decimal (0::rat)"
  using decimal_int [of 3] decimal_int [of 15] decimal_int [of 5] decimal_int [of 0] by simp_all

lemma sample_entered: "list_all tier_entered sample_tiers"
proof -
  have "decimal (sample_prices k)" for k using sample_decimals by (simp add: sample_prices_def)
  then show ?thesis
    by (simp add: sample_tiers_def tier_entered_def condition_entered_def sample_decimals sample_number tier_num_char_def
        num_char_def is_digit_def list_all_iff)
qed

theorem entered_tiers_shown_witness:
  "list_all tier_entered sample_tiers \<and>
   map pt_label (parseTiersFromExpr (generateExprFromVisualConfig (Some (map entered_object sample_tiers)))) =
     [''short'', ''long'']"
  using entered_tiers_shown [of sample_tiers] sample_entered
  by (simp add: shown_config_def shown_tier_def sample_tiers_def)

end
