(* ===== verification/Pricing.thy ===== *)
theory Pricing
  imports Tier_Expr Request_Rules Currency
begin

text \<open>
  The model catalogue (\<^verbatim>\<open>web/src/features/pricing\<close>): group ratios, prices, filters, sorting, the state of the
  filters, and the summary of models that are billed by an expression (\<^verbatim>\<open>lib/model-helpers.ts\<close>, \<^verbatim>\<open>lib/price.ts\<close>,
  \<^verbatim>\<open>lib/filters.ts\<close>, \<^verbatim>\<open>lib/dynamic-price.ts\<close>, \<^verbatim>\<open>hooks/use-pricing-data.ts\<close>, \<^verbatim>\<open>hooks/use-filters.ts\<close>).  Prices
  are exact rationals; NaN, for a price the model does not have, is \<open>None\<close>.  The collation of
  \<^verbatim>\<open>localeCompare\<close> and the number formats are arguments.
\<close>

section \<open>Models\<close>

record PricingModel =
  pm_name :: "string option"
  pm_description :: "string option"
  pm_vendor_id :: rat
  pm_vendor_name :: "string option"
  pm_quota_type :: rat
  pm_model_ratio :: rat
  pm_completion_ratio :: rat
  pm_model_price :: "rat option"
  pm_cache_ratio :: "rat option"
  pm_create_cache_ratio :: "rat option"
  pm_image_ratio :: "rat option"
  pm_audio_ratio :: "rat option"
  pm_audio_completion_ratio :: "rat option"
  pm_enable_groups :: "string list option"
  pm_tags :: "string option"
  pm_endpoint_types :: "string list option"
  pm_group_ratio :: "(string \<times> js_value) list option"
  pm_billing_mode :: "string option"
  pm_billing_expr :: "string option"

definition FILTER_ALL :: string where "FILTER_ALL = ''all''"
definition EXCLUDED_GROUPS :: "string list" where "EXCLUDED_GROUPS = [[], ''auto'']"

definition enabled_groups :: "PricingModel \<Rightarrow> string list" where
  "enabled_groups model = (case pm_enable_groups model of Some gs \<Rightarrow> gs | None \<Rightarrow> [])"

definition getAvailableGroups :: "PricingModel \<Rightarrow> (string \<times> 'a) list \<Rightarrow> string list" where
  "getAvailableGroups model usableGroup =
     filter (\<lambda>g. g \<in> set (enabled_groups model)) (filter (\<lambda>g. g \<notin> set EXCLUDED_GROUPS) (map fst usableGroup))"

definition getConfiguredGroupRatio :: "(string \<times> js_value) list \<Rightarrow> string \<Rightarrow> rat" where
  "getConfiguredGroupRatio groupRatio g =
     (case map_of groupRatio g of Some (JNumber (Fin r)) \<Rightarrow> r | _ \<Rightarrow> 1)"

text \<open>The loop over the groups; \<open>None\<close> is the initial infinity.\<close>

definition smaller_ratio :: "(string \<times> js_value) list \<Rightarrow> string \<Rightarrow> rat option \<Rightarrow> rat option" where
  "smaller_ratio groupRatio g minRatio =
     (case map_of groupRatio g of
        Some (JNumber (Fin r)) \<Rightarrow> (case minRatio of None \<Rightarrow> Some r | Some x \<Rightarrow> Some (if r < x then r else x))
      | _ \<Rightarrow> minRatio)"

definition ratios_of :: "PricingModel \<Rightarrow> (string \<times> js_value) list" where
  "ratios_of model = (case pm_group_ratio model of Some r \<Rightarrow> r | None \<Rightarrow> [])"

definition getDisplayGroupRatio :: "PricingModel \<Rightarrow> string option \<Rightarrow> rat" where
  "getDisplayGroupRatio model selectedGroup =
     (let modelEnableGroups = enabled_groups model; groupRatio = ratios_of model; g = or_text selectedGroup [] in
      if g \<noteq> [] \<and> g \<noteq> FILTER_ALL \<and> g \<in> set modelEnableGroups then getConfiguredGroupRatio groupRatio g
      else if modelEnableGroups = [] then 1
      else case fold (smaller_ratio groupRatio) modelEnableGroups None of Some r \<Rightarrow> r | None \<Rightarrow> 1)"

fun replaceModelInPath :: "string \<Rightarrow> string \<Rightarrow> string" where
  "replaceModelInPath [] modelName = []"
| "replaceModelInPath (c # path) modelName =
     (if starts_with ''{model}'' (c # path) then modelName @ replaceModelInPath (drop 6 path) modelName
      else c # replaceModelInPath path modelName)"

definition isTokenBasedModel :: "PricingModel \<Rightarrow> bool" where
  "isTokenBasedModel model \<longleftrightarrow> pm_quota_type model = 0"

section \<open>Prices\<close>

datatype PriceType = PriceInput | PriceOutput | PriceCache | PriceCreateCache | PriceImage | PriceAudioInput | PriceAudioOutput
datatype TokenUnit = UnitM | UnitK

fun TOKEN_UNIT_DIVISORS :: "TokenUnit \<Rightarrow> rat" where
  "TOKEN_UNIT_DIVISORS UnitM = 1"
| "TOKEN_UNIT_DIVISORS UnitK = 1000"

definition calculateTokenPrice :: "PricingModel \<Rightarrow> PriceType \<Rightarrow> rat \<Rightarrow> rat option" where
  "calculateTokenPrice model ty ratio =
     (let base = pm_model_ratio model * 2 * ratio in
      case ty of
        PriceInput \<Rightarrow> Some base
      | PriceOutput \<Rightarrow> Some (base * pm_completion_ratio model)
      | PriceCache \<Rightarrow> map_option (\<lambda>r. base * r) (pm_cache_ratio model)
      | PriceCreateCache \<Rightarrow> map_option (\<lambda>r. base * r) (pm_create_cache_ratio model)
      | PriceImage \<Rightarrow> map_option (\<lambda>r. base * r) (pm_image_ratio model)
      | PriceAudioInput \<Rightarrow> map_option (\<lambda>r. base * r) (pm_audio_ratio model)
      | PriceAudioOutput \<Rightarrow> (case (pm_audio_ratio model, pm_audio_completion_ratio model) of
            (Some a, Some c) \<Rightarrow> Some (base * a * c)
          | _ \<Rightarrow> None))"

text \<open>The exchange rate is at least 0.001 (\<open>usd_rate\<close> below), so the division is a division of numbers.\<close>

definition applyRechargeRate :: "rat \<Rightarrow> bool \<Rightarrow> rat \<Rightarrow> rat \<Rightarrow> rat" where
  "applyRechargeRate price with_recharge rate exchangeRate =
     (if \<not> with_recharge then price else price * rate / exchangeRate)"

definition price_options :: "nat \<Rightarrow> CurrencyFormatOptions option" where
  "price_options small = Some (quota_options 4 small False)"

text \<open>The settings of the page: the recharge switch, the price of a unit of credit and the exchange rate.\<close>

record price_view =
  showWithRecharge :: bool
  priceRate :: rat
  usdRate :: rat

definition token_price_text ::
  "intl \<Rightarrow> CurrencyConfig \<Rightarrow> price_view \<Rightarrow> TokenUnit \<Rightarrow> rat option \<Rightarrow> string" where
  "token_price_text intl currency view tokenUnit priceInUSD =
     formatCurrencyFromUSD intl currency
       (map_option (\<lambda>p. applyRechargeRate p (showWithRecharge view) (priceRate view) (usdRate view) /
          TOKEN_UNIT_DIVISORS tokenUnit) priceInUSD)
       (price_options 6)"

definition formatPrice ::
  "intl \<Rightarrow> CurrencyConfig \<Rightarrow> price_view \<Rightarrow> PricingModel \<Rightarrow> PriceType \<Rightarrow> TokenUnit \<Rightarrow> string option \<Rightarrow> string" where
  "formatPrice intl currency view model ty tokenUnit selectedGroup =
     (if pm_quota_type model = 1 then ''-''
      else token_price_text intl currency view tokenUnit
        (calculateTokenPrice model ty (getDisplayGroupRatio model selectedGroup)))"

definition formatGroupPrice ::
  "intl \<Rightarrow> CurrencyConfig \<Rightarrow> price_view \<Rightarrow> PricingModel \<Rightarrow> string \<Rightarrow> PriceType \<Rightarrow> TokenUnit \<Rightarrow>
     (string \<times> js_value) list \<Rightarrow> string" where
  "formatGroupPrice intl currency view model g ty tokenUnit groupRatio =
     (if pm_quota_type model = 1 then ''-''
      else token_price_text intl currency view tokenUnit
        (calculateTokenPrice model ty (getConfiguredGroupRatio groupRatio g)))"

definition request_price_text :: "intl \<Rightarrow> CurrencyConfig \<Rightarrow> price_view \<Rightarrow> PricingModel \<Rightarrow> rat \<Rightarrow> string" where
  "request_price_text intl currency view model ratio =
     formatCurrencyFromUSD intl currency
       (Some (applyRechargeRate ((case pm_model_price model of Some p \<Rightarrow> p | None \<Rightarrow> 0) * ratio)
          (showWithRecharge view) (priceRate view) (usdRate view)))
       (price_options 4)"

definition formatFixedPrice ::
  "intl \<Rightarrow> CurrencyConfig \<Rightarrow> price_view \<Rightarrow> PricingModel \<Rightarrow> string \<Rightarrow> (string \<times> js_value) list \<Rightarrow> string" where
  "formatFixedPrice intl currency view model g groupRatio =
     (if pm_quota_type model \<noteq> 1 then ''-''
      else request_price_text intl currency view model (getConfiguredGroupRatio groupRatio g))"

definition formatRequestPrice ::
  "intl \<Rightarrow> CurrencyConfig \<Rightarrow> price_view \<Rightarrow> PricingModel \<Rightarrow> string option \<Rightarrow> string" where
  "formatRequestPrice intl currency view model selectedGroup =
     (if pm_quota_type model \<noteq> 1 then ''-''
      else request_price_text intl currency view model (getDisplayGroupRatio model selectedGroup))"

section \<open>Filters\<close>

definition contains_lower :: "string \<Rightarrow> string option \<Rightarrow> bool" where
  "contains_lower lowerQuery field = (case field of Some s \<Rightarrow> str_includes lowerQuery (lower s) | None \<Rightarrow> False)"

definition filterBySearch :: "PricingModel list \<Rightarrow> string \<Rightarrow> PricingModel list" where
  "filterBySearch models query =
     (if query = [] then models
      else let lowerQuery = lower query in
        filter (\<lambda>m. contains_lower lowerQuery (pm_name m) \<or> contains_lower lowerQuery (pm_description m) \<or>
          contains_lower lowerQuery (pm_tags m) \<or> contains_lower lowerQuery (pm_vendor_name m)) models)"

definition filterByVendor :: "PricingModel list \<Rightarrow> string \<Rightarrow> PricingModel list" where
  "filterByVendor models vendor =
     (if vendor = FILTER_ALL then models else filter (\<lambda>m. pm_vendor_name m = Some vendor) models)"

definition filterByGroup :: "PricingModel list \<Rightarrow> string \<Rightarrow> PricingModel list" where
  "filterByGroup models g =
     (if g = FILTER_ALL then models else filter (\<lambda>m. g \<in> set (enabled_groups m)) models)"

definition filterByQuotaType :: "PricingModel list \<Rightarrow> string \<Rightarrow> PricingModel list" where
  "filterByQuotaType models quotaType =
     (if quotaType = FILTER_ALL then models
      else filter (\<lambda>m. pm_quota_type m = (if quotaType = ''token'' then 0 else 1)) models)"

definition filterByEndpointType :: "PricingModel list \<Rightarrow> string \<Rightarrow> PricingModel list" where
  "filterByEndpointType models endpointType =
     (if endpointType = FILTER_ALL then models
      else filter (\<lambda>m. case pm_endpoint_types m of Some ts \<Rightarrow> endpointType \<in> set ts | None \<Rightarrow> False) models)"

text \<open>\<^verbatim>\<open>split(/[,;|\s]+/)\<close>: splitting at each separator instead of each run of them only adds empty pieces,
  which \<^verbatim>\<open>parseTags\<close> drops.\<close>

definition tag_separator :: "char \<Rightarrow> bool" where
  "tag_separator c \<longleftrightarrow> c \<in> {CHR '','', CHR '';'', CHR ''|''} \<or> js_space c"

fun split_tags :: "string \<Rightarrow> string list" where
  "split_tags [] = [[]]"
| "split_tags (c # s) =
     (case split_tags s of
        [] \<Rightarrow> []
      | t # ts \<Rightarrow> if tag_separator c then [] # t # ts else (c # t) # ts)"

definition parseTags :: "string option \<Rightarrow> string list" where
  "parseTags tagsString =
     (case tagsString of
        None \<Rightarrow> []
      | Some s \<Rightarrow> if s = [] then [] else filter (\<lambda>t. t \<noteq> []) (map trim (split_tags s)))"

definition filterByTag :: "PricingModel list \<Rightarrow> string \<Rightarrow> PricingModel list" where
  "filterByTag models tag =
     (if tag = FILTER_ALL then models
      else filter (\<lambda>m. or_text (pm_tags m) [] \<noteq> [] \<and> lower tag \<in> set (map lower (parseTags (pm_tags m)))) models)"

definition getModelPrice :: "PricingModel \<Rightarrow> rat" where
  "getModelPrice model =
     (if pm_quota_type model = 0 then pm_model_ratio model
      else case pm_model_price model of Some p \<Rightarrow> p | None \<Rightarrow> 0)"

type_synonym collation = "string \<Rightarrow> string \<Rightarrow> rat"

definition sort_order :: "collation \<Rightarrow> string \<Rightarrow> (PricingModel \<Rightarrow> PricingModel \<Rightarrow> rat) option" where
  "sort_order localeCompare sortBy =
     (if sortBy = ''name'' then Some (\<lambda>a b. localeCompare (or_text (pm_name a) []) (or_text (pm_name b) []))
      else if sortBy = ''price-low'' then Some (\<lambda>a b. getModelPrice a - getModelPrice b)
      else if sortBy = ''price-high'' then Some (\<lambda>a b. getModelPrice b - getModelPrice a)
      else None)"

definition sortModels :: "collation \<Rightarrow> PricingModel list \<Rightarrow> string \<Rightarrow> PricingModel list" where
  "sortModels localeCompare models sortBy =
     (case sort_order localeCompare sortBy of Some cmp \<Rightarrow> js_sort cmp models | None \<Rightarrow> models)"

record catalogue_filters =
  f_search :: string
  f_vendor :: string
  f_group :: string
  f_quotaType :: string
  f_endpointType :: string
  f_tag :: string
  f_sortBy :: string

definition filterAndSortModels :: "collation \<Rightarrow> PricingModel list \<Rightarrow> catalogue_filters \<Rightarrow> PricingModel list" where
  "filterAndSortModels localeCompare models filters =
     (let result = filterBySearch models (f_search filters);
          result = filterByVendor result (f_vendor filters);
          result = filterByGroup result (f_group filters);
          result = filterByQuotaType result (f_quotaType filters);
          result = filterByEndpointType result (f_endpointType filters);
          result = filterByTag result (f_tag filters)
      in sortModels localeCompare result (f_sortBy filters))"

definition extractAllTags :: "collation \<Rightarrow> PricingModel list \<Rightarrow> string list" where
  "extractAllTags localeCompare models =
     js_sort localeCompare (fold (\<lambda>model tagSet. fold (\<lambda>tag. set_add (lower tag)) (parseTags (pm_tags model)) tagSet) models [])"

section \<open>The hooks\<close>

definition price_rate :: "rat option \<Rightarrow> rat" where
  "price_rate price = max (orelse price 1) (1 / 1000)"

definition usd_rate :: "rat option \<Rightarrow> rat option \<Rightarrow> rat" where
  "usd_rate price usd_exchange_rate = max (orelse usd_exchange_rate (price_rate price)) (1 / 1000)"

text \<open>The vendors by identifier, a later one replacing an earlier one, and the models joined with them.\<close>

definition join_vendor :: "(rat \<times> string) list \<Rightarrow> (string \<times> js_value) list \<Rightarrow> PricingModel \<Rightarrow> PricingModel" where
  "join_vendor vendors groupRatio model =
     model\<lparr>pm_vendor_name := (if pm_vendor_id model = 0 then None else map_of (rev vendors) (pm_vendor_id model)),
           pm_group_ratio := Some groupRatio\<rparr>"

type_synonym FilterState = "(string \<times> js_value) list"

definition updateFilters :: "(string \<times> js_value) list \<Rightarrow> FilterState \<Rightarrow> FilterState" where
  "updateFilters updates prev = filter (\<lambda>(k, v). v \<noteq> JUndefined \<and> v \<noteq> JNull) (spread prev updates)"

definition filter_text :: "string \<Rightarrow> string \<Rightarrow> FilterState \<Rightarrow> string" where
  "filter_text k dflt st = (case map_of st k of Some (JString s) \<Rightarrow> if s = [] then dflt else s | _ \<Rightarrow> dflt)"

definition searchInput :: "FilterState \<Rightarrow> string" where "searchInput = filter_text ''search'' []"
definition sortBy :: "FilterState \<Rightarrow> string" where "sortBy = filter_text ''sort'' ''name''"

definition current_filters :: "FilterState \<Rightarrow> catalogue_filters" where
  "current_filters st =
     \<lparr>f_search = searchInput st, f_vendor = filter_text ''vendor'' FILTER_ALL st, f_group = filter_text ''group'' FILTER_ALL st,
      f_quotaType = filter_text ''quotaType'' FILTER_ALL st, f_endpointType = filter_text ''endpointType'' FILTER_ALL st,
      f_tag = filter_text ''tag'' FILTER_ALL st, f_sortBy = sortBy st\<rparr>"

datatype filter_action = SetSearchInput string | SetSortBy string | SetVendorFilter string | SetGroupFilter string
  | SetQuotaTypeFilter string | SetEndpointTypeFilter string | SetTagFilter string | SetTokenUnit TokenUnit
  | SetViewMode string | SetShowRechargePrice bool | ClearFilters | ClearSearch

definition unless :: "string \<Rightarrow> string \<Rightarrow> js_value" where
  "unless dflt v = (if v = dflt then JUndefined else JString v)"

fun filter_act :: "filter_action \<Rightarrow> FilterState \<Rightarrow> FilterState" where
  "filter_act (SetSearchInput v) = updateFilters [(''search'', unless [] v)]"
| "filter_act (SetSortBy v) = updateFilters [(''sort'', unless ''name'' v)]"
| "filter_act (SetVendorFilter v) = updateFilters [(''vendor'', unless FILTER_ALL v)]"
| "filter_act (SetGroupFilter v) = updateFilters [(''group'', unless FILTER_ALL v)]"
| "filter_act (SetQuotaTypeFilter v) = updateFilters [(''quotaType'', unless FILTER_ALL v)]"
| "filter_act (SetEndpointTypeFilter v) = updateFilters [(''endpointType'', unless FILTER_ALL v)]"
| "filter_act (SetTagFilter v) = updateFilters [(''tag'', unless FILTER_ALL v)]"
| "filter_act (SetTokenUnit v) = updateFilters [(''tokenUnit'', if v = UnitM then JUndefined else JString ''K'')]"
| "filter_act (SetViewMode v) = updateFilters [(''view'', unless ''card'' v)]"
| "filter_act (SetShowRechargePrice v) = updateFilters [(''rechargePrice'', if v then JBool True else JUndefined)]"
| "filter_act ClearFilters = updateFilters [(''vendor'', JUndefined), (''group'', JUndefined), (''quotaType'', JUndefined),
     (''endpointType'', JUndefined), (''tag'', JUndefined)]"
| "filter_act ClearSearch = updateFilters [(''search'', JUndefined)]"

definition token_unit :: "FilterState \<Rightarrow> TokenUnit" where
  "token_unit st = (if map_of st ''tokenUnit'' = Some (JString ''K'') then UnitK else UnitM)"

definition normalizeViewMode :: "js_value option \<Rightarrow> string" where
  "normalizeViewMode v = (if v = Some (JString ''table'') then ''table'' else ''card'')"

definition show_recharge :: "FilterState \<Rightarrow> bool" where
  "show_recharge st \<longleftrightarrow> map_of st ''rechargePrice'' = Some (JBool True)"

definition filter_values :: "FilterState \<Rightarrow> string list" where
  "filter_values st = map (\<lambda>k. filter_text k FILTER_ALL st) [''vendor'', ''group'', ''quotaType'', ''endpointType'', ''tag'']"

definition hasActiveFilters :: "FilterState \<Rightarrow> bool" where
  "hasActiveFilters st \<longleftrightarrow> list_ex (\<lambda>v. v \<noteq> FILTER_ALL) (filter_values st)"

definition activeFilterCount :: "FilterState \<Rightarrow> nat" where
  "activeFilterCount st = sum_list (map (\<lambda>v. if v \<noteq> FILTER_ALL then 1 else 0) (filter_values st))"

definition filteredModels :: "collation \<Rightarrow> PricingModel list \<Rightarrow> FilterState \<Rightarrow> PricingModel list" where
  "filteredModels localeCompare models st =
     (if models = [] then [] else filterAndSortModels localeCompare models (current_filters st))"

definition availableTags :: "collation \<Rightarrow> PricingModel list \<Rightarrow> string list" where
  "availableTags localeCompare models = (if models = [] then [] else extractAllTags localeCompare models)"

section \<open>Models billed by an expression\<close>












text \<open>With the rate that the page uses, the recharge price in the display currency is the price in dollars times
  the price of a dollar of credit.\<close>

lemma recharge_price: "applyRechargeRate price True rate (usd_rate p u) * usd_rate p u = price * rate"
proof -
  have "usd_rate p u > 0" by (simp add: usd_rate_def less_max_iff_disj)
  then show ?thesis by (simp add: applyRechargeRate_def)
qed

section \<open>The displayed ratio is the best one\<close>

lemma fold_smaller:
  "fold (smaller_ratio rs) gs acc = Some x \<Longrightarrow>
     (\<forall>y. acc = Some y \<longrightarrow> x \<le> y) \<and> (\<forall>g r. g \<in> set gs \<and> map_of rs g = Some (JNumber (Fin r)) \<longrightarrow> x \<le> r) \<and>
     (acc = Some x \<or> (\<exists>g. g \<in> set gs \<and> map_of rs g = Some (JNumber (Fin x))))"
proof (induction gs arbitrary: acc)
  case (Cons g gs)
  show ?case
  proof (cases "\<exists>r. map_of rs g = Some (JNumber (Fin r))")
    case True
    then obtain r where r: "map_of rs g = Some (JNumber (Fin r))" by blast
    define acc' where "acc' = (case acc of None \<Rightarrow> r | Some y \<Rightarrow> if r < y then r else y)"
    have "smaller_ratio rs g acc = Some acc'" by (simp add: smaller_ratio_def r acc'_def split: option.split)
    with Cons.IH [of "Some acc'"] Cons.prems
    have i: "x \<le> acc'" "\<And>h q. h \<in> set gs \<Longrightarrow> map_of rs h = Some (JNumber (Fin q)) \<Longrightarrow> x \<le> q"
      "acc' = x \<or> (\<exists>h. h \<in> set gs \<and> map_of rs h = Some (JNumber (Fin x)))" by auto
    have "acc' \<le> r" "acc = Some y \<Longrightarrow> acc' \<le> y" "acc' = r \<or> acc = Some acc'" for y
      by (auto simp: acc'_def split: option.splits)
    with i r show ?thesis by fastforce
  next
    case False
    then have "smaller_ratio rs g acc = acc"
      by (simp add: smaller_ratio_def split: option.split js_value.split js_number.split)
    with Cons.IH [of acc] Cons.prems False show ?thesis by auto
  qed
qed simp

lemma fold_smaller_None:
  "fold (smaller_ratio rs) gs acc = None \<Longrightarrow> acc = None \<and> (\<forall>g r. g \<in> set gs \<longrightarrow> map_of rs g \<noteq> Some (JNumber (Fin r)))"
proof (induction gs arbitrary: acc)
  case (Cons g gs)
  then have "smaller_ratio rs g acc = None" "\<forall>h r. h \<in> set gs \<longrightarrow> map_of rs h \<noteq> Some (JNumber (Fin r))" by auto
  then show ?case by (auto simp: smaller_ratio_def split: option.splits js_value.splits js_number.splits)
qed simp

section \<open>Filtering and sorting\<close>

text \<open>What the active filters ask of a model.\<close>

definition model_shown :: "catalogue_filters \<Rightarrow> PricingModel \<Rightarrow> bool" where
  "model_shown f m \<longleftrightarrow>
     (f_search f = [] \<or> list_ex (contains_lower (lower (f_search f)))
        [pm_name m, pm_description m, pm_tags m, pm_vendor_name m]) \<and>
     (f_vendor f = FILTER_ALL \<or> pm_vendor_name m = Some (f_vendor f)) \<and>
     (f_group f = FILTER_ALL \<or> f_group f \<in> set (enabled_groups m)) \<and>
     (f_quotaType f = FILTER_ALL \<or> pm_quota_type m = (if f_quotaType f = ''token'' then 0 else 1)) \<and>
     (f_endpointType f = FILTER_ALL \<or> (\<exists>ts. pm_endpoint_types m = Some ts \<and> f_endpointType f \<in> set ts)) \<and>
     (f_tag f = FILTER_ALL \<or> lower (f_tag f) \<in> set (map lower (parseTags (pm_tags m))))"

lemma parseTags_none: "or_text t [] = [] \<Longrightarrow> parseTags t = []"
  by (auto simp: parseTags_def or_text_def split: option.splits if_splits)

lemma filter_stages:
  "filterByTag (filterByEndpointType (filterByQuotaType (filterByGroup (filterByVendor
     (filterBySearch models (f_search f)) (f_vendor f)) (f_group f)) (f_quotaType f)) (f_endpointType f)) (f_tag f) =
   filter (model_shown f) models"
proof -
  have s: "filterBySearch ms (f_search f) = filter (\<lambda>m. f_search f = [] \<or> list_ex (contains_lower (lower (f_search f)))
      [pm_name m, pm_description m, pm_tags m, pm_vendor_name m]) ms" for ms
    by (simp add: filterBySearch_def Let_def)
  have v: "filterByVendor ms (f_vendor f) = filter (\<lambda>m. f_vendor f = FILTER_ALL \<or> pm_vendor_name m = Some (f_vendor f)) ms" for ms
    by (simp add: filterByVendor_def)
  have g: "filterByGroup ms (f_group f) = filter (\<lambda>m. f_group f = FILTER_ALL \<or> f_group f \<in> set (enabled_groups m)) ms" for ms
    by (simp add: filterByGroup_def)
  have q: "filterByQuotaType ms (f_quotaType f) =
      filter (\<lambda>m. f_quotaType f = FILTER_ALL \<or> pm_quota_type m = (if f_quotaType f = ''token'' then 0 else 1)) ms" for ms
    by (simp add: filterByQuotaType_def)
  have e: "filterByEndpointType ms (f_endpointType f) =
      filter (\<lambda>m. f_endpointType f = FILTER_ALL \<or> (\<exists>ts. pm_endpoint_types m = Some ts \<and> f_endpointType f \<in> set ts)) ms" for ms
    by (auto simp: filterByEndpointType_def intro!: filter_cong split: option.split)
  have t: "filterByTag ms (f_tag f) =
      filter (\<lambda>m. f_tag f = FILTER_ALL \<or> lower (f_tag f) \<in> set (map lower (parseTags (pm_tags m)))) ms" for ms
    using parseTags_none by (force simp: filterByTag_def intro!: filter_cong)
  show ?thesis unfolding s v g q e t filter_filter by (rule filter_cong) (auto simp: model_shown_def)
qed

lemma catalogue_shown: "filterAndSortModels collate models f = sortModels collate (filter (model_shown f) models) (f_sortBy f)"
  by (simp only: filterAndSortModels_def Let_def filter_stages)

lemma sort_order_comparator: "comparator collate \<Longrightarrow> sort_order collate s = Some cmp \<Longrightarrow> comparator cmp"
  by (auto simp: sort_order_def comparator_def split: if_splits)

definition sample_model :: PricingModel where
  "sample_model =
     \<lparr>pm_name = Some ''gpt'', pm_description = None, pm_vendor_id = 1, pm_vendor_name = Some ''OpenAI'', pm_quota_type = 0,
      pm_model_ratio = 2, pm_completion_ratio = 4, pm_model_price = None, pm_cache_ratio = None, pm_create_cache_ratio = None,
      pm_image_ratio = None, pm_audio_ratio = None, pm_audio_completion_ratio = None,
      pm_enable_groups = Some [''default'', ''vip''], pm_tags = Some ''Vision'', pm_endpoint_types = None,
      pm_group_ratio = Some [(''default'', JNumber (Fin 1)), (''vip'', JNumber (Fin (1 / 2)))],
      pm_billing_mode = None, pm_billing_expr = None\<rparr>"

text \<open>Without a selected group, the catalogue prices a model with the smallest ratio configured for one of its
  groups, and with ratio one exactly when none of them has a configured ratio.\<close>

lemma best_ratio_displayed:
  assumes "selectedGroup = None \<or> selectedGroup = Some FILTER_ALL"
  shows "let r = getDisplayGroupRatio model selectedGroup;
             configured = (\<lambda>g q. g \<in> set (enabled_groups model) \<and> map_of (ratios_of model) g = Some (JNumber (Fin q)))
         in (\<forall>g q. configured g q \<longrightarrow> r \<le> q) \<and> ((\<exists>g. configured g r) \<or> (r = 1 \<and> (\<nexists>g q. configured g q)))"
proof -
  have r: "getDisplayGroupRatio model selectedGroup =
      (case fold (smaller_ratio (ratios_of model)) (enabled_groups model) None of Some r \<Rightarrow> r | None \<Rightarrow> 1)"
    using assms by (auto simp: getDisplayGroupRatio_def Let_def or_text_def FILTER_ALL_def)
  show ?thesis
  proof (cases "fold (smaller_ratio (ratios_of model)) (enabled_groups model) None")
    case None
    from fold_smaller_None [OF None] show ?thesis by (auto simp: r None Let_def)
  next
    case (Some x)
    from fold_smaller [OF Some] show ?thesis by (auto simp: r Some Let_def)
  qed
qed

lemma best_ratio_displayed_witness: "getDisplayGroupRatio sample_model None \<le> 1 / 2"
proof -
  have "''vip'' \<in> set (enabled_groups sample_model) \<and> map_of (ratios_of sample_model) ''vip'' = Some (JNumber (Fin (1 / 2)))"
    by (simp add: enabled_groups_def ratios_of_def sample_model_def)
  with best_ratio_displayed [of None sample_model] show ?thesis unfolding Let_def by blast
qed

text \<open>The catalogue lists exactly the models that satisfy all active filters, each as often as it occurs, in
  the chosen order.\<close>

lemma catalogue_complete_and_sorted:
  assumes "comparator collate" "sort_order collate (f_sortBy filters) = Some cmp"
  shows "mset (filterAndSortModels collate models filters) = filter_mset (model_shown filters) (mset models) \<and>
    sorted_wrt (\<lambda>a b. cmp a b \<le> 0) (filterAndSortModels collate models filters)"
  using assms sorted_js_sort [OF sort_order_comparator [OF assms]]
  by (simp add: catalogue_shown sortModels_def)

definition by_length :: collation where
  "by_length a b = of_nat (length a) - of_nat (length b)"

definition sample_filters :: catalogue_filters where
  "sample_filters = \<lparr>f_search = ''gpt'', f_vendor = FILTER_ALL, f_group = ''vip'', f_quotaType = ''token'',
     f_endpointType = FILTER_ALL, f_tag = FILTER_ALL, f_sortBy = ''name''\<rparr>"

lemma catalogue_complete_and_sorted_witness:
  "comparator by_length \<and>
   mset (filterAndSortModels by_length [sample_model] sample_filters) = filter_mset (model_shown sample_filters) (mset [sample_model])"
proof -
  have c: "comparator by_length" by (auto simp: comparator_def by_length_def)
  have "sort_order by_length (f_sortBy sample_filters) =
      Some (\<lambda>a b. by_length (or_text (pm_name a) []) (or_text (pm_name b) []))"
    by (simp add: sort_order_def sample_filters_def)
  from catalogue_complete_and_sorted [OF c this] c show ?thesis by blast
qed

section \<open>Tags\<close>

lemma fold_set_add: "set (fold (\<lambda>x. set_add (f x)) xs acc) = f ` set xs \<union> set acc"
  by (induction xs arbitrary: acc) auto

lemma extracted_tags:
  "set (extractAllTags collate models) = (\<Union>m\<in>set models. lower ` set (parseTags (pm_tags m)))"
proof -
  have "set (fold (\<lambda>model. fold (\<lambda>tag. set_add (lower tag)) (parseTags (pm_tags model))) models acc) =
      (\<Union>m\<in>set models. lower ` set (parseTags (pm_tags m))) \<union> set acc" for acc
    by (induction models arbitrary: acc) (auto simp: fold_set_add)
  then show ?thesis by (simp add: extractAllTags_def)
qed

lemma tag_selects:
  assumes "tag \<in> set (availableTags collate models)"
  shows "filterByTag models tag \<noteq> []"
proof -
  from assms obtain m t where m: "m \<in> set models" "t \<in> set (parseTags (pm_tags m))" "tag = lower t"
    by (auto simp: availableTags_def extracted_tags split: if_splits)
  then have "lower tag \<in> set (map lower (parseTags (pm_tags m)))" by (simp add: comp_def)
  moreover have "or_text (pm_tags m) [] \<noteq> []" using m(2) parseTags_none by fastforce
  ultimately show ?thesis using m(1) by (auto simp: filterByTag_def filter_empty_conv)
qed

section \<open>The state of the filters\<close>

lemma map_of_spread:
  "map_of (spread a b) k = (case map_of (rev b) k of Some v \<Rightarrow> Some v | None \<Rightarrow> map_of a k)"
  unfolding spread_def
proof (induction b arbitrary: a)
  case (Cons x b)
  then show ?case by (cases x) (auto simp: update_conv map_add_def split: option.splits)
qed simp

lemma distinct_spread: "distinct (map fst a) \<Longrightarrow> distinct (map fst (spread a b))"
  unfolding spread_def
proof (induction b arbitrary: a)
  case (Cons x b)
  then show ?case by (cases x) (simp add: distinct_update)
qed simp

text \<open>The keys of a state are distinct, as those of an object are.\<close>

definition filters_ok :: "FilterState \<Rightarrow> bool" where
  "filters_ok st \<longleftrightarrow> distinct (map fst st)"

lemma filters_update_ok: "filters_ok st \<Longrightarrow> filters_ok (updateFilters us st)"
  by (simp add: filters_ok_def updateFilters_def distinct_spread distinct_map_filter)

lemma filters_act_ok: "filters_ok st \<Longrightarrow> filters_ok (filter_act a st)"
  by (cases a) (simp_all add: filters_update_ok)

definition present :: "js_value \<Rightarrow> js_value option" where
  "present v = (if v = JUndefined \<or> v = JNull then None else Some v)"

lemma map_of_updateFilters:
  "filters_ok st \<Longrightarrow> map_of (updateFilters us st) k =
     Option.bind (case map_of (rev us) k of Some v \<Rightarrow> Some v | None \<Rightarrow> map_of st k) present"
  by (auto simp: updateFilters_def filters_ok_def map_of_filter_keys distinct_spread map_of_spread present_def
      split: option.splits)

lemma filter_text_update:
  "filters_ok st \<Longrightarrow> filter_text k d (updateFilters us st) =
     (case map_of (rev us) k of Some v \<Rightarrow> filter_text k d [(k, v)] | None \<Rightarrow> filter_text k d st)"
  by (auto simp: filter_text_def map_of_updateFilters present_def split: option.splits js_value.splits)

lemma filter_text_single: "filter_text k d [(k, v)] = (case v of JString s \<Rightarrow> if s = [] then d else s | _ \<Rightarrow> d)"
  by (simp add: filter_text_def)

lemma filters_run_ok: "filters_ok st \<Longrightarrow> filters_ok (fold filter_act as st)"
  by (induction as arbitrary: st) (simp_all add: filters_act_ok)

lemma cleared:
  assumes "filters_ok st"
  shows "current_filters (filter_act ClearFilters st) =
    \<lparr>f_search = searchInput st, f_vendor = FILTER_ALL, f_group = FILTER_ALL, f_quotaType = FILTER_ALL,
     f_endpointType = FILTER_ALL, f_tag = FILTER_ALL, f_sortBy = sortBy st\<rparr>"
    "filter_values (filter_act ClearFilters st) = replicate 5 FILTER_ALL"
  using assms by (simp_all add: current_filters_def searchInput_def sortBy_def filter_values_def filter_text_update
      filter_text_single numeral_eq_Suc)

text \<open>Whatever was chosen before, clearing the filters leaves no filter active and lists every model that matches
  the search, in the order chosen before.\<close>

lemma clearing_filters_restores:
  assumes "filters_ok start"
  shows "let before = fold filter_act actions start; st = filter_act ClearFilters before in
    \<not> hasActiveFilters st \<and> activeFilterCount st = 0 \<and>
    filteredModels collate models st = sortModels collate (filterBySearch models (searchInput before)) (sortBy before)"
proof -
  let ?before = "fold filter_act actions start"
  note ok = filters_run_ok [OF assms, of actions]
  have "sortModels collate [] s = []" for s by (simp add: sortModels_def split: option.split)
  moreover have "filterBySearch [] q = []" for q by (simp add: filterBySearch_def Let_def)
  ultimately show ?thesis
    by (simp add: Let_def hasActiveFilters_def activeFilterCount_def cleared [OF ok] filteredModels_def filterAndSortModels_def
        filterByVendor_def filterByGroup_def filterByQuotaType_def filterByEndpointType_def filterByTag_def
        numeral_eq_Suc del: filter_act.simps)
qed

lemma clearing_filters_restores_witness:
  "let before = fold filter_act [SetSearchInput ''GPT'', SetVendorFilter ''nobody''] [] in
   searchInput before = ''GPT'' \<and> hasActiveFilters before \<and> \<not> hasActiveFilters (filter_act ClearFilters before)"
  using clearing_filters_restores [of "[]" "[SetSearchInput ''GPT'', SetVendorFilter ''nobody'']"]
  by (simp add: filters_ok_def Let_def searchInput_def hasActiveFilters_def filter_values_def updateFilters_def spread_def
      unless_def filter_text_def FILTER_ALL_def)

lemma sorted_empty [simp]: "sortModels collate models s = [] \<longleftrightarrow> models = []"
  by (simp add: sortModels_def split: option.split) (metis length_0_conv length_js_sort)

text \<open>Each tag that the page offers leads to a model: after clearing the filters and the search, choosing it
  gives a nonempty list.\<close>

lemma offered_tag_leads_to_models:
  assumes "filters_ok start" "tag \<in> set (availableTags collate models)"
  shows "filteredModels collate models
    (fold filter_act (actions @ [ClearFilters, ClearSearch, SetTagFilter tag]) start) \<noteq> []"
proof -
  let ?st = "filter_act ClearSearch (filter_act ClearFilters (fold filter_act actions start))"
  note ok = filters_act_ok [OF filters_act_ok [OF filters_run_ok [OF assms(1), of actions]], of ClearSearch ClearFilters]
  have "tag \<noteq> []"
    using assms(2) by (auto simp: availableTags_def extracted_tags parseTags_def split: if_splits option.splits)
  then have "current_filters (filter_act (SetTagFilter tag) ?st) =
      \<lparr>f_search = [], f_vendor = FILTER_ALL, f_group = FILTER_ALL, f_quotaType = FILTER_ALL,
       f_endpointType = FILTER_ALL, f_tag = tag, f_sortBy = sortBy ?st\<rparr>"
    using ok filters_act_ok [OF filters_run_ok [OF assms(1), of actions], of ClearFilters] filters_run_ok [OF assms(1), of actions]
    by (auto simp: current_filters_def searchInput_def sortBy_def filter_text_update filter_text_single unless_def)
  moreover have "models \<noteq> []" using assms(2) by (auto simp: availableTags_def split: if_splits)
  ultimately show ?thesis
    using tag_selects [OF assms(2)]
    by (simp add: filteredModels_def filterAndSortModels_def filterBySearch_def filterByVendor_def filterByGroup_def
        filterByQuotaType_def filterByEndpointType_def del: filter_act.simps)
qed

lemma offered_tag_leads_to_models_witness:
  "''vision'' \<in> set (availableTags by_length [sample_model]) \<and>
   filteredModels by_length [sample_model]
     (fold filter_act ([SetVendorFilter ''nobody''] @ [ClearFilters, ClearSearch, SetTagFilter ''vision'']) []) \<noteq> []"
proof -
  have "parseTags (pm_tags sample_model) = [''Vision'']"
    by (simp add: sample_model_def parseTags_def tag_separator_def js_space_def trim_id)
  moreover have "lower ''Vision'' = ''vision''" by (simp add: lower_char_def char_of_eq_iff)
  ultimately have "''vision'' \<in> set (availableTags collate [sample_model])" for collate
    by (simp add: availableTags_def extracted_tags)
  then show ?thesis
    using offered_tag_leads_to_models [of "[]" "''vision''" by_length "[sample_model]" "[SetVendorFilter ''nobody'']"]
    unfolding filters_ok_def by (simp del: filter_act.simps)
qed

section \<open>From the tier editor to the summary\<close>















end
