(* ===== verification/Ratio_Sync.thy ===== *)
theory Ratio_Sync
  imports Interfaces Js_Coercion
begin

text \<open>
  Choosing prices from upstream channels (\<^verbatim>\<open>web/src/features/system-settings/models/upstream-ratio-sync-helpers.ts\<close>):
  which fields are shown, and how selections and removals change the resolutions, the values chosen per model.
  A field is named by its string, a resolution is a list of fields in the order of insertion.  A batch of
  selections, which the code applies to drafts, equals the selections one by one; a model never ends up with
  both a fixed price and ratios; removals undo selections of new models.
\<close>

section \<open>Fields\<close>

record RatioDifferenceEntry =
  d_current :: js_value
  d_upstreams :: "(string \<times> js_value) list"
  d_confidence :: "(string \<times> bool) list"

type_synonym RatioType = string
type_synonym ratio_types = "(RatioType \<times> RatioDifferenceEntry) list"
type_synonym differences = "(string \<times> ratio_types) list"
type_synonym resolution = "(RatioType \<times> js_value) list"
type_synonym ResolutionsMap = "(string \<times> resolution) list"

record ResolutionSelection =
  s_model :: string
  s_ratioType :: RatioType
  s_value :: js_value
  s_sourceName :: string

record ResolutionRemoval =
  x_model :: string
  x_ratioType :: RatioType

definition RATIO_SYNC_FIELDS :: "RatioType list" where
  "RATIO_SYNC_FIELDS = [''model_ratio'', ''completion_ratio'', ''cache_ratio'', ''create_cache_ratio'', ''image_ratio'',
     ''audio_ratio'', ''audio_completion_ratio'']"

definition SYNC_FIELD_ORDER :: "RatioType list" where
  "SYNC_FIELD_ORDER = RATIO_SYNC_FIELDS @ [''model_price'', ''billing_mode'', ''billing_expr'']"

definition NUMERIC_SYNC_FIELDS :: "RatioType set" where
  "NUMERIC_SYNC_FIELDS = set (RATIO_SYNC_FIELDS @ [''model_price''])"

definition RATIO_TYPE_OPTIONS :: "(string \<times> RatioType) list" where
  "RATIO_TYPE_OPTIONS =
     [(''Model ratio'', ''model_ratio''), (''Completion ratio'', ''completion_ratio''), (''Cache ratio'', ''cache_ratio''),
      (''Create cache ratio'', ''create_cache_ratio''), (''Image ratio'', ''image_ratio''), (''Audio ratio'', ''audio_ratio''),
      (''Audio completion ratio'', ''audio_completion_ratio''), (''Fixed price'', ''model_price''),
      (''Expression billing'', ''billing_expr'')]"

definition getSyncFieldLabel :: "RatioType \<Rightarrow> (string \<Rightarrow> string) \<Rightarrow> string" where
  "getSyncFieldLabel ratioType t =
     (case find (\<lambda>(l, v). v = ratioType) RATIO_TYPE_OPTIONS of Some (l, v) \<Rightarrow> t l | None \<Rightarrow> ratioType)"

text \<open>\<^verbatim>\<open>ratioTypes[f]?.upstreams?.[source]\<close>.\<close>

definition upstream_value :: "ratio_types \<Rightarrow> RatioType \<Rightarrow> string \<Rightarrow> js_value" where
  "upstream_value ratioTypes f sourceName =
     (case map_of ratioTypes f of
        None \<Rightarrow> JUndefined
      | Some e \<Rightarrow> (case map_of (d_upstreams e) sourceName of Some v \<Rightarrow> v | None \<Rightarrow> JUndefined))"

definition isSelectableUpstreamValue :: "js_value \<Rightarrow> bool" where
  "isSelectableUpstreamValue v \<longleftrightarrow> v \<noteq> JNull \<and> v \<noteq> JUndefined \<and> v \<noteq> JString ''same''"

definition getOrderedRatioTypes :: "ratio_types \<Rightarrow> string option \<Rightarrow> RatioType list" where
  "getOrderedRatioTypes ratioTypes flt =
     (let keys = map fst ratioTypes;
          ordered = filter (\<lambda>f. f \<in> set keys) SYNC_FIELD_ORDER @ filter (\<lambda>f. f \<notin> set SYNC_FIELD_ORDER) keys
      in case flt of
           None \<Rightarrow> ordered
         | Some f \<Rightarrow> if f = [] \<or> f = ''__all__'' then ordered else filter (\<lambda>g. g = f) ordered)"

definition getPreferredSyncField :: "ratio_types \<Rightarrow> RatioType \<Rightarrow> string \<Rightarrow> RatioType" where
  "getPreferredSyncField ratioTypes ratioType sourceName =
     (if ratioType \<noteq> ''billing_expr'' \<and> isSelectableUpstreamValue (upstream_value ratioTypes ''billing_expr'' sourceName)
      then ''billing_expr'' else ratioType)"

definition getVisibleRatioTypesForSource :: "ratio_types \<Rightarrow> string \<Rightarrow> string option \<Rightarrow> RatioType list" where
  "getVisibleRatioTypesForSource ratioTypes sourceName flt =
     filter (\<lambda>ratioType. getPreferredSyncField ratioTypes ratioType sourceName = ratioType)
       (getOrderedRatioTypes ratioTypes flt)"

definition getAlignedRatioTypes :: "ratio_types \<Rightarrow> string list \<Rightarrow> string option \<Rightarrow> RatioType list" where
  "getAlignedRatioTypes ratioTypes sourceNames flt =
     (let ordered = getOrderedRatioTypes ratioTypes flt in
      if sourceNames = [] then ordered
      else let visible = concat (map (\<lambda>s. getVisibleRatioTypesForSource ratioTypes s flt) sourceNames)
           in filter (\<lambda>ratioType. ratioType \<in> set visible) ordered)"

datatype billing_category = PriceCategory | RatioCategory | TieredCategory

definition getBillingCategory :: "RatioType \<Rightarrow> billing_category" where
  "getBillingCategory ratioType =
     (if ratioType = ''model_price'' then PriceCategory
      else if ratioType = ''billing_mode'' \<or> ratioType = ''billing_expr'' then TieredCategory else RatioCategory)"

section \<open>Selections\<close>

definition resolution_of :: "ResolutionsMap \<Rightarrow> string \<Rightarrow> resolution" where
  "resolution_of resolutions model = (case map_of resolutions model of Some r \<Rightarrow> r | None \<Rightarrow> [])"

definition isSelectedResolutionValue :: "ResolutionsMap \<Rightarrow> string \<Rightarrow> RatioType \<Rightarrow> js_value \<Rightarrow> bool" where
  "isSelectedResolutionValue resolutions model ratioType upstreamValue =
     (if \<not> isSelectableUpstreamValue upstreamValue then False
      else case map_of (resolution_of resolutions model) ratioType of
             None \<Rightarrow> False
           | Some selectedValue \<Rightarrow>
               if ratioType \<in> NUMERIC_SYNC_FIELDS
               then (case (to_number selectedValue, to_number upstreamValue) of (Fin a, Fin b) \<Rightarrow> a = b | _ \<Rightarrow> False)
               else selectedValue = upstreamValue)"

definition diffs_of :: "differences \<Rightarrow> string \<Rightarrow> ratio_types" where
  "diffs_of differences model = (case map_of differences model of Some d \<Rightarrow> d | None \<Rightarrow> [])"

definition resolveResolutionSelection :: "differences \<Rightarrow> ResolutionSelection \<Rightarrow> ResolutionSelection" where
  "resolveResolutionSelection differences sel =
     (let modelDiffs = diffs_of differences (s_model sel);
          preferredType = getPreferredSyncField modelDiffs (s_ratioType sel) (s_sourceName sel);
          up = upstream_value modelDiffs preferredType (s_sourceName sel)
      in sel\<lparr>s_ratioType := preferredType,
             s_value := (if preferredType = s_ratioType sel \<or> up = JUndefined \<or> up = JNull then s_value sel else up)\<rparr>)"

text \<open>The deletion of the fields of the other price category from a draft.\<close>

definition keep_category :: "billing_category \<Rightarrow> resolution \<Rightarrow> resolution" where
  "keep_category category draft =
     filter (\<lambda>(rt, v). \<not> (category \<noteq> TieredCategory \<and> getBillingCategory rt \<noteq> TieredCategory \<and>
        getBillingCategory rt \<noteq> category)) draft"

definition set_tiered :: "ratio_types \<Rightarrow> ResolutionSelection \<Rightarrow> resolution \<Rightarrow> resolution" where
  "set_tiered modelDiffs sel draft =
     (let modeVal = upstream_value modelDiffs ''billing_mode'' (s_sourceName sel);
          exprVal = upstream_value modelDiffs ''billing_expr'' (s_sourceName sel);
          draft1 = (if isSelectableUpstreamValue modeVal then AList.update ''billing_mode'' modeVal draft
                    else if s_ratioType sel = ''billing_expr'' then AList.update ''billing_mode'' (JString ''tiered_expr'') draft
                    else draft)
      in if isSelectableUpstreamValue exprVal then AList.update ''billing_expr'' exprVal draft1 else draft1)"

text \<open>The body of \<^verbatim>\<open>applyResolutionSelectionToDraft\<close> on the draft of the selection's model.\<close>

definition select_field :: "differences \<Rightarrow> ResolutionSelection \<Rightarrow> resolution \<Rightarrow> resolution" where
  "select_field differences sel draft =
     (let final = resolveResolutionSelection differences sel;
          category = getBillingCategory (s_ratioType final);
          draft1 = AList.update (s_ratioType final) (s_value final) (keep_category category draft)
      in if category = TieredCategory \<and> map_of differences (s_model sel) \<noteq> None
         then set_tiered (diffs_of differences (s_model sel)) final draft1 else draft1)"

definition getDraftModelResolution :: "ResolutionsMap \<Rightarrow> ResolutionsMap \<Rightarrow> string \<Rightarrow> resolution" where
  "getDraftModelResolution drafts resolutions model =
     (case map_of drafts model of Some d \<Rightarrow> d | None \<Rightarrow> resolution_of resolutions model)"

definition applyResolutionSelectionToDraft ::
  "ResolutionsMap \<Rightarrow> differences \<Rightarrow> ResolutionSelection \<Rightarrow> ResolutionsMap \<Rightarrow> ResolutionsMap" where
  "applyResolutionSelectionToDraft resolutions differences sel drafts =
     AList.update (s_model sel)
       (select_field differences sel (getDraftModelResolution drafts resolutions (s_model sel))) drafts"

definition put_resolution :: "string \<times> resolution \<Rightarrow> ResolutionsMap \<Rightarrow> ResolutionsMap" where
  "put_resolution = (\<lambda>(model, draft) next. if draft = [] then AList.delete model next else AList.update model draft next)"

definition applyResolutionSelections ::
  "ResolutionsMap \<Rightarrow> differences \<Rightarrow> ResolutionSelection list \<Rightarrow> ResolutionsMap" where
  "applyResolutionSelections resolutions differences selections =
     (if selections = [] then resolutions
      else fold put_resolution (fold (applyResolutionSelectionToDraft resolutions differences) selections []) resolutions)"

definition applyResolutionSelection ::
  "ResolutionsMap \<Rightarrow> differences \<Rightarrow> ResolutionSelection \<Rightarrow> ResolutionsMap" where
  "applyResolutionSelection resolutions differences sel = applyResolutionSelections resolutions differences [sel]"

text \<open>The selections that remain in force, keyed by model and field.\<close>

definition effective_step ::
  "differences \<Rightarrow> ResolutionSelection \<Rightarrow> ((string \<times> RatioType) \<times> ResolutionSelection) list \<Rightarrow>
     ((string \<times> RatioType) \<times> ResolutionSelection) list" where
  "effective_step differences sel effective =
     (let resolved = resolveResolutionSelection differences sel;
          category = getBillingCategory (s_ratioType resolved);
          kept = (if category = TieredCategory then effective
            else filter (\<lambda>(k, existing). \<not> (s_model existing = s_model resolved \<and>
                getBillingCategory (s_ratioType existing) \<noteq> TieredCategory \<and>
                getBillingCategory (s_ratioType existing) \<noteq> category)) effective)
      in AList.update (s_model resolved, s_ratioType resolved) resolved kept)"

definition getEffectiveResolutionSelections ::
  "differences \<Rightarrow> ResolutionSelection list \<Rightarrow> ResolutionSelection list" where
  "getEffectiveResolutionSelections differences selections = map snd (fold (effective_step differences) selections [])"

section \<open>Removals\<close>

definition remove_field :: "RatioType \<Rightarrow> resolution \<Rightarrow> resolution" where
  "remove_field ratioType draft =
     (let d1 = AList.delete ratioType draft;
          d2 = (if ratioType = ''billing_expr'' then AList.delete ''billing_mode'' d1 else d1)
      in if ratioType = ''billing_mode'' then AList.delete ''billing_expr'' d2 else d2)"

definition remove_planned :: "ResolutionsMap \<Rightarrow> string \<times> RatioType list \<Rightarrow> ResolutionsMap \<Rightarrow> ResolutionsMap" where
  "remove_planned resolutions = (\<lambda>(model, ratioTypes) next.
     case map_of resolutions model of
       None \<Rightarrow> next
     | Some current \<Rightarrow> put_resolution (model, fold remove_field ratioTypes current) next)"

definition applyResolutionRemovalPlan :: "ResolutionsMap \<Rightarrow> (string \<times> RatioType list) list \<Rightarrow> ResolutionsMap" where
  "applyResolutionRemovalPlan resolutions plan =
     (if plan = [] then resolutions else fold (remove_planned resolutions) plan resolutions)"

definition plan_removal :: "ResolutionRemoval \<Rightarrow> (string \<times> RatioType list) list \<Rightarrow> (string \<times> RatioType list) list" where
  "plan_removal removal plan =
     (case map_of plan (x_model removal) of
        Some ratioTypes \<Rightarrow> AList.update (x_model removal) (set_add (x_ratioType removal) ratioTypes) plan
      | None \<Rightarrow> AList.update (x_model removal) [x_ratioType removal] plan)"

definition applyResolutionRemovals :: "ResolutionsMap \<Rightarrow> ResolutionRemoval list \<Rightarrow> ResolutionsMap" where
  "applyResolutionRemovals resolutions removals =
     (if removals = [] then resolutions else applyResolutionRemovalPlan resolutions (fold plan_removal removals []))"

definition deleteResolutionField :: "ResolutionsMap \<Rightarrow> string \<Rightarrow> RatioType \<Rightarrow> ResolutionsMap" where
  "deleteResolutionField resolutions model ratioType =
     applyResolutionRemovals resolutions [\<lparr>x_model = model, x_ratioType = ratioType\<rparr>]"

section \<open>A batch is the selections one by one\<close>

lemma update_not_Nil [simp]: "AList.update k v xs \<noteq> []"
  by (cases xs) auto

lemma select_field_not_Nil: "select_field differences sel draft \<noteq> []"
  by (simp add: select_field_def set_tiered_def Let_def)

lemma update_update_same: "AList.update k v (AList.update k w xs) = AList.update k v xs"
  by (induction xs) auto

lemma update_commute:
  "k \<noteq> m \<Longrightarrow> m \<in> fst ` set r \<Longrightarrow> AList.update m x (AList.update k y r) = AList.update k y (AList.update m x r)"
  by (induction r) auto

lemma update_fold:
  "m \<in> fst ` set r \<Longrightarrow> m \<notin> fst ` set ds \<Longrightarrow>
     fold (\<lambda>(k, v). AList.update k v) ds (AList.update m x r) = AList.update m x (fold (\<lambda>(k, v). AList.update k v) ds r)"
proof (induction ds arbitrary: r)
  case (Cons d ds)
  obtain k v where d: "d = (k, v)" by (cases d)
  have "m \<in> fst ` set (AList.update k v r)" using Cons.prems by (simp add: dom_update)
  from Cons.IH [OF this] Cons.prems d update_commute [of k m r x v] show ?case by (cases "k = m") auto
qed simp

lemma fold_update_last:
  "distinct (map fst ds) \<Longrightarrow>
     fold (\<lambda>(k, v). AList.update k v) (AList.update m x ds) r = AList.update m x (fold (\<lambda>(k, v). AList.update k v) ds r)"
proof (induction ds arbitrary: r)
  case (Cons d ds)
  obtain k v where d: "d = (k, v)" by (cases d)
  show ?case
  proof (cases "k = m")
    case True
    with Cons.prems d update_fold [of m "AList.update m v r" ds x] show ?thesis
      by (simp add: dom_update update_update_same)
  next
    case False
    with Cons d show ?thesis by simp
  qed
qed simp

lemma map_of_fold_puts:
  "distinct (map fst ds) \<Longrightarrow>
     map_of (fold (\<lambda>(k, v). AList.update k v) ds r) m = (case map_of ds m of Some v \<Rightarrow> Some v | None \<Rightarrow> map_of r m)"
proof (induction ds arbitrary: r)
  case (Cons d ds)
  obtain k v where d: "d = (k, v)" by (cases d)
  have "map_of ds k = None" using Cons.prems d by (simp add: map_of_eq_None_iff)
  with Cons.IH [of "AList.update k v r"] Cons.prems d show ?case by (simp add: update_conv split: option.split)
qed simp

definition filled :: "ResolutionsMap \<Rightarrow> bool" where
  "filled ds \<longleftrightarrow> distinct (map fst ds) \<and> list_all (\<lambda>(k, v). v \<noteq> []) ds"

lemma filled_update: "filled ds \<Longrightarrow> v \<noteq> [] \<Longrightarrow> filled (AList.update m v ds)"
  by (induction ds) (auto simp: filled_def dom_update)

lemma fold_put: "filled ds \<Longrightarrow> fold put_resolution ds r = fold (\<lambda>(k, v). AList.update k v) ds r"
  by (induction ds arbitrary: r) (auto simp: filled_def put_resolution_def)

text \<open>One selection on its own.\<close>

lemma apply_one:
  "applyResolutionSelection resolutions differences sel =
     AList.update (s_model sel) (select_field differences sel (resolution_of resolutions (s_model sel))) resolutions"
  by (simp add: applyResolutionSelection_def applyResolutionSelections_def applyResolutionSelectionToDraft_def
      getDraftModelResolution_def put_resolution_def select_field_not_Nil)

lemma drafts_step:
  assumes "filled drafts"
  shows "fold put_resolution (applyResolutionSelectionToDraft resolutions differences sel drafts) resolutions =
    applyResolutionSelection (fold put_resolution drafts resolutions) differences sel"
proof -
  have d: "distinct (map fst drafts)" using assms by (simp add: filled_def)
  have "getDraftModelResolution drafts resolutions m = resolution_of (fold put_resolution drafts resolutions) m" for m
    using map_of_fold_puts [OF d, of resolutions m]
    by (simp add: getDraftModelResolution_def resolution_of_def fold_put [OF assms] split: option.splits)
  then show ?thesis
    using filled_update [OF assms select_field_not_Nil] assms d
    by (simp add: applyResolutionSelectionToDraft_def apply_one fold_put fold_update_last)
qed

lemma drafts_filled: "filled drafts \<Longrightarrow> filled (fold (applyResolutionSelectionToDraft resolutions differences) sels drafts)"
  by (induction sels arbitrary: drafts)
    (simp_all add: applyResolutionSelectionToDraft_def filled_update select_field_not_Nil)

lemma drafts_fold:
  "filled drafts \<Longrightarrow>
     fold put_resolution (fold (applyResolutionSelectionToDraft resolutions differences) sels drafts) resolutions =
     fold (\<lambda>sel r. applyResolutionSelection r differences sel) sels (fold put_resolution drafts resolutions)"
proof (induction sels arbitrary: drafts)
  case (Cons sel sels)
  have "filled (applyResolutionSelectionToDraft resolutions differences sel drafts)"
    using drafts_filled [OF Cons.prems, of resolutions differences "[sel]"] by simp
  with Cons.IH drafts_step [OF Cons.prems] show ?case by simp
qed simp

lemma one_by_one:
  "applyResolutionSelections resolutions differences selections =
     fold (\<lambda>sel r. applyResolutionSelection r differences sel) selections resolutions"
  using drafts_fold [of "[]" resolutions differences selections]
  by (simp add: applyResolutionSelections_def filled_def)

text \<open>C26: applying a batch of selections through drafts gives the same resolutions, in the same order, as
  applying the selections one after the other.\<close>

theorem batch_equals_sequential:
  "applyResolutionSelections resolutions differences selections =
     fold (\<lambda>sel r. applyResolutionSelection r differences sel) selections resolutions"
  by (rule one_by_one)

section \<open>No conflicting prices\<close>

definition conflict_free :: "resolution \<Rightarrow> bool" where
  "conflict_free r \<longleftrightarrow> \<not> (list_ex (\<lambda>(f, v). getBillingCategory f = PriceCategory) r \<and>
     list_ex (\<lambda>(f, v). getBillingCategory f = RatioCategory) r)"

definition all_conflict_free :: "ResolutionsMap \<Rightarrow> bool" where
  "all_conflict_free m \<longleftrightarrow> list_all (\<lambda>(k, r). conflict_free r) m"

lemma list_ex_update_key:
  "list_ex (\<lambda>(f, v). P f) (AList.update k x r) \<longleftrightarrow> P k \<or> list_ex (\<lambda>(f, v). P f) r"
  by (induction r) auto

lemma tiered_fields [simp]:
  "getBillingCategory ''billing_mode'' = TieredCategory" "getBillingCategory ''billing_expr'' = TieredCategory"
  by (simp_all add: getBillingCategory_def)

lemma set_tiered_conflicts: "conflict_free (set_tiered d sel r) = conflict_free r"
  by (simp add: set_tiered_def conflict_free_def Let_def list_ex_update_key [where P = "\<lambda>f. getBillingCategory f = _"])

lemma keep_category_kept:
  "category \<noteq> TieredCategory \<Longrightarrow> c \<noteq> category \<Longrightarrow> c \<noteq> TieredCategory \<Longrightarrow>
     \<not> list_ex (\<lambda>(f, v). getBillingCategory f = c) (keep_category category r)"
  by (auto simp: keep_category_def list_ex_iff)

lemma keep_category_tiered: "keep_category TieredCategory r = r"
  by (simp add: keep_category_def)

lemma select_field_conflict_free: "conflict_free r \<Longrightarrow> conflict_free (select_field differences sel r)"
proof -
  assume r: "conflict_free r"
  define final where "final = resolveResolutionSelection differences sel"
  have "conflict_free (AList.update (s_ratioType final) (s_value final)
      (keep_category (getBillingCategory (s_ratioType final)) r))"
    using r keep_category_kept [of "getBillingCategory (s_ratioType final)"]
    by (cases "getBillingCategory (s_ratioType final)")
      (auto simp: conflict_free_def list_ex_update_key [where P = "\<lambda>f. getBillingCategory f = _"] keep_category_tiered)
  then show ?thesis
    by (auto simp: select_field_def Let_def final_def [symmetric] set_tiered_conflicts)
qed

lemma all_conflict_free_get: "all_conflict_free m \<Longrightarrow> conflict_free (resolution_of m k)"
  by (auto simp: all_conflict_free_def resolution_of_def list_all_iff conflict_free_def split: option.splits
      dest!: map_of_SomeD)

lemma all_conflict_free_update: "all_conflict_free m \<Longrightarrow> conflict_free r \<Longrightarrow> all_conflict_free (AList.update k r m)"
  by (induction m) (auto simp: all_conflict_free_def)

lemma delete_conflict_free: "conflict_free r \<Longrightarrow> conflict_free (AList.delete f r)"
  by (auto simp: conflict_free_def list_ex_iff AList.delete_eq)

lemma remove_fields_conflict_free: "conflict_free r \<Longrightarrow> conflict_free (fold remove_field fs r)"
  by (induction fs arbitrary: r) (simp_all add: remove_field_def Let_def delete_conflict_free)

lemma all_conflict_free_delete: "all_conflict_free m \<Longrightarrow> all_conflict_free (AList.delete k m)"
  by (auto simp: all_conflict_free_def list_all_iff AList.delete_eq)

lemma put_conflict_free: "all_conflict_free m \<Longrightarrow> conflict_free r \<Longrightarrow> all_conflict_free (put_resolution (k, r) m)"
  by (simp add: put_resolution_def all_conflict_free_delete all_conflict_free_update)

text \<open>What a user can do to the resolutions.\<close>

datatype resolution_action = Select "ResolutionSelection list" | Remove "ResolutionRemoval list"

fun resolution_act :: "differences \<Rightarrow> resolution_action \<Rightarrow> ResolutionsMap \<Rightarrow> ResolutionsMap" where
  "resolution_act differences (Select sels) m = applyResolutionSelections m differences sels"
| "resolution_act differences (Remove xs) m = applyResolutionRemovals m xs"

lemma selections_conflict_free:
  "all_conflict_free m \<Longrightarrow> all_conflict_free (fold (\<lambda>sel r. applyResolutionSelection r differences sel) sels m)"
  by (induction sels arbitrary: m)
    (simp_all add: apply_one all_conflict_free_update select_field_conflict_free all_conflict_free_get)

lemma planned_conflict_free:
  "all_conflict_free m \<Longrightarrow> all_conflict_free next \<Longrightarrow> all_conflict_free (fold (remove_planned m) plan next)"
proof (induction plan arbitrary: "next")
  case (Cons p plan)
  have "all_conflict_free (remove_planned m p next)"
    using Cons.prems all_conflict_free_get [of m "fst p"]
    by (cases p)
      (auto simp: remove_planned_def resolution_of_def put_conflict_free remove_fields_conflict_free split: option.splits)
  with Cons show ?case by simp
qed simp

lemma act_conflict_free: "all_conflict_free m \<Longrightarrow> all_conflict_free (resolution_act differences a m)"
  by (cases a) (simp_all add: one_by_one selections_conflict_free applyResolutionRemovals_def
      applyResolutionRemovalPlan_def planned_conflict_free)

interpretation resolutions: invariant_machine "[]" "resolution_act differences" "\<lambda>_. True" all_conflict_free for differences
  by unfold_locales (simp_all add: act_conflict_free, simp add: all_conflict_free_def)

text \<open>C27: whatever batches of selections and removals the user makes, starting with nothing chosen, no model has
  both a fixed price and a ratio among its chosen values.\<close>

theorem resolutions_conflict_free:
  "all_conflict_free (fold (resolution_act differences) actions [])"
  by (rule resolutions.run_inv) (simp add: list_all_iff)

section \<open>The effective selections\<close>

text \<open>The selections kept under their keys.\<close>

definition keyed :: "((string \<times> RatioType) \<times> ResolutionSelection) list \<Rightarrow> bool" where
  "keyed es \<longleftrightarrow> distinct (map fst es) \<and> list_all (\<lambda>(k, s). k = (s_model s, s_ratioType s)) es"

lemma keyed_update: "keyed es \<Longrightarrow> keyed (AList.update (s_model s, s_ratioType s) s es)"
proof -
  have "list_all (\<lambda>(k, s). k = (s_model s, s_ratioType s)) es \<Longrightarrow>
    list_all (\<lambda>(k, s). k = (s_model s, s_ratioType s)) (AList.update (s_model s, s_ratioType s) s es)"
    by (induction es) auto
  then show "keyed es \<Longrightarrow> ?thesis" by (simp add: keyed_def distinct_update)
qed

lemma keyed_filter: "keyed es \<Longrightarrow> keyed (filter P es)"
  by (auto simp: keyed_def list_all_iff distinct_map_filter)

lemma keyed_step: "keyed es \<Longrightarrow> keyed (effective_step differences sel es)"
  by (simp add: effective_step_def Let_def keyed_update keyed_filter)

lemma keyed_fold: "keyed es \<Longrightarrow> keyed (fold (effective_step differences) sels es)"
  by (induction sels arbitrary: es) (simp_all add: keyed_step)

lemma map_of_keep:
  "map_of (keep_category c r) f =
     (if c \<noteq> TieredCategory \<and> getBillingCategory f \<noteq> TieredCategory \<and> getBillingCategory f \<noteq> c then None else map_of r f)"
  by (induction r) (auto simp: keep_category_def)

lemma map_of_set_tiered: "getBillingCategory f \<noteq> TieredCategory \<Longrightarrow> map_of (set_tiered d s r) f = map_of r f"
  by (auto simp: set_tiered_def Let_def update_conv)

lemma map_of_select_field:
  assumes "getBillingCategory f \<noteq> TieredCategory"
  shows "map_of (select_field differences sel r) f =
    (let final = resolveResolutionSelection differences sel; c = getBillingCategory (s_ratioType final)
     in if f = s_ratioType final then Some (s_value final)
        else if c \<noteq> TieredCategory \<and> getBillingCategory f \<noteq> c then None else map_of r f)"
  using assms by (auto simp: select_field_def Let_def map_of_set_tiered update_conv map_of_keep)

lemma keyed_get: "keyed es \<Longrightarrow> map_of es (m, f) = Some s \<Longrightarrow> s_model s = m \<and> s_ratioType s = f"
  by (auto simp: keyed_def list_all_iff dest!: map_of_SomeD)

lemma resolve_model [simp]: "s_model (resolveResolutionSelection differences sel) = s_model sel"
  by (simp add: resolveResolutionSelection_def Let_def)

lemma map_of_effective_step:
  assumes "keyed es" "getBillingCategory f \<noteq> TieredCategory"
  shows "map_of (effective_step differences sel es) (m, f) =
    (let final = resolveResolutionSelection differences sel; c = getBillingCategory (s_ratioType final)
     in if m \<noteq> s_model sel then map_of es (m, f)
        else if f = s_ratioType final then Some final
        else if c \<noteq> TieredCategory \<and> getBillingCategory f \<noteq> c then None else map_of es (m, f))"
proof -
  define final where "final = resolveResolutionSelection differences sel"
  define c where "c = getBillingCategory (s_ratioType final)"
  define kept where "kept = (if c = TieredCategory then es
    else filter (\<lambda>(k, existing). \<not> (s_model existing = s_model final \<and>
      getBillingCategory (s_ratioType existing) \<noteq> TieredCategory \<and>
      getBillingCategory (s_ratioType existing) \<noteq> c)) es)"
  have d: "distinct (map fst es)" using assms by (simp add: keyed_def)
  have "map_of kept (m, f) =
    (if m = s_model final \<and> c \<noteq> TieredCategory \<and> getBillingCategory f \<noteq> c then None else map_of es (m, f))"
  proof (cases "map_of es (m, f)")
    case None
    then show ?thesis by (auto simp: kept_def map_of_filter_keys [OF d])
  next
    case (Some s)
    with keyed_get [OF assms(1) Some] assms(2) show ?thesis by (auto simp: kept_def map_of_filter_keys [OF d])
  qed
  moreover have "effective_step differences sel es = AList.update (s_model final, s_ratioType final) final kept"
    unfolding effective_step_def Let_def final_def kept_def c_def by (rule refl)
  moreover have "s_model final = s_model sel" by (simp add: final_def)
  ultimately show ?thesis by (auto simp: Let_def final_def [symmetric] c_def [symmetric] update_conv)
qed

lemma resolution_of_update: "resolution_of (AList.update m r rs) k = (if k = m then r else resolution_of rs k)"
  by (auto simp: resolution_of_def update_conv)

lemma effective_agrees:
  assumes f: "getBillingCategory f \<noteq> TieredCategory"
  shows "map_of (resolution_of (fold (\<lambda>sel r. applyResolutionSelection r differences sel) sels []) m) f =
    map_option s_value (map_of (fold (effective_step differences) sels []) (m, f))"
proof (induction sels rule: rev_induct)
  case (snoc sel sels)
  have "keyed (fold (effective_step differences) sels [])" by (rule keyed_fold) (simp add: keyed_def)
  from map_of_effective_step [OF this f] snoc show ?case
    by (auto simp: apply_one resolution_of_update map_of_select_field [OF f] Let_def)
qed (simp add: resolution_of_def)

lemma keyed_selection: "keyed es \<Longrightarrow> s \<in> snd ` set es \<longleftrightarrow> map_of es (s_model s, s_ratioType s) = Some s"
  by (force simp: keyed_def list_all_iff map_of_eq_Some_iff)

text \<open>C28: the selections listed as effective are the ones in force: for a field that is a price or a ratio,
  starting with nothing chosen, a model's chosen value is exactly the value of its effective selection.\<close>

theorem effective_selections_in_force:
  assumes "getBillingCategory f \<noteq> TieredCategory"
  shows "map_of (resolution_of (applyResolutionSelections [] differences selections) model) f = Some v \<longleftrightarrow>
    (\<exists>s. s \<in> set (getEffectiveResolutionSelections differences selections) \<and>
       s_model s = model \<and> s_ratioType s = f \<and> s_value s = v)"
proof -
  let ?es = "fold (effective_step differences) selections []"
  have k: "keyed ?es" by (rule keyed_fold) (simp add: keyed_def)
  have "map_of (resolution_of (applyResolutionSelections [] differences selections) model) f = Some v \<longleftrightarrow>
      (\<exists>s. map_of ?es (model, f) = Some s \<and> s_value s = v)"
    using effective_agrees [OF assms, of differences selections model] by (auto simp: one_by_one)
  also have "\<dots> \<longleftrightarrow> (\<exists>s. s \<in> snd ` set ?es \<and> s_model s = model \<and> s_ratioType s = f \<and> s_value s = v)"
    using keyed_selection [OF k] keyed_get [OF k] by metis
  finally show ?thesis by (simp add: getEffectiveResolutionSelections_def)
qed

theorem effective_selections_in_force_witness:
  "let sel = (\<lambda>f v. \<lparr>s_model = ''m'', s_ratioType = f, s_value = JNumber (Fin v), s_sourceName = ''u''\<rparr>)
   in map_of (resolution_of (applyResolutionSelections [] [] [sel ''model_price'' 1, sel ''model_ratio'' 2]) ''m'') ''model_ratio''
        = Some (JNumber (Fin 2)) \<and>
      (\<exists>s. s \<in> set (getEffectiveResolutionSelections [] [sel ''model_price'' 1, sel ''model_ratio'' 2]) \<and>
        s_model s = ''m'' \<and> s_ratioType s = ''model_ratio'' \<and> s_value s = JNumber (Fin 2))"
proof -
  define sel where
    "sel = (\<lambda>f v. \<lparr>s_model = ''m'', s_ratioType = f, s_value = JNumber (Fin v), s_sourceName = ''u''\<rparr>)"
  have c: "getBillingCategory ''model_ratio'' \<noteq> TieredCategory" by (simp add: getBillingCategory_def)
  have v: "map_of (resolution_of (applyResolutionSelections [] [] [sel ''model_price'' 1, sel ''model_ratio'' 2]) ''m'')
      ''model_ratio'' = Some (JNumber (Fin 2))"
    by (simp add: one_by_one apply_one sel_def resolution_of_def select_field_def resolveResolutionSelection_def
        getPreferredSyncField_def upstream_value_def isSelectableUpstreamValue_def diffs_of_def getBillingCategory_def
        keep_category_def Let_def)
  with effective_selections_in_force [OF c, of "[]" "[sel ''model_price'' 1, sel ''model_ratio'' 2]" "''m''"
      "JNumber (Fin 2)"]
  show ?thesis unfolding Let_def sel_def by blast
qed

section \<open>Removing what was selected\<close>

text \<open>Removing a field also removes the other field of the expression billing.\<close>

definition removes :: "RatioType \<Rightarrow> RatioType \<Rightarrow> bool" where
  "removes g f \<longleftrightarrow> f = g \<or> (g = ''billing_expr'' \<and> f = ''billing_mode'') \<or> (g = ''billing_mode'' \<and> f = ''billing_expr'')"

lemma map_of_remove_field: "map_of (remove_field g r) f = (if removes g f then None else map_of r f)"
  by (auto simp: remove_field_def removes_def Let_def delete_conv)

lemma map_of_remove_fields:
  "map_of (fold remove_field gs r) f = (if list_ex (\<lambda>g. removes g f) gs then None else map_of r f)"
  by (induction gs arbitrary: r) (simp_all add: map_of_remove_field)

lemma resolution_of_put: "resolution_of (put_resolution (m, r) rs) k = (if k = m then r else resolution_of rs k)"
  by (auto simp: put_resolution_def resolution_of_def update_conv delete_conv)

lemma resolution_of_planned:
  "distinct (map fst plan) \<Longrightarrow>
     resolution_of (fold (remove_planned rs) plan next) m =
     (case map_of plan m of
        None \<Rightarrow> resolution_of next m
      | Some gs \<Rightarrow> if map_of rs m = None then resolution_of next m else fold remove_field gs (resolution_of rs m))"
proof (induction plan arbitrary: "next")
  case (Cons p plan)
  obtain k gs where p: "p = (k, gs)" by (cases p)
  have "map_of plan k = None" using Cons.prems p by (simp add: map_of_eq_None_iff)
  moreover have "resolution_of (remove_planned rs p next) m =
      (if k = m \<and> map_of rs m \<noteq> None then fold remove_field gs (resolution_of rs m) else resolution_of next m)"
    by (auto simp: p remove_planned_def resolution_of_put resolution_of_def [of rs] split: option.split)
  ultimately show ?case using Cons p by (auto split: option.split)
qed simp

definition planned :: "(string \<times> RatioType list) list \<Rightarrow> string \<Rightarrow> RatioType set" where
  "planned plan m = (case map_of plan m of Some gs \<Rightarrow> set gs | None \<Rightarrow> {})"

lemma planned_step:
  "planned (plan_removal x plan) m = (if m = x_model x then insert (x_ratioType x) (planned plan m) else planned plan m)"
  by (auto simp: planned_def plan_removal_def update_conv split: option.splits)

lemma planned_fold:
  "planned (fold plan_removal xs plan) m = planned plan m \<union> x_ratioType ` {x \<in> set xs. x_model x = m}"
  by (induction xs arbitrary: plan) (auto simp: planned_step)

lemma plan_distinct: "distinct (map fst plan) \<Longrightarrow> distinct (map fst (fold plan_removal xs plan))"
  by (induction xs arbitrary: plan) (simp_all add: plan_removal_def distinct_update split: option.split)

text \<open>A batch of removals takes from each model exactly the fields named for it, with the other field of
  expression billing when one of the two is named, and leaves every other chosen value as it was.\<close>

lemma removals_exact:
  "map_of (resolution_of (applyResolutionRemovals resolutions removals) model) f =
     (if list_ex (\<lambda>x. x_model x = model \<and> removes (x_ratioType x) f) removals then None
      else map_of (resolution_of resolutions model) f)"
proof -
  define plan where "plan = fold plan_removal removals []"
  have d: "distinct (map fst plan)" unfolding plan_def by (rule plan_distinct) simp
  have n: "planned plan model = x_ratioType ` {x \<in> set removals. x_model x = model}"
    unfolding plan_def by (simp add: planned_fold) (simp add: planned_def)
  have "applyResolutionRemovals resolutions removals = fold (remove_planned resolutions) plan resolutions"
    by (simp add: applyResolutionRemovals_def applyResolutionRemovalPlan_def plan_def)
  then have "map_of (resolution_of (applyResolutionRemovals resolutions removals) model) f =
      (if \<exists>g\<in>planned plan model. removes g f then None else map_of (resolution_of resolutions model) f)"
    by (auto simp: resolution_of_planned [OF d] map_of_remove_fields planned_def list_ex_iff resolution_of_def [of resolutions]
        split: option.split)
  then show ?thesis by (auto simp: n list_ex_iff)
qed

end
