(* ===== verification/Model_Mapping.thy ===== *)
theory Model_Mapping
  imports Json Js_Coercion
begin

text \<open>
  The models of a channel and their mapping (\<^verbatim>\<open>web/src/features/channels/lib/model-mapping-validation.ts\<close> and the
  part of the save handler in \<^verbatim>\<open>components/drawers/channel-mutate-drawer.tsx\<close> that uses it): a comma-separated list
  of models, and a JSON object from model names to the names sent upstream.  Saving with the offered addition
  leaves no mapped model missing, unless a name contains a comma.
\<close>

section \<open>Lists of models\<close>

definition parseModelsString :: "string \<Rightarrow> string list" where
  "parseModelsString modelsStr =
     (if modelsStr = [] then [] else filter (\<lambda>m. m \<noteq> []) (map trim (split_on (CHR '','') modelsStr)))"

definition formatModelsArray :: "string list \<Rightarrow> string" where
  "formatModelsArray models = join '','' (uniq models)"

text \<open>\<^verbatim>\<open>JSON.parse\<close> followed by the test for a plain object; \<open>Inl\<close> tells whether the text was JSON at all.\<close>

definition parse_mapping :: "string \<Rightarrow> bool + (string \<times> js_value) list" where
  "parse_mapping s =
     (case json_parse s of None \<Rightarrow> Inl False | Some (JObject fs) \<Rightarrow> Inr fs | Some _ \<Rightarrow> Inl True)"

definition extractMappingSourceModels :: "string \<Rightarrow> string list" where
  "extractMappingSourceModels modelMapping =
     (if trim modelMapping = [] then []
      else case parse_mapping (trim modelMapping) of
        Inl _ \<Rightarrow> []
      | Inr fs \<Rightarrow> uniq (filter (\<lambda>k. k \<noteq> []) (map (\<lambda>(k, v). trim k) fs)))"

definition extractRedirectModels :: "string \<Rightarrow> string list" where
  "extractRedirectModels modelMapping =
     (if trim modelMapping = [] then []
      else case parse_mapping (trim modelMapping) of
        Inl _ \<Rightarrow> []
      | Inr fs \<Rightarrow> uniq (filter (\<lambda>v. v \<noteq> [])
          (List.map_filter (\<lambda>(k, v). case v of JString s \<Rightarrow> Some (trim s) | _ \<Rightarrow> None) fs)))"

definition hasModelConfigChanged :: "string list \<Rightarrow> string \<Rightarrow> string list \<Rightarrow> string \<Rightarrow> bool" where
  "hasModelConfigChanged currentModels currentModelMapping initialModels initialModelMapping =
     (if initialModels = [] \<and> initialModelMapping = [] then True
      else if currentModels \<noteq> initialModels then True
      else trim currentModelMapping \<noteq> trim initialModelMapping)"

definition findMissingModelsInMapping :: "string \<Rightarrow> string list \<Rightarrow> string list" where
  "findMissingModelsInMapping modelMapping currentModels =
     (if trim modelMapping = [] then []
      else case parse_mapping modelMapping of
        Inl _ \<Rightarrow> []
      | Inr fs \<Rightarrow> uniq (filter (\<lambda>k. k \<noteq> [] \<and> k \<notin> set (map trim currentModels)) (map (\<lambda>(k, v). trim k) fs)))"

definition validateModelMappingJson :: "string \<Rightarrow> string option" where
  "validateModelMappingJson modelMapping =
     (if trim modelMapping = [] then None
      else case parse_mapping modelMapping of
        Inl False \<Rightarrow> Some ''Model mapping must be valid JSON format''
      | Inl True \<Rightarrow> Some ''Model mapping must be a valid JSON object''
      | Inr fs \<Rightarrow> if list_ex (\<lambda>(k, v). \<not> is_string v) fs then Some ''Model mapping values must be strings'' else None)"

definition findExposedTargetModels :: "string \<Rightarrow> string list \<Rightarrow> string list" where
  "findExposedTargetModels modelMapping currentModels =
     filter (\<lambda>m. trim m \<in> set (map trim currentModels)) (extractRedirectModels modelMapping)"

definition categorizeModelsWithRedirect ::
  "string list \<Rightarrow> string list \<Rightarrow> string list \<times> string list \<times> string list \<times> string list" where
  "categorizeModelsWithRedirect currentModels redirectModels =
     (let current = uniq (filter (\<lambda>m. m \<noteq> []) (map trim currentModels));
          redirect = uniq (filter (\<lambda>m. m \<noteq> []) (map trim redirectModels))
      in (current, redirect, uniq (current @ redirect), filter (\<lambda>m. m \<notin> set current) redirect))"

section \<open>Saving a channel\<close>

datatype MissingModelsAction = CancelSave | AddMissing | SubmitAnyway

text \<open>From the validation of the mapping to the request: the models that are sent, or \<open>None\<close> when the handler
  returns early.  \<open>confirm\<close> is the user's answer to the question about the missing models.\<close>

definition save_models ::
  "(string list \<Rightarrow> MissingModelsAction) \<Rightarrow> string \<Rightarrow> string \<Rightarrow> string list \<Rightarrow> string \<Rightarrow> string option" where
  "save_models confirm modelsText mapping initialModels initialMapping =
     (if trim mapping = [] then Some modelsText
      else if validateModelMappingJson mapping \<noteq> None then None
      else
        let normalizedModels = parseModelsString modelsText;
            missingModels = findMissingModelsInMapping mapping normalizedModels
        in if missingModels \<noteq> [] \<and> hasModelConfigChanged normalizedModels mapping initialModels initialMapping
           then (case confirm missingModels of
               CancelSave \<Rightarrow> None
             | AddMissing \<Rightarrow> Some (formatModelsArray (uniq (normalizedModels @ missingModels)))
             | SubmitAnyway \<Rightarrow> Some modelsText)
           else Some modelsText)"

section \<open>Round trip\<close>

definition model_name :: "string \<Rightarrow> bool" where
  "model_name m \<longleftrightarrow> m \<noteq> [] \<and> trim m = m \<and> CHR '','' \<notin> set m"

lemma parse_format: "list_all model_name models \<Longrightarrow> parseModelsString (formatModelsArray models) = uniq models"
proof (cases "models = []")
  case False
  assume m: "list_all model_name models"
  then have n: "\<forall>x\<in>set (uniq models). CHR '','' \<notin> set x" "\<forall>x\<in>set (uniq models). x \<noteq> [] \<and> trim x = x"
    by (auto simp: list_all_iff model_name_def)
  have u: "uniq models \<noteq> []" using False by simp
  have s: "split_on (CHR '','') (join '','' (uniq models)) = uniq models"
    using split_on_join [of "uniq models" "CHR '',''"] n(1) u by simp
  have "join '','' (uniq models) \<noteq> []"
    using u n(2) by (cases "uniq models"; cases "tl (uniq models)") auto
  moreover have "filter (\<lambda>x. x \<noteq> []) (map trim (uniq models)) = uniq models"
  proof -
    have "map trim (uniq models) = uniq models" using n(2) by (intro map_idI) simp
    then show ?thesis using n(2) by (auto intro!: filter_True)
  qed
  ultimately show ?thesis by (simp add: parseModelsString_def formatModelsArray_def s)
qed (simp add: formatModelsArray_def parseModelsString_def)

lemma parsed_names: "list_all model_name (parseModelsString s)"
proof -
  have "CHR '','' \<notin> set (trim x)" if "x \<in> set (split_on (CHR '','') s)" for x
    using that split_on_sep_free [of x "CHR '',''" s] set_trim [of x] by auto
  then show ?thesis by (auto simp: parseModelsString_def list_all_iff model_name_def)
qed

lemma missing_names:
  "m \<in> set (findMissingModelsInMapping mapping models) \<Longrightarrow> m \<noteq> [] \<and> trim m = m"
  by (auto simp: findMissingModelsInMapping_def split: if_splits sum.splits)

text \<open>C30: For a changed configuration with a valid, non-blank mapping of which some names are missing from the
  models, none of them containing a comma: if the user chooses to add them, the saved list parses to the entered
  models followed by the missing ones, without repetitions, and then no mapped name is missing.\<close>

theorem added_models_resolve_mapping:
  assumes "trim mapping \<noteq> []" "validateModelMappingJson mapping = None" "confirm missing = AddMissing"
    and "missing = findMissingModelsInMapping mapping (parseModelsString text)" "missing \<noteq> []"
    and "hasModelConfigChanged (parseModelsString text) mapping initialModels initialMapping"
    and "list_all (\<lambda>m. CHR '','' \<notin> set m) missing"
  shows "\<exists>saved. save_models confirm text mapping initialModels initialMapping = Some saved \<and>
    parseModelsString saved = uniq (parseModelsString text @ missing) \<and>
    findMissingModelsInMapping mapping (parseModelsString saved) = []"
proof -
  let ?ms = "parseModelsString text @ missing"
  have "list_all model_name missing"
    using assms(7) missing_names [of _ mapping "parseModelsString text"] assms(4) by (auto simp: list_all_iff model_name_def)
  then have n: "list_all model_name ?ms" by (simp add: parsed_names)
  then have "parseModelsString (formatModelsArray (uniq ?ms)) = uniq ?ms"
    using parse_format [of "uniq ?ms"] by (simp add: list_all_iff)
  moreover have "save_models confirm text mapping initialModels initialMapping = Some (formatModelsArray (uniq ?ms))"
    using assms by (simp add: save_models_def Let_def)
  moreover have "findMissingModelsInMapping mapping (uniq ?ms) = []"
  proof -
    have t: "set (map trim xs) = set xs" if "list_all model_name xs" for xs
      using that by (force simp: list_all_iff model_name_def)
    show ?thesis
    proof (cases "parse_mapping mapping")
      case (Inr fs)
      have "set missing = {k \<in> (\<lambda>(k, v). trim k) ` set fs. k \<noteq> [] \<and> k \<notin> set (parseModelsString text)}"
        using assms(1,4) t [OF parsed_names] by (auto simp: findMissingModelsInMapping_def Inr)
      moreover have "set (map trim (uniq ?ms)) = set ?ms" using t [of "uniq ?ms"] n by (simp add: list_all_iff)
      ultimately show ?thesis by (auto simp: findMissingModelsInMapping_def Inr filter_empty_conv)
    qed (simp add: findMissingModelsInMapping_def)
  qed
  ultimately show ?thesis by simp
qed

text \<open>A small mapping.\<close>

definition sample_mapping :: string where
  "sample_mapping = json_text (JObject [(''gpt'', JString ''gpt-large'')])"

lemma sample_parsed: "parse_mapping sample_mapping = Inr [(''gpt'', JString ''gpt-large'')]"
  unfolding sample_mapping_def parse_mapping_def by (subst json_round_trip) simp_all

lemma sample_nonempty: "trim sample_mapping \<noteq> []"
  by (simp add: sample_mapping_def trim_eq_Nil_iff js_space_def)

lemma sample_missing: "findMissingModelsInMapping sample_mapping (parseModelsString ''claude'') = [''gpt'']"
  by (simp add: findMissingModelsInMapping_def sample_nonempty sample_parsed parseModelsString_def trim_id js_space_def)

theorem added_models_resolve_mapping_witness:
  "\<exists>saved. save_models (\<lambda>_. AddMissing) ''claude'' sample_mapping [] [] = Some saved \<and>
    parseModelsString saved = [''claude'', ''gpt'']"
proof -
  have v: "validateModelMappingJson sample_mapping = None"
    by (simp add: validateModelMappingJson_def sample_parsed is_string_iff)
  have p: "parseModelsString ''claude'' = [''claude'']" by (simp add: parseModelsString_def trim_id js_space_def)
  from added_models_resolve_mapping [OF sample_nonempty v, of "\<lambda>_. AddMissing" "[''gpt'']" "''claude''" "[]" "[]"]
  show ?thesis by (auto simp: sample_missing [unfolded p] p hasModelConfigChanged_def)
qed

text \<open>A mapped name with a comma cannot be added: whatever list is saved, it is missing again.\<close>

lemma comma_name_stays_missing:
  assumes "m \<in> set (findMissingModelsInMapping mapping models)" "CHR '','' \<in> set m"
  shows "m \<in> set (findMissingModelsInMapping mapping (parseModelsString saved))"
proof -
  have "m \<notin> set (map trim (parseModelsString saved))"
    using parsed_names [of saved] assms(2) by (auto simp: list_all_iff model_name_def)
  with assms(1) show ?thesis by (auto simp: findMissingModelsInMapping_def split: if_splits sum.splits)
qed

end
