(* ===== verification/Table_Url.thy ===== *)
theory Table_Url
  imports Json Js_Coercion
begin

text \<open>
  The state of a table in the URL (\<^verbatim>\<open>web/src/hooks/use-table-url-state.ts\<close>): page, page size, global filter and
  column filters are read from the search parameters, and each change navigates to new parameters.  The state is
  the parameters, the local copies of the filters and the remembered page size.  A change of the page is read back
  as it was made; a change of a filter returns to the first page; the page is brought back into range.
\<close>

section \<open>Configuration and state\<close>

type_synonym SearchRecord = "(string \<times> js_value) list"

record column_filter_cfg =
  cf_columnId :: string
  cf_searchKey :: string
  cf_string :: bool \<comment> \<open>\<^verbatim>\<open>type === 'string'\<close>\<close>
  cf_serialize :: "js_value \<Rightarrow> js_value"
  cf_deserialize :: "js_value \<Rightarrow> js_value"

record table_cfg =
  pageKey :: string
  pageSizeKey :: string
  defaultPage :: rat
  defaultPageSize :: rat
  globalFilterKey :: string
  trimGlobal :: bool
  columnFiltersCfg :: "column_filter_cfg list"

type_synonym ColumnFilters = "(string \<times> js_value) list"

record table_state =
  search :: SearchRecord
  columnFilters :: ColumnFilters
  globalFilter :: string
  storedPageSize :: "rat option" \<comment> \<open>the positive number under the storage key\<close>

definition param :: "SearchRecord \<Rightarrow> string \<Rightarrow> js_value" where
  "param s k = (case map_of s k of Some v \<Rightarrow> v | None \<Rightarrow> JUndefined)"

definition js_orelse :: "js_value \<Rightarrow> js_value \<Rightarrow> js_value" where
  "js_orelse v d = (if v = JUndefined \<or> v = JNull then d else v)"

text \<open>A navigation to \<^verbatim>\<open>{...prev, ...patch}\<close>; a parameter set to undefined leaves the URL.  The writing of parameters into
  the URL and the schema by which a route reads them are those of the router and are not modelled.\<close>

definition navigate :: "SearchRecord \<Rightarrow> SearchRecord \<Rightarrow> SearchRecord" where
  "navigate patch prev = fold (\<lambda>(k, v) s. if v = JUndefined then AList.delete k s else AList.update k v s) patch prev"

definition initialColumnFilters :: "table_cfg \<Rightarrow> SearchRecord \<Rightarrow> ColumnFilters" where
  "initialColumnFilters cfg s =
     List.map_filter (\<lambda>f.
       let raw = cf_deserialize f (param s (cf_searchKey f)) in
       if cf_string f then
         (case js_orelse raw (JString []) of JString t \<Rightarrow> if trim t \<noteq> [] then Some (cf_columnId f, JString t) else None | _ \<Rightarrow> None)
       else
         (case js_orelse raw (JArray []) of JArray xs \<Rightarrow> if xs \<noteq> [] then Some (cf_columnId f, JArray xs) else None | _ \<Rightarrow> None))
       (columnFiltersCfg cfg)"

fun rat_value :: "js_value \<Rightarrow> rat option" where
  "rat_value (JNumber (Fin r)) = Some r"
| "rat_value _ = None"

definition page_number :: "table_cfg \<Rightarrow> SearchRecord \<Rightarrow> rat" where
  "page_number cfg s = (case rat_value (param s (pageKey cfg)) of Some r \<Rightarrow> r | None \<Rightarrow> defaultPage cfg)"

definition pagination :: "table_cfg \<Rightarrow> table_state \<Rightarrow> rat \<times> rat" where
  "pagination cfg st =
     (max 0 (page_number cfg (search st) - 1),
      case rat_value (param (search st) (pageSizeKey cfg)) of
        Some r \<Rightarrow> r
      | None \<Rightarrow> (case storedPageSize st of Some r \<Rightarrow> r | None \<Rightarrow> defaultPageSize cfg))"

section \<open>Changes\<close>

text \<open>When the URL changes, the effect on \<^verbatim>\<open>search\<close> sets the column filters from it.\<close>

definition with_search :: "table_cfg \<Rightarrow> SearchRecord \<Rightarrow> table_state \<Rightarrow> table_state" where
  "with_search cfg s st = st\<lparr>search := s, columnFilters := initialColumnFilters cfg s\<rparr>"

definition onPaginationChange :: "table_cfg \<Rightarrow> rat \<times> rat \<Rightarrow> table_state \<Rightarrow> table_state" where
  "onPaginationChange cfg = (\<lambda>(pageIndex, pageSize) st.
     let nextPage = pageIndex + 1;
         st1 = (if pageSize \<noteq> snd (pagination cfg st)
                then st\<lparr>storedPageSize := (if pageSize > 0 then Some pageSize else None)\<rparr> else st)
     in with_search cfg (navigate
          [(pageKey cfg, if nextPage \<le> defaultPage cfg then JUndefined else JNumber (Fin nextPage)),
           (pageSizeKey cfg, JNumber (Fin pageSize))] (search st)) st1)"

definition onGlobalFilterChange :: "table_cfg \<Rightarrow> string \<Rightarrow> table_state \<Rightarrow> table_state" where
  "onGlobalFilterChange cfg v st =
     (let t = (if trimGlobal cfg then trim v else v) in
      (with_search cfg (navigate [(pageKey cfg, JUndefined), (globalFilterKey cfg, if t = [] then JUndefined else JString t)]
         (search st)) st)\<lparr>globalFilter := t\<rparr>)"

definition patch_value :: "ColumnFilters \<Rightarrow> column_filter_cfg \<Rightarrow> js_value" where
  "patch_value filters f =
     (let v = param filters (cf_columnId f) in
      if cf_string f then (case v of JString t \<Rightarrow> if trim t \<noteq> [] then cf_serialize f (JString t) else JUndefined | _ \<Rightarrow> JUndefined)
      else (case v of JArray xs \<Rightarrow> if xs \<noteq> [] then cf_serialize f (JArray xs) else JUndefined | _ \<Rightarrow> JUndefined))"

definition filter_patch :: "table_cfg \<Rightarrow> ColumnFilters \<Rightarrow> SearchRecord" where
  "filter_patch cfg filters = map (\<lambda>f. (cf_searchKey f, patch_value filters f)) (columnFiltersCfg cfg)"

definition onColumnFiltersChange :: "table_cfg \<Rightarrow> ColumnFilters \<Rightarrow> table_state \<Rightarrow> table_state" where
  "onColumnFiltersChange cfg filters st =
     with_search cfg (navigate ((pageKey cfg, JUndefined) # filter_patch cfg filters) (search st)) st"

definition ensurePageInRange :: "table_cfg \<Rightarrow> bool \<Rightarrow> rat \<Rightarrow> table_state \<Rightarrow> table_state" where
  "ensurePageInRange cfg to_last pageCount st =
     (if pageCount > 0 \<and> page_number cfg (search st) > pageCount
      then with_search cfg (navigate [(pageKey cfg, if to_last then JNumber (Fin pageCount) else JUndefined)] (search st)) st
      else st)"

section \<open>What is read back\<close>

text \<open>The configurations of the tables: numbering starts at one, and no two parameters share a key.\<close>

definition cfg_ok :: "table_cfg \<Rightarrow> bool" where
  "cfg_ok cfg \<longleftrightarrow> defaultPage cfg = 1 \<and>
     distinct ([pageKey cfg, pageSizeKey cfg, globalFilterKey cfg] @ map cf_searchKey (columnFiltersCfg cfg)) \<and>
     distinct (map cf_columnId (columnFiltersCfg cfg))"

lemma param_navigate:
  "distinct (map fst patch) \<Longrightarrow>
     param (navigate patch s) k = (case map_of patch k of Some v \<Rightarrow> v | None \<Rightarrow> param s k)"
  unfolding navigate_def
proof (induction patch arbitrary: s)
  case (Cons p patch)
  obtain a v where p: "p = (a, v)" by (cases p)
  have "map_of patch a = None" using Cons.prems p by (simp add: map_of_eq_None_iff)
  with Cons p show ?case by (auto simp: param_def update_conv delete_conv split: option.split)
qed simp

lemma page_change:
  assumes "cfg_ok cfg" "pageIndex \<ge> 0"
  shows "pagination cfg (onPaginationChange cfg (pageIndex, pageSize) st) = (pageIndex, pageSize)"
proof -
  have "distinct [pageKey cfg, pageSizeKey cfg]" "defaultPage cfg = 1" using assms(1) by (auto simp: cfg_ok_def)
  then show ?thesis
    using assms(2) by (auto simp: pagination_def page_number_def onPaginationChange_def with_search_def param_navigate Let_def)
qed

text \<open>A filter that is read back as it was written.\<close>

definition codec_ok :: "column_filter_cfg \<Rightarrow> bool" where
  "codec_ok f \<longleftrightarrow> (\<forall>v. v \<noteq> JUndefined \<longrightarrow> cf_deserialize f (cf_serialize f v) = v) \<and> cf_deserialize f JUndefined = JUndefined"

definition column_filters_ok :: "table_cfg \<Rightarrow> ColumnFilters \<Rightarrow> bool" where
  "column_filters_ok cfg filters \<longleftrightarrow> list_all (\<lambda>f. case param filters (cf_columnId f) of
      JUndefined \<Rightarrow> True
    | JString t \<Rightarrow> cf_string f \<and> trim t \<noteq> []
    | JArray xs \<Rightarrow> \<not> cf_string f \<and> xs \<noteq> []
    | _ \<Rightarrow> False) (columnFiltersCfg cfg)"

lemma map_filter_cong: "(\<And>x. x \<in> set xs \<Longrightarrow> f x = g x) \<Longrightarrow> List.map_filter f xs = List.map_filter g xs"
  by (induction xs) (auto simp: List.map_filter_simps split: option.split)

lemma map_of_keyed:
  "distinct (map g xs) \<Longrightarrow> x \<in> set xs \<Longrightarrow> map_of (map (\<lambda>x. (g x, h x)) xs) (g x) = Some (h x)"
  by (induction xs) (auto simp: image_iff)

lemma patch_keys: "map fst (filter_patch cfg filters) = map cf_searchKey (columnFiltersCfg cfg)"
  by (simp add: filter_patch_def comp_def)

definition shown_filters :: "table_cfg \<Rightarrow> ColumnFilters \<Rightarrow> ColumnFilters" where
  "shown_filters cfg filters = List.map_filter (\<lambda>f. case param filters (cf_columnId f) of
     JUndefined \<Rightarrow> None | v \<Rightarrow> Some (cf_columnId f, v)) (columnFiltersCfg cfg)"

lemma filter_read_back:
  assumes "cfg_ok cfg" "list_all codec_ok (columnFiltersCfg cfg)" "column_filters_ok cfg filters" "f \<in> set (columnFiltersCfg cfg)"
  shows "cf_deserialize f (param (navigate ((pageKey cfg, JUndefined) # filter_patch cfg filters) s) (cf_searchKey f)) =
    param filters (cf_columnId f)"
proof -
  let ?v = "param filters (cf_columnId f)"
  have d: "distinct (map cf_searchKey (columnFiltersCfg cfg))" "pageKey cfg \<notin> set (map cf_searchKey (columnFiltersCfg cfg))"
    using assms(1) by (auto simp: cfg_ok_def)
  then have "cf_searchKey f \<noteq> pageKey cfg" using assms(4) by (metis image_eqI set_map)
  with d have "param (navigate ((pageKey cfg, JUndefined) # filter_patch cfg filters) s) (cf_searchKey f) =
      (case map_of (filter_patch cfg filters) (cf_searchKey f) of Some v \<Rightarrow> v | None \<Rightarrow> param s (cf_searchKey f))"
    using assms(4) by (subst param_navigate) (auto simp: patch_keys split: option.split)
  also have "map_of (filter_patch cfg filters) (cf_searchKey f) =
      Some (if ?v = JUndefined then JUndefined else cf_serialize f ?v)"
  proof -
    have "patch_value filters f = (if ?v = JUndefined then JUndefined else cf_serialize f ?v)"
      using assms(3,4) by (auto simp: patch_value_def column_filters_ok_def list_all_iff Let_def split: js_value.splits)
    with map_of_keyed [OF d(1) assms(4), of "patch_value filters"] show ?thesis by (simp add: filter_patch_def)
  qed
  finally show ?thesis using assms(2,4) by (auto simp: list_all_iff codec_ok_def)
qed

lemma initial_after_change:
  assumes "cfg_ok cfg" "list_all codec_ok (columnFiltersCfg cfg)" "column_filters_ok cfg filters"
  shows "initialColumnFilters cfg (navigate ((pageKey cfg, JUndefined) # filter_patch cfg filters) s) = shown_filters cfg filters"
  unfolding initialColumnFilters_def shown_filters_def
proof (rule map_filter_cong)
  fix f assume f: "f \<in> set (columnFiltersCfg cfg)"
  then have "case param filters (cf_columnId f) of JUndefined \<Rightarrow> True | JString t \<Rightarrow> cf_string f \<and> trim t \<noteq> []
      | JArray xs \<Rightarrow> \<not> cf_string f \<and> xs \<noteq> [] | _ \<Rightarrow> False"
    using assms(3) by (auto simp: column_filters_ok_def list_all_iff)
  then show "(let raw = cf_deserialize f (param (navigate ((pageKey cfg, JUndefined) # filter_patch cfg filters) s) (cf_searchKey f)) in
       if cf_string f then
         (case js_orelse raw (JString []) of JString t \<Rightarrow> if trim t \<noteq> [] then Some (cf_columnId f, JString t) else None | _ \<Rightarrow> None)
       else
         (case js_orelse raw (JArray []) of JArray xs \<Rightarrow> if xs \<noteq> [] then Some (cf_columnId f, JArray xs) else None | _ \<Rightarrow> None)) =
    (case param filters (cf_columnId f) of JUndefined \<Rightarrow> None | v \<Rightarrow> Some (cf_columnId f, v))"
    unfolding filter_read_back [OF assms f] by (auto simp: Let_def js_orelse_def split: js_value.splits)
qed

text \<open>Where the functions that write and read each filter are inverse to each other, filters chosen in a table are read
  back from the parameters as they were chosen; choosing them returns to the first page and keeps the page size.\<close>

lemma column_filters_read_back:
  assumes "cfg_ok cfg" "list_all codec_ok (columnFiltersCfg cfg)" "column_filters_ok cfg filters"
  shows "let st' = onColumnFiltersChange cfg filters st in
    columnFilters st' = shown_filters cfg filters \<and> pagination cfg st' = (0, snd (pagination cfg st))"
proof -
  let ?p = "(pageKey cfg, JUndefined) # filter_patch cfg filters"
  have d: "distinct (map fst ?p)" using assms(1) by (auto simp: cfg_ok_def patch_keys)
  have "map_of (filter_patch cfg filters) (pageSizeKey cfg) = None" "pageSizeKey cfg \<noteq> pageKey cfg" "defaultPage cfg = 1"
    using assms(1) by (auto simp: cfg_ok_def map_of_eq_None_iff filter_patch_def)
  then have "pagination cfg (onColumnFiltersChange cfg filters st) = (0, snd (pagination cfg st))"
    by (simp add: onColumnFiltersChange_def with_search_def pagination_def page_number_def param_navigate [OF d]
        split: option.split)
  then show ?thesis
    using initial_after_change [OF assms] by (simp add: Let_def onColumnFiltersChange_def with_search_def)
qed

definition sample_cfg :: table_cfg where
  "sample_cfg =
     \<lparr>pageKey = ''page'', pageSizeKey = ''pageSize'', defaultPage = 1, defaultPageSize = 20, globalFilterKey = ''filter'',
      trimGlobal = True,
      columnFiltersCfg =
        [\<lparr>cf_columnId = ''status'', cf_searchKey = ''status'', cf_string = False, cf_serialize = id, cf_deserialize = id\<rparr>,
         \<lparr>cf_columnId = ''model_name'', cf_searchKey = ''model'', cf_string = True, cf_serialize = id, cf_deserialize = id\<rparr>]\<rparr>"

lemma column_filters_read_back_witness:
  "let st = \<lparr>search = [(''page'', JNumber (Fin 4))], columnFilters = [], globalFilter = [], storedPageSize = Some 50\<rparr>;
       st' = onColumnFiltersChange sample_cfg [(''model_name'', JString ''gpt'')] st
   in pagination sample_cfg st = (3, 50) \<and> columnFilters st' = [(''model_name'', JString ''gpt'')] \<and>
      pagination sample_cfg st' = (0, 50)"
proof -
  let ?st = "\<lparr>search = [(''page'', JNumber (Fin 4))], columnFilters = [], globalFilter = [], storedPageSize = Some 50\<rparr>"
  have c: "cfg_ok sample_cfg" "list_all codec_ok (columnFiltersCfg sample_cfg)"
    by (simp_all add: cfg_ok_def sample_cfg_def codec_ok_def)
  have f: "column_filters_ok sample_cfg [(''model_name'', JString ''gpt'')]"
    by (simp add: column_filters_ok_def sample_cfg_def param_def trim_eq_Nil_iff js_space_def)
  have p: "pagination sample_cfg ?st = (3, 50)" by (simp add: pagination_def page_number_def sample_cfg_def param_def)
  have "shown_filters sample_cfg [(''model_name'', JString ''gpt'')] = [(''model_name'', JString ''gpt'')]"
    by (simp add: shown_filters_def sample_cfg_def param_def List.map_filter_simps)
  with column_filters_read_back [OF c f, of ?st] p show ?thesis by (simp add: Let_def)
qed

text \<open>The page is in range after the correction.\<close>

lemma page_in_range:
  assumes "cfg_ok cfg" "pageCount \<ge> 1"
  shows "fst (pagination cfg (ensurePageInRange cfg to_last pageCount st)) < pageCount"
  using assms
  by (auto simp: ensurePageInRange_def pagination_def page_number_def with_search_def param_navigate cfg_ok_def)

end
