(* ===== verification/Spec2Isabelle.thy ===== *)
theory Spec2Isabelle
  imports Param_Editor Channel_Utils Channel_Form Http_Client Refresh_Flight Playground Status_Code_Rules Flow_Graph Charts Request_Rules Pricing Ratio_Sync Advanced_Custom Model_Mapping Table_Url
begin

text \<open>
  A verification library for OmniGate, a gateway for language models with a Go server and a browser client.
  The library models the client's decision-making code under \<^verbatim>\<open>src/web/src\<close>: what the page keeps in memory and
  in local storage, what it sends to the server, and what it computes from the answers.

  \<^bold>\<open>The parts and how they interact.\<close>  The authentication store holds the session; the session module refreshes
  it, one refresh at a time over all tabs; the HTTP client retries a call once after a refresh.  The playground
  sends a conversation through a stream controller, builds the answer message from the stream and keeps the
  conversation in local storage.  The dashboard turns usage rows into a flow graph and into charts.  The
  pricing pages read and write billing expressions and list the models; the channel pages show channels and their
  tags, and check the form of a channel with its routes, model mapping and parameter overrides before it is sent.  Small modules format amounts and read lists of
  status codes.

  \<^bold>\<open>Foundations.\<close>
  \<^item> \<open>Prelude\<close>: JavaScript values (\<open>js_value\<close>, \<open>js_number\<close>), strings, insertion-ordered maps as association lists.
  \<^item> \<open>Js_Coercion\<close>: \<^verbatim>\<open>Number\<close>, \<^verbatim>\<open>String\<close>, \<^verbatim>\<open>toFixed\<close> and the stable \<^verbatim>\<open>Array.prototype.sort\<close>.
  \<^item> \<open>Json\<close>, \<open>Json_Indent\<close>: \<^verbatim>\<open>JSON.stringify\<close>, compact and indented, and \<^verbatim>\<open>JSON.parse\<close>, with their round trips.
  \<^item> \<open>Interfaces\<close>: the contracts as locales (\<open>invariant_machine\<close>, \<open>generation_guard\<close> and its extension
    \<open>generation_machine\<close>, \<open>accumulator\<close>, \<open>normaliser\<close>), each interpreted on definitions of the components below.

  \<^bold>\<open>Session.\<close>
  \<^item> \<open>Auth_Store\<close>: \<^verbatim>\<open>stores/auth-store.ts\<close>, \<^verbatim>\<open>lib/auth-session-sync.ts\<close>, \<^verbatim>\<open>lib/admin-permissions.ts\<close>, \<^verbatim>\<open>lib/roles.ts\<close>.
    The permission matrix is complete; a session event reaches exactly the other tabs.
  \<^item> \<open>Auth_Session\<close>: \<^verbatim>\<open>lib/auth-session.ts\<close>.  A refresh is a step machine over server answers and timers; it ends
    after at most eight requests, a superseded refresh changes nothing, token, expiry and session come and go
    together.
  \<^item> \<open>Refresh_Flight\<close>: the promise shared by concurrent refreshes and the browser lock.  At most one refresh is
    in flight, and the promises settle once each, in order.
  \<^item> \<open>Http_Client\<close>: \<^verbatim>\<open>lib/http-client.ts\<close>, \<^verbatim>\<open>lib/server-error-message.ts\<close>.  A call is sent at most twice; in every
    interleaving of GET calls and completions a shared promise stays within one session, whose identifier has no
    colon.

  \<^bold>\<open>Playground\<close> (\<^verbatim>\<open>features/playground\<close>).
  \<^item> \<open>Chat_Message\<close>, \<open>Chat_Streaming\<close>: messages, versions, reasoning blocks, and the answer built from a stream or
    a whole response.  The text of an answer is the text the server sent, except where a repeated delta is taken
    for a cumulative chunk.
  \<^item> \<open>Stream_Controller\<close>: \<^verbatim>\<open>use-stream-request.ts\<close>.  One terminal callback per request, no event source left open,
    nothing from a replaced request; a request whose source sends the final marker ends.
  \<^item> \<open>Chat_Handler\<close>: \<^verbatim>\<open>use-chat-handler.ts\<close>, with the batching of updates by a timer.  The answer does not depend on
    the batching when no chunk repeats a prefix.
  \<^item> \<open>Chat_Storage\<close>, \<open>Playground\<close>: local storage with its schema and limits, settings, options and the
    conversation hooks.  Settings survive a reload, and so do finished conversations within the limits whose texts
    have no repeated sections to collapse; leaving the page saves what is shown.

  \<^bold>\<open>Dashboard\<close> (\<^verbatim>\<open>features/dashboard/lib\<close>).
  \<^item> \<open>Flow\<close>, \<open>Flow_Graph\<close>: \<^verbatim>\<open>flow.ts\<close>.  Every visible stage carries the whole total, shares add up to one, masking
    hides every sensitive name.
  \<^item> \<open>Charts\<close>: \<^verbatim>\<open>charts.ts\<close>.  Totals, rankings and series add up to the usage; the padded axis drops usage before
    its first label.

  \<^bold>\<open>Pricing\<close> (\<^verbatim>\<open>features/pricing/lib\<close>).
  \<^item> \<open>Billing_Expr\<close>: \<^verbatim>\<open>billing-expr.ts\<close>, with its regular expressions as matchers.
  \<^item> \<open>Request_Rules\<close>: rules with plain texts are read back as written, except parameter tests written behind a guard;
    a base expression and its rules are separated again.  Plain texts have no white space, quotes, backslashes,
    parentheses or bars; the predicate is \<open>rule_ok\<close>.
  \<^item> \<open>Tier_Expr\<close>: \<^verbatim>\<open>tier-expr.ts\<close>.  The expression written from entered tiers is shown as these tiers; the
    last of several is the fallback and is shown without conditions.
  \<^item> \<open>Pricing\<close>: \<^verbatim>\<open>model-helpers.ts\<close>, \<^verbatim>\<open>price.ts\<close>, \<^verbatim>\<open>filters.ts\<close>, \<^verbatim>\<open>dynamic-price.ts\<close> and the hooks of the catalogue.
    An offered tag leads to a model; entered tiers with labels free of parentheses and plain rules are the ones the
    catalogue summarises.
  \<^item> \<open>Ratio_Sync\<close>: \<^verbatim>\<open>features/system-settings/models/upstream-ratio-sync-helpers.ts\<close>.  A batch of price selections is
    the selections one by one; no model gets both a price and ratios; removals take what they name.

  \<^bold>\<open>Channels\<close> (\<^verbatim>\<open>features/channels\<close>).
  \<^item> \<open>Advanced_Custom\<close>: \<^verbatim>\<open>lib/advanced-custom.ts\<close>.  The validation of custom routes accepts exactly the unambiguous
    configurations, every template and every suggested route among them.
  \<^item> \<open>Model_Mapping\<close>: \<^verbatim>\<open>lib/model-mapping-validation.ts\<close> and its use in the save handler.  Saving with the offered
    addition leaves no mapped model missing, except names with a comma.
  \<^item> \<open>Param_Override\<close>, \<open>Param_Editor\<close>: \<^verbatim>\<open>components/dialogs/param-override-editor-dialog.tsx\<close>, its functions and the
    dialog as a state machine.  The dialog always shows a valid selection; a saved rule has all its mode needs;
    opening a saved text and saving it again changes nothing, unless a value spells a quoted string; edits of
    pruning rules and blanks typed into a message are lost.
  \<^item> \<open>Channel_Utils\<close>: \<^verbatim>\<open>lib/channel-utils.ts\<close>, \<^verbatim>\<open>lib/channel-field-update.ts\<close>, \<^verbatim>\<open>constants.ts\<close>.  The row of a tag sums up
    its channels, where no priority or weight is -1; the last number typed into a cell is the last one sent.
  \<^item> \<open>Channel_Form\<close>: \<^verbatim>\<open>lib/channel-form.ts\<close>, \<^verbatim>\<open>hooks/use-channel-mutate-form.ts\<close> and the stored routes of
    \<^verbatim>\<open>lib/advanced-custom.ts\<close>.  An accepted form can be sent, its settings are those of its type, sensitive members
    are withheld without the permission, and saving a channel again without an edit sends the same members.

  \<^bold>\<open>Small modules.\<close>
  \<^item> \<open>Table_Url\<close>: \<^verbatim>\<open>hooks/use-table-url-state.ts\<close>.  Pages chosen in a table are read back, filters where their
    functions for writing and reading are inverse; the router is not modelled.
  \<^item> \<open>Currency\<close>: \<^verbatim>\<open>lib/currency.ts\<close>, \<^verbatim>\<open>lib/format.ts\<close>.  Shown amounts that are not zero stay visible; colours are valid.
  \<^item> \<open>Status_Code_Rules\<close>: \<^verbatim>\<open>lib/http-status-code-rules.ts\<close>.  Accepted rules have a normal form that reads back.

  \<^bold>\<open>Conventions.\<close>  A React hook is a record of its refs and state with one function per callback; an await
  splits a function into the part before it and the ways it goes on.  Errors are values.  What the code does
  not own is an argument: the clock, identifiers, translations, collation, the date library, number formats,
  the URL parser, and schema validation, which is assumed to accept every value that conforms to the schema.  Numbers are exact
  rationals with NaN and the infinities: the rounding of doubles is not modelled, and sums of amounts take an
  infinite amount as zero.  Strings hold code units below
  256, except in \<open>Status_Code_Rules\<close>, where they are lists of code units.

  \<^bold>\<open>Bounds.\<close>  The parser of JSON and the search for the decimal digits of a number take fuel: the length of the
  text, which its nesting cannot exceed, and 400 places, which covers every double.  The scan for the matches of
  a pattern takes the length of the text and one more, since each step drops a character.  All other functions
  terminate by structure or by a proved measure; there is no other fuel.

  \<^bold>\<open>Not modelled.\<close>  The Go server (\<^verbatim>\<open>src/controller\<close>, \<^verbatim>\<open>src/relay\<close>, \<^verbatim>\<open>src/service\<close>, \<^verbatim>\<open>src/model\<close> and the other Go
  packages), whose behaviour is database, network and provider protocols and reaches the client as arbitrary
  responses.  The markup of React components (\<^verbatim>\<open>.tsx\<close>), which is layout around the functions and handlers.  Request wrappers
  (\<^verbatim>\<open>api.ts\<close>), which only name an endpoint.  Translations, documentation pages, the generated route tree, the
  desktop shell (\<^verbatim>\<open>src/electron\<close>) and build scripts.
\<close>

end
